(* ===== verification/Prelude.thy ===== *)
theory Prelude
  imports Main "HOL-Library.Word" "HOL-Library.Monad_Syntax"
begin

text \<open>
  Shared vocabulary of the development: the machine integer types, Rust's \<open>Result\<close> as a sum,
  Rust's panicking slice operations as options (\<^term>\<open>None\<close> is a panic), big-endian byte
  encodings, and the collections of rewrite rules the component theories share.
\<close>

unbundle bit_operations_syntax

section \<open>Types\<close>

type_synonym u8 = "8 word"
type_synonym u16 = "16 word"
type_synonym u32 = "32 word"
type_synonym u64 = "64 word"
type_synonym bytes = "u8 list"

text \<open>Durations and instants are counted in nanoseconds.\<close>

type_synonym duration = nat
type_synonym instant = nat

named_theorems wire_simps "reading a field of a packet that was written with slice operations"
named_theorems field_reads "reading a byte or a byte range of a buffer that was patched elsewhere"
named_theorems panic_simps "slice operations whose bounds hold do not panic"

section \<open>Results\<close>

text \<open>The \<open>?\<close> operator on \<open>Result<T, E>\<close>: return the error, or go on with the value.\<close>

definition and_then :: "'e + 'a \<Rightarrow> ('a \<Rightarrow> 'e + 'b) \<Rightarrow> 'e + 'b" where
  "and_then r k = (case r of Inl e \<Rightarrow> Inl e | Inr x \<Rightarrow> k x)"

lemma and_then_simps [simp]:
  "and_then (Inl e) k = Inl e"
  "and_then (Inr x) k = k x"
  by (simp_all add: and_then_def)

lemma and_then_eq_Inr:
  "and_then r k = Inr y \<longleftrightarrow> (\<exists>x. r = Inr x \<and> k x = Inr y)"
  by (cases r) auto

lemma and_then_eq_Inl:
  "and_then r k = Inl e \<longleftrightarrow> r = Inl e \<or> (\<exists>x. r = Inr x \<and> k x = Inl e)"
  by (cases r) auto

lemma and_then_cong [fundef_cong]:
  "r = r' \<Longrightarrow> (\<And>x. r' = Inr x \<Longrightarrow> k x = k' x) \<Longrightarrow> and_then r k = and_then r' k'"
  by (cases r') auto

definition ok_or :: "'e \<Rightarrow> 'a option \<Rightarrow> 'e + 'a" where
  "ok_or e x = (case x of None \<Rightarrow> Inl e | Some y \<Rightarrow> Inr y)"

lemma ok_or_simps [simp]:
  "ok_or e None = Inl e"
  "ok_or e (Some x) = Inr x"
  by (simp_all add: ok_or_def)

lemma ok_or_eq_Inr [simp]: "ok_or e x = Inr y \<longleftrightarrow> x = Some y"
  by (cases x) auto

definition is_ok :: "'e + 'a \<Rightarrow> bool" where
  "is_ok r = (case r of Inl _ \<Rightarrow> False | Inr _ \<Rightarrow> True)"

lemma is_ok_simps [simp]: "\<not> is_ok (Inl e)" "is_ok (Inr x)"
  by (simp_all add: is_ok_def)

lemma is_ok_iff: "is_ok r \<longleftrightarrow> (\<exists>x. r = Inr x)"
  by (cases r) auto

section \<open>Fallible operations on a state\<close>

text \<open>
  A method that takes \<open>&mut self\<close> (or a shared object with interior state) and returns a
  \<open>Result\<close>: the state it leaves is returned on the error path too. \<open>op_bind\<close> is \<open>?\<close> followed
  by the rest of the body.
\<close>

type_synonym ('s, 'e, 'a) op = "'s \<Rightarrow> ('e + 'a) \<times> 's"

definition op_return :: "'a \<Rightarrow> ('s, 'e, 'a) op" where
  "op_return x s = (Inr x, s)"

definition op_fail :: "'e \<Rightarrow> ('s, 'e, 'a) op" where
  "op_fail e s = (Inl e, s)"

definition op_bind :: "('s, 'e, 'a) op \<Rightarrow> ('a \<Rightarrow> ('s, 'e, 'b) op) \<Rightarrow> ('s, 'e, 'b) op" where
  "op_bind m k s = (case m s of (Inl e, s') \<Rightarrow> (Inl e, s') | (Inr x, s') \<Rightarrow> k x s')"

named_theorems op_simps \<open>evaluation of the operation combinators\<close>

lemmas [op_simps] = op_return_def op_fail_def op_bind_def

definition preserves :: "('s \<Rightarrow> bool) \<Rightarrow> ('s, 'e, 'a) op \<Rightarrow> bool" where
  "preserves I m \<longleftrightarrow> (\<forall>s. I s \<longrightarrow> I (snd (m s)))"

lemma preserves_return [intro]: "preserves I (op_return x)"
  by (simp add: preserves_def op_return_def)

lemma preserves_fail [intro]: "preserves I (op_fail e)"
  by (simp add: preserves_def op_fail_def)

lemma preserves_bind [intro]:
  "preserves I m \<Longrightarrow> (\<And>x. preserves I (k x)) \<Longrightarrow> preserves I (op_bind m k)"
  by (fastforce simp: preserves_def op_bind_def split: prod.splits sum.splits)

lemma preserves_if [intro]:
  "(b \<Longrightarrow> preserves I m) \<Longrightarrow> (\<not> b \<Longrightarrow> preserves I n) \<Longrightarrow> preserves I (if b then m else n)"
  by simp

lemma preservesD: "preserves I m \<Longrightarrow> m s = (r, s') \<Longrightarrow> I s \<Longrightarrow> I s'"
  by (fastforce simp: preserves_def)

lemma op_bind_eq_Inr:
  "op_bind m k s = (Inr y, s'') \<longleftrightarrow> (\<exists>x s'. m s = (Inr x, s') \<and> k x s' = (Inr y, s''))"
  by (auto simp: op_bind_def split: prod.splits sum.splits)

section \<open>Integer helpers of the Rust standard library\<close>

definition clamp_nat :: "nat \<Rightarrow> nat \<Rightarrow> nat \<Rightarrow> nat" where
  "clamp_nat lo hi x = (if x < lo then lo else if hi < x then hi else x)"

lemma clamp_nat_bounds: "lo \<le> hi \<Longrightarrow> lo \<le> clamp_nat lo hi x \<and> clamp_nat lo hi x \<le> hi"
  by (simp add: clamp_nat_def)

definition checked_sub :: "nat \<Rightarrow> nat \<Rightarrow> nat option" where
  "checked_sub a b = (if b \<le> a then Some (a - b) else None)"

definition usize_max :: nat where
  "usize_max = 2 ^ 64 - 1"

definition u64_max :: nat where
  "u64_max = 2 ^ 64 - 1"

definition u16_max :: nat where
  "u16_max = 2 ^ 16 - 1"

definition usize_saturating_mul :: "nat \<Rightarrow> nat \<Rightarrow> nat" where
  "usize_saturating_mul a b = min (a * b) usize_max"

section \<open>Slices: an index or a range out of bounds is a panic\<close>

definition index_at :: "'a list \<Rightarrow> nat \<Rightarrow> 'a option" where
  "index_at xs i = (if i < length xs then Some (xs ! i) else None)"

definition store_at :: "nat \<Rightarrow> 'a \<Rightarrow> 'a list \<Rightarrow> 'a list option" where
  "store_at i x xs = (if i < length xs then Some (xs[i := x]) else None)"

text \<open>\<open>&xs[s..e]\<close>\<close>

definition slice :: "nat \<Rightarrow> nat \<Rightarrow> 'a list \<Rightarrow> 'a list option" where
  "slice s e xs = (if s \<le> e \<and> e \<le> length xs then Some (take (e - s) (drop s xs)) else None)"

text \<open>\<open>xs[s..e].copy_from_slice(src)\<close>\<close>

definition copy_into :: "nat \<Rightarrow> nat \<Rightarrow> 'a list \<Rightarrow> 'a list \<Rightarrow> 'a list option" where
  "copy_into s e src xs =
     (if s \<le> e \<and> e \<le> length xs \<and> length src = e - s
      then Some (take s xs @ src @ drop e xs) else None)"

lemma index_at_in [panic_simps]: "i < length xs \<Longrightarrow> index_at xs i = Some (xs ! i)"
  by (simp add: index_at_def)

lemma store_at_in [panic_simps]: "i < length xs \<Longrightarrow> store_at i x xs = Some (xs[i := x])"
  by (simp add: store_at_def)

lemma slice_in [panic_simps]:
  "s \<le> e \<Longrightarrow> e \<le> length xs \<Longrightarrow> slice s e xs = Some (take (e - s) (drop s xs))"
  by (simp add: slice_def)

text \<open>A copy is the list whose range holds the source; its fields are read by \<open>nth\<close>.\<close>

definition patch :: "nat \<Rightarrow> 'a list \<Rightarrow> 'a list \<Rightarrow> 'a list" where
  "patch s src xs = take s xs @ src @ drop (s + length src) xs"

lemma copy_into_in [panic_simps]:
  "s \<le> e \<Longrightarrow> e \<le> length xs \<Longrightarrow> length src = e - s \<Longrightarrow> copy_into s e src xs = Some (patch s src xs)"
  by (simp add: copy_into_def patch_def)

lemma length_patch [simp]: "s + length src \<le> length xs \<Longrightarrow> length (patch s src xs) = length xs"
  by (simp add: patch_def)

lemma nth_patch [field_reads]:
  "s + length src \<le> length xs \<Longrightarrow> i < length xs \<Longrightarrow>
   patch s src xs ! i = (if s \<le> i \<and> i < s + length src then src ! (i - s) else xs ! i)"
  by (cases "i < s") (auto simp: patch_def nth_append)

lemma take_patch_below [wire_simps]:
  "n \<le> s \<Longrightarrow> s + length src \<le> length xs \<Longrightarrow> take n (patch s src xs) = take n xs"
  by (simp add: patch_def)

lemma take_patch_above [wire_simps]:
  "s + length src \<le> n \<Longrightarrow> s + length src \<le> length xs \<Longrightarrow>
   take n (patch s src xs) = patch s src (take n xs)"
  by (rule nth_equalityI) (auto simp: nth_patch)

lemma drop_patch_above [wire_simps]:
  "s + length src \<le> n \<Longrightarrow> s + length src \<le> length xs \<Longrightarrow> drop n (patch s src xs) = drop n xs"
  by (simp add: patch_def)

lemma drop_patch_below [wire_simps]:
  "n \<le> s \<Longrightarrow> s + length src \<le> length xs \<Longrightarrow>
   drop n (patch s src xs) = patch (s - n) src (drop n xs)"
  by (simp add: patch_def drop_take)

lemma range_patch_same [field_reads]:
  "length src = n \<Longrightarrow> s + n \<le> length xs \<Longrightarrow> take n (drop s (patch s src xs)) = src"
  by (simp add: patch_def)

lemma range_patch_other [field_reads]:
  "p + length src \<le> length xs \<Longrightarrow> p + length src \<le> s \<or> s + n \<le> p \<Longrightarrow>
   take n (drop s (patch p src xs)) = take n (drop s xs)"
  by (auto simp: wire_simps)

lemma range_update_other [field_reads]:
  "i < s \<or> s + n \<le> i \<Longrightarrow> take n (drop s (xs[i := x])) = take n (drop s xs)"
  by (auto simp: drop_update_swap)

lemma nth_update_other [field_reads]: "i \<noteq> j \<Longrightarrow> xs[i := x] ! j = xs ! j"
  by simp

lemma range4: "s + 4 \<le> length xs \<Longrightarrow> take 4 (drop s xs) = [xs ! s, xs ! (s + 1), xs ! (s + 2), xs ! (s + 3)]"
  by (simp add: Cons_nth_drop_Suc [symmetric] numeral_eq_Suc)

lemma drop_patch_end [field_reads]:
  "s + length src = length xs \<Longrightarrow> drop s (patch s src xs) = src"
  by (simp add: patch_def)

lemma take_min_length [simp]: "take (min (length xs) n) xs = take n xs" "take (min n (length xs)) xs = take n xs"
  by (simp_all add: min_def)

section \<open>Big-endian bytes\<close>

definition from_be16 :: "u8 \<Rightarrow> u8 \<Rightarrow> u16" where
  "from_be16 a b = word_of_nat (unat a * 256 + unat b)"

definition to_be16 :: "u16 \<Rightarrow> bytes" where
  "to_be16 w = [word_of_nat (unat w div 256), word_of_nat (unat w mod 256)]"

definition to_be32 :: "u32 \<Rightarrow> bytes" where
  "to_be32 w = [word_of_nat (unat w div 2 ^ 24), word_of_nat (unat w div 2 ^ 16),
     word_of_nat (unat w div 2 ^ 8), word_of_nat (unat w)]"

lemma u8_lt: "unat (a :: u8) < 256"
  using unsigned_less [of a, where ?'a = nat] by simp

lemma u8_le: "unat (a :: u8) \<le> 255"
  using u8_lt [of a] by linarith

lemma u16_lt: "unat (a :: u16) < 65536"
  using unsigned_less [of a, where ?'a = nat] by simp

lemma u32_lt: "unat (a :: u32) < 4294967296"
  using unsigned_less [of a, where ?'a = nat] by simp

lemma unat_from_be16: "unat (from_be16 a b) = unat a * 256 + unat b"
proof -
  have "unat a * 256 + unat b < 65536"
    using u8_lt [of a] u8_lt [of b] by linarith
  then show ?thesis
    unfolding from_be16_def by (subst unsigned_of_nat) (simp add: take_bit_nat_eq_self_iff)
qed

lemma length_to_be [simp]: "length (to_be16 w) = 2" "length (to_be32 v) = 4"
  by (simp_all add: to_be16_def to_be32_def)

lemma to_be16_roundtrip: "from_be16 (to_be16 w ! 0) (to_be16 w ! 1) = w"
proof -
  have hi: "unat w div 256 < 256"
    using u16_lt [of w] by linarith
  have "unat (from_be16 (to_be16 w ! 0) (to_be16 w ! 1)) = unat w"
    using hi by (simp add: unat_from_be16 to_be16_def unsigned_of_nat take_bit_eq_mod)
  then show ?thesis
    by (rule unsigned_word_eqI)
qed

text \<open>The \<open>n\<close> bytes of a number, most significant first, and the number they spell.\<close>

primrec be_bytes :: "nat \<Rightarrow> nat \<Rightarrow> bytes" where
  "be_bytes 0 v = []"
| "be_bytes (Suc n) v = be_bytes n (v div 256) @ [word_of_nat v]"

definition be_val :: "bytes \<Rightarrow> nat" where
  "be_val xs = foldl (\<lambda>a b. a * 256 + unat b) 0 xs"

lemma length_be_bytes [simp]: "length (be_bytes n v) = n"
  by (induction n arbitrary: v) simp_all

lemma be_val_be_bytes: "be_val (be_bytes n v) = v mod 256 ^ n"
proof (induction n arbitrary: v)
  case (Suc n)
  have "be_val (be_bytes (Suc n) v) = v div 256 mod 256 ^ n * 256 + v mod 256"
    using Suc.IH [of "v div 256"] by (simp add: be_val_def unsigned_of_nat take_bit_eq_mod)
  then show ?case
    by (simp add: mod_mult2_eq)
qed (simp add: be_val_def)

lemma hd_be_bytes: "0 < n \<Longrightarrow> hd (be_bytes n v) = word_of_nat (v div 256 ^ (n - 1))"
proof (induction n arbitrary: v)
  case (Suc n)
  show ?case
  proof (cases "n = 0")
    case False
    then have "be_bytes n (v div 256) \<noteq> []"
      using length_be_bytes [of n "v div 256"] by fastforce
    moreover have "v div 256 div 256 ^ (n - 1) = v div 256 ^ n"
    proof -
      have "v div 256 div 256 ^ (n - 1) = v div (256 * 256 ^ (n - 1))"
        by (rule div_mult2_eq [symmetric])
      also have "256 * 256 ^ (n - 1) = (256 :: nat) ^ n"
        using False by (metis power_minus_mult mult.commute not_gr_zero)
      finally show ?thesis .
    qed
    ultimately show ?thesis
      using Suc.IH [of "v div 256"] False by simp
  qed simp
qed simp

end
