(* ===== verification/Inet_Checksum.thy ===== *)
theory Inet_Checksum
  imports Prelude
begin

text \<open>
  The Internet checksum of \<open>src/src/api/icmp.rs\<close>: \<open>checksum\<close> over a byte slice and
  \<open>icmpv6_checksum\<close> over the IPv6 pseudo header and an ICMPv6 message. The reference is
  the ones' complement sum of RFC 1071, on natural numbers. The locale \<open>checksummed_wire\<close> is
  what the packet builders rely on: writing a checksum into its zeroed field makes the
  message verify.
\<close>

section \<open>The routines\<close>

fun sum_chunks :: "u32 \<Rightarrow> bytes \<Rightarrow> u32" where
  "sum_chunks acc [] = acc"
| "sum_chunks acc [final] = acc + ucast (from_be16 final 0)"
| "sum_chunks acc (a # b # rest) = sum_chunks (acc + ucast (from_be16 a b)) rest"

lemma unat_low_half: "unat ((s :: u32) AND 0xFFFF) = unat s mod 65536"
proof -
  have "s AND 0xFFFF = take_bit 16 s"
    by (simp add: take_bit_eq_mask mask_eq_exp_minus_1)
  then show ?thesis
    by (simp add: unsigned_take_bit_eq take_bit_eq_mod unat_mod)
qed

lemma unat_high_half: "unat (drop_bit 16 (s :: u32)) = unat s div 65536"
  by (simp add: drop_bit_eq_div unat_div)

lemma high_half_zero: "drop_bit 16 (s :: u32) = 0 \<longleftrightarrow> unat s < 65536"
proof -
  have "drop_bit 16 s = 0 \<longleftrightarrow> unat (drop_bit 16 s) = 0"
    by (simp add: unat_eq_0)
  then show ?thesis
    by (simp add: unat_high_half div_eq_0_iff)
qed

lemma unat_fold_step:
  "unat ((s AND 0xFFFF) + drop_bit 16 (s :: u32)) = unat s mod 65536 + unat s div 65536"
proof -
  have "unat s div 65536 < 65536"
    using u32_lt [of s] by linarith
  then have "unat (s AND 0xFFFF) + unat (drop_bit 16 s) < 2 ^ 32"
    using mod_less_divisor [of 65536 "unat s"] by (simp add: unat_low_half unat_high_half)
  then show ?thesis
    by (simp add: unat_word_ariths unat_low_half unat_high_half)
qed

function fold_carries :: "u32 \<Rightarrow> u32" where
  "fold_carries acc =
     (if drop_bit 16 acc \<noteq> 0 then fold_carries ((acc AND 0xFFFF) + drop_bit 16 acc) else acc)"
  by pat_completeness auto
termination
proof (relation "measure unat")
  fix acc :: u32
  assume "drop_bit 16 acc \<noteq> 0"
  then have "65536 \<le> unat acc"
    by (simp add: high_half_zero not_less)
  moreover have "unat acc = unat acc mod 65536 + unat acc div 65536 * 65536"
    by simp
  ultimately have "unat acc mod 65536 + unat acc div 65536 < unat acc"
    by linarith
  then show "((acc AND 0xFFFF) + drop_bit 16 acc, acc) \<in> measure unat"
    by (simp add: unat_fold_step)
qed simp

declare fold_carries.simps [simp del]

definition complement_sum :: "u32 \<Rightarrow> u16" where
  "complement_sum acc = NOT (ucast (fold_carries acc))"

definition checksum :: "bytes \<Rightarrow> u16" where
  "checksum buf = complement_sum (sum_chunks 0 buf)"

definition icmpv6_checksum :: "bytes \<Rightarrow> bytes \<Rightarrow> bytes \<Rightarrow> u16" where
  "icmpv6_checksum src dst icmp =
     checksum (src @ dst @ to_be32 (word_of_nat (length icmp)) @ [0, 0, 0, 58] @ icmp)"

section \<open>The reference: the ones' complement sum\<close>

fun word_sum :: "bytes \<Rightarrow> nat" where
  "word_sum [] = 0"
| "word_sum [final] = unat final * 256"
| "word_sum (a # b # rest) = unat a * 256 + unat b + word_sum rest"

definition ones_norm :: "nat \<Rightarrow> nat" where
  "ones_norm n = (if n = 0 then 0 else if n mod 65535 = 0 then 65535 else n mod 65535)"

lemma ones_norm_le: "ones_norm n \<le> 65535"
  using mod_less_divisor [of 65535 n] by (simp add: ones_norm_def)

lemma ones_norm_small: "n < 65536 \<Longrightarrow> ones_norm n = n"
  by (auto simp: ones_norm_def mod_if not_less)

lemma ones_norm_fold: "ones_norm (n mod 65536 + n div 65536) = ones_norm n"
proof -
  have split: "n = n mod 65536 + n div 65536 * 65536"
    by simp
  then have "n = n mod 65536 + n div 65536 + n div 65536 * 65535"
    by linarith
  then have "n mod 65535 = (n mod 65536 + n div 65536) mod 65535"
    by (metis mod_mult_self1)
  moreover have "n mod 65536 + n div 65536 = 0 \<longleftrightarrow> n = 0"
    using split by auto
  ultimately show ?thesis
    by (simp only: ones_norm_def)
qed

lemma unat_fold_carries: "unat (fold_carries s) = ones_norm (unat s)"
proof (induction s rule: fold_carries.induct)
  case (1 s)
  show ?case
  proof (cases "drop_bit 16 s = 0")
    case True
    then show ?thesis
      by (simp add: fold_carries.simps [of s] ones_norm_small high_half_zero)
  next
    case False
    then show ?thesis
      using "1.IH" by (simp add: fold_carries.simps [of s] unat_fold_step ones_norm_fold)
  qed
qed

lemma unat_not16: "unat (NOT (x :: u16)) = 65535 - unat x"
proof -
  have "NOT x = - 1 - x"
    by (simp add: not_eq_complement)
  moreover have "unat (- 1 - x) = unat (- 1 :: u16) - unat x"
    by (rule unat_sub) simp
  moreover have "unat (- 1 :: u16) = 65535"
    by (simp add: unsigned_minus_1_eq_mask mask_eq_exp_minus_1)
  ultimately show ?thesis
    by simp
qed

lemma unat_complement_sum: "unat (complement_sum s) = 65535 - ones_norm (unat s)"
proof -
  have "unat (fold_carries s) < 65536"
    using ones_norm_le [of "unat s"] by (simp add: unat_fold_carries)
  then have "unat (ucast (fold_carries s) :: u16) = ones_norm (unat s)"
    by (simp add: unsigned_ucast_eq take_bit_eq_mod unat_fold_carries)
  then show ?thesis
    by (simp only: complement_sum_def unat_not16)
qed

lemma word_sum_le: "word_sum buf \<le> 65535 * ((length buf + 1) div 2)"
proof (induction buf rule: word_sum.induct)
  case (2 final)
  show ?case
    using u8_lt [of final] by simp
next
  case (3 a b rest)
  then show ?case
    using u8_le [of a] u8_le [of b] by simp
qed simp

lemma unat_sum_chunks:
  "unat s + word_sum buf < 2 ^ 32 \<Longrightarrow> unat (sum_chunks s buf) = unat s + word_sum buf"
proof (induction s buf rule: sum_chunks.induct)
  case (2 s final)
  then show ?case
    by (simp add: unat_word_ariths unat_from_be16 unsigned_ucast_eq take_bit_eq_mod)
next
  case (3 s a b rest)
  have "unat (s + ucast (from_be16 a b)) = unat s + (unat a * 256 + unat b)"
    using "3.prems"
    by (simp add: unat_word_ariths unat_from_be16 unsigned_ucast_eq take_bit_eq_mod)
  then show ?case
    using 3 by simp
qed simp

section \<open>Functional correctness\<close>

text \<open>
  Slices of up to 131072 bytes cannot overflow the \<open>u32\<close> accumulator; every message the
  program sums is far shorter (a quoted packet is at most 1232 bytes).
\<close>

definition checksum_max_len :: nat where
  "checksum_max_len = 131072"

lemma checksum_reference:
  assumes "length buf \<le> checksum_max_len"
  shows "unat (checksum buf) = 65535 - ones_norm (word_sum buf)"
proof -
  have "(length buf + 1) div 2 \<le> 65536"
    using assms by (simp add: checksum_max_len_def)
  then have "word_sum buf \<le> 65535 * 65536"
    using word_sum_le [of buf] by (meson le_trans mult_le_mono2)
  then have "unat (sum_chunks 0 buf) = word_sum buf"
    using unat_sum_chunks [of 0 buf] by simp
  then show ?thesis
    by (simp add: checksum_def unat_complement_sum)
qed

lemma word_sum_append: "even (length xs) \<Longrightarrow> word_sum (xs @ ys) = word_sum xs + word_sum ys"
  by (induction xs rule: word_sum.induct) auto

lemma word_sum_be16 [simp]: "word_sum (to_be16 w) = unat w"
  using u16_lt [of w] by (simp add: to_be16_def unsigned_of_nat take_bit_eq_mod)

lemma word_sum_patch16:
  assumes "even p" "p + 2 \<le> length xs" "xs ! p = 0" "xs ! Suc p = 0"
  shows "word_sum (patch p (to_be16 w) xs) = word_sum xs + unat w"
proof -
  have xs: "xs = take p xs @ [0, 0] @ drop (p + 2) xs"
    using assms by (metis Cons_nth_drop_Suc Suc_le_lessD add_2_eq_Suc' append_Cons append_Nil
        append_take_drop_id le_SucI Suc_leD)
  have "word_sum xs = word_sum (take p xs) + word_sum (drop (p + 2) xs)"
    using assms by (subst xs) (simp add: word_sum_append)
  moreover have "word_sum (to_be16 w @ drop (p + 2) xs) = unat w + word_sum (drop (p + 2) xs)"
    by (subst word_sum_append) simp_all
  ultimately show ?thesis
    using assms by (simp add: patch_def word_sum_append)
qed

text \<open>Adding the complement of a sum to the sum gives the all-ones word, whose complement is 0.\<close>

lemma ones_norm_multiple: "m \<noteq> 0 \<Longrightarrow> m mod 65535 = 0 \<Longrightarrow> ones_norm m = 65535"
  by (simp add: ones_norm_def)

lemma ones_norm_complement: "ones_norm (n + (65535 - ones_norm n)) = 65535"
proof (cases "n = 0 \<or> n mod 65535 \<noteq> 0")
  case True
  then have c: "ones_norm n = n mod 65535"
    by (auto simp: ones_norm_def)
  have lt: "n mod 65535 < 65535"
    by simp
  have "q * 65535 + r + (65535 - r) = (q + 1) * 65535" if "r < 65535" for q r :: nat
    using that by simp
  from this [OF lt, of "n div 65535"]
  have "n + (65535 - n mod 65535) = (n div 65535 + 1) * 65535"
    by (simp only: div_mult_mod_eq)
  then have "(n + (65535 - n mod 65535)) mod 65535 = 0"
    by (simp only: mod_mult_self2_is_0)
  moreover have "n + (65535 - n mod 65535) \<noteq> 0"
    using lt by linarith
  ultimately show ?thesis
    unfolding c by (intro ones_norm_multiple)
next
  case False
  then show ?thesis
    by (simp add: ones_norm_def)
qed

lemma checksum_written:
  assumes "even p" "p + 2 \<le> length xs" "length xs \<le> checksum_max_len"
    and "xs ! p = 0" "xs ! Suc p = 0"
  shows "checksum (patch p (to_be16 (checksum xs)) xs) = 0"
proof -
  let ?ys = "patch p (to_be16 (checksum xs)) xs"
  have "word_sum ?ys = word_sum xs + (65535 - ones_norm (word_sum xs))"
    using assms by (simp add: word_sum_patch16 checksum_reference)
  then have "unat (checksum ?ys) = 0"
    using assms by (simp add: checksum_reference ones_norm_complement)
  then show ?thesis
    by (simp add: unat_eq_0)
qed

section \<open>The interface the packet builders use\<close>

text \<open>
  \<open>csum c\<close> is a checksum routine in a context \<open>c\<close> (the addresses of the pseudo header, or
  nothing); \<open>sized c xs\<close> says that it may sum the message \<open>xs\<close>. The law: a checksum written
  into its own zeroed field makes the message sum to zero.
\<close>

locale checksummed_wire =
  fixes csum :: "'c \<Rightarrow> bytes \<Rightarrow> u16"
    and sized :: "'c \<Rightarrow> bytes \<Rightarrow> bool"
  assumes sized_length: "sized c xs \<Longrightarrow> length ys = length xs \<Longrightarrow> sized c ys"
    and written_verifies:
      "sized c xs \<Longrightarrow> even p \<Longrightarrow> p + 2 \<le> length xs \<Longrightarrow> xs ! p = 0 \<Longrightarrow> xs ! Suc p = 0 \<Longrightarrow>
       csum c (patch p (to_be16 (csum c xs)) xs) = 0"
begin

text \<open>
  Rewriting the checksum of a message whose field already holds something: the field is
  zeroed first, and the result verifies.
\<close>

lemma rewritten_verifies:
  assumes "sized c xs" "even p" "p + 2 \<le> length xs"
  shows "csum c (patch p (to_be16 (csum c (xs[p := 0, Suc p := 0]))) xs) = 0"
proof -
  let ?z = "xs[p := 0, Suc p := 0]"
  have sz: "sized c ?z"
    using assms(1) by (rule sized_length) simp
  have "csum c (patch p (to_be16 (csum c ?z)) ?z) = 0"
    using assms by (intro written_verifies [OF sz]) simp_all
  moreover have "patch p w ?z = patch p w xs" if "length w = 2" for w
    using that assms by (auto simp: patch_def)
  ultimately show ?thesis
    by simp
qed

end

definition plain_sized :: "unit \<Rightarrow> bytes \<Rightarrow> bool" where
  "plain_sized u xs = (length xs \<le> checksum_max_len)"

definition plain_checksum :: "unit \<Rightarrow> bytes \<Rightarrow> u16" where
  "plain_checksum u xs = checksum xs"

interpretation ip_wire: checksummed_wire plain_checksum plain_sized
  by unfold_locales (auto simp: plain_sized_def plain_checksum_def checksum_written)

definition pseudo_sized :: "bytes \<times> bytes \<Rightarrow> bytes \<Rightarrow> bool" where
  "pseudo_sized c xs = (length (fst c) = 16 \<and> length (snd c) = 16 \<and> length xs \<le> 65535)"

definition pseudo_checksum :: "bytes \<times> bytes \<Rightarrow> bytes \<Rightarrow> u16" where
  "pseudo_checksum c xs = icmpv6_checksum (fst c) (snd c) xs"

lemma patch_append_right:
  "patch (length xs + p) src (xs @ ys) = xs @ patch p src ys"
  by (simp add: patch_def)

lemma icmpv6_checksum_written:
  assumes "length s = 16" "length d = 16" "length xs \<le> 65535"
    and "even p" "p + 2 \<le> length xs" "xs ! p = 0" "xs ! Suc p = 0"
  shows "icmpv6_checksum s d (patch p (to_be16 (icmpv6_checksum s d xs)) xs) = 0"
proof -
  define h where "h = s @ d @ to_be32 (word_of_nat (length xs)) @ [0, 0, 0, 58]"
  have h: "length h = 40"
    using assms by (simp add: h_def)
  have eq: "icmpv6_checksum s d ys = checksum (h @ ys)" if "length ys = length xs" for ys
    using that by (simp add: icmpv6_checksum_def h_def)
  have "checksum (patch (length h + p) (to_be16 (checksum (h @ xs))) (h @ xs)) = 0"
    using assms h by (intro checksum_written) (simp_all add: checksum_max_len_def nth_append)
  then show ?thesis
    using assms by (simp add: eq patch_append_right)
qed

interpretation icmpv6_wire: checksummed_wire pseudo_checksum pseudo_sized
  by unfold_locales
    (auto simp: pseudo_sized_def pseudo_checksum_def icmpv6_checksum_written)

end
