(* ===== verification/Rust_Str.thy ===== *)
theory Rust_Str
  imports Prelude
begin

text \<open>
  The string operations of the Rust standard library the program uses. A string is the list
  of its UTF-8 bytes (as \<open>str::len\<close> counts them), so that \<open>trim\<close>, which removes Unicode
  white space, removes the byte sequences that encode it.
\<close>

section \<open>Prefixes, suffixes, splitting\<close>

definition strip_prefix :: "string \<Rightarrow> string \<Rightarrow> string option" where
  "strip_prefix p s = (if take (length p) s = p then Some (drop (length p) s) else None)"

definition strip_suffix :: "string \<Rightarrow> string \<Rightarrow> string option" where
  "strip_suffix p s = map_option rev (strip_prefix (rev p) (rev s))"

definition starts_with :: "string \<Rightarrow> string \<Rightarrow> bool" where
  "starts_with p s \<longleftrightarrow> strip_prefix p s \<noteq> None"

definition ends_with :: "string \<Rightarrow> string \<Rightarrow> bool" where
  "ends_with p s \<longleftrightarrow> strip_suffix p s \<noteq> None"

definition unwrap_or :: "'a option \<Rightarrow> 'a \<Rightarrow> 'a" where
  "unwrap_or x d = (case x of None \<Rightarrow> d | Some y \<Rightarrow> y)"

lemma unwrap_or_simps [simp]: "unwrap_or None d = d" "unwrap_or (Some y) d = y"
  by (simp_all add: unwrap_or_def)

lemma strip_prefix_append [simp]: "strip_prefix p (p @ s) = Some s"
  by (simp add: strip_prefix_def)

lemma strip_suffix_append [simp]: "strip_suffix p (s @ p) = Some s"
  by (simp add: strip_suffix_def)

lemma strip_prefix_Some: "strip_prefix p s = Some r \<longleftrightarrow> s = p @ r"
  by (auto simp: strip_prefix_def) (metis append_take_drop_id)

lemma strip_suffix_Some: "strip_suffix p s = Some r \<longleftrightarrow> s = r @ p"
  by (auto simp: strip_suffix_def strip_prefix_Some rev_swap)

lemma strip_suffix_last:
  "s \<noteq> [] \<Longrightarrow> c \<noteq> last s \<Longrightarrow> strip_suffix (p @ [c]) s = None"
  by (cases s rule: rev_cases) (auto simp: strip_suffix_def strip_prefix_def)

fun split_on :: "char \<Rightarrow> string \<Rightarrow> string list" where
  "split_on c [] = [[]]"
| "split_on c (x # xs) =
     (if x = c then [] # split_on c xs
      else (case split_on c xs of [] \<Rightarrow> [[x]] | w # ws \<Rightarrow> (x # w) # ws))"

lemma split_on_nonempty [simp]: "split_on c s \<noteq> []"
  by (induction s) (auto split: list.splits)

lemma split_on_absent: "c \<notin> set s \<Longrightarrow> split_on c s = [s]"
  by (induction s) auto

lemma split_on_sep: "c \<notin> set a \<Longrightarrow> split_on c (a @ c # b) = a # split_on c b"
  by (induction a) auto

section \<open>White space\<close>

text \<open>The UTF-8 encodings of the code points with the property \<open>White_Space\<close>.\<close>

definition white_space :: "string list" where
  "white_space =
     [[CHR 0x09], [CHR 0x0A], [CHR 0x0B], [CHR 0x0C], [CHR 0x0D], [CHR 0x20],
      [CHR 0xC2, CHR 0x85], [CHR 0xC2, CHR 0xA0], [CHR 0xE1, CHR 0x9A, CHR 0x80],
      [CHR 0xE2, CHR 0x80, CHR 0x80], [CHR 0xE2, CHR 0x80, CHR 0x81], [CHR 0xE2, CHR 0x80, CHR 0x82],
      [CHR 0xE2, CHR 0x80, CHR 0x83], [CHR 0xE2, CHR 0x80, CHR 0x84], [CHR 0xE2, CHR 0x80, CHR 0x85],
      [CHR 0xE2, CHR 0x80, CHR 0x86], [CHR 0xE2, CHR 0x80, CHR 0x87], [CHR 0xE2, CHR 0x80, CHR 0x88],
      [CHR 0xE2, CHR 0x80, CHR 0x89], [CHR 0xE2, CHR 0x80, CHR 0x8A], [CHR 0xE2, CHR 0x80, CHR 0xA8],
      [CHR 0xE2, CHR 0x80, CHR 0xA9], [CHR 0xE2, CHR 0x80, CHR 0xAF], [CHR 0xE2, CHR 0x81, CHR 0x9F],
      [CHR 0xE3, CHR 0x80, CHR 0x80]]"

lemma white_space_nonempty: "[] \<notin> set white_space"
  by (simp add: white_space_def)

fun strip_any :: "string list \<Rightarrow> string \<Rightarrow> string option" where
  "strip_any [] s = None"
| "strip_any (w # ws) s = (case strip_prefix w s of Some r \<Rightarrow> Some r | None \<Rightarrow> strip_any ws s)"

lemma strip_any_Some: "strip_any ws s = Some r \<Longrightarrow> \<exists>w \<in> set ws. s = w @ r"
  by (induction ws) (auto simp: strip_prefix_Some split: option.splits)

lemma strip_any_None: "strip_any ws s = None \<longleftrightarrow> (\<forall>w \<in> set ws. strip_prefix w s = None)"
  by (induction ws) (auto split: option.splits)

lemma strip_any_shorter: "[] \<notin> set ws \<Longrightarrow> strip_any ws s = Some r \<Longrightarrow> length r < length s"
  by (drule strip_any_Some) auto

function trim_with :: "string list \<Rightarrow> string \<Rightarrow> string" where
  "trim_with ws s =
     (if [] \<in> set ws then s
      else case strip_any ws s of None \<Rightarrow> s | Some r \<Rightarrow> trim_with ws r)"
  by pat_completeness auto
termination
  by (relation "measure (\<lambda>(ws, s). length s)") (auto dest: strip_any_shorter)

declare trim_with.simps [simp del]

definition trim_start :: "string \<Rightarrow> string" where
  "trim_start s = trim_with white_space s"

definition trim_end :: "string \<Rightarrow> string" where
  "trim_end s = rev (trim_with (map rev white_space) (rev s))"

definition trim :: "string \<Rightarrow> string" where
  "trim s = trim_end (trim_start s)"

text \<open>A string of printable ASCII characters is its own trimming.\<close>

definition graphic :: "char \<Rightarrow> bool" where
  "graphic c \<longleftrightarrow> 0x21 \<le> (of_char c :: nat) \<and> (of_char c :: nat) \<le> 0x7E"

lemma white_space_not_graphic: "w \<in> set white_space \<Longrightarrow> \<not> graphic (hd w) \<and> \<not> graphic (hd (rev w))"
  by (auto simp: white_space_def graphic_def)

lemma trim_with_graphic:
  assumes "s = [] \<or> graphic (hd s)" "\<forall>w \<in> set ws. w \<noteq> [] \<and> \<not> graphic (hd w)"
  shows "trim_with ws s = s"
proof -
  have "strip_prefix w s = None" if "w \<in> set ws" for w
    using assms that by (cases w; cases s) (auto simp: strip_prefix_def)
  then have "strip_any ws s = None"
    by (simp add: strip_any_None)
  then show ?thesis
    by (simp add: trim_with.simps)
qed

lemma trim_graphic:
  assumes "s = [] \<or> graphic (hd s) \<and> graphic (last s)"
  shows "trim s = s"
proof -
  have ws: "w \<noteq> [] \<and> \<not> graphic (hd w)" "rev w \<noteq> [] \<and> \<not> graphic (hd (rev w))"
    if "w \<in> set white_space" for w
    using that white_space_not_graphic [OF that] white_space_nonempty by auto
  have "trim_start s = s"
    using assms ws(1) unfolding trim_start_def by (intro trim_with_graphic) auto
  moreover have "trim_with (map rev white_space) (rev s) = rev s"
    using assms ws(2) by (intro trim_with_graphic) (auto simp: hd_rev)
  ultimately show ?thesis
    by (simp add: trim_def trim_end_def)
qed

section \<open>Numbers\<close>

datatype int_error = IntEmpty | InvalidDigit | PosOverflow

definition to_digit :: "nat \<Rightarrow> char \<Rightarrow> nat option" where
  "to_digit radix c =
     (let n = of_char c :: nat;
          d = (if 48 \<le> n \<and> n \<le> 57 then n - 48
               else if 97 \<le> n \<and> n \<le> 122 then n - 97 + 10
               else if 65 \<le> n \<and> n \<le> 90 then n - 65 + 10
               else radix)
      in if d < radix then Some d else None)"

fun parse_digits :: "nat \<Rightarrow> nat \<Rightarrow> string \<Rightarrow> int_error + nat" where
  "parse_digits max_value acc [] = Inr acc"
| "parse_digits max_value acc (c # cs) =
     (case to_digit 10 c of
        None \<Rightarrow> Inl InvalidDigit
      | Some d \<Rightarrow>
          if max_value < acc * 10 then Inl PosOverflow
          else if max_value < acc * 10 + d then Inl PosOverflow
          else parse_digits max_value (acc * 10 + d) cs)"

definition parse_uint :: "nat \<Rightarrow> string \<Rightarrow> int_error + nat" where
  "parse_uint max_value s =
     (if s = [] then Inl IntEmpty
      else if s = ''+'' \<or> s = ''-'' then Inl InvalidDigit
      else if hd s = CHR ''+'' then parse_digits max_value 0 (tl s)
      else parse_digits max_value 0 s)"

text \<open>\<open>Display\<close> of an unsigned integer.\<close>

fun dec :: "nat \<Rightarrow> string" where
  "dec n = (if n < 10 then [char_of (n + 48)] else dec (n div 10) @ [char_of (n mod 10 + 48)])"

declare dec.simps [simp del]

lemma to_digit_dec [simp]: "n < 10 \<Longrightarrow> to_digit 10 (char_of (n + 48)) = Some n"
  by (simp add: to_digit_def)

lemma parse_digits_append:
  "parse_digits m acc (xs @ ys) = and_then (parse_digits m acc xs) (\<lambda>acc'. parse_digits m acc' ys)"
  by (induction m acc xs rule: parse_digits.induct) (auto split: option.splits)

lemma parse_digits_dec: "n \<le> m \<Longrightarrow> parse_digits m 0 (dec n) = Inr n"
proof (induction n rule: dec.induct)
  case (1 n)
  show ?case
  proof (cases "n < 10")
    case True
    then show ?thesis
      using "1.prems" by (simp add: dec.simps [of n])
  next
    case False
    then have "parse_digits m 0 (dec (n div 10)) = Inr (n div 10)"
      using "1.IH" "1.prems" by simp
    moreover have "n div 10 * 10 \<le> m" "n div 10 * 10 + n mod 10 = n"
      using "1.prems" by simp_all
    ultimately show ?thesis
      using False "1.prems" by (simp add: dec.simps [of n] parse_digits_append)
  qed
qed

lemma dec_digits: "c \<in> set (dec n) \<Longrightarrow> to_digit 10 c \<noteq> None"
proof (induction n rule: dec.induct)
  case (1 n)
  then show ?case
    by (cases "n < 10") (auto simp: dec.simps [of n])
qed

lemma dec_nonempty [simp]: "dec n \<noteq> []"
  by (subst dec.simps) simp

lemma digit_char: "to_digit 10 c \<noteq> None \<longleftrightarrow> 48 \<le> (of_char c :: nat) \<and> (of_char c :: nat) \<le> 57"
  by (auto simp: to_digit_def Let_def)

lemma parse_digits_overflow: "m < n \<Longrightarrow> parse_digits m 0 (dec n) = Inl PosOverflow"
proof (induction n rule: dec.induct)
  case (1 n)
  show ?case
  proof (cases "n < 10")
    case True
    then show ?thesis
      using "1.prems" by (simp add: dec.simps [of n])
  next
    case False
    have "n div 10 * 10 + n mod 10 = n"
      by simp
    then show ?thesis
      using False "1.IH" "1.prems" parse_digits_dec [of "n div 10" m]
      by (cases "m < n div 10") (simp_all add: dec.simps [of n] parse_digits_append)
  qed
qed

lemma parse_uint_dec_digits: "parse_uint m (dec n) = parse_digits m 0 (dec n)"
proof -
  have "to_digit 10 (hd (dec n)) \<noteq> None"
    using dec_digits [of "hd (dec n)" n] by simp
  then have "hd (dec n) \<noteq> CHR ''+''" "hd (dec n) \<noteq> CHR ''-''"
    by (auto simp: to_digit_def)
  then have "dec n \<noteq> ''+''" "dec n \<noteq> ''-''"
    by (metis list.sel(1))+
  then show ?thesis
    using \<open>hd (dec n) \<noteq> CHR ''+''\<close> by (simp add: parse_uint_def)
qed

lemma parse_uint_dec: "n \<le> m \<Longrightarrow> parse_uint m (dec n) = Inr n"
  by (simp add: parse_uint_dec_digits parse_digits_dec)

lemma parse_uint_dec_overflow: "m < n \<Longrightarrow> parse_uint m (dec n) = Inl PosOverflow"
  by (simp add: parse_uint_dec_digits parse_digits_overflow)

lemma parse_uint_le: "parse_uint m s = Inr n \<Longrightarrow> n \<le> m"
proof -
  have "parse_digits m acc cs = Inr n \<Longrightarrow> acc \<le> m \<Longrightarrow> n \<le> m" for acc cs
    by (induction m acc cs rule: parse_digits.induct) (auto split: option.splits if_splits)
  then show "parse_uint m s = Inr n \<Longrightarrow> n \<le> m"
    by (auto simp: parse_uint_def split: if_splits)
qed

end
