(* ===== verification/Net_Addr.thy ===== *)
theory Net_Addr
  imports Rust_Str
begin

text \<open>
  The address types of \<open>std::net\<close> the program uses: an IPv4 address is 32 bits, an IPv6 address
  128 bits, a socket address a pair of an address and a port. \<open>parse_ip\<close> is \<open>FromStr\<close> of
  \<open>IpAddr\<close> and \<open>parse_ipv6\<close> that of \<open>Ipv6Addr\<close>, with the standard library's recursive descent:
  every parser returns the value and the rest of the string, or \<^term>\<open>None\<close> and has consumed
  nothing.
\<close>

datatype ip_addr = V4 u32 | V6 "128 word"

text \<open>\<open>octets()\<close>: the address in network byte order.\<close>

definition v4_octets :: "u32 \<Rightarrow> bytes" where
  "v4_octets a = be_bytes 4 (unat a)"

definition v6_octets :: "128 word \<Rightarrow> bytes" where
  "v6_octets a = be_bytes 16 (unat a)"

lemma length_octets [simp]: "length (v4_octets a) = 4" "length (v6_octets b) = 16"
  by (simp_all add: v4_octets_def v6_octets_def)

fun is_ipv4 :: "ip_addr \<Rightarrow> bool" where
  "is_ipv4 (V4 _) = True"
| "is_ipv4 (V6 _) = False"

datatype socket_addr = SocketAddr (ip: ip_addr) (port: u16)

section \<open>Parsing\<close>

fun read_digits :: "nat \<Rightarrow> nat \<Rightarrow> nat \<Rightarrow> nat \<Rightarrow> string \<Rightarrow> (nat \<times> nat \<times> string) option" where
  "read_digits radix max_digits acc count [] = Some (acc, count, [])"
| "read_digits radix max_digits acc count (c # cs) =
     (case to_digit radix c of
        None \<Rightarrow> Some (acc, count, c # cs)
      | Some d \<Rightarrow>
          if max_digits < count + 1 then None
          else read_digits radix max_digits (acc * radix + d) (count + 1) cs)"

definition read_number :: "nat \<Rightarrow> nat \<Rightarrow> bool \<Rightarrow> nat \<Rightarrow> string \<Rightarrow> (nat \<times> string) option" where
  "read_number radix max_digits allow_zero_prefix max_value s = do {
     (v, count, rest) \<leftarrow> read_digits radix max_digits 0 0 s;
     if max_value < v \<or> count = 0 then None
     else if \<not> allow_zero_prefix \<and> hd s = CHR ''0'' \<and> 1 < count then None
     else Some (v, rest)
   }"

definition read_char :: "char \<Rightarrow> string \<Rightarrow> string option" where
  "read_char c s = (case s of [] \<Rightarrow> None | x # xs \<Rightarrow> if x = c then Some xs else None)"

definition read_separator ::
  "char \<Rightarrow> nat \<Rightarrow> (string \<Rightarrow> ('a \<times> string) option) \<Rightarrow> string \<Rightarrow> ('a \<times> string) option" where
  "read_separator sep index inner s =
     (if 0 < index then do { s' \<leftarrow> read_char sep s; inner s' } else inner s)"

definition read_ipv4 :: "string \<Rightarrow> (u32 \<times> string) option" where
  "read_ipv4 s = do {
     let octet = read_number 10 3 False 255;
     (a, s) \<leftarrow> read_separator (CHR ''.'') 0 octet s;
     (b, s) \<leftarrow> read_separator (CHR ''.'') 1 octet s;
     (c, s) \<leftarrow> read_separator (CHR ''.'') 2 octet s;
     (d, s) \<leftarrow> read_separator (CHR ''.'') 3 octet s;
     Some (word_of_nat (((a * 256 + b) * 256 + c) * 256 + d), s)
   }"

text \<open>
  \<open>read_groups\<close> fills at most \<open>limit\<close> groups, the \<open>index\<close>-th next; a trailing IPv4 address
  counts as two groups and ends the reading.
\<close>

function read_groups :: "nat \<Rightarrow> nat \<Rightarrow> string \<Rightarrow> nat list \<times> bool \<times> string" where
  "read_groups limit index s =
     (if index < limit then
        (case (if index < limit - 1 then read_separator (CHR '':'') index read_ipv4 s else None) of
           Some (v4, rest) \<Rightarrow> ([unat v4 div 65536, unat v4 mod 65536], True, rest)
         | None \<Rightarrow>
             (case read_separator (CHR '':'') index (read_number 16 4 True 65535) s of
                None \<Rightarrow> ([], False, s)
              | Some (g, rest) \<Rightarrow>
                  (case read_groups limit (index + 1) rest of
                     (gs, v4, rest') \<Rightarrow> (g # gs, v4, rest'))))
      else ([], False, s))"
  by pat_completeness auto
termination
  by (relation "measure (\<lambda>(limit, index, s). limit - index)") auto

declare read_groups.simps [simp del]

definition ipv6_of_groups :: "nat list \<Rightarrow> 128 word" where
  "ipv6_of_groups gs = word_of_nat (foldl (\<lambda>acc g. acc * 65536 + g) 0 gs)"

definition read_ipv6 :: "string \<Rightarrow> (128 word \<times> string) option" where
  "read_ipv6 s =
     (case read_groups 8 0 s of
        (head, head_ipv4, s1) \<Rightarrow>
          if length head = 8 then Some (ipv6_of_groups head, s1)
          else if head_ipv4 then None
          else do {
            s2 \<leftarrow> read_char (CHR '':'') s1;
            s3 \<leftarrow> read_char (CHR '':'') s2;
            (case read_groups (8 - (length head + 1)) 0 s3 of
               (tail, _, s4) \<Rightarrow>
                 Some (ipv6_of_groups (head @ replicate (8 - length head - length tail) 0 @ tail), s4))
          })"

definition parse_ipv6 :: "string \<Rightarrow> (128 word) option" where
  "parse_ipv6 s = (case read_ipv6 s of Some (a, []) \<Rightarrow> Some a | _ \<Rightarrow> None)"

definition parse_ip :: "string \<Rightarrow> ip_addr option" where
  "parse_ip s =
     (case read_ipv4 s of
        Some (a, rest) \<Rightarrow> if rest = [] then Some (V4 a) else None
      | None \<Rightarrow> map_option V6 (parse_ipv6 s))"

text \<open>The dotted form of an IPv4 address (\<open>Display\<close>) is parsed back.\<close>

definition show_ipv4 :: "u32 \<Rightarrow> string" where
  "show_ipv4 a =
     (let n = unat a
      in dec (n div 2 ^ 24) @ ''.'' @ dec (n div 2 ^ 16 mod 256) @ ''.''
         @ dec (n div 2 ^ 8 mod 256) @ ''.'' @ dec (n mod 256))"

lemma read_digits_dec:
  assumes "length xs + count \<le> max_digits" "parse_digits m acc xs = Inr v"
    and "rest = [] \<or> to_digit 10 (hd rest) = None"
  shows "read_digits 10 max_digits acc count (xs @ rest) = Some (v, count + length xs, rest)"
  using assms
proof (induction xs arbitrary: acc count)
  case Nil
  then show ?case
    by (cases rest) auto
next
  case (Cons x xs)
  then show ?case
    by (auto split: option.splits if_splits)
qed

lemma length_dec_octet: "n < 256 \<Longrightarrow> length (dec n) \<le> 3"
  by (simp add: dec.simps)

lemma hd_dec_nonzero: "hd (dec n) = CHR ''0'' \<Longrightarrow> n = 0"
proof (induction n rule: dec.induct)
  case (1 n)
  show ?case
  proof (cases "n < 10")
    case True
    have "(of_char (char_of (n + 48) :: char) :: nat) = n + 48"
      using True by simp
    moreover have "char_of (n + 48) = CHR ''0''"
      using True "1.prems" by (simp add: dec.simps [of n])
    ultimately show ?thesis
      by simp
  next
    case False
    then show ?thesis
      using 1 by (simp add: dec.simps [of n])
  qed
qed

lemma read_octet_dec:
  assumes "n < 256" "rest = [] \<or> to_digit 10 (hd rest) = None"
  shows "read_number 10 3 False 255 (dec n @ rest) = Some (n, rest)"
proof -
  have "read_digits 10 3 0 0 (dec n @ rest) = Some (n, length (dec n), rest)"
    using assms read_digits_dec [of "dec n" 0 3 n 0 n rest] length_dec_octet [of n]
    by (simp add: parse_digits_dec)
  moreover have "length (dec n) \<le> 1" if "hd (dec n) = CHR ''0''"
    using hd_dec_nonzero [OF that] by (simp add: dec.simps)
  ultimately show ?thesis
    using assms(1) by (auto simp: read_number_def)
qed

lemma parse_ip_show_ipv4: "parse_ip (show_ipv4 a) = Some (V4 a)"
proof -
  let ?n = "unat a"
  have lt: "?n div 2 ^ 24 < 256"
    using u32_lt [of a] by simp
  have dot: "to_digit 10 (CHR ''.'') = None"
    by (simp add: to_digit_def)
  let ?m = "((?n div 2 ^ 24 * 256 + ?n div 2 ^ 16 mod 256) * 256 + ?n div 2 ^ 8 mod 256) * 256 + ?n mod 256"
  have "?n div 2 ^ 8 = ?n div 2 ^ 8 div 256 * 256 + ?n div 2 ^ 8 mod 256"
    "?n div 2 ^ 16 = ?n div 2 ^ 16 div 256 * 256 + ?n div 2 ^ 16 mod 256"
    "?n = ?n div 256 * 256 + ?n mod 256"
    by (rule div_mult_mod_eq [symmetric])+
  then have "?m = ?n"
    by (simp add: div_mult2_eq [symmetric])
  then have m: "word_of_nat ?m = a"
    by (simp only: of_nat_unat ucast_id)
  have "read_ipv4 (show_ipv4 a) = Some (word_of_nat ?m, [])"
    using lt dot
    by (simp add: read_ipv4_def show_ipv4_def Let_def read_separator_def read_octet_dec read_char_def
        read_octet_dec [where rest = "[]", simplified])
  then show ?thesis
    unfolding m by (simp add: parse_ip_def)
qed

end
