(* ===== verification/Packet.thy ===== *)
theory Packet
  imports Inet_Checksum
begin

text \<open>
  IP packet handling of \<open>src/src/api/packet.rs\<close>: the checks and the TTL / hop limit decrement
  of a packet that leaves the TUN device, and the checks of a packet that comes from the
  tunnel. An outer \<^term>\<open>None\<close> is a Rust panic (an index out of bounds); the first theorems
  show that there is none.
\<close>

section \<open>Model\<close>

definition IPV4_HEADER_LEN :: nat where "IPV4_HEADER_LEN = 20"
definition IPV6_HEADER_LEN :: nat where "IPV6_HEADER_LEN = 40"

datatype packet_error =
    Empty
  | UnknownVersion u8
  | TooShort u8 nat
  | TtlExpired u8

definition ip_version :: "bytes \<Rightarrow> u8 option" where
  "ip_version buf = do { b \<leftarrow> index_at buf 0; Some (drop_bit 4 b) }"

function ipv4_sum :: "bytes \<Rightarrow> nat \<Rightarrow> nat \<Rightarrow> u32 \<Rightarrow> u32 option" where
  "ipv4_sum header len i acc =
     (if i < len then
        if i = 10 then ipv4_sum header len (i + 2) acc
        else do {
          word \<leftarrow> (if i + 1 < len
             then do { a \<leftarrow> index_at header i; b \<leftarrow> index_at header (i + 1); Some (from_be16 a b) }
             else do { a \<leftarrow> index_at header i; Some (from_be16 a 0) });
          ipv4_sum header len (i + 2) (acc + ucast word)
        }
      else Some acc)"
  by pat_completeness auto
termination
  by (relation "measure (\<lambda>(header, len, i, acc). len - i)") auto

declare ipv4_sum.simps [simp del]

definition calculate_ipv4_checksum :: "bytes \<Rightarrow> u16 option" where
  "calculate_ipv4_checksum header = do {
     b \<leftarrow> index_at header 0;
     let ihl = unat (b AND 0x0F) * 4;
     let len = min ihl (length header);
     acc \<leftarrow> ipv4_sum header len 0 0;
     Some (complement_sum acc)
   }"

definition prepare_outgoing :: "bytes \<Rightarrow> ((packet_error + u8) \<times> bytes) option" where
  "prepare_outgoing buf =
     (if buf = [] then Some (Inl Empty, buf)
      else do {
        v \<leftarrow> ip_version buf;
        if v = 4 then
          if length buf < IPV4_HEADER_LEN then Some (Inl (TooShort 4 (length buf)), buf)
          else do {
            ttl \<leftarrow> index_at buf 8;
            if ttl \<le> 1 then Some (Inl (TtlExpired ttl), buf)
            else do {
              buf \<leftarrow> store_at 8 (ttl - 1) buf;
              sum \<leftarrow> calculate_ipv4_checksum buf;
              buf \<leftarrow> copy_into 10 12 (to_be16 sum) buf;
              Some (Inr 4, buf)
            }
          }
        else if v = 6 then
          if length buf < IPV6_HEADER_LEN then Some (Inl (TooShort 6 (length buf)), buf)
          else do {
            hop_limit \<leftarrow> index_at buf 7;
            if hop_limit \<le> 1 then Some (Inl (TtlExpired hop_limit), buf)
            else do {
              buf \<leftarrow> store_at 7 (hop_limit - 1) buf;
              Some (Inr 6, buf)
            }
          }
        else Some (Inl (UnknownVersion v), buf)
      })"

definition validate_incoming :: "bytes \<Rightarrow> (packet_error + u8) option" where
  "validate_incoming buf =
     (if buf = [] then Some (Inl Empty)
      else do {
        v \<leftarrow> ip_version buf;
        if v = 4 then
          if length buf < IPV4_HEADER_LEN then Some (Inl (TooShort 4 (length buf)))
          else Some (Inr 4)
        else if v = 6 then
          if length buf < IPV6_HEADER_LEN then Some (Inl (TooShort 6 (length buf)))
          else Some (Inr 6)
        else Some (Inl (UnknownVersion v))
      })"

section \<open>The header checksum is the Internet checksum of the header with its field zeroed\<close>

definition version_of :: "bytes \<Rightarrow> u8" where
  "version_of buf = drop_bit 4 (buf ! 0)"

definition ipv4_header_len :: "bytes \<Rightarrow> nat" where
  "ipv4_header_len buf = unat (buf ! 0 AND 0x0F) * 4"

lemma ip_version_in [panic_simps]: "buf \<noteq> [] \<Longrightarrow> ip_version buf = Some (version_of buf)"
  by (simp add: ip_version_def version_of_def panic_simps)

lemma ipv4_header_len_le: "ipv4_header_len buf \<le> 60"
proof -
  have "unat (buf ! 0 AND 0x0F) \<le> unat (0x0F :: u8)"
    by (rule word_and_le1 [THEN word_le_nat_alt [THEN iffD1]])
  then show ?thesis
    by (simp add: ipv4_header_len_def)
qed

definition checksum_zeroed :: "bytes \<Rightarrow> bytes" where
  "checksum_zeroed header = header[10 := 0, Suc 10 := 0]"

lemma length_checksum_zeroed [simp]: "length (checksum_zeroed header) = length header"
  by (simp add: checksum_zeroed_def)

lemma nth_checksum_zeroed:
  "i < length header \<Longrightarrow> checksum_zeroed header ! i = (if i = 10 \<or> i = 11 then 0 else header ! i)"
  by (auto simp: checksum_zeroed_def nth_list_update)

lemma drop_take_step:
  "i + 1 < len \<Longrightarrow> len \<le> length xs \<Longrightarrow>
   drop i (take len xs) = xs ! i # xs ! Suc i # drop (i + 2) (take len xs)"
  by (simp add: Cons_nth_drop_Suc [symmetric])

lemma drop_take_last: "Suc i = len \<Longrightarrow> len \<le> length xs \<Longrightarrow> drop i (take len xs) = [xs ! i]"
  by (simp add: Cons_nth_drop_Suc [symmetric])

lemma from_be16_zero [simp]: "from_be16 0 0 = 0"
  by (simp add: from_be16_def)

lemma ipv4_sum_chunks:
  assumes "len \<le> length header" "even i"
  shows "ipv4_sum header len i acc =
    Some (sum_chunks acc (drop i (take len (checksum_zeroed header))))"
  using assms
proof (induction header len i acc rule: ipv4_sum.induct)
  case (1 header len i acc)
  let ?z = "checksum_zeroed header"
  consider "len \<le> i" | "i < len" "i = 10" | "Suc i = len" "i \<noteq> 10" | "i + 1 < len" "i \<noteq> 10"
    by linarith
  then show ?case
  proof cases
    case 1
    then show ?thesis
      using "1.prems" by (simp add: ipv4_sum.simps)
  next
    case 2
    then have "ipv4_sum header len i acc =
        Some (sum_chunks acc (drop (i + 2) (take len ?z)))"
      using "1.prems" "1.IH"(1) by (simp add: ipv4_sum.simps [of header len 10])
    moreover have "sum_chunks acc (drop i (take len ?z)) = sum_chunks acc (drop (i + 2) (take len ?z))"
    proof (cases "i + 1 < len")
      case True
      then show ?thesis
        using 2 "1.prems" by (subst drop_take_step) (simp_all add: nth_checksum_zeroed)
    next
      case False
      then show ?thesis
        using 2 "1.prems" by (subst drop_take_last) (simp_all add: nth_checksum_zeroed)
    qed
    ultimately show ?thesis
      by simp
  next
    case 3
    then show ?thesis
      using "1.prems" by (subst drop_take_last)
        (auto simp: ipv4_sum.simps panic_simps nth_checksum_zeroed)
  next
    case 4
    have "i \<noteq> 11" "Suc i \<noteq> 10" "Suc i \<noteq> 11"
      using 4 "1.prems" by auto
    then show ?thesis
      using 4 "1.prems" "1.IH"(2)
      by (subst drop_take_step) (auto simp: ipv4_sum.simps [of header len i] panic_simps nth_checksum_zeroed)
  qed
qed

lemma calculate_ipv4_checksum_eq:
  assumes "header \<noteq> []"
  shows "calculate_ipv4_checksum header =
    Some (checksum (checksum_zeroed (take (ipv4_header_len header) header)))"
proof -
  let ?len = "min (ipv4_header_len header) (length header)"
  have "take ?len (checksum_zeroed header) = checksum_zeroed (take (ipv4_header_len header) header)"
    by (simp add: checksum_zeroed_def take_update_swap min_def)
  then show ?thesis
    using assms
    by (simp add: calculate_ipv4_checksum_def panic_simps ipv4_sum_chunks checksum_def
        flip: ipv4_header_len_def)
qed

section \<open>What the operations do, branch by branch\<close>

text \<open>The packet that leaves: the hop count decremented and, for IPv4, the checksum rewritten.\<close>

definition forwarded :: "bytes \<Rightarrow> bytes" where
  "forwarded buf =
     (if version_of buf = 4 then
        let buf' = buf[8 := buf ! 8 - 1]
        in patch 10 (to_be16 (checksum (checksum_zeroed (take (ipv4_header_len buf) buf')))) buf'
      else buf[7 := buf ! 7 - 1])"

text \<open>The verdict on a packet, as the checks of the code give it.\<close>

definition min_header_len :: "bytes \<Rightarrow> nat" where
  "min_header_len buf = (if version_of buf = 4 then IPV4_HEADER_LEN else IPV6_HEADER_LEN)"

definition hop_count :: "bytes \<Rightarrow> u8" where
  "hop_count buf = (if version_of buf = 4 then buf ! 8 else buf ! 7)"

definition verdict :: "bytes \<Rightarrow> packet_error + u8" where
  "verdict buf =
     (if buf = [] then Inl Empty
      else if version_of buf \<notin> {4, 6} then Inl (UnknownVersion (version_of buf))
      else if length buf < min_header_len buf then Inl (TooShort (version_of buf) (length buf))
      else Inr (version_of buf))"

lemmas header_len_defs = IPV4_HEADER_LEN_def IPV6_HEADER_LEN_def min_header_len_def

lemma ipv4_header_len_update [simp]: "0 < i \<Longrightarrow> ipv4_header_len (buf[i := x]) = ipv4_header_len buf"
  by (simp add: ipv4_header_len_def)

lemma prepare_outgoing_eq:
  "prepare_outgoing buf = Some
     (case verdict buf of
        Inl e \<Rightarrow> (Inl e, buf)
      | Inr v \<Rightarrow> if hop_count buf \<le> 1 then (Inl (TtlExpired (hop_count buf)), buf)
                  else (Inr v, forwarded buf))"
  by (auto simp: prepare_outgoing_def verdict_def panic_simps header_len_defs hop_count_def
      forwarded_def Let_def calculate_ipv4_checksum_eq)

lemma validate_incoming_eq: "validate_incoming buf = Some (verdict buf)"
  by (auto simp: validate_incoming_def verdict_def panic_simps header_len_defs)

text \<open>The accepted packets, as an elimination rule the properties share.\<close>

lemma prepare_outgoing_okE:
  assumes "prepare_outgoing buf = Some (Inr v, out)"
  obtains "verdict buf = Inr v" "1 < hop_count buf" "out = forwarded buf"
  using assms by (auto simp: prepare_outgoing_eq not_le split: sum.splits if_splits)

lemma verdict_InrD:
  "verdict buf = Inr v \<Longrightarrow>
   buf \<noteq> [] \<and> v = version_of buf \<and> (v = 4 \<or> v = 6) \<and> min_header_len buf \<le> length buf"
  by (auto simp: verdict_def split: if_splits)

lemma length_forwarded:
  "verdict buf = Inr v \<Longrightarrow> length (forwarded buf) = length buf"
  by (drule verdict_InrD) (auto simp: forwarded_def Let_def header_len_defs)

lemma nth_forwarded:
  assumes "verdict buf = Inr v" "i < length buf"
  shows "i \<notin> {7, 8, 10, 11} \<Longrightarrow> forwarded buf ! i = buf ! i"
    and "v = 4 \<Longrightarrow> i \<notin> {8, 10, 11} \<Longrightarrow> forwarded buf ! i = buf ! i"
    and "v = 6 \<Longrightarrow> i \<noteq> 7 \<Longrightarrow> forwarded buf ! i = buf ! i"
  using verdict_InrD [OF assms(1)] assms(2)
  by (auto simp: forwarded_def Let_def nth_patch header_len_defs split: if_splits)

lemma hop_count_forwarded:
  assumes "verdict buf = Inr v"
  shows "hop_count (forwarded buf) = hop_count buf - 1" "version_of (forwarded buf) = v"
proof -
  have v: "version_of (forwarded buf) = v"
    using verdict_InrD [OF assms] nth_forwarded(1) [OF assms, of 0] by (auto simp: version_of_def)
  then show "version_of (forwarded buf) = v" .
  from verdict_InrD [OF assms] consider "v = 4" "version_of buf = 4" "20 \<le> length buf"
    | "v = 6" "version_of buf = 6" "40 \<le> length buf"
    by (auto simp: header_len_defs)
  then show "hop_count (forwarded buf) = hop_count buf - 1"
  proof cases
    case 1
    have "forwarded buf ! 8 = buf ! 8 - 1"
      using 1 by (simp add: forwarded_def Let_def nth_patch)
    then show ?thesis
      using 1 v by (simp add: hop_count_def)
  next
    case 2
    then show ?thesis
      using v by (simp add: hop_count_def forwarded_def)
  qed
qed

lemma verdict_forwarded:
  assumes "verdict buf = Inr v"
  shows "verdict (forwarded buf) = Inr v"
proof -
  note v = verdict_InrD [OF assms]
  have len: "length (forwarded buf) = length buf" and ver: "version_of (forwarded buf) = v"
    by (rule length_forwarded [OF assms], rule hop_count_forwarded(2) [OF assms])
  have ne: "forwarded buf \<noteq> []"
    using v len by (metis length_0_conv)
  have "min_header_len (forwarded buf) = min_header_len buf"
    using v by (simp only: min_header_len_def ver)
  then show ?thesis
    using v by (simp only: verdict_def ne len ver) auto
qed

section \<open>Properties\<close>

text \<open>
  C1. \<open>prepare_outgoing\<close> never panics, and its result is fixed on every branch: an empty packet, an
  IP version other than 4 and 6, a packet shorter than the fixed header of its version, and a
  hop count of 0 or 1 are refused with the matching error and leave the buffer untouched;
  every other packet is forwarded with the hop count decremented and, for IPv4, the header
  checksum recomputed over the header with its checksum field zeroed.
\<close>

theorem prepare_outgoing_spec:
  "prepare_outgoing buf = Some
     (if buf = [] then (Inl Empty, buf)
      else if version_of buf \<notin> {4, 6} then (Inl (UnknownVersion (version_of buf)), buf)
      else if length buf < min_header_len buf
        then (Inl (TooShort (version_of buf) (length buf)), buf)
      else if hop_count buf \<le> 1 then (Inl (TtlExpired (hop_count buf)), buf)
      else (Inr (version_of buf), forwarded buf))"
  by (auto simp: prepare_outgoing_eq verdict_def)

text \<open>
  C31. The IPv4 header of every accepted packet verifies: when the header length field covers the
  checksum field and lies inside the packet, the Internet checksum over the header that
  leaves is zero, whatever checksum the packet arrived with.
\<close>

theorem prepare_outgoing_checksum_valid:
  assumes "prepare_outgoing buf = Some (Inr 4, out)"
    and "12 \<le> ipv4_header_len buf" "ipv4_header_len buf \<le> length buf"
  shows "checksum (take (ipv4_header_len buf) out) = 0"
proof -
  let ?n = "ipv4_header_len buf" and ?b = "buf[8 := buf ! 8 - 1]"
  have v: "verdict buf = Inr 4" and out: "out = forwarded buf"
    using assms(1) by (auto elim: prepare_outgoing_okE)
  have sized: "plain_sized () (take ?n ?b)"
    using assms(3) ipv4_header_len_le [of buf] by (simp add: plain_sized_def checksum_max_len_def)
  have "take ?n out = patch 10 (to_be16 (checksum (checksum_zeroed (take ?n ?b)))) (take ?n ?b)"
    using assms v out verdict_InrD [OF v] by (simp add: forwarded_def Let_def take_patch_above)
  then show ?thesis
    using ip_wire.rewritten_verifies [OF sized, of 10] assms
    by (simp add: plain_checksum_def checksum_zeroed_def)
qed

text \<open>
  A forwarded packet is the packet that came in but for its hop count, lower by exactly one
  and still positive, and the IPv4 header checksum (bytes 10 and 11): every other byte, the
  version and the length are unchanged, and the receiver's check accepts it.
\<close>

theorem prepare_outgoing_frame:
  assumes "prepare_outgoing buf = Some (Inr v, out)"
  shows "length out = length buf
    \<and> unat (hop_count out) + 1 = unat (hop_count buf) \<and> 0 < hop_count out
    \<and> {i. i < length buf \<and> out ! i \<noteq> buf ! i} \<subseteq> (if v = 4 then {8, 10, 11} else {7})
    \<and> validate_incoming out = Some (Inr v)"
proof -
  have v: "verdict buf = Inr v" and hop: "1 < hop_count buf" and out: "out = forwarded buf"
    using assms by (auto elim: prepare_outgoing_okE)
  have h: "hop_count out = hop_count buf - 1"
    by (simp add: out hop_count_forwarded(1) [OF v])
  have dec: "unat (hop_count out) + 1 = unat (hop_count buf)"
    using hop unfolding h by (subst unat_sub) (auto simp: word_less_nat_alt word_le_nat_alt)
  then have "0 < hop_count out"
    using hop by (simp add: word_less_nat_alt)
  moreover have "{i. i < length buf \<and> out ! i \<noteq> buf ! i} \<subseteq> (if v = 4 then {8, 10, 11} else {7})"
    using verdict_InrD [OF v] nth_forwarded(2,3) [OF v] unfolding out by auto
  ultimately show ?thesis
    using dec by (simp add: out length_forwarded [OF v] validate_incoming_eq verdict_forwarded [OF v])
qed

section \<open>The properties at a concrete packet\<close>

text \<open>A UDP packet from 192.0.2.1 to 198.51.100.2 with TTL 64, as in the tests of \<open>packet.rs\<close>.\<close>

definition sample_ipv4 :: bytes where
  "sample_ipv4 = [0x45, 0, 0, 20, 0, 0, 0, 0, 64, 17, 0, 0, 192, 0, 2, 1, 198, 51, 100, 2]"

definition sample_forwarded :: bytes where
  "sample_forwarded =
     [0x45, 0, 0, 20, 0, 0, 0, 0, 63, 17, 143, 162, 192, 0, 2, 1, 198, 51, 100, 2]"

lemmas packet_eval =
  prepare_outgoing_def ip_version_def index_at_def store_at_def copy_into_def header_len_defs
  calculate_ipv4_checksum_def ipv4_sum.simps from_be16_def to_be16_def complement_sum_def
  fold_carries.simps word_le_nat_alt

lemma prepare_outgoing_sample: "prepare_outgoing sample_ipv4 = Some (Inr 4, sample_forwarded)"
  unfolding sample_ipv4_def sample_forwarded_def by (simp add: packet_eval)

lemma header_len_sample: "ipv4_header_len sample_ipv4 = 20"
  by (simp add: ipv4_header_len_def sample_ipv4_def)

lemma length_sample: "length sample_ipv4 = 20"
  by (simp add: sample_ipv4_def)

theorem prepare_outgoing_checksum_valid_witness:
  "prepare_outgoing sample_ipv4 = Some (Inr 4, sample_forwarded) \<and>
   checksum (take 20 sample_forwarded) = 0"
  using prepare_outgoing_checksum_valid [OF prepare_outgoing_sample]
  by (simp add: header_len_sample length_sample prepare_outgoing_sample)

theorem prepare_outgoing_frame_witness:
  "unat (hop_count sample_forwarded) = 63 \<and> validate_incoming sample_forwarded = Some (Inr 4)"
  using prepare_outgoing_frame [OF prepare_outgoing_sample]
  by (simp add: hop_count_def version_of_def sample_ipv4_def)

end
