(* ===== verification/Icmp.thy ===== *)
theory Icmp
  imports Inet_Checksum Net_Addr Packet
begin

text \<open>
  The ICMP messages of \<open>src/src/api/icmp.rs\<close>: the Echo Request the Mesh activation probe sends
  and the Fragmentation Needed / Packet Too Big replies for packets that do not fit the path.
  As in \<open>Packet\<close>, an outer \<^term>\<open>None\<close> is a panic; an inner one is the function's own \<open>None\<close>.
\<close>

section \<open>Model\<close>

definition ICMP_HEADER_LEN :: nat where "ICMP_HEADER_LEN = 8"
definition ICMP_TYPE_ECHO_REQUEST :: u8 where "ICMP_TYPE_ECHO_REQUEST = 8"
definition ICMPV6_TYPE_ECHO_REQUEST :: u8 where "ICMPV6_TYPE_ECHO_REQUEST = 128"
definition ECHO_IDENTIFIER :: u16 where "ECHO_IDENTIFIER = 0x5551"
definition ICMP_TYPE_DEST_UNREACHABLE :: u8 where "ICMP_TYPE_DEST_UNREACHABLE = 3"
definition ICMP_CODE_FRAG_NEEDED :: u8 where "ICMP_CODE_FRAG_NEEDED = 4"
definition ICMPV6_TYPE_PACKET_TOO_BIG :: u8 where "ICMPV6_TYPE_PACKET_TOO_BIG = 2"

lemmas icmp_consts =
  ICMP_HEADER_LEN_def ICMP_TYPE_ECHO_REQUEST_def ICMPV6_TYPE_ECHO_REQUEST_def
  ECHO_IDENTIFIER_def ICMP_TYPE_DEST_UNREACHABLE_def ICMP_CODE_FRAG_NEEDED_def
  ICMPV6_TYPE_PACKET_TOO_BIG_def IPV4_HEADER_LEN_def IPV6_HEADER_LEN_def

definition compose_echo_v4 :: "u32 \<Rightarrow> u32 \<Rightarrow> u16 \<Rightarrow> bytes option" where
  "compose_echo_v4 source destination sequence = do {
     let total_len = IPV4_HEADER_LEN + ICMP_HEADER_LEN;
     let out = replicate total_len 0;
     out \<leftarrow> store_at 0 0x45 out;
     out \<leftarrow> copy_into 2 4 (to_be16 (word_of_nat total_len)) out;
     out \<leftarrow> store_at 8 64 out;
     out \<leftarrow> store_at 9 1 out;
     out \<leftarrow> copy_into 12 16 (v4_octets source) out;
     out \<leftarrow> copy_into 16 20 (v4_octets destination) out;
     out \<leftarrow> store_at 20 ICMP_TYPE_ECHO_REQUEST out;
     out \<leftarrow> copy_into 24 26 (to_be16 ECHO_IDENTIFIER) out;
     out \<leftarrow> copy_into 26 28 (to_be16 sequence) out;
     header \<leftarrow> slice 0 IPV4_HEADER_LEN out;
     out \<leftarrow> copy_into 10 12 (to_be16 (checksum header)) out;
     message \<leftarrow> slice IPV4_HEADER_LEN (length out) out;
     out \<leftarrow> copy_into 22 24 (to_be16 (checksum message)) out;
     Some out
   }"

definition compose_echo_v6 :: "128 word \<Rightarrow> 128 word \<Rightarrow> u16 \<Rightarrow> bytes option" where
  "compose_echo_v6 source destination sequence = do {
     let out = replicate (IPV6_HEADER_LEN + ICMP_HEADER_LEN) 0;
     out \<leftarrow> store_at 0 0x60 out;
     out \<leftarrow> copy_into 4 6 (to_be16 (word_of_nat ICMP_HEADER_LEN)) out;
     out \<leftarrow> store_at 6 58 out;
     out \<leftarrow> store_at 7 64 out;
     out \<leftarrow> copy_into 8 24 (v6_octets source) out;
     out \<leftarrow> copy_into 24 40 (v6_octets destination) out;
     out \<leftarrow> store_at 40 ICMPV6_TYPE_ECHO_REQUEST out;
     out \<leftarrow> copy_into 44 46 (to_be16 ECHO_IDENTIFIER) out;
     out \<leftarrow> copy_into 46 48 (to_be16 sequence) out;
     src \<leftarrow> slice 8 24 out;
     dst \<leftarrow> slice 24 40 out;
     message \<leftarrow> slice 40 (length out) out;
     out \<leftarrow> copy_into 42 44 (to_be16 (icmpv6_checksum src dst message)) out;
     Some out
   }"

definition compose_echo_request :: "ip_addr \<Rightarrow> ip_addr \<Rightarrow> u16 \<Rightarrow> bytes option option" where
  "compose_echo_request source destination sequence =
     (case (source, destination) of
        (V4 s, V4 d) \<Rightarrow> map_option Some (compose_echo_v4 s d sequence)
      | (V6 s, V6 d) \<Rightarrow> map_option Some (compose_echo_v6 s d sequence)
      | _ \<Rightarrow> Some None)"

definition compose_ipv4_frag_needed :: "bytes \<Rightarrow> u16 \<Rightarrow> bytes option option" where
  "compose_ipv4_frag_needed packet mtu =
     (if length packet < IPV4_HEADER_LEN then Some None
      else do {
        src \<leftarrow> slice 12 16 packet;
        dst \<leftarrow> slice 16 20 packet;
        let quote_len = min (length packet) (576 - (IPV4_HEADER_LEN + ICMP_HEADER_LEN));
        let total_len = IPV4_HEADER_LEN + ICMP_HEADER_LEN + quote_len;
        let out = replicate total_len 0;
        out \<leftarrow> store_at 0 0x45 out;
        out \<leftarrow> copy_into 2 4 (to_be16 (word_of_nat total_len)) out;
        out \<leftarrow> store_at 8 64 out;
        out \<leftarrow> store_at 9 1 out;
        out \<leftarrow> copy_into 12 16 dst out;
        out \<leftarrow> copy_into 16 20 src out;
        out \<leftarrow> store_at 20 ICMP_TYPE_DEST_UNREACHABLE out;
        out \<leftarrow> store_at 21 ICMP_CODE_FRAG_NEEDED out;
        out \<leftarrow> copy_into 24 26 (to_be16 mtu) out;
        quoted \<leftarrow> slice 0 quote_len packet;
        out \<leftarrow> copy_into 28 (28 + quote_len) quoted out;
        header \<leftarrow> slice 0 IPV4_HEADER_LEN out;
        out \<leftarrow> copy_into 10 12 (to_be16 (checksum header)) out;
        message \<leftarrow> slice IPV4_HEADER_LEN (length out) out;
        out \<leftarrow> copy_into 22 24 (to_be16 (checksum message)) out;
        Some (Some out)
      })"

definition compose_ipv6_packet_too_big :: "bytes \<Rightarrow> u16 \<Rightarrow> bytes option option" where
  "compose_ipv6_packet_too_big packet mtu =
     (if length packet < IPV6_HEADER_LEN then Some None
      else do {
        src \<leftarrow> slice 8 24 packet;
        dst \<leftarrow> slice 24 40 packet;
        let quote_len = min (length packet) 1232;
        let payload_len = ICMP_HEADER_LEN + quote_len;
        let total_len = IPV6_HEADER_LEN + payload_len;
        let out = replicate total_len 0;
        out \<leftarrow> store_at 0 0x60 out;
        out \<leftarrow> copy_into 4 6 (to_be16 (word_of_nat payload_len)) out;
        out \<leftarrow> store_at 6 58 out;
        out \<leftarrow> store_at 7 64 out;
        out \<leftarrow> copy_into 8 24 dst out;
        out \<leftarrow> copy_into 24 40 src out;
        out \<leftarrow> store_at 40 ICMPV6_TYPE_PACKET_TOO_BIG out;
        out \<leftarrow> store_at 41 0 out;
        out \<leftarrow> copy_into 44 48 (to_be32 (ucast mtu)) out;
        quoted \<leftarrow> slice 0 quote_len packet;
        out \<leftarrow> copy_into 48 (48 + quote_len) quoted out;
        src' \<leftarrow> slice 8 24 out;
        dst' \<leftarrow> slice 24 40 out;
        message \<leftarrow> slice 40 (length out) out;
        out \<leftarrow> copy_into 42 44 (to_be16 (icmpv6_checksum src' dst' message)) out;
        Some (Some out)
      })"

definition compose_icmp_too_large :: "bytes \<Rightarrow> u16 \<Rightarrow> bytes option option" where
  "compose_icmp_too_large packet mtu =
     (if packet = [] then Some None
      else do {
        b \<leftarrow> index_at packet 0;
        if drop_bit 4 b = 4 then compose_ipv4_frag_needed packet mtu
        else if drop_bit 4 b = 6 then compose_ipv6_packet_too_big packet mtu
        else Some None
      })"

section \<open>Sealing a message with its checksums\<close>

text \<open>
  All four builders end the same way: the message is complete but for its checksum fields,
  which are still zero, and the checksums are written last.
\<close>

definition seal_v4 :: "bytes \<Rightarrow> bytes" where
  "seal_v4 msg =
     (let msg' = patch 10 (to_be16 (checksum (take 20 msg))) msg
      in patch 22 (to_be16 (checksum (drop 20 msg'))) msg')"

definition seal_v6 :: "bytes \<Rightarrow> bytes" where
  "seal_v6 msg =
     patch 42 (to_be16 (icmpv6_checksum (take 16 (drop 8 msg)) (take 16 (drop 24 msg)) (drop 40 msg))) msg"

lemma length_seal_v4 [simp]: "28 \<le> length msg \<Longrightarrow> length (seal_v4 msg) = length msg"
  by (simp add: seal_v4_def Let_def)

lemma length_seal_v6 [simp]: "48 \<le> length msg \<Longrightarrow> length (seal_v6 msg) = length msg"
  by (simp add: seal_v6_def)

lemma nth_seal_v4 [wire_simps]:
  "28 \<le> length msg \<Longrightarrow> i < length msg \<Longrightarrow> i \<notin> {10, 11, 22, 23} \<Longrightarrow> seal_v4 msg ! i = msg ! i"
  by (auto simp: seal_v4_def Let_def nth_patch)

lemma nth_seal_v6 [wire_simps]:
  "48 \<le> length msg \<Longrightarrow> i < length msg \<Longrightarrow> i \<notin> {42, 43} \<Longrightarrow> seal_v6 msg ! i = msg ! i"
  by (auto simp: seal_v6_def nth_patch)

lemma range_seal_v4:
  assumes "28 \<le> length msg" "e \<le> length msg" "{s..<e} \<inter> {10, 11, 22, 23} = {}"
  shows "take (e - s) (drop s (seal_v4 msg)) = take (e - s) (drop s msg)"
proof (rule nth_equalityI)
  fix i
  assume i: "i < length (take (e - s) (drop s (seal_v4 msg)))"
  then have "s + i \<in> {s..<e}"
    by auto
  then have "s + i \<notin> {10, 11, 22, 23}"
    using assms(3) by blast
  then show "take (e - s) (drop s (seal_v4 msg)) ! i = take (e - s) (drop s msg) ! i"
    using i assms by (simp add: nth_seal_v4)
qed (use assms in simp)

lemma range_seal_v6:
  assumes "48 \<le> length msg" "e \<le> length msg" "{s..<e} \<inter> {42, 43} = {}"
  shows "take (e - s) (drop s (seal_v6 msg)) = take (e - s) (drop s msg)"
proof (rule nth_equalityI)
  fix i
  assume i: "i < length (take (e - s) (drop s (seal_v6 msg)))"
  then have "s + i \<in> {s..<e}"
    by auto
  then have "s + i \<notin> {42, 43}"
    using assms(3) by blast
  then show "take (e - s) (drop s (seal_v6 msg)) ! i = take (e - s) (drop s msg) ! i"
    using i assms by (simp add: nth_seal_v6)
qed (use assms in simp)

lemma seal_v4_verifies:
  assumes "28 \<le> length msg" "length msg \<le> 65535"
    and "msg ! 10 = 0" "msg ! 11 = 0" "msg ! 22 = 0" "msg ! 23 = 0"
  shows "checksum (take 20 (seal_v4 msg)) = 0" "checksum (drop 20 (seal_v4 msg)) = 0"
proof -
  have "plain_sized () (take 20 msg)" "plain_sized () (drop 20 msg)"
    using assms by (simp_all add: plain_sized_def checksum_max_len_def)
  note verifies = ip_wire.written_verifies [OF this(1), of 10] ip_wire.written_verifies [OF this(2), of 2]
  have "take 20 (seal_v4 msg) = patch 10 (to_be16 (checksum (take 20 msg))) (take 20 msg)"
    using assms by (simp add: seal_v4_def Let_def wire_simps)
  then show "checksum (take 20 (seal_v4 msg)) = 0"
    using verifies(1) assms by (simp add: plain_checksum_def)
  have "drop 20 (seal_v4 msg) = patch 2 (to_be16 (checksum (drop 20 msg))) (drop 20 msg)"
    using assms by (simp add: seal_v4_def Let_def wire_simps)
  then show "checksum (drop 20 (seal_v4 msg)) = 0"
    using verifies(2) assms by (simp add: plain_checksum_def)
qed

lemma seal_v6_verifies:
  assumes "48 \<le> length msg" "length msg \<le> 65535" "msg ! 42 = 0" "msg ! 43 = 0"
  shows "icmpv6_checksum (take 16 (drop 8 (seal_v6 msg))) (take 16 (drop 24 (seal_v6 msg)))
     (drop 40 (seal_v6 msg)) = 0"
proof -
  let ?c = "(take 16 (drop 8 msg), take 16 (drop 24 msg))"
  have sized: "pseudo_sized ?c (drop 40 msg)"
    using assms by (simp add: pseudo_sized_def)
  have "drop 40 (seal_v6 msg) =
      patch 2 (to_be16 (pseudo_checksum ?c (drop 40 msg))) (drop 40 msg)"
    using assms by (simp add: seal_v6_def pseudo_checksum_def wire_simps)
  moreover have "take 16 (drop 8 (seal_v6 msg)) = fst ?c" "take 16 (drop 24 (seal_v6 msg)) = snd ?c"
    using range_seal_v6 [of msg 24 8] range_seal_v6 [of msg 40 24] assms by simp_all
  ultimately show ?thesis
    using icmpv6_wire.written_verifies [OF sized, of 2] assms by (simp add: pseudo_checksum_def)
qed

section \<open>The messages before their checksums\<close>

definition echo_v4_body :: "u32 \<Rightarrow> u32 \<Rightarrow> u16 \<Rightarrow> bytes" where
  "echo_v4_body s d sequence =
     patch 26 (to_be16 sequence) (patch 24 (to_be16 ECHO_IDENTIFIER)
       ((patch 16 (v4_octets d) (patch 12 (v4_octets s)
         ((patch 2 (to_be16 28) ((replicate 28 0)[0 := 0x45]))[8 := 64, 9 := 1])))[20 := 8]))"

definition echo_v6_body :: "128 word \<Rightarrow> 128 word \<Rightarrow> u16 \<Rightarrow> bytes" where
  "echo_v6_body s d sequence =
     patch 46 (to_be16 sequence) (patch 44 (to_be16 ECHO_IDENTIFIER)
       ((patch 24 (v6_octets d) (patch 8 (v6_octets s)
         ((patch 4 (to_be16 8) ((replicate 48 0)[0 := 0x60]))[6 := 58, 7 := 64])))[40 := 128]))"

definition frag_needed_body :: "bytes \<Rightarrow> u16 \<Rightarrow> bytes" where
  "frag_needed_body packet mtu =
     (let quoted = take 548 packet
      in patch 28 quoted (patch 24 (to_be16 mtu)
        ((patch 16 (take 4 (drop 12 packet)) (patch 12 (take 4 (drop 16 packet))
          ((patch 2 (to_be16 (word_of_nat (28 + length quoted)))
             ((replicate (28 + length quoted) 0)[0 := 0x45]))[8 := 64, 9 := 1])))
          [20 := 3, 21 := 4])))"

definition too_big_body :: "bytes \<Rightarrow> u16 \<Rightarrow> bytes" where
  "too_big_body packet mtu =
     (let quoted = take 1232 packet
      in patch 48 quoted (patch 44 (to_be32 (ucast mtu))
        ((patch 24 (take 16 (drop 8 packet)) (patch 8 (take 16 (drop 24 packet))
          ((patch 4 (to_be16 (word_of_nat (8 + length quoted)))
             ((replicate (48 + length quoted) 0)[0 := 0x60]))[6 := 58, 7 := 64])))
          [40 := 2, 41 := 0])))"

lemma compose_echo_v4_eq:
  "compose_echo_v4 s d sequence = Some (seal_v4 (echo_v4_body s d sequence))"
  by (simp add: compose_echo_v4_def echo_v4_body_def seal_v4_def icmp_consts panic_simps Let_def)

lemma compose_echo_v6_eq:
  "compose_echo_v6 s d sequence = Some (seal_v6 (echo_v6_body s d sequence))"
  by (simp add: compose_echo_v6_def echo_v6_body_def seal_v6_def icmp_consts panic_simps Let_def)

lemma compose_ipv4_frag_needed_eq:
  "compose_ipv4_frag_needed packet mtu =
     Some (if length packet < 20 then None else Some (seal_v4 (frag_needed_body packet mtu)))"
  by (simp add: compose_ipv4_frag_needed_def frag_needed_body_def seal_v4_def icmp_consts
      panic_simps Let_def min.commute)

lemma compose_ipv6_packet_too_big_eq:
  "compose_ipv6_packet_too_big packet mtu =
     Some (if length packet < 40 then None else Some (seal_v6 (too_big_body packet mtu)))"
  by (simp add: compose_ipv6_packet_too_big_def too_big_body_def seal_v6_def icmp_consts
      panic_simps Let_def min.commute)

section \<open>What a receiver reads\<close>

text \<open>
  An ICMP message in an IPv4 packet without options: the receiver's view of the fields the
  builders write, with both checksums verified.
\<close>

definition ipv4_icmp :: "bytes \<Rightarrow> bytes \<Rightarrow> u8 \<Rightarrow> u8 \<Rightarrow> bytes \<Rightarrow> bytes \<Rightarrow> bytes \<Rightarrow> bool" where
  "ipv4_icmp src dst ty code rest data out \<longleftrightarrow>
     verdict out = Inr 4 \<and> out ! 0 = 0x45 \<and> unat (from_be16 (out ! 2) (out ! 3)) = length out
     \<and> out ! 8 = 64 \<and> out ! 9 = 1
     \<and> take 4 (drop 12 out) = src \<and> take 4 (drop 16 out) = dst
     \<and> out ! 20 = ty \<and> out ! 21 = code \<and> take 4 (drop 24 out) = rest \<and> drop 28 out = data
     \<and> checksum (take 20 out) = 0 \<and> checksum (drop 20 out) = 0"

definition ipv6_icmp :: "bytes \<Rightarrow> bytes \<Rightarrow> u8 \<Rightarrow> u8 \<Rightarrow> bytes \<Rightarrow> bytes \<Rightarrow> bytes \<Rightarrow> bool" where
  "ipv6_icmp src dst ty code rest data out \<longleftrightarrow>
     verdict out = Inr 6 \<and> out ! 0 = 0x60 \<and> unat (from_be16 (out ! 4) (out ! 5)) + 40 = length out
     \<and> out ! 6 = 58 \<and> out ! 7 = 64
     \<and> take 16 (drop 8 out) = src \<and> take 16 (drop 24 out) = dst
     \<and> out ! 40 = ty \<and> out ! 41 = code \<and> take 4 (drop 44 out) = rest \<and> drop 48 out = data
     \<and> icmpv6_checksum src dst (drop 40 out) = 0"

text \<open>Reading a body through its seal.\<close>

lemma seal_v4_reads:
  assumes "28 \<le> length msg" "length msg \<le> 65535" "msg ! 0 = 0x45"
    and "unat (from_be16 (msg ! 2) (msg ! 3)) = length msg"
    and "msg ! 8 = 64" "msg ! 9 = 1"
    and "msg ! 10 = 0" "msg ! 11 = 0" "msg ! 22 = 0" "msg ! 23 = 0"
  shows "ipv4_icmp (take 4 (drop 12 msg)) (take 4 (drop 16 msg)) (msg ! 20) (msg ! 21)
    (take 4 (drop 24 msg)) (drop 28 msg) (seal_v4 msg)"
proof -
  have reads: "seal_v4 msg ! i = msg ! i" if "i \<in> {0, 2, 3, 8, 9, 20, 21}" for i
    using that assms(1) by (auto intro!: nth_seal_v4)
  have ne: "seal_v4 msg \<noteq> []"
    using assms(1) length_seal_v4 [of msg] by fastforce
  have verdict: "verdict (seal_v4 msg) = Inr 4"
    using assms(1,3) reads ne by (simp add: verdict_def version_of_def header_len_defs)
  have "drop 28 (seal_v4 msg) = drop 28 msg"
    using range_seal_v4 [of msg "length msg" 28] assms(1) by simp
  moreover have "take 4 (drop 12 (seal_v4 msg)) = take 4 (drop 12 msg)"
    "take 4 (drop 16 (seal_v4 msg)) = take 4 (drop 16 msg)"
    "take 4 (drop 24 (seal_v4 msg)) = take 4 (drop 24 msg)"
    using range_seal_v4 [of msg 16 12] range_seal_v4 [of msg 20 16] range_seal_v4 [of msg 28 24]
      assms(1) by simp_all
  ultimately show ?thesis
    unfolding ipv4_icmp_def using assms verdict reads seal_v4_verifies [of msg] by simp
qed

lemma seal_v6_reads:
  assumes "48 \<le> length msg" "length msg \<le> 65535" "msg ! 0 = 0x60"
    and "unat (from_be16 (msg ! 4) (msg ! 5)) + 40 = length msg"
    and "msg ! 6 = 58" "msg ! 7 = 64" "msg ! 42 = 0" "msg ! 43 = 0"
  shows "ipv6_icmp (take 16 (drop 8 msg)) (take 16 (drop 24 msg)) (msg ! 40) (msg ! 41)
    (take 4 (drop 44 msg)) (drop 48 msg) (seal_v6 msg)"
proof -
  have reads: "seal_v6 msg ! i = msg ! i" if "i \<in> {0, 4, 5, 6, 7, 40, 41}" for i
    using that assms(1) by (auto intro!: nth_seal_v6)
  have ne: "seal_v6 msg \<noteq> []"
    using assms(1) length_seal_v6 [of msg] by fastforce
  have verdict: "verdict (seal_v6 msg) = Inr 6"
    using assms(1,3) reads ne by (simp add: verdict_def version_of_def header_len_defs)
  have "drop 48 (seal_v6 msg) = drop 48 msg"
    using range_seal_v6 [of msg "length msg" 48] assms(1) by simp
  moreover have "take 16 (drop 8 (seal_v6 msg)) = take 16 (drop 8 msg)"
    "take 16 (drop 24 (seal_v6 msg)) = take 16 (drop 24 msg)"
    "take 4 (drop 44 (seal_v6 msg)) = take 4 (drop 44 msg)"
    using range_seal_v6 [of msg 24 8] range_seal_v6 [of msg 40 24] range_seal_v6 [of msg 48 44]
      assms(1) by simp_all
  ultimately show ?thesis
    unfolding ipv6_icmp_def using assms verdict reads seal_v6_verifies [of msg] by simp
qed

lemma length_field:
  "n < 65536 \<Longrightarrow> unat (from_be16 (to_be16 (word_of_nat n) ! 0) (to_be16 (word_of_nat n) ! Suc 0)) = n"
  using to_be16_roundtrip [of "word_of_nat n"] by (simp add: unsigned_of_nat take_bit_nat_eq_self_iff)

text \<open>The bodies, field by field.\<close>

lemma frag_needed_body_reads:
  fixes packet :: bytes and mtu :: u16
  assumes "20 \<le> length packet"
  defines "msg \<equiv> frag_needed_body packet mtu" and "quoted \<equiv> take 548 packet"
  shows "length msg = 28 + length quoted" "msg ! 0 = 0x45"
    "unat (from_be16 (msg ! 2) (msg ! 3)) = length msg" "msg ! 8 = 64" "msg ! 9 = 1"
    "msg ! 10 = 0" "msg ! 11 = 0" "msg ! 22 = 0" "msg ! 23 = 0" "msg ! 20 = 3" "msg ! 21 = 4"
    "take 4 (drop 12 msg) = take 4 (drop 16 packet)" "take 4 (drop 16 msg) = take 4 (drop 12 packet)"
    "take 4 (drop 24 msg) = to_be16 mtu @ [0, 0]" "drop 28 msg = quoted"
proof -
  have q: "length quoted \<le> 548"
    by (simp add: quoted_def)
  have body: "msg = patch 28 quoted (patch 24 (to_be16 mtu)
      ((patch 16 (take 4 (drop 12 packet)) (patch 12 (take 4 (drop 16 packet))
        ((patch 2 (to_be16 (word_of_nat (28 + length quoted)))
          ((replicate (28 + length quoted) 0)[0 := 0x45]))[8 := 64, 9 := 1])))[20 := 3, 21 := 4]))"
    unfolding msg_def frag_needed_body_def quoted_def Let_def ..
  note len = assms(1)
  show length: "length msg = 28 + length quoted"
    using len unfolding body by simp
  show "msg ! 0 = 0x45" "msg ! 8 = 64" "msg ! 9 = 1" "msg ! 10 = 0" "msg ! 11 = 0"
    "msg ! 22 = 0" "msg ! 23 = 0" "msg ! 20 = 3" "msg ! 21 = 4"
    using len unfolding body by (simp_all add: nth_patch)
  have "msg ! 2 = to_be16 (word_of_nat (28 + length quoted)) ! 0"
    "msg ! 3 = to_be16 (word_of_nat (28 + length quoted)) ! Suc 0"
    using len unfolding body by (simp_all add: nth_patch del: of_nat_add)
  then show "unat (from_be16 (msg ! 2) (msg ! 3)) = length msg"
    using q by (simp only: length length_field)
  show "take 4 (drop 12 msg) = take 4 (drop 16 packet)" "take 4 (drop 16 msg) = take 4 (drop 12 packet)"
    using len unfolding body by (simp_all add: field_reads del: drop_take)
  show "drop 28 msg = quoted"
    unfolding body using len by (intro drop_patch_end) simp
  show "take 4 (drop 24 msg) = to_be16 mtu @ [0, 0]"
    using len unfolding body by (subst range4) (simp_all add: nth_patch to_be16_def)
qed

lemma too_big_body_reads:
  fixes packet :: bytes and mtu :: u16
  assumes "40 \<le> length packet"
  defines "msg \<equiv> too_big_body packet mtu" and "quoted \<equiv> take 1232 packet"
  shows "length msg = 48 + length quoted" "msg ! 0 = 0x60"
    "unat (from_be16 (msg ! 4) (msg ! 5)) + 40 = length msg" "msg ! 6 = 58" "msg ! 7 = 64"
    "msg ! 42 = 0" "msg ! 43 = 0" "msg ! 40 = 2" "msg ! 41 = 0"
    "take 16 (drop 8 msg) = take 16 (drop 24 packet)" "take 16 (drop 24 msg) = take 16 (drop 8 packet)"
    "take 4 (drop 44 msg) = to_be32 (ucast mtu)" "drop 48 msg = quoted"
proof -
  have q: "length quoted \<le> 1232"
    by (simp add: quoted_def)
  have body: "msg = patch 48 quoted (patch 44 (to_be32 (ucast mtu))
      ((patch 24 (take 16 (drop 8 packet)) (patch 8 (take 16 (drop 24 packet))
        ((patch 4 (to_be16 (word_of_nat (8 + length quoted)))
          ((replicate (48 + length quoted) 0)[0 := 0x60]))[6 := 58, 7 := 64])))[40 := 2, 41 := 0]))"
    unfolding msg_def too_big_body_def quoted_def Let_def ..
  note len = assms(1)
  show length: "length msg = 48 + length quoted"
    using len unfolding body by simp
  show "msg ! 0 = 0x60" "msg ! 6 = 58" "msg ! 7 = 64" "msg ! 42 = 0" "msg ! 43 = 0"
    "msg ! 40 = 2" "msg ! 41 = 0"
    using len unfolding body by (simp_all add: nth_patch)
  have "msg ! 4 = to_be16 (word_of_nat (8 + length quoted)) ! 0"
    "msg ! 5 = to_be16 (word_of_nat (8 + length quoted)) ! Suc 0"
    using len unfolding body by (simp_all add: nth_patch del: of_nat_add)
  then have "unat (from_be16 (msg ! 4) (msg ! 5)) = 8 + length quoted"
    using q by (simp only: length_field)
  then show "unat (from_be16 (msg ! 4) (msg ! 5)) + 40 = length msg"
    by (simp add: length)
  show "take 16 (drop 8 msg) = take 16 (drop 24 packet)"
    "take 16 (drop 24 msg) = take 16 (drop 8 packet)" "take 4 (drop 44 msg) = to_be32 (ucast mtu)"
    using len unfolding body by (simp_all add: field_reads del: drop_take)
  show "drop 48 msg = quoted"
    unfolding body using len by (intro drop_patch_end) simp
qed

lemma echo_v4_body_reads:
  fixes s d :: u32 and sequence :: u16
  defines "msg \<equiv> echo_v4_body s d sequence"
  shows "length msg = 28" "msg ! 0 = 0x45" "unat (from_be16 (msg ! 2) (msg ! 3)) = 28"
    "msg ! 8 = 64" "msg ! 9 = 1" "msg ! 10 = 0" "msg ! 11 = 0" "msg ! 22 = 0" "msg ! 23 = 0"
    "msg ! 20 = ICMP_TYPE_ECHO_REQUEST" "msg ! 21 = 0"
    "take 4 (drop 12 msg) = v4_octets s" "take 4 (drop 16 msg) = v4_octets d"
    "take 4 (drop 24 msg) = to_be16 ECHO_IDENTIFIER @ to_be16 sequence"
proof -
  show "length msg = 28"
    by (simp add: msg_def echo_v4_body_def)
  show "msg ! 0 = 0x45" "msg ! 8 = 64" "msg ! 9 = 1" "msg ! 10 = 0" "msg ! 11 = 0"
    "msg ! 22 = 0" "msg ! 23 = 0" "msg ! 20 = ICMP_TYPE_ECHO_REQUEST" "msg ! 21 = 0"
    unfolding msg_def echo_v4_body_def by (simp_all add: nth_patch icmp_consts)
  have "msg ! 2 = to_be16 28 ! 0" "msg ! 3 = to_be16 28 ! Suc 0"
    unfolding msg_def echo_v4_body_def by (simp_all add: nth_patch)
  then show "unat (from_be16 (msg ! 2) (msg ! 3)) = 28"
    using length_field [of 28] by simp
  show "take 4 (drop 12 msg) = v4_octets s" "take 4 (drop 16 msg) = v4_octets d"
    unfolding msg_def echo_v4_body_def by (simp_all add: field_reads del: drop_take)
  show "take 4 (drop 24 msg) = to_be16 ECHO_IDENTIFIER @ to_be16 sequence"
    unfolding msg_def echo_v4_body_def by (subst range4) (simp_all add: nth_patch to_be16_def)
qed

lemma echo_v6_body_reads:
  fixes s d :: "128 word" and sequence :: u16
  defines "msg \<equiv> echo_v6_body s d sequence"
  shows "length msg = 48" "msg ! 0 = 0x60" "unat (from_be16 (msg ! 4) (msg ! 5)) + 40 = 48"
    "msg ! 6 = 58" "msg ! 7 = 64" "msg ! 42 = 0" "msg ! 43 = 0"
    "msg ! 40 = ICMPV6_TYPE_ECHO_REQUEST" "msg ! 41 = 0"
    "take 16 (drop 8 msg) = v6_octets s" "take 16 (drop 24 msg) = v6_octets d"
    "take 4 (drop 44 msg) = to_be16 ECHO_IDENTIFIER @ to_be16 sequence"
proof -
  show "length msg = 48"
    by (simp add: msg_def echo_v6_body_def)
  show "msg ! 0 = 0x60" "msg ! 6 = 58" "msg ! 7 = 64" "msg ! 42 = 0" "msg ! 43 = 0"
    "msg ! 40 = ICMPV6_TYPE_ECHO_REQUEST" "msg ! 41 = 0"
    unfolding msg_def echo_v6_body_def by (simp_all add: nth_patch icmp_consts)
  have "msg ! 4 = to_be16 8 ! 0" "msg ! 5 = to_be16 8 ! Suc 0"
    unfolding msg_def echo_v6_body_def by (simp_all add: nth_patch)
  then show "unat (from_be16 (msg ! 4) (msg ! 5)) + 40 = 48"
    using length_field [of 8] by simp
  show "take 16 (drop 8 msg) = v6_octets s" "take 16 (drop 24 msg) = v6_octets d"
    unfolding msg_def echo_v6_body_def by (simp_all add: field_reads del: drop_take)
  show "take 4 (drop 44 msg) = to_be16 ECHO_IDENTIFIER @ to_be16 sequence"
    unfolding msg_def echo_v6_body_def by (subst range4) (simp_all add: nth_patch to_be16_def)
qed

lemma compose_icmp_too_large_eq:
  "compose_icmp_too_large packet mtu = Some
     (case verdict packet of
        Inl _ \<Rightarrow> None
      | Inr v \<Rightarrow> Some (if v = 4 then seal_v4 (frag_needed_body packet mtu)
                       else seal_v6 (too_big_body packet mtu)))"
  by (auto simp: compose_icmp_too_large_def verdict_def panic_simps version_of_def header_len_defs
      compose_ipv4_frag_needed_eq compose_ipv6_packet_too_big_eq split: if_splits)

section \<open>Properties\<close>

text \<open>
  C35. An Echo Request between two addresses of one family is a complete IP packet that the
  receiver's check accepts: total length, TTL, protocol, addresses, type, identifier and
  sequence number are in their fields, there is no payload, and the IP and ICMP checksums
  (over the pseudo header for IPv6) verify. Addresses of different families give no packet,
  and no case panics.
\<close>

theorem compose_echo_request_spec:
  "(\<exists>out. compose_echo_request (V4 s) (V4 d) n = Some (Some out) \<and> length out = 28
      \<and> ipv4_icmp (v4_octets s) (v4_octets d) ICMP_TYPE_ECHO_REQUEST 0
          (to_be16 ECHO_IDENTIFIER @ to_be16 n) [] out)
   \<and> (\<exists>out. compose_echo_request (V6 s') (V6 d') n = Some (Some out) \<and> length out = 48
      \<and> ipv6_icmp (v6_octets s') (v6_octets d') ICMPV6_TYPE_ECHO_REQUEST 0
          (to_be16 ECHO_IDENTIFIER @ to_be16 n) [] out)
   \<and> compose_echo_request (V4 s) (V6 d') n = Some None
   \<and> compose_echo_request (V6 s') (V4 d) n = Some None"
  using seal_v4_reads [of "echo_v4_body s d n"] seal_v6_reads [of "echo_v6_body s' d' n"]
  by (simp add: compose_echo_request_def compose_echo_v4_eq compose_echo_v6_eq
      echo_v4_body_reads echo_v6_body_reads)

text \<open>
  C30. The reply to an IPv4 packet that does not fit is a Fragmentation Needed message of at most
  576 bytes, from the packet's destination to its source, that quotes the first 548 bytes of
  the packet, carries the MTU in the first half of the rest-of-header word, and verifies.
\<close>

theorem compose_icmp_too_large_v4:
  assumes "version_of packet = 4" "IPV4_HEADER_LEN \<le> length packet"
  shows "\<exists>out. compose_icmp_too_large packet mtu = Some (Some out) \<and> length out \<le> 576
    \<and> ipv4_icmp (take 4 (drop 16 packet)) (take 4 (drop 12 packet))
        ICMP_TYPE_DEST_UNREACHABLE ICMP_CODE_FRAG_NEEDED (to_be16 mtu @ [0, 0])
        (take 548 packet) out"
proof -
  have len: "20 \<le> length packet"
    using assms by (simp add: IPV4_HEADER_LEN_def)
  then have "verdict packet = Inr 4"
    using assms by (auto simp: verdict_def min_header_len_def)
  then show ?thesis
    using seal_v4_reads [of "frag_needed_body packet mtu"]
    by (simp add: compose_icmp_too_large_eq frag_needed_body_reads [OF len] icmp_consts)
qed

text \<open>
  C29. The reply to an IPv6 packet that does not fit is a Packet Too Big message of at most 1280
  bytes, from the packet's destination to its source, that quotes the first 1232 bytes of
  the packet, carries the MTU as a 32-bit number, and verifies over the pseudo header.
\<close>

theorem compose_icmp_too_large_v6:
  assumes "version_of packet = 6" "IPV6_HEADER_LEN \<le> length packet"
  shows "\<exists>out. compose_icmp_too_large packet mtu = Some (Some out) \<and> length out \<le> 1280
    \<and> ipv6_icmp (take 16 (drop 24 packet)) (take 16 (drop 8 packet))
        ICMPV6_TYPE_PACKET_TOO_BIG 0 (to_be32 (ucast mtu)) (take 1232 packet) out"
proof -
  have len: "40 \<le> length packet"
    using assms by (simp add: IPV6_HEADER_LEN_def)
  then have "verdict packet = Inr 6"
    using assms by (auto simp: verdict_def min_header_len_def)
  then show ?thesis
    using seal_v6_reads [of "too_big_body packet mtu"]
    by (simp add: compose_icmp_too_large_eq too_big_body_reads [OF len] icmp_consts)
qed

section \<open>The properties at concrete packets\<close>

text \<open>An empty UDP datagram from 2001:db8::1 to 2001:db8::2 with hop limit 63.\<close>

definition sample_ipv6 :: bytes where
  "sample_ipv6 = [0x60, 0, 0, 0, 0, 0, 17, 63,
     0x20, 0x01, 0x0d, 0xb8, 0, 0, 0, 0, 0, 0, 0, 0, 0, 0, 0, 1,
     0x20, 0x01, 0x0d, 0xb8, 0, 0, 0, 0, 0, 0, 0, 0, 0, 0, 0, 2]"

lemma sample_packets:
  "version_of sample_ipv4 = 4" "IPV4_HEADER_LEN \<le> length sample_ipv4"
  "version_of sample_ipv6 = 6" "IPV6_HEADER_LEN \<le> length sample_ipv6"
  by (simp_all add: sample_ipv4_def sample_ipv6_def version_of_def icmp_consts)

theorem compose_icmp_too_large_v4_witness:
  "\<exists>out. compose_icmp_too_large sample_ipv4 1280 = Some (Some out) \<and> length out \<le> 576
    \<and> take 4 (drop 12 out) = [198, 51, 100, 2] \<and> take 4 (drop 16 out) = [192, 0, 2, 1]
    \<and> take 4 (drop 24 out) = [5, 0, 0, 0] \<and> drop 28 out = sample_ipv4 \<and> checksum (drop 20 out) = 0"
  using compose_icmp_too_large_v4 [OF sample_packets(1,2), of 1280]
  by (auto simp: ipv4_icmp_def sample_ipv4_def to_be16_def)

theorem compose_icmp_too_large_v6_witness:
  "\<exists>out. compose_icmp_too_large sample_ipv6 1280 = Some (Some out) \<and> length out \<le> 1280
    \<and> out ! 40 = 2 \<and> take 4 (drop 44 out) = [0, 0, 5, 0] \<and> drop 48 out = sample_ipv6"
  using compose_icmp_too_large_v6 [OF sample_packets(3,4), of 1280]
  by (auto simp: ipv6_icmp_def sample_ipv6_def to_be32_def icmp_consts)

end
