(* ===== verification/Timing.thy ===== *)
theory Timing
  imports Prelude
begin

text \<open>
  \<open>api/masque/timing.rs\<close>: when the next keepalive PING and the next path-MTU probe are due, and
  the inner MTU that a validated path MTU leaves for the TUN device. Durations are nanoseconds.
\<close>

definition keepalive_remaining :: "duration \<Rightarrow> duration \<Rightarrow> duration option" where
  "keepalive_remaining period since_last_probe =
     (if period = 0 then None else Some (period - since_last_probe))"

definition pmtud_remaining :: "bool \<Rightarrow> duration \<Rightarrow> duration \<Rightarrow> duration option" where
  "pmtud_remaining enabled period since_last_probe =
     (if \<not> enabled \<or> period = 0 then None else Some (period - since_last_probe))"

definition cap_tun_mtu :: "nat \<Rightarrow> nat \<Rightarrow> u16 \<Rightarrow> u16 option" where
  "cap_tun_mtu writable masque_context_len maximum =
     do {
       inner \<leftarrow> checked_sub writable masque_context_len;
       Some (word_of_nat (min (min inner (unat maximum)) u16_max))
     }"

text \<open>
  \<open>pmtu\<close> and \<open>dgram_max_writable_len\<close> are the two questions asked of the QUIC connection.
\<close>

definition discovered_tun_mtu ::
    "('c \<Rightarrow> nat option) \<Rightarrow> ('c \<Rightarrow> nat option) \<Rightarrow> 'c \<Rightarrow> nat \<Rightarrow> u16 \<Rightarrow> u16 option" where
  "discovered_tun_mtu pmtu dgram_max_writable_len conn masque_context_len maximum =
     do {
       _ \<leftarrow> pmtu conn;
       writable \<leftarrow> dgram_max_writable_len conn;
       cap_tun_mtu writable masque_context_len maximum
     }"

section \<open>The cap\<close>

lemma cap_tun_mtu_eq:
  "cap_tun_mtu writable ctx maximum =
     (if ctx \<le> writable then Some (word_of_nat (min (writable - ctx) (unat maximum))) else None)"
  using u16_lt [of maximum]
  by (auto simp: cap_tun_mtu_def checked_sub_def u16_max_def)

lemma unat_cap:
  "unat (word_of_nat (min k (unat maximum)) :: u16) = min k (unat maximum)" for maximum :: u16
  using u16_lt [of maximum] by (simp add: unat_of_nat)

lemma discovered_tun_mtu_fits:
  assumes "discovered_tun_mtu pmtu writable conn ctx maximum = Some m"
  shows "\<exists>w. writable conn = Some w \<and> unat m + ctx \<le> w \<and> m \<le> maximum
    \<and> (unat m + ctx = w \<or> m = maximum)"
proof -
  obtain w where w: "writable conn = Some w" "cap_tun_mtu w ctx maximum = Some m"
    using assms by (auto simp: discovered_tun_mtu_def bind_eq_Some_conv)
  then have "ctx \<le> w" "m = word_of_nat (min (w - ctx) (unat maximum))"
    by (simp_all add: cap_tun_mtu_eq split: if_splits)
  then have "ctx \<le> w" "unat m = min (w - ctx) (unat maximum)"
    by (simp_all only: unat_cap)
  then show ?thesis
    using w(1) by (auto simp: word_le_nat_alt word_unat_eq_iff min_def split: if_splits)
qed

lemma discovered_tun_mtu_None:
  "discovered_tun_mtu pmtu writable conn ctx maximum = None \<longleftrightarrow>
     pmtu conn = None \<or> writable conn = None \<or> the (writable conn) < ctx"
  by (cases "pmtu conn"; cases "writable conn")
    (auto simp: discovered_tun_mtu_def cap_tun_mtu_eq)

section \<open>The probe clock\<close>

text \<open>
  Sleeping for the remaining time and asking again finds the probe due; a period of zero, and a
  disabled PMTUD, never make one due.
\<close>

lemma keepalive_due_after_remaining:
  "keepalive_remaining period since = Some r \<Longrightarrow>
     r \<le> period \<and> keepalive_remaining period (since + r) = Some 0
     \<and> (\<forall>t < r. keepalive_remaining period (since + t) \<noteq> Some 0)"
  by (auto simp: keepalive_remaining_def split: if_splits)

lemma pmtud_is_keepalive_when_enabled:
  "pmtud_remaining enabled period since = (if enabled then keepalive_remaining period since else None)"
  by (simp add: pmtud_remaining_def keepalive_remaining_def)

end
