(* ===== verification/Socket_Buffer.thy ===== *)
theory Socket_Buffer
  imports Prelude
begin

text \<open>
  \<open>tune_socket_buffer\<close> of \<open>api/masque/udp.rs\<close>: the negotiation of the kernel's socket buffer size.
  The two closures the source is given, which read and set the socket option, are operations on a
  socket state \<open>'s\<close> with errors \<open>'e\<close>.
\<close>

definition MIN_UDP_SOCKET_BUFFER :: nat where "MIN_UDP_SOCKET_BUFFER = 64 * 1024"
definition UDP_SOCKET_BUFFER_SEARCH_GRANULARITY :: nat where
  "UDP_SOCKET_BUFFER_SEARCH_GRANULARITY = 64 * 1024"

record 'e socket_buffer_tuning =
  sb_initial :: nat
  sb_effective :: nat
  sb_target :: nat
  sb_target_accepted :: bool
  sb_limit_error :: "'e option"

text \<open>
  The binary search between the largest accepted size and the smallest rejected one. It returns
  the effective size and the error of the last rejection; a failing \<open>get_size\<close> ends it.
\<close>

definition refine_midpoint :: "nat \<Rightarrow> nat \<Rightarrow> nat" where
  "refine_midpoint low high =
     (low + (high - low) div 2) div UDP_SOCKET_BUFFER_SEARCH_GRANULARITY
       * UDP_SOCKET_BUFFER_SEARCH_GRANULARITY"

lemma refine_midpoint_lt:
  assumes "UDP_SOCKET_BUFFER_SEARCH_GRANULARITY < high - low"
  shows "refine_midpoint low high < high"
proof -
  have "refine_midpoint low high \<le> low + (high - low) div 2"
    by (simp add: refine_midpoint_def)
  then show ?thesis
    using assms by simp
qed

lemma refine_shrinks:
  assumes "UDP_SOCKET_BUFFER_SEARCH_GRANULARITY < high - low" "\<not> refine_midpoint low high \<le> low"
  shows "refine_midpoint low high - low < high - low" "high - refine_midpoint low high < high - low"
  using assms refine_midpoint_lt [OF assms(1)] by simp_all

function refine_limit ::
    "('s, 'e, nat) op \<Rightarrow> (nat \<Rightarrow> ('s, 'e, unit) op) \<Rightarrow> nat \<Rightarrow> nat \<Rightarrow> nat \<Rightarrow> 'e \<Rightarrow> ('s, 'e, nat \<times> 'e) op" where
  "refine_limit get_size set_size low high effective limit_error s =
     (if high - low > UDP_SOCKET_BUFFER_SEARCH_GRANULARITY then
        (let midpoint = refine_midpoint low high in
         if midpoint \<le> low then (Inr (effective, limit_error), s)
         else
           (case set_size midpoint s of
              (Inr _, s1) \<Rightarrow>
                (case get_size s1 of
                   (Inl e, s2) \<Rightarrow> (Inl e, s2)
                 | (Inr got, s2) \<Rightarrow> refine_limit get_size set_size midpoint high got limit_error s2)
            | (Inl err, s1) \<Rightarrow> refine_limit get_size set_size low midpoint effective err s1))
      else (Inr (effective, limit_error), s))"
  by pat_completeness auto
termination
  by (relation "measure (\<lambda>(get_size, set_size, low, high, effective, limit_error, s). high - low)")
    (simp_all add: refine_shrinks)

declare refine_limit.simps [simp del]

text \<open>
  The doubling loop. It need not end for an arbitrary candidate, so not returning is \<open>None\<close>.
\<close>

partial_function (option) grow_buffer ::
    "('s, 'e, nat) op \<Rightarrow> (nat \<Rightarrow> ('s, 'e, unit) op) \<Rightarrow> nat \<Rightarrow> nat \<Rightarrow> nat \<Rightarrow> nat option \<Rightarrow> nat \<Rightarrow> 's
      \<Rightarrow> (('e + 'e socket_buffer_tuning) \<times> 's) option" where
  "grow_buffer get_size set_size initial target effective accepted_request candidate s =
     (case (if candidate > initial then
              (case set_size candidate s of
                 (Inr _, s1) \<Rightarrow>
                   (case get_size s1 of
                      (Inl e, s2) \<Rightarrow> Inl (Inl e, s2)
                    | (Inr got, s2) \<Rightarrow> Inr (got, Some candidate, s2))
               | (Inl limit_error, s1) \<Rightarrow>
                   (case (case accepted_request of
                            Some low \<Rightarrow> refine_limit get_size set_size low candidate effective limit_error s1
                          | None \<Rightarrow> (Inr (effective, limit_error), s1)) of
                      (Inl e, s2) \<Rightarrow> Inl (Inl e, s2)
                    | (Inr (got, err), s2) \<Rightarrow>
                        Inl (Inr \<lparr>sb_initial = initial, sb_effective = got, sb_target = target,
                                  sb_target_accepted = False, sb_limit_error = Some err\<rparr>, s2)))
            else Inr (effective, accepted_request, s)) of
        Inl returned \<Rightarrow> Some returned
      | Inr (effective, accepted_request, s) \<Rightarrow>
          if candidate = target then
            Some (Inr \<lparr>sb_initial = initial, sb_effective = effective, sb_target = target,
                       sb_target_accepted = True, sb_limit_error = None\<rparr>, s)
          else grow_buffer get_size set_size initial target effective accepted_request
                 (min (usize_saturating_mul candidate 2) target) s)"

definition tune_socket_buffer ::
    "('s, 'e, nat) op \<Rightarrow> (nat \<Rightarrow> ('s, 'e, unit) op) \<Rightarrow> nat \<Rightarrow> 's
      \<Rightarrow> (('e + 'e socket_buffer_tuning) \<times> 's) option" where
  "tune_socket_buffer get_size set_size requested_target s =
     (let target = max requested_target MIN_UDP_SOCKET_BUFFER in
      case get_size s of
        (Inl e, s1) \<Rightarrow> Some (Inl e, s1)
      | (Inr initial, s1) \<Rightarrow>
          if initial \<ge> target then
            Some (Inr \<lparr>sb_initial = initial, sb_effective = initial, sb_target = target,
                       sb_target_accepted = True, sb_limit_error = None\<rparr>, s1)
          else grow_buffer get_size set_size initial target initial None MIN_UDP_SOCKET_BUFFER s1)"

section \<open>The negotiation ends\<close>

definition grow_next :: "nat \<Rightarrow> nat \<Rightarrow> nat" where
  "grow_next target candidate = min (usize_saturating_mul candidate 2) target"

text \<open>What the body of the loop does with a candidate: return, or go on with a size in force.\<close>

definition grow_try ::
    "('s, 'e, nat) op \<Rightarrow> (nat \<Rightarrow> ('s, 'e, unit) op) \<Rightarrow> nat \<Rightarrow> nat \<Rightarrow> nat \<Rightarrow> nat option \<Rightarrow> nat \<Rightarrow> 's
      \<Rightarrow> (('e + 'e socket_buffer_tuning) \<times> 's) + (nat \<times> nat option \<times> 's)" where
  "grow_try get_size set_size initial target effective accepted candidate s =
     (if candidate > initial then
        (case set_size candidate s of
           (Inr _, s1) \<Rightarrow>
             (case get_size s1 of
                (Inl e, s2) \<Rightarrow> Inl (Inl e, s2)
              | (Inr got, s2) \<Rightarrow> Inr (got, Some candidate, s2))
         | (Inl limit_error, s1) \<Rightarrow>
             (case (case accepted of
                      Some low \<Rightarrow> refine_limit get_size set_size low candidate effective limit_error s1
                    | None \<Rightarrow> (Inr (effective, limit_error), s1)) of
                (Inl e, s2) \<Rightarrow> Inl (Inl e, s2)
              | (Inr (got, err), s2) \<Rightarrow>
                  Inl (Inr \<lparr>sb_initial = initial, sb_effective = got, sb_target = target,
                            sb_target_accepted = False, sb_limit_error = Some err\<rparr>, s2)))
      else Inr (effective, accepted, s))"

lemmas grow_step = grow_buffer.simps [folded grow_next_def grow_try_def]

lemma grow_next_between:
  "0 < candidate \<Longrightarrow> candidate < target \<Longrightarrow> target \<le> usize_max \<Longrightarrow>
     candidate < grow_next target candidate \<and> grow_next target candidate \<le> target
     \<and> grow_next target candidate = min (2 * candidate) target"
  by (auto simp: grow_next_def usize_saturating_mul_def)

lemma grow_next_nearer:
  "0 < candidate \<Longrightarrow> candidate < target \<Longrightarrow> target \<le> usize_max \<Longrightarrow>
     target - grow_next target candidate < target - candidate"
  using grow_next_between [of candidate target] diff_less_mono2 by blast

lemma grow_buffer_total:
  "0 < candidate \<Longrightarrow> candidate \<le> target \<Longrightarrow> target \<le> usize_max \<Longrightarrow>
     \<exists>r. grow_buffer get_size set_size initial target effective accepted candidate s = Some r"
proof (induction "target - candidate" arbitrary: effective accepted candidate s rule: less_induct)
  case less
  show ?case
  proof (cases "candidate = target")
    case True
    then show ?thesis
      by (subst grow_step) (simp split: sum.split prod.split option.split)
  next
    case False
    then have next_lt: "candidate < grow_next target candidate" "grow_next target candidate \<le> target"
      using less.prems grow_next_between [of candidate target] by simp_all
    then have "\<exists>r. grow_buffer get_size set_size initial target e a (grow_next target candidate) t = Some r"
      for e a t
      using less.prems False by (intro less.hyps) simp_all
    then show ?thesis
      by (subst grow_step) (simp split: sum.split prod.split option.split)
  qed
qed

section \<open>On a kernel with a limit\<close>

text \<open>
  A kernel that grants exactly the sizes up to \<open>cap\<close>, as FreeBSD does for
  \<open>kern.ipc.maxsockbuf\<close>: \<open>current\<close> reads the size in force.
\<close>

definition capped_kernel ::
    "('s, 'e, nat) op \<Rightarrow> (nat \<Rightarrow> ('s, 'e, unit) op) \<Rightarrow> ('s \<Rightarrow> nat) \<Rightarrow> nat \<Rightarrow> bool" where
  "capped_kernel get_size set_size current cap \<longleftrightarrow>
     (\<forall>s. get_size s = (Inr (current s), s))
     \<and> (\<forall>n s. if n \<le> cap then fst (set_size n s) = Inr () \<and> current (snd (set_size n s)) = n
            else \<not> is_ok (fst (set_size n s)) \<and> current (snd (set_size n s)) = current s)"

lemma capped_get: "capped_kernel get_size set_size current cap \<Longrightarrow> get_size s = (Inr (current s), s)"
  by (simp add: capped_kernel_def)

lemma capped_grant:
  "capped_kernel get_size set_size current cap \<Longrightarrow> n \<le> cap
   \<Longrightarrow> \<exists>s'. set_size n s = (Inr (), s') \<and> current s' = n"
  by (auto simp: capped_kernel_def prod_eq_iff split: if_splits)

lemma capped_refuse:
  assumes "capped_kernel get_size set_size current cap" "cap < n"
  shows "\<exists>e s'. set_size n s = (Inl e, s') \<and> current s' = current s"
proof -
  have "\<not> is_ok (fst (set_size n s))" "current (snd (set_size n s)) = current s"
    using assms by (auto simp: capped_kernel_def not_le [symmetric])
  then show ?thesis
    by (cases "set_size n s") (auto simp: is_ok_def split: sum.splits)
qed

abbreviation (input) granule :: nat where "granule \<equiv> UDP_SOCKET_BUFFER_SEARCH_GRANULARITY"

lemma refine_midpoint_stuck:
  assumes "granule dvd low" "refine_midpoint low high \<le> low" "granule < high - low"
  shows "high < low + 2 * granule" "\<not> granule dvd high"
proof -
  obtain k where k: "low = granule * k"
    using assms(1) by blast
  have "0 < granule"
    by (simp add: UDP_SOCKET_BUFFER_SEARCH_GRANULARITY_def)
  then have "refine_midpoint low high = low + (high - low) div 2 div granule * granule"
    by (simp add: refine_midpoint_def k add_mult_distrib)
  then have "(high - low) div 2 div granule = 0"
    using assms(2) \<open>0 < granule\<close> by simp
  then have "(high - low) div 2 < granule"
    using \<open>0 < granule\<close> by (simp add: div_eq_0_iff)
  then show high: "high < low + 2 * granule"
    by simp
  show "\<not> granule dvd high"
  proof
    assume "granule dvd high"
    then obtain j where "high = granule * j"
      by blast
    then have "granule * (k + 1) < granule * j" "granule * j < granule * (k + 2)"
      using high assms(3) k by (simp_all add: add_mult_distrib2)
    then have "k + 1 < j" "j < k + 2"
      by (simp_all only: nat_mult_less_cancel_disj)
    then show False
      by simp
  qed
qed

lemma refine_limit_capped:
  assumes kernel: "capped_kernel get_size set_size current cap"
  shows "low \<le> cap \<Longrightarrow> cap < high \<Longrightarrow> granule dvd low \<Longrightarrow> effective = low \<Longrightarrow> current s = low \<Longrightarrow>
    \<exists>eff err s'. refine_limit get_size set_size low high effective limit_error s = (Inr (eff, err), s')
      \<and> current s' = eff \<and> low \<le> eff \<and> eff \<le> cap \<and> cap < eff + 2 * granule
      \<and> (granule dvd high \<longrightarrow> cap < eff + granule)"
proof (induction "high - low" arbitrary: low high effective limit_error s rule: less_induct)
  case less
  let ?mid = "refine_midpoint low high"
  show ?case
  proof (cases "granule < high - low")
    case False
    then show ?thesis
      using less.prems by (subst refine_limit.simps) auto
  next
    case wide: True
    show ?thesis
    proof (cases "?mid \<le> low")
      case True
      then show ?thesis
        using less.prems wide refine_midpoint_stuck [OF less.prems(3) True wide]
        by (subst refine_limit.simps) auto
    next
      case False
      have dvd: "granule dvd ?mid"
        by (simp add: refine_midpoint_def)
      show ?thesis
      proof (cases "?mid \<le> cap")
        case True
        obtain s1 where s1: "set_size ?mid s = (Inr (), s1)" "current s1 = ?mid"
          using capped_grant [OF kernel True] by blast
        have step: "refine_limit get_size set_size low high effective limit_error s
            = refine_limit get_size set_size ?mid high ?mid limit_error s1"
          using wide False s1 capped_get [OF kernel, of s1] by (subst refine_limit.simps) (simp add: Let_def)
        show ?thesis
          unfolding step
          using less.hyps [OF refine_shrinks(2) [OF wide False] True less.prems(2) dvd refl s1(2)]
            less.prems(1) False
          by (fastforce intro: less_imp_le order.trans)
      next
        case over: False
        obtain e s1 where s1: "set_size ?mid s = (Inl e, s1)" "current s1 = low"
          using capped_refuse [OF kernel] over less.prems(5) by (metis not_le)
        have step: "refine_limit get_size set_size low high effective limit_error s
            = refine_limit get_size set_size low ?mid effective e s1"
          using wide False s1 by (subst refine_limit.simps) (simp add: Let_def)
        have "cap < ?mid"
          using over by simp
        then show ?thesis
          unfolding step
          using less.hyps [OF refine_shrinks(1) [OF wide False] less.prems(1) _ less.prems(3,4) s1(2)] dvd
          by fastforce
      qed
    qed
  qed
qed

text \<open>The sizes the doubling loop goes through, below the target.\<close>

definition doubling_step :: "nat \<Rightarrow> bool" where
  "doubling_step n \<longleftrightarrow> (\<exists>k. n = 65536 * 2 ^ k)"

lemma doubling_step_granule: "doubling_step n \<Longrightarrow> granule dvd n"
  by (auto simp: doubling_step_def UDP_SOCKET_BUFFER_SEARCH_GRANULARITY_def)

lemma doubling_step_first: "doubling_step 65536" "doubling_step n \<Longrightarrow> 65536 \<le> n"
  by (auto simp: doubling_step_def intro: exI [of _ 0])

lemma doubling_step_double: "doubling_step n \<Longrightarrow> doubling_step (2 * n)"
  unfolding doubling_step_def by (metis mult.left_commute power_Suc)

lemma doubling_step_gap:
  assumes "doubling_step m" "doubling_step n" "m < 2 * n"
  shows "m \<le> n"
proof -
  obtain j k where m: "m = 65536 * 2 ^ j" and n: "n = 65536 * 2 ^ k"
    using assms(1,2) unfolding doubling_step_def by blast
  have "(2::nat) ^ j < 2 ^ Suc k"
    using assms(3) m n by simp
  then have "j \<le> k"
    using power_less_imp_less_exp [of "2::nat" j "Suc k"] by simp
  then show ?thesis
    using m n power_increasing [of j k "2::nat"] by simp
qed

text \<open>There is a step between a default and a limit of at least twice the default.\<close>

lemma doubling_step_between:
  assumes "65536 \<le> cap" "2 * initial \<le> cap"
  shows "\<exists>m. doubling_step m \<and> initial < m \<and> m \<le> cap"
proof -
  define k where "k = (LEAST k. initial < 65536 * 2 ^ k)"
  have "initial < 65536 * 2 ^ initial"
    using less_exp [of initial] by linarith
  then have above: "initial < 65536 * 2 ^ k"
    unfolding k_def by (rule LeastI)
  have "65536 * 2 ^ k \<le> cap"
  proof (cases k)
    case (Suc j)
    then have "\<not> initial < 65536 * 2 ^ j"
      using not_less_Least [of j "\<lambda>k. initial < 65536 * 2 ^ k"] by (simp add: k_def)
    then show ?thesis
      using assms(2) Suc by simp
  qed (use assms(1) in simp)
  with above show ?thesis
    unfolding doubling_step_def by blast
qed

text \<open>
  The doubling loop on such a kernel. Before the first grant the size in force is the initial one, and
  no step up to it is above that; after a grant it is the granted candidate.
\<close>

definition grow_inv :: "('s \<Rightarrow> nat) \<Rightarrow> nat \<Rightarrow> nat \<Rightarrow> nat \<Rightarrow> nat \<Rightarrow> nat option \<Rightarrow> nat \<Rightarrow> 's \<Rightarrow> bool" where
  "grow_inv current cap initial target effective accepted candidate s \<longleftrightarrow>
     0 < candidate \<and> candidate \<le> target \<and> current s = effective
     \<and> (candidate \<noteq> target \<longrightarrow> doubling_step candidate)
     \<and> (case accepted of
          None \<Rightarrow> effective = initial \<and> (\<forall>m. doubling_step m \<longrightarrow> m < candidate \<longrightarrow> m \<le> initial)
        | Some a \<Rightarrow> effective = a \<and> a \<le> cap \<and> doubling_step a \<and> initial < a \<and> a < candidate)"

definition grown :: "('s \<Rightarrow> nat) \<Rightarrow> nat \<Rightarrow> nat \<Rightarrow> nat \<Rightarrow> 'e socket_buffer_tuning \<Rightarrow> 's \<Rightarrow> bool" where
  "grown current cap initial target t s \<longleftrightarrow>
     sb_initial t = initial \<and> sb_target t = target \<and> sb_effective t = current s
     \<and> initial \<le> sb_effective t
     \<and> (if target \<le> cap
        then sb_target_accepted t \<and> sb_limit_error t = None \<and> sb_effective t = target
        else \<not> sb_target_accepted t \<and> sb_limit_error t \<noteq> None
          \<and> (if \<exists>m. doubling_step m \<and> initial < m \<and> m \<le> cap
              then sb_effective t \<le> cap \<and> cap < sb_effective t + 2 * granule
                \<and> (granule dvd target \<longrightarrow> cap < sb_effective t + granule)
              else sb_effective t = initial))"

definition grow_at :: "('s \<Rightarrow> nat) \<Rightarrow> nat \<Rightarrow> nat \<Rightarrow> nat \<Rightarrow> nat \<Rightarrow> nat \<times> nat option \<times> 's \<Rightarrow> bool" where
  "grow_at current cap initial target candidate = (\<lambda>(e, acc, u).
     current u = e \<and> (candidate = target \<longrightarrow> e = target \<and> target \<le> cap)
     \<and> (case acc of
          None \<Rightarrow> e = initial \<and> candidate \<le> initial
        | Some a \<Rightarrow> e = a \<and> a \<le> cap \<and> doubling_step a \<and> initial < a \<and> a \<le> candidate \<or> candidate = target))"

lemma grow_try_refused:
  assumes kernel: "capped_kernel get_size set_size current cap"
    and inv: "grow_inv current cap initial target effective accepted candidate s"
    and over: "initial < candidate" "cap < candidate"
  shows "\<exists>t s'. grow_try get_size set_size initial target effective accepted candidate s = Inl (Inr t, s')
    \<and> grown current cap initial target t s'"
proof -
  obtain e s1 where s1: "set_size candidate s = (Inl e, s1)" "current s1 = effective"
    using capped_refuse [OF kernel over(2), of s] inv by (auto simp: grow_inv_def)
  show ?thesis
  proof (cases accepted)
    case None
    then have "\<not> (\<exists>m. doubling_step m \<and> initial < m \<and> m \<le> cap)"
      using inv over(2) by (auto simp: grow_inv_def not_le [symmetric] intro: order_le_less_trans)
    then show ?thesis
      using None s1 over inv by (auto simp: grow_try_def grown_def grow_inv_def)
  next
    case (Some a)
    with inv have a: "effective = a" "a \<le> cap" "doubling_step a" "initial < a"
      by (simp_all add: grow_inv_def)
    have grid: "candidate = target \<or> granule dvd candidate"
      using inv doubling_step_granule by (auto simp: grow_inv_def)
    obtain eff err s' where "refine_limit get_size set_size a candidate effective e s1 = (Inr (eff, err), s')"
      and facts: "current s' = eff" "a \<le> eff" "eff \<le> cap" "cap < eff + 2 * granule"
        "granule dvd candidate \<longrightarrow> cap < eff + granule"
      using refine_limit_capped [OF kernel, of a candidate effective s1 e] a over s1(2) doubling_step_granule [OF a(3)] by auto
    then have "grow_try get_size set_size initial target effective accepted candidate s =
        Inl (Inr \<lparr>sb_initial = initial, sb_effective = eff, sb_target = target, sb_target_accepted = False,
          sb_limit_error = Some err\<rparr>, s')"
      using Some s1 over(1) by (simp add: grow_try_def)
    moreover have "cap < target"
      using inv over(2) by (simp add: grow_inv_def)
    moreover have "granule dvd target \<longrightarrow> cap < eff + granule"
      using facts(5) grid by blast
    ultimately show ?thesis
      using a facts unfolding grown_def by auto
  qed
qed

lemma grow_try_goes_on:
  assumes kernel: "capped_kernel get_size set_size current cap" and "initial < target"
    and inv: "grow_inv current cap initial target effective accepted candidate s"
    and "\<not> (initial < candidate \<and> cap < candidate)"
  shows "\<exists>x. grow_try get_size set_size initial target effective accepted candidate s = Inr x
    \<and> grow_at current cap initial target candidate x"
proof (cases "initial < candidate")
  case False
  then show ?thesis
    using assms(2) inv by (auto simp: grow_try_def grow_at_def grow_inv_def split: option.splits)
next
  case True
  then obtain s1 where s1: "set_size candidate s = (Inr (), s1)" "current s1 = candidate"
    using capped_grant [OF kernel, of candidate s] assms(4) by auto
  have "grow_try get_size set_size initial target effective accepted candidate s = Inr (candidate, Some candidate, s1)"
    using True s1 capped_get [OF kernel, of s1] by (simp add: grow_try_def)
  then show ?thesis
    using True s1 assms(4) inv by (auto simp: grow_at_def grow_inv_def)
qed

lemma grow_inv_next:
  assumes "grow_inv current cap initial target effective accepted candidate s" "target \<le> usize_max"
    and "candidate \<noteq> target" "grow_at current cap initial target candidate (e, acc, u)"
  shows "grow_inv current cap initial target e acc (grow_next target candidate) u"
    "target - grow_next target candidate < target - candidate"
proof -
  have "candidate < target" "0 < candidate"
    using assms(1,3) by (simp_all add: grow_inv_def)
  note nxt = grow_next_between [OF this(2,1) assms(2)]
  have step: "doubling_step candidate"
    using assms(1,3) by (simp add: grow_inv_def)
  have gap: "m \<le> candidate" if "doubling_step m" "m < grow_next target candidate" for m
    using doubling_step_gap [OF that(1) step] that(2) nxt by simp
  have "doubling_step (grow_next target candidate)" if "grow_next target candidate \<noteq> target"
    using that nxt doubling_step_double [OF step] by (simp add: min_def split: if_splits)
  then show "grow_inv current cap initial target e acc (grow_next target candidate) u"
    using assms(1,3,4) nxt gap by (auto simp: grow_inv_def grow_at_def split: option.splits dest: le_trans)
  show "target - grow_next target candidate < target - candidate"
    using grow_next_nearer [OF \<open>0 < candidate\<close> \<open>candidate < target\<close> assms(2)] .
qed

lemma grow_buffer_capped:
  assumes kernel: "capped_kernel get_size set_size current cap"
    and target: "target \<le> usize_max" "initial < target"
  shows "grow_inv current cap initial target effective accepted candidate s \<Longrightarrow>
    \<exists>t s'. grow_buffer get_size set_size initial target effective accepted candidate s = Some (Inr t, s')
      \<and> grown current cap initial target t s'"
proof (induction "target - candidate" arbitrary: effective accepted candidate s rule: less_induct)
  case less
  show ?case
  proof (cases "initial < candidate \<and> cap < candidate")
    case True
    then show ?thesis
      using grow_try_refused [OF kernel less.prems] by (subst grow_step) auto
  next
    case False
    then obtain e acc u where step: "grow_try get_size set_size initial target effective accepted candidate s = Inr (e, acc, u)"
      and at: "grow_at current cap initial target candidate (e, acc, u)"
      using grow_try_goes_on [OF kernel target(2) less.prems] by auto
    show ?thesis
    proof (cases "candidate = target")
      case True
      then show ?thesis
        using step at target(2) by (subst grow_step) (simp add: grow_at_def grown_def)
    next
      case False
      note nxt = grow_inv_next [OF less.prems target(1) False at]
      show ?thesis
        using less.hyps [OF nxt(2,1)] step False by (subst grow_step) simp
    qed
  qed
qed

lemma tune_grows:
  "get_size s = (Inr initial, s1) \<Longrightarrow> initial < max requested_target MIN_UDP_SOCKET_BUFFER \<Longrightarrow>
     tune_socket_buffer get_size set_size requested_target s
     = grow_buffer get_size set_size initial (max requested_target MIN_UDP_SOCKET_BUFFER) initial None
         MIN_UDP_SOCKET_BUFFER s1"
  by (auto simp: tune_socket_buffer_def Let_def not_le)

lemma tune_total:
  assumes "requested_target \<le> usize_max"
  shows "\<exists>r. tune_socket_buffer get_size set_size requested_target s = Some r"
proof -
  have "\<exists>r. grow_buffer get_size set_size initial (max requested_target MIN_UDP_SOCKET_BUFFER) initial None
      MIN_UDP_SOCKET_BUFFER u = Some r" for initial u
    by (rule grow_buffer_total)
      (use assms in \<open>simp_all add: MIN_UDP_SOCKET_BUFFER_def usize_max_def\<close>)
  then show ?thesis
    by (simp add: tune_socket_buffer_def Let_def split: prod.split sum.split)
qed

section \<open>What is asked of any kernel\<close>

text \<open>The same socket, which also writes down every size it is asked for.\<close>

definition recording_get :: "('s, 'e, nat) op \<Rightarrow> ('s \<times> nat list, 'e, nat) op" where
  "recording_get get_size = (\<lambda>(s, asked). let (r, s') = get_size s in (r, (s', asked)))"

definition recording_set :: "(nat \<Rightarrow> ('s, 'e, unit) op) \<Rightarrow> nat \<Rightarrow> ('s \<times> nat list, 'e, unit) op" where
  "recording_set set_size n = (\<lambda>(s, asked). let (r, s') = set_size n s in (r, (s', asked @ [n])))"

lemma recording_asked:
  "recording_get get_size x = (r, y) \<Longrightarrow> snd y = snd x"
  "recording_set set_size n x = (r', y) \<Longrightarrow> snd y = snd x @ [n]"
  by (auto simp: recording_get_def recording_set_def split: prod.splits)

lemma refine_limit_asks:
  "refine_limit (recording_get get_size) (recording_set set_size) low high effective limit_error x = (r, y)
   \<Longrightarrow> \<exists>ns. snd y = snd x @ ns \<and> (\<forall>n\<in>set ns. low < n \<and> n < high)"
proof (induction "high - low" arbitrary: low high effective limit_error x rule: less_induct)
  case less
  let ?mid = "refine_midpoint low high"
  show ?case
  proof (cases "granule < high - low \<and> \<not> ?mid \<le> low")
    case False
    then show ?thesis
      using less.prems by (subst (asm) refine_limit.simps) (auto simp: Let_def split: if_splits)
  next
    case True
    note mid = refine_midpoint_lt [of high low] refine_shrinks [of high low]
    obtain q x1 where set1: "recording_set set_size ?mid x = (q, x1)"
      by (meson surj_pair)
    note x1 = recording_asked(2) [OF set1]
    show ?thesis
    proof (cases q)
      case (Inl e)
      then have "refine_limit (recording_get get_size) (recording_set set_size) low ?mid effective e x1 = (r, y)"
        using less.prems True set1 by (subst (asm) refine_limit.simps) (simp add: Let_def)
      from less.hyps [OF _ this] True mid obtain ns where
        "snd y = snd x1 @ ns" "\<forall>n\<in>set ns. low < n \<and> n < ?mid"
        by auto
      then show ?thesis
        using x1 True mid(1) by (intro exI [of _ "?mid # ns"]) auto
    next
      case (Inr u)
      obtain q2 x2 where get2: "recording_get get_size x1 = (q2, x2)"
        by (meson surj_pair)
      note x2 = recording_asked(1) [OF get2]
      show ?thesis
      proof (cases q2)
        case (Inl e)
        then show ?thesis
          using less.prems True set1 \<open>q = Inr u\<close> get2 x1 x2 mid(1)
          by (subst (asm) refine_limit.simps) (auto simp: Let_def)
      next
        case (Inr got)
        then have "refine_limit (recording_get get_size) (recording_set set_size) ?mid high got limit_error x2 = (r, y)"
          using less.prems True set1 \<open>q = Inr u\<close> get2 by (subst (asm) refine_limit.simps) (simp add: Let_def)
        from less.hyps [OF _ this] True mid obtain ns where
          "snd y = snd x2 @ ns" "\<forall>n\<in>set ns. ?mid < n \<and> n < high"
          by auto
        then show ?thesis
          using x1 x2 True mid(1) by (intro exI [of _ "?mid # ns"]) auto
      qed
    qed
  qed
qed

definition asked_within :: "nat \<Rightarrow> nat \<Rightarrow> 's \<times> nat list \<Rightarrow> 's \<times> nat list \<Rightarrow> bool" where
  "asked_within low high x y \<longleftrightarrow> (\<exists>ns. snd y = snd x @ ns \<and> (\<forall>n\<in>set ns. low < n \<and> n \<le> high))"

lemma asked_within_trans: "asked_within low high x y \<Longrightarrow> asked_within low high y z \<Longrightarrow> asked_within low high x z"
proof -
  assume "asked_within low high x y" "asked_within low high y z"
  then obtain ns ms where "snd y = snd x @ ns" "\<forall>n\<in>set ns. low < n \<and> n \<le> high" "snd z = snd y @ ms"
    "\<forall>n\<in>set ms. low < n \<and> n \<le> high"
    by (auto simp: asked_within_def)
  then show ?thesis
    unfolding asked_within_def by (intro exI [of _ "ns @ ms"]) auto
qed

lemma grow_try_asks:
  assumes "candidate \<le> target" "\<And>a. accepted = Some a \<Longrightarrow> initial < a"
  shows "case grow_try (recording_get get_size) (recording_set set_size) initial target effective accepted candidate x of
      Inl (q, y) \<Rightarrow> asked_within initial target x y
    | Inr (e, acc, y) \<Rightarrow> asked_within initial target x y \<and> (\<forall>a. acc = Some a \<longrightarrow> initial < a)"
proof (cases "initial < candidate")
  case False
  then show ?thesis
    using assms(2) by (simp add: grow_try_def asked_within_def)
next
  case above: True
  obtain q x1 where set1: "recording_set set_size candidate x = (q, x1)"
    by (meson surj_pair)
  obtain q2 x2 where get2: "recording_get get_size x1 = (q2, x2)"
    by (meson surj_pair)
  have x1: "asked_within initial target x x1" and x2: "snd x2 = snd x1"
    using recording_asked(2) [OF set1] recording_asked(1) [OF get2] above assms(1) by (auto simp: asked_within_def)
  have refined: "asked_within initial target x y"
    if low: "accepted = Some low"
      and refine: "refine_limit (recording_get get_size) (recording_set set_size) low candidate effective e x1 = (r, y)"
    for low e r y
  proof -
    obtain ns where "snd y = snd x1 @ ns" "\<And>n. n \<in> set ns \<Longrightarrow> low < n \<and> n < candidate"
      using refine_limit_asks [OF refine] by blast
    then have "asked_within initial target x1 y"
      using assms(1) assms(2) [OF low] by (fastforce simp: asked_within_def)
    then show ?thesis
      by (rule asked_within_trans [OF x1])
  qed
  have x2: "asked_within initial target x x2"
    using x1 x2 by (simp add: asked_within_def)
  show ?thesis
  proof (cases q)
    case (Inr u)
    then show ?thesis
      using above set1 get2 x2 by (cases q2) (simp_all add: grow_try_def)
  next
    case (Inl e)
    show ?thesis
    proof (cases accepted)
      case None
      then show ?thesis
        using above set1 Inl x1 by (simp add: grow_try_def)
    next
      case (Some low)
      obtain r y where refine: "refine_limit (recording_get get_size) (recording_set set_size) low candidate effective e x1 = (r, y)"
        by (meson surj_pair)
      show ?thesis
        using above set1 Inl Some refine refined [OF Some refine] by (cases r) (auto simp: grow_try_def)
    qed
  qed
qed

lemma grow_buffer_asks:
  assumes "target \<le> usize_max"
  shows "0 < candidate \<Longrightarrow> candidate \<le> target \<Longrightarrow> (\<And>a. accepted = Some a \<Longrightarrow> initial < a) \<Longrightarrow>
    grow_buffer (recording_get get_size) (recording_set set_size) initial target effective accepted candidate x
      = Some (r, y)
    \<Longrightarrow> asked_within initial target x y"
proof (induction "target - candidate" arbitrary: effective accepted candidate x rule: less_induct)
  case less
  let ?head = "grow_try (recording_get get_size) (recording_set set_size) initial target effective accepted candidate x"
  note asks = grow_try_asks [where accepted = accepted and get_size = get_size and set_size = set_size
      and effective = effective and x = x, OF less.prems(2,3)]
  show ?case
  proof (cases ?head)
    case (Inl res)
    then show ?thesis
      using less.prems(4) asks by (subst (asm) grow_step) auto
  next
    case (Inr res)
    obtain e acc u where res: "res = (e, acc, u)"
      by (metis surj_pair)
    have u: "asked_within initial target x u" "\<And>a. acc = Some a \<Longrightarrow> initial < a"
      using asks Inr res by auto
    show ?thesis
    proof (cases "candidate = target")
      case True
      then show ?thesis
        using less.prems(4) Inr res u(1) by (subst (asm) grow_step) auto
    next
      case False
      then have "candidate < target"
        using less.prems(2) by simp
      note nxt = grow_next_between [OF less.prems(1) this assms]
      have "grow_buffer (recording_get get_size) (recording_set set_size) initial target e acc (grow_next target candidate) u
          = Some (r, y)"
        using less.prems(4) Inr res False by (subst (asm) grow_step) simp
      from less.hyps [OF grow_next_nearer [OF less.prems(1) \<open>candidate < target\<close> assms] _ _ u(2) this]
      show ?thesis
        using nxt less.prems(1) asked_within_trans [OF u(1)] by simp
    qed
  qed
qed

text \<open>
  The kernel of the source's unit tests: it records its requests and refuses a size above its
  maximum with \<open>ENOBUFS\<close>.
\<close>

record fake_socket_buffer =
  fake_current :: nat
  fake_maximum :: nat
  fake_requests :: "nat list"

definition fake_get :: "(fake_socket_buffer, string, nat) op" where
  "fake_get self = (Inr (fake_current self), self)"

definition fake_set :: "nat \<Rightarrow> (fake_socket_buffer, string, unit) op" where
  "fake_set n self =
     (let self = self\<lparr>fake_requests := fake_requests self @ [n]\<rparr> in
      if n > fake_maximum self then (Inl ''ENOBUFS'', self)
      else (Inr (), self\<lparr>fake_current := n\<rparr>))"

text \<open>
  The maximum of the fake never changes, so with the maximum as part of the operation it is a
  capped kernel.
\<close>

definition fake_set_max :: "nat \<Rightarrow> nat \<Rightarrow> (fake_socket_buffer, string, unit) op" where
  "fake_set_max cap n self = fake_set n (self\<lparr>fake_maximum := cap\<rparr>)"

lemma capped_kernel_fake: "capped_kernel fake_get (fake_set_max cap) fake_current cap"
  by (auto simp: capped_kernel_def fake_get_def fake_set_max_def fake_set_def Let_def)

section \<open>Properties\<close>

text \<open>
  C28. On a kernel that grants sizes up to a limit, the negotiation returns; a target within the
  limit (or below the kernel's default) is reached and the default is never lowered. Otherwise the
  limit's error is reported; and if a doubling step from 64 KiB lies above the default and within the
  limit, as one does when the limit is twice the default, the size in force ends up within two search
  granules of the limit (one, for a target that is a whole number of granules). If there is none, the
  size stays at the default.
\<close>

theorem tune_socket_buffer_capped:
  assumes "capped_kernel get_size set_size current cap" "requested_target \<le> usize_max"
  shows "\<exists>t s'. tune_socket_buffer get_size set_size requested_target s = Some (Inr t, s')
    \<and> sb_target t = max requested_target 65536
    \<and> sb_effective t = current s' \<and> current s \<le> current s'
    \<and> (sb_target t \<le> max cap (current s) \<longrightarrow> sb_target_accepted t \<and> current s' = max (current s) (sb_target t))
    \<and> (max cap (current s) < sb_target t \<longrightarrow> \<not> sb_target_accepted t \<and> sb_limit_error t \<noteq> None
        \<and> (if (\<exists>k. current s < 65536 * 2 ^ k \<and> 65536 * 2 ^ k \<le> cap) \<or> 65536 \<le> cap \<and> 2 * current s \<le> cap
            then current s' \<le> cap \<and> cap < current s' + 2 * 65536
              \<and> (65536 dvd sb_target t \<longrightarrow> cap < current s' + 65536)
            else current s' = current s))"
proof -
  define target where "target = max requested_target MIN_UDP_SOCKET_BUFFER"
  have sizes: "MIN_UDP_SOCKET_BUFFER = 65536" "granule = 65536"
    by (simp_all add: MIN_UDP_SOCKET_BUFFER_def UDP_SOCKET_BUFFER_SEARCH_GRANULARITY_def)
  note get = capped_get [OF assms(1), of s]
  show ?thesis
  proof (cases "target \<le> current s")
    case True
    then have "tune_socket_buffer get_size set_size requested_target s
        = Some (Inr \<lparr>sb_initial = current s, sb_effective = current s, sb_target = target,
                     sb_target_accepted = True, sb_limit_error = None\<rparr>, s)"
      using get by (simp add: tune_socket_buffer_def target_def Let_def)
    then show ?thesis
      using True by (auto simp: target_def sizes)
  next
    case False
    have inv: "grow_inv current cap (current s) target (current s) None MIN_UDP_SOCKET_BUFFER s"
      using doubling_step_first by (auto simp: grow_inv_def target_def sizes not_le [symmetric])
    have usize: "target \<le> usize_max"
      using assms(2) by (simp add: target_def sizes usize_max_def)
    obtain t s' where
      "grow_buffer get_size set_size (current s) target (current s) None MIN_UDP_SOCKET_BUFFER s = Some (Inr t, s')"
      and t: "grown current cap (current s) target t s'"
      using grow_buffer_capped [OF assms(1) usize _ inv] False by auto
    then have run: "tune_socket_buffer get_size set_size requested_target s = Some (Inr t, s')"
      using tune_grows [where get_size = get_size, OF get] False by (simp only: target_def not_le)
    have steps: "(\<exists>k. current s < 65536 * 2 ^ k \<and> 65536 * 2 ^ k \<le> cap) \<or> 65536 \<le> cap \<and> 2 * current s \<le> cap
        \<longleftrightarrow> (\<exists>m. doubling_step m \<and> current s < m \<and> m \<le> cap)"
      using doubling_step_between [of cap "current s"] unfolding doubling_step_def by blast
    have goal: "sb_target t = target" "sb_effective t = current s'" "current s \<le> current s'" "current s < target"
      "target \<le> cap \<Longrightarrow> sb_target_accepted t \<and> current s' = target"
      "\<not> target \<le> cap \<Longrightarrow> \<not> sb_target_accepted t \<and> sb_limit_error t \<noteq> None
        \<and> (if \<exists>m. doubling_step m \<and> current s < m \<and> m \<le> cap
            then current s' \<le> cap \<and> cap < current s' + 2 * 65536 \<and> (65536 dvd target \<longrightarrow> cap < current s' + 65536)
            else current s' = current s)"
      using t False unfolding grown_def sizes by (auto split: if_splits)
    have "target \<le> max cap (current s) \<longleftrightarrow> target \<le> cap" "max cap (current s) < target \<longleftrightarrow> \<not> target \<le> cap"
      "max requested_target 65536 = target" "max (current s) target = target"
      using goal(4) by (auto simp: target_def sizes max_def)
    then show ?thesis
      unfolding steps using run goal
      by (intro exI [of _ t] exI [of _ s'], cases "target \<le> cap") (auto split: if_splits)
  qed
qed

corollary tune_socket_buffer_capped_witness:
  "\<exists>t s'. tune_socket_buffer fake_get (fake_set_max 3600000) 8388608
      \<lparr>fake_current = 32768, fake_maximum = 0, fake_requests = []\<rparr> = Some (Inr t, s')
    \<and> \<not> sb_target_accepted t \<and> sb_limit_error t \<noteq> None \<and> sb_effective t \<le> 3600000
    \<and> 3600000 < sb_effective t + 65536"
  using tune_socket_buffer_capped [OF capped_kernel_fake, of 8388608 3600000
      "\<lparr>fake_current = 32768, fake_maximum = 0, fake_requests = []\<rparr>"]
  by (force simp: usize_max_def)

text \<open>
  Whatever the kernel answers, the negotiation returns, and every size it asks for is above
  the kernel's default and at most the target: a larger default is never replaced by a smaller
  value.
\<close>

theorem tune_socket_buffer_requests:
  assumes "requested_target \<le> usize_max"
  shows "\<exists>r s' asked.
    tune_socket_buffer (recording_get get_size) (recording_set set_size) requested_target (s, [])
      = Some (r, (s', asked))
    \<and> (\<forall>n\<in>set asked. \<exists>initial. fst (get_size s) = Inr initial \<and> initial < n
         \<and> n \<le> max requested_target 65536)"
proof -
  define target where "target = max requested_target MIN_UDP_SOCKET_BUFFER"
  have floor: "MIN_UDP_SOCKET_BUFFER = 65536"
    by (simp add: MIN_UDP_SOCKET_BUFFER_def)
  have usize: "target \<le> usize_max"
    using assms by (simp add: target_def floor usize_max_def)
  obtain r y where run:
    "tune_socket_buffer (recording_get get_size) (recording_set set_size) requested_target (s, []) = Some (r, y)"
    using tune_total [OF assms] by (metis surj_pair)
  obtain q s1 where get: "get_size s = (q, s1)"
    by fastforce
  have rget: "recording_get get_size (s, []) = (q, (s1, []))"
    by (simp add: recording_get_def get)
  have "\<forall>n\<in>set (snd y). \<exists>initial. q = Inr initial \<and> initial < n \<and> n \<le> target"
  proof (cases "\<exists>initial. q = Inr initial \<and> initial < target")
    case False
    then show ?thesis
      using run rget by (auto simp: tune_socket_buffer_def Let_def target_def not_less split: sum.splits)
  next
    case True
    then obtain initial where initial: "q = Inr initial" "initial < target"
      by blast
    then have "grow_buffer (recording_get get_size) (recording_set set_size) initial target initial None
        MIN_UDP_SOCKET_BUFFER (s1, []) = Some (r, y)"
      using run rget tune_grows [of "recording_get get_size" "(s, [])" initial "(s1, [])"]
      by (simp add: target_def)
    from grow_buffer_asks [OF usize _ _ _ this] initial(1) show ?thesis
      by (auto simp: floor target_def asked_within_def)
  qed
  then show ?thesis
    using run get by (cases y) (auto simp: target_def floor)
qed

corollary tune_socket_buffer_requests_witness:
  "\<exists>r s' asked. tune_socket_buffer (recording_get fake_get) (recording_set fake_set) 8388608
      (\<lparr>fake_current = 1048576, fake_maximum = 3600000, fake_requests = []\<rparr>, []) = Some (r, (s', asked))
    \<and> (\<forall>n\<in>set asked. 1048576 < n \<and> n \<le> 8388608)"
  using tune_socket_buffer_requests [of 8388608 fake_get fake_set
      "\<lparr>fake_current = 1048576, fake_maximum = 3600000, fake_requests = []\<rparr>"]
  by (force simp: usize_max_def fake_get_def)

section \<open>A limit just above the default\<close>

lemma grow_skip:
  "candidate \<le> initial \<Longrightarrow> candidate \<noteq> target \<Longrightarrow>
     grow_buffer get_size set_size initial target effective accepted candidate s
     = grow_buffer get_size set_size initial target effective accepted (grow_next target candidate) s"
  by (subst grow_step) (simp add: grow_try_def)

lemma grow_refused_first:
  "initial < candidate \<Longrightarrow> set_size candidate s = (Inl e, s') \<Longrightarrow>
     grow_buffer get_size set_size initial target effective None candidate s
     = Some (Inr \<lparr>sb_initial = initial, sb_effective = effective, sb_target = target,
                  sb_target_accepted = False, sb_limit_error = Some e\<rparr>, s')"
  by (subst grow_step) (simp add: grow_try_def)

text \<open>
  The refinement needs a granted size to start from. When the first doubling step above the
  default is refused there is none, and the size stays at the default, however much the kernel
  would still grant: here a default of 4 MiB + 1 under a limit of just less than 8 MiB.
\<close>

theorem tune_stays_at_default:
  "tune_socket_buffer fake_get fake_set 8388608
     \<lparr>fake_current = 4194305, fake_maximum = 8388607, fake_requests = []\<rparr>
   = Some (Inr \<lparr>sb_initial = 4194305, sb_effective = 4194305, sb_target = 8388608,
                sb_target_accepted = False, sb_limit_error = Some ''ENOBUFS''\<rparr>,
           \<lparr>fake_current = 4194305, fake_maximum = 8388607, fake_requests = [8388608]\<rparr>)"
  by (simp add: tune_socket_buffer_def fake_get_def MIN_UDP_SOCKET_BUFFER_def Let_def grow_skip
      grow_next_def usize_saturating_mul_def usize_max_def grow_refused_first fake_set_def)

end
