(* ===== verification/Quic.thy ===== *)
theory Quic
  imports Net_Addr
begin

text \<open>
  The two crates the transport is built on, as parameters: the \<open>quiche\<close> connection and the UDP
  socket with the clock. Each is a record of the calls the code makes, over an abstract state.
  Time is in nanoseconds.
\<close>

section \<open>The QUIC connection\<close>

datatype quic_error = QuicDone | QuicError string

text \<open>
  \<open>q_send cap\<close> is \<open>conn.send\<close> on a buffer of \<open>cap\<close> bytes: the datagram written at its front and
  the time it should leave. The fields after it follow the names of \<open>quiche\<close>.
\<close>

record 'c quic =
  q_send :: "nat \<Rightarrow> 'c \<Rightarrow> (quic_error + bytes \<times> instant) \<times> 'c"
  q_recv :: "bytes \<Rightarrow> 'c \<Rightarrow> (quic_error + nat) \<times> 'c"
  q_timeout :: "'c \<Rightarrow> duration option"
  q_on_timeout :: "'c \<Rightarrow> 'c"
  q_is_established :: "'c \<Rightarrow> bool"
  q_is_closed :: "'c \<Rightarrow> bool"
  q_pmtu :: "'c \<Rightarrow> nat option"
  q_revalidate_pmtu :: "'c \<Rightarrow> 'c"
  q_send_ack_eliciting :: "'c \<Rightarrow> (quic_error + unit) \<times> 'c"
  q_dgram_max_writable_len :: "'c \<Rightarrow> nat option"
  q_is_dgram_send_queue_full :: "'c \<Rightarrow> bool"
  q_dgram_send :: "bytes \<Rightarrow> 'c \<Rightarrow> (quic_error + unit) \<times> 'c"
  q_dgram_recv :: "'c \<Rightarrow> (quic_error + bytes) \<times> 'c"

section \<open>The socket and the clock\<close>

datatype io_error = WouldBlock | IoError string

text \<open>
  \<open>n_sendmmsg\<close> hands a list of datagrams to the kernel, which takes a number of them from the
  front; \<open>n_recvmmsg\<close> and \<open>n_try_recv\<close> fill buffers of the given capacities, a truncated datagram
  being marked by \<open>True\<close>. \<open>n_writable\<close> waits until the socket may be written.
\<close>

record 'w net =
  n_now :: "'w \<Rightarrow> instant \<times> 'w"
  n_sleep :: "duration \<Rightarrow> 'w \<Rightarrow> 'w"
  n_send :: "bytes \<Rightarrow> 'w \<Rightarrow> (io_error + unit) \<times> 'w"
  n_sendmmsg :: "bytes list \<Rightarrow> 'w \<Rightarrow> (io_error + nat) \<times> 'w"
  n_writable :: "'w \<Rightarrow> (io_error + unit) \<times> 'w"
  n_recv :: "nat \<Rightarrow> 'w \<Rightarrow> (io_error + bytes) \<times> 'w"
  n_try_recv :: "nat \<Rightarrow> 'w \<Rightarrow> (io_error + bytes) \<times> 'w"
  n_recvmmsg :: "nat list \<Rightarrow> 'w \<Rightarrow> (io_error + (bytes \<times> bool) list) \<times> 'w"

section \<open>What the code relies on\<close>

text \<open>
  A sent datagram fits the buffer, and a connection has finitely many to send: \<open>pending\<close> counts
  them at least.
\<close>

definition quic_send_laws :: "'c quic \<Rightarrow> ('c \<Rightarrow> nat) \<Rightarrow> bool" where
  "quic_send_laws q pending \<longleftrightarrow>
     (\<forall>cap c d at c'. q_send q cap c = (Inr (d, at), c') \<longrightarrow> length d \<le> cap \<and> pending c' < pending c)"

text \<open>
  \<open>wire\<close> is what the kernel has taken, with the times, and \<open>clock\<close> the time, which only moves
  forward; \<open>stall\<close> bounds how often the socket is still found unwritable in a row.
\<close>

definition took :: "('w \<Rightarrow> (instant \<times> bytes) list) \<Rightarrow> ('w \<Rightarrow> instant) \<Rightarrow> 'w \<Rightarrow> bytes list \<Rightarrow> 'w \<Rightarrow> bool" where
  "took wire clock w ds w' \<longleftrightarrow>
     clock w \<le> clock w'
     \<and> (\<exists>ts. length ts = length ds \<and> (\<forall>t\<in>set ts. clock w \<le> t) \<and> wire w' = wire w @ zip ts ds)"

definition net_send_laws ::
    "'w net \<Rightarrow> ('w \<Rightarrow> (instant \<times> bytes) list) \<Rightarrow> ('w \<Rightarrow> instant) \<Rightarrow> ('w \<Rightarrow> nat) \<Rightarrow> bool" where
  "net_send_laws net wire clock stall \<longleftrightarrow>
     (\<forall>w t w'. n_now net w = (t, w') \<longrightarrow> clock w \<le> t \<and> t \<le> clock w' \<and> wire w' = wire w)
     \<and> (\<forall>d w. clock w + d \<le> clock (n_sleep net d w) \<and> wire (n_sleep net d w) = wire w)
     \<and> (\<forall>ds w r w'. n_sendmmsg net ds w = (r, w') \<longrightarrow>
          (case r of Inr n \<Rightarrow> n \<le> length ds \<and> took wire clock w (take n ds) w' | Inl e \<Rightarrow> took wire clock w [] w'))
     \<and> (\<forall>d w r w'. n_send net d w = (r, w') \<longrightarrow>
          (case r of Inr _ \<Rightarrow> took wire clock w [d] w' | Inl e \<Rightarrow> took wire clock w [] w'))
     \<and> (\<forall>w. took wire clock w [] (snd (n_writable net w)))
     \<and> (\<forall>ds w r w'. n_sendmmsg net ds w = (r, w') \<longrightarrow> r = Inr 0 \<or> r = Inl WouldBlock \<longrightarrow>
          stall (snd (n_writable net w')) < stall w)"

lemma took_refl [intro, simp]: "took wire clock w [] w"
  by (simp add: took_def)

lemma took_trans:
  assumes "took wire clock w ds w'" "took wire clock w' es w''"
  shows "took wire clock w (ds @ es) w''"
proof -
  obtain ts us where ts: "length ts = length ds" "\<forall>t\<in>set ts. clock w \<le> t" "wire w' = wire w @ zip ts ds"
    and us: "length us = length es" "\<forall>t\<in>set us. clock w' \<le> t" "wire w'' = wire w' @ zip us es"
    and "clock w \<le> clock w'" "clock w' \<le> clock w''"
    using assms by (auto simp: took_def)
  then have "length (ts @ us) = length (ds @ es)" "\<forall>t\<in>set (ts @ us). clock w \<le> t"
    "wire w'' = wire w @ zip (ts @ us) (ds @ es)"
    by (auto intro: order.trans)
  then show ?thesis
    using \<open>clock w \<le> clock w'\<close> \<open>clock w' \<le> clock w''\<close> unfolding took_def by (meson order.trans)
qed

lemma took_nil_trans: "took wire clock w [] w' \<Longrightarrow> took wire clock w' ds w'' \<Longrightarrow> took wire clock w ds w''"
  using took_trans by fastforce

lemma net_send_call:
  assumes "net_send_laws net wire clock stall"
  shows
    "n_now net w = (t, w') \<Longrightarrow> clock w \<le> t \<and> t \<le> clock w' \<and> wire w' = wire w"
    "clock w + d \<le> clock (n_sleep net d w) \<and> wire (n_sleep net d w) = wire w"
    "n_sendmmsg net ds w = (Inr n, w') \<Longrightarrow> n \<le> length ds \<and> took wire clock w (take n ds) w'"
    "n_sendmmsg net ds w = (Inl e, w') \<Longrightarrow> took wire clock w [] w'"
    "n_send net b w = (Inr u, w') \<Longrightarrow> took wire clock w [b] w'"
    "n_send net b w = (Inl e, w') \<Longrightarrow> took wire clock w [] w'"
    "n_writable net w = (q, w') \<Longrightarrow> took wire clock w [] w'"
    "n_sendmmsg net ds w = (r, w') \<Longrightarrow> r = Inr 0 \<or> r = Inl WouldBlock \<Longrightarrow>
       stall (snd (n_writable net w')) < stall w"
  using assms unfolding net_send_laws_def
  by (blast, blast, fastforce, fastforce, fastforce, fastforce, metis snd_conv, blast)

end
