(* ===== verification/Udp_Batch.thy ===== *)
theory Udp_Batch
  imports Quic "HOL-Library.Sublist"
begin

text \<open>
  \<open>UdpBatchIo\<close> of \<open>api/masque/udp.rs\<close>: QUIC datagrams cross to and from the kernel in batches of at
  most 64, each one not before the time \<open>quiche\<close> asked for. \<open>freebsd\<close> is the target the crate is
  compiled for: \<open>sendmmsg\<close>/\<open>recvmmsg\<close> there, one call per datagram elsewhere. The loops that wait
  for the socket need not end, so they return an option.
\<close>

section \<open>State\<close>

definition MAX_DATAGRAM_SIZE :: nat where "MAX_DATAGRAM_SIZE = 1500"
definition MAX_UDP_BATCH_SIZE :: nat where "MAX_UDP_BATCH_SIZE = 64"

record udp_batch =
  tx_buffers :: "bytes list"
  tx_lens :: "nat list"
  tx_at :: "instant list"
  rx_buffers :: "bytes list"
  batch_size :: nat
  last_pacing_wait :: duration
  max_pacing_wait :: duration
  paced_sleeps :: nat

datatype udp_error = QuicSendFailed quic_error | UdpFailed io_error | SendmmsgFailed io_error

definition new_udp_batch :: "nat \<Rightarrow> nat \<Rightarrow> instant \<Rightarrow> udp_batch" where
  "new_udp_batch datagram_size requested_batch_size now =
     (let batch_size = clamp_nat 1 MAX_UDP_BATCH_SIZE requested_batch_size;
          datagram_size = max datagram_size MAX_DATAGRAM_SIZE
      in \<lparr>tx_buffers = replicate batch_size (replicate datagram_size 0),
          tx_lens = replicate batch_size 0,
          tx_at = replicate batch_size now,
          rx_buffers = replicate batch_size (replicate datagram_size 0),
          batch_size = batch_size,
          last_pacing_wait = 0, max_pacing_wait = 0, paced_sleeps = 0\<rparr>)"

text \<open>A callee that writes \<open>d\<close> at the front of a buffer.\<close>

definition fill_front :: "bytes \<Rightarrow> bytes \<Rightarrow> bytes" where
  "fill_front d buf = take (length buf) d @ drop (length d) buf"

lemma length_fill_front [simp]: "length (fill_front d buf) = length buf"
  by (simp add: fill_front_def)

lemma take_fill_front: "length d \<le> length buf \<Longrightarrow> take (length d) (fill_front d buf) = d"
  by (simp add: fill_front_def)

section \<open>Sending\<close>

text \<open>
  The iovecs of \<open>sendmmsg_nonblocking\<close>: as many messages as there are buffers, lengths and room in
  the array, each the first \<open>lengths[i]\<close> bytes of its buffer.
\<close>

definition iovecs :: "bytes list \<Rightarrow> nat list \<Rightarrow> bytes list" where
  "iovecs buffers lengths =
     (let n = min (min (length buffers) (length lengths)) MAX_UDP_BATCH_SIZE
      in map (\<lambda>i. take (lengths ! i) (buffers ! i)) [0..<n])"

definition sendmmsg_nonblocking ::
    "'w net \<Rightarrow> bytes list \<Rightarrow> nat list \<Rightarrow> 'w \<Rightarrow> (io_error + nat) \<times> 'w" where
  "sendmmsg_nonblocking net buffers lengths = n_sendmmsg net (iovecs buffers lengths)"

text \<open>\<open>&v[start..end]\<close> of the batch's vectors\<close>

definition between :: "nat \<Rightarrow> nat \<Rightarrow> 'a list \<Rightarrow> 'a list" where
  "between s e xs = take (e - s) (drop s xs)"

partial_function (option) send_batch_mmsg ::
    "'w net \<Rightarrow> udp_batch \<Rightarrow> nat \<Rightarrow> nat \<Rightarrow> 'w \<Rightarrow> ((udp_error + unit) \<times> 'w) option" where
  "send_batch_mmsg net io sent final w =
     (if sent < final then
        (case sendmmsg_nonblocking net (between sent final (tx_buffers io)) (between sent final (tx_lens io)) w of
           (Inr n, w1) \<Rightarrow>
             if n = 0 then
               (case n_writable net w1 of
                  (Inl e, w2) \<Rightarrow> Some (Inl (UdpFailed e), w2)
                | (Inr _, w2) \<Rightarrow> send_batch_mmsg net io sent final w2)
             else send_batch_mmsg net io (sent + n) final w1
         | (Inl err, w1) \<Rightarrow>
             if err = WouldBlock then
               (case n_writable net w1 of
                  (Inl e, w2) \<Rightarrow> Some (Inl (UdpFailed e), w2)
                | (Inr _, w2) \<Rightarrow> send_batch_mmsg net io sent final w2)
             else Some (Inl (SendmmsgFailed err), w1))
      else Some (Inr (), w))"

fun send_batch_each :: "'w net \<Rightarrow> bytes list \<Rightarrow> 'w \<Rightarrow> (udp_error + unit) \<times> 'w" where
  "send_batch_each net [] w = (Inr (), w)"
| "send_batch_each net (d # ds) w =
     (case n_send net d w of
        (Inl e, w1) \<Rightarrow> (Inl (UdpFailed e), w1)
      | (Inr _, w1) \<Rightarrow> send_batch_each net ds w1)"

definition send_batch ::
    "bool \<Rightarrow> 'w net \<Rightarrow> udp_batch \<Rightarrow> nat \<Rightarrow> nat \<Rightarrow> 'w \<Rightarrow> ((udp_error + unit) \<times> 'w) option" where
  "send_batch freebsd net io start final w =
     (if freebsd then send_batch_mmsg net io start final w
      else Some (send_batch_each net
                   (map (\<lambda>i. take (tx_lens io ! i) (tx_buffers io ! i)) [start..<final]) w))"

text \<open>The packets after \<open>start\<close> whose time has arrived.\<close>

function ready_end :: "instant list \<Rightarrow> nat \<Rightarrow> instant \<Rightarrow> nat \<Rightarrow> nat" where
  "ready_end at count now final =
     (if final < count \<and> at ! final \<le> now then ready_end at count now (final + 1) else final)"
  by pat_completeness auto
termination
  by (relation "measure (\<lambda>(at, count, now, final). count - final)") auto

declare ready_end.simps [simp del]

definition note_pacing_wait :: "duration \<Rightarrow> udp_batch \<Rightarrow> udp_batch" where
  "note_pacing_wait wait io =
     io\<lparr>last_pacing_wait := wait,
        max_pacing_wait := max (max_pacing_wait io) wait,
        paced_sleeps := min (paced_sleeps io + 1) u64_max\<rparr>"

text \<open>
  Waiting for the packet at \<open>start\<close>: the time found after the wait, the diagnostics and the world.
\<close>

definition pace :: "'w net \<Rightarrow> nat \<Rightarrow> udp_batch \<Rightarrow> 'w \<Rightarrow> instant \<times> udp_batch \<times> 'w" where
  "pace net start io w =
     (case n_now net w of
        (t, w1) \<Rightarrow>
          (let wait = tx_at io ! start - t in
           if wait \<noteq> 0 then
             (case n_now net (n_sleep net wait w1) of (now, w3) \<Rightarrow> (now, note_pacing_wait wait io, w3))
           else (case n_now net w1 of (now, w3) \<Rightarrow> (now, io, w3))))"

partial_function (option) send_paced_batches ::
    "bool \<Rightarrow> 'w net \<Rightarrow> nat \<Rightarrow> nat \<Rightarrow> udp_batch \<Rightarrow> 'w \<Rightarrow> ((udp_error + unit) \<times> udp_batch \<times> 'w) option" where
  "send_paced_batches freebsd net count start io w =
     (if start < count then
        (case pace net start io w of
           (now, io', w1) \<Rightarrow>
             (let final = ready_end (tx_at io') count now (start + 1)
              in (case send_batch freebsd net io' start final w1 of
                    None \<Rightarrow> None
                  | Some (Inl e, w2) \<Rightarrow> Some (Inl e, io', w2)
                  | Some (Inr _, w2) \<Rightarrow> send_paced_batches freebsd net count final io' w2)))
      else Some (Inr (), io, w))"

text \<open>The inner loop of \<open>flush_quic\<close>: the datagrams produced and whether \<open>Done\<close> was reached.\<close>

function fill_batch ::
    "'c quic \<Rightarrow> nat \<Rightarrow> udp_batch \<Rightarrow> 'c \<Rightarrow> (udp_error + nat \<times> bool) \<times> udp_batch \<times> 'c" where
  "fill_batch q count io c =
     (if count < batch_size io then
        (case q_send q (length (tx_buffers io ! count)) c of
           (Inr (d, at), c') \<Rightarrow>
             fill_batch q (count + 1)
               (io\<lparr>tx_buffers := (tx_buffers io)[count := fill_front d (tx_buffers io ! count)],
                   tx_lens := (tx_lens io)[count := length d],
                   tx_at := (tx_at io)[count := at]\<rparr>) c'
         | (Inl QuicDone, c') \<Rightarrow> (Inr (count, True), io, c')
         | (Inl e, c') \<Rightarrow> (Inl (QuicSendFailed e), io, c'))
      else (Inr (count, False), io, c))"
  by pat_completeness auto
termination
  by (relation "measure (\<lambda>(q, count, io, c). batch_size io - count)") auto

declare fill_batch.simps [simp del]

partial_function (option) flush_quic ::
    "bool \<Rightarrow> 'w net \<Rightarrow> 'c quic \<Rightarrow> udp_batch \<Rightarrow> 'w \<Rightarrow> 'c
      \<Rightarrow> ((udp_error + unit) \<times> udp_batch \<times> 'w \<times> 'c) option" where
  "flush_quic freebsd net q io w c =
     (case fill_batch q 0 io c of
        (Inl e, io1, c1) \<Rightarrow> Some (Inl e, io1, w, c1)
      | (Inr (count, drained), io1, c1) \<Rightarrow>
          (case (if count > 0 then send_paced_batches freebsd net count 0 io1 w
                 else Some (Inr (), io1, w)) of
             None \<Rightarrow> None
           | Some (Inl e, io2, w2) \<Rightarrow> Some (Inl e, io2, w2, c1)
           | Some (Inr _, io2, w2) \<Rightarrow>
               if drained then Some (Inr (), io2, w2, c1)
               else flush_quic freebsd net q io2 w2 c1))"

definition take_pacing_diagnostics :: "udp_batch \<Rightarrow> (duration \<times> duration \<times> nat) \<times> udp_batch" where
  "take_pacing_diagnostics io =
     ((last_pacing_wait io, max_pacing_wait io, paced_sleeps io),
      io\<lparr>last_pacing_wait := 0, max_pacing_wait := 0, paced_sleeps := 0\<rparr>)"

section \<open>The shape of the buffers\<close>

text \<open>
  \<open>batch_wf D\<close>: every vector has one entry per slot of the batch, every buffer has \<open>D\<close> bytes and
  no length reaches past its buffer. The second part is what makes the raw pointers of
  \<open>sendmmsg_nonblocking\<close> and \<open>recvmmsg_nonblocking\<close> stay inside their buffers.
\<close>

definition batch_wf :: "nat \<Rightarrow> udp_batch \<Rightarrow> bool" where
  "batch_wf D io \<longleftrightarrow>
     1 \<le> batch_size io \<and> batch_size io \<le> MAX_UDP_BATCH_SIZE
     \<and> length (tx_buffers io) = batch_size io \<and> length (tx_lens io) = batch_size io
     \<and> length (tx_at io) = batch_size io \<and> length (rx_buffers io) = batch_size io
     \<and> (\<forall>i < batch_size io. length (tx_buffers io ! i) = D \<and> length (rx_buffers io ! i) = D
          \<and> tx_lens io ! i \<le> D)"

lemma batch_wfD:
  assumes "batch_wf D io"
  shows "1 \<le> batch_size io" "batch_size io \<le> MAX_UDP_BATCH_SIZE"
    "length (tx_buffers io) = batch_size io" "length (tx_lens io) = batch_size io"
    "length (tx_at io) = batch_size io" "length (rx_buffers io) = batch_size io"
    "i < batch_size io \<Longrightarrow> length (tx_buffers io ! i) = D"
    "i < batch_size io \<Longrightarrow> length (rx_buffers io ! i) = D"
    "i < batch_size io \<Longrightarrow> tx_lens io ! i \<le> D"
  using assms by (auto simp: batch_wf_def)

lemma new_udp_batch_wf: "batch_wf (max datagram_size 1500) (new_udp_batch datagram_size requested now)"
  by (auto simp: batch_wf_def new_udp_batch_def Let_def MAX_DATAGRAM_SIZE_def MAX_UDP_BATCH_SIZE_def
      clamp_nat_def)

definition queued :: "udp_batch \<Rightarrow> nat \<Rightarrow> nat \<Rightarrow> (bytes \<times> instant) list" where
  "queued io s e = map (\<lambda>i. (take (tx_lens io ! i) (tx_buffers io ! i), tx_at io ! i)) [s..<e]"

text \<open>Everything but the pacing diagnostics.\<close>

definition same_slots :: "udp_batch \<Rightarrow> udp_batch \<Rightarrow> bool" where
  "same_slots io io' \<longleftrightarrow>
     tx_buffers io' = tx_buffers io \<and> tx_lens io' = tx_lens io \<and> tx_at io' = tx_at io
     \<and> rx_buffers io' = rx_buffers io \<and> batch_size io' = batch_size io"

lemma same_slots_refl [simp, intro]: "same_slots io io"
  by (simp add: same_slots_def)

lemma same_slots_trans: "same_slots io io' \<Longrightarrow> same_slots io' io'' \<Longrightarrow> same_slots io io''"
  by (simp add: same_slots_def)

lemma same_slots_wf: "same_slots io io' \<Longrightarrow> batch_wf D io \<Longrightarrow> batch_wf D io'"
  by (simp add: same_slots_def batch_wf_def)

lemma same_slots_queued: "same_slots io io' \<Longrightarrow> queued io' s e = queued io s e"
  by (simp add: same_slots_def queued_def)

lemma note_pacing_wait_slots: "same_slots io (note_pacing_wait wait io)"
  by (simp add: same_slots_def note_pacing_wait_def)

section \<open>One batch reaches the kernel\<close>

lemma between_simps:
  "e \<le> length xs \<Longrightarrow> length (between s e xs) = e - s"
  "e \<le> length xs \<Longrightarrow> i < e - s \<Longrightarrow> between s e xs ! i = xs ! (s + i)"
  by (auto simp: between_def)

lemma iovecs_between:
  assumes "batch_wf D io" "final \<le> batch_size io"
  shows "iovecs (between s final (tx_buffers io)) (between s final (tx_lens io)) = map fst (queued io s final)"
proof -
  have len: "length (between s final (tx_buffers io)) = final - s" "length (between s final (tx_lens io)) = final - s"
    "final - s \<le> MAX_UDP_BATCH_SIZE"
    using assms batch_wfD(2-4) [OF assms(1)] by (simp_all add: between_simps)
  have nth: "between s final (tx_buffers io) ! i = tx_buffers io ! (s + i)"
    "between s final (tx_lens io) ! i = tx_lens io ! (s + i)" if "i < final - s" for i
    using that assms(2) batch_wfD(3,4) [OF assms(1)] by (simp_all add: between_simps)
  have "iovecs (between s final (tx_buffers io)) (between s final (tx_lens io))
      = map (\<lambda>i. take (tx_lens io ! (s + i)) (tx_buffers io ! (s + i))) [0..<final - s]"
    using len by (simp add: iovecs_def Let_def nth)
  also have "\<dots> = map fst (queued io s final)"
    by (rule nth_equalityI) (simp_all add: queued_def)
  finally show ?thesis .
qed

lemma queued_split:
  assumes "s \<le> m" "m \<le> e"
  shows "queued io s e = queued io s m @ queued io m e"
proof -
  obtain k where "e = m + k"
    using le_Suc_ex [OF assms(2)] by blast
  then show ?thesis
    by (simp add: queued_def upt_add_eq_append [OF assms(1), of k])
qed

text \<open>A prefix of the datagrams is on the wire, all of them on success.\<close>

definition sends ::
    "('w \<Rightarrow> (instant \<times> bytes) list) \<Rightarrow> ('w \<Rightarrow> instant) \<Rightarrow> 'w \<Rightarrow> bytes list \<Rightarrow> bool \<Rightarrow> 'w \<Rightarrow> bool" where
  "sends wire clock w ds ok w' \<longleftrightarrow> (\<exists>p. prefix p ds \<and> took wire clock w p w' \<and> (ok \<longrightarrow> p = ds))"

lemma sends_all: "took wire clock w ds w' \<Longrightarrow> sends wire clock w ds ok w'"
  by (auto simp: sends_def)

lemma sends_none: "took wire clock w [] w' \<Longrightarrow> sends wire clock w ds False w'"
  by (auto simp: sends_def intro: exI [of _ "[]"])

lemma sends_after: "took wire clock w ds w1 \<Longrightarrow> sends wire clock w1 es ok w' \<Longrightarrow> sends wire clock w (ds @ es) ok w'"
proof -
  assume some: "took wire clock w ds w1" and "sends wire clock w1 es ok w'"
  then obtain p where "prefix p es" "took wire clock w1 p w'" "ok \<longrightarrow> p = es"
    unfolding sends_def by blast
  then show ?thesis
    using took_trans [OF some] unfolding sends_def by (intro exI [of _ "ds @ p"]) simp
qed

lemma sends_later: "took wire clock w [] w1 \<Longrightarrow> sends wire clock w1 ds ok w' \<Longrightarrow> sends wire clock w ds ok w'"
  using sends_after by fastforce

text \<open>A call of \<open>sendmmsg\<close> fails, has to wait for the socket, or takes some of the datagrams.\<close>

lemma send_batch_mmsg_turn:
  assumes net: "net_send_laws net wire clock stall" and wf: "batch_wf D io" "final \<le> batch_size io" and more: "sent < final"
  obtains (fails) e w' where "send_batch_mmsg net io sent final w = Some (Inl e, w')" "took wire clock w [] w'"
  | (waits) w' where "send_batch_mmsg net io sent final w = send_batch_mmsg net io sent final w'"
      "took wire clock w [] w'" "stall w' < stall w"
  | (takes) n w' where "send_batch_mmsg net io sent final w = send_batch_mmsg net io (sent + n) final w'"
      "0 < n" "n \<le> final - sent" "took wire clock w (take n (map fst (queued io sent final))) w'"
proof -
  let ?ms = "map fst (queued io sent final)"
  obtain r1 w1 where call: "n_sendmmsg net ?ms w = (r1, w1)"
    by fastforce
  obtain r2 w2 where wait: "n_writable net w1 = (r2, w2)"
    by fastforce
  have run: "send_batch_mmsg net io sent final w =
      (case r1 of Inr n \<Rightarrow> if n = 0 then (case r2 of Inl e \<Rightarrow> Some (Inl (UdpFailed e), w2)
           | Inr _ \<Rightarrow> send_batch_mmsg net io sent final w2)
         else send_batch_mmsg net io (sent + n) final w1
       | Inl err \<Rightarrow> if err = WouldBlock then (case r2 of Inl e \<Rightarrow> Some (Inl (UdpFailed e), w2)
           | Inr _ \<Rightarrow> send_batch_mmsg net io sent final w2)
         else Some (Inl (SendmmsgFailed err), w1))"
    using more call wait
    by (subst send_batch_mmsg.simps)
      (simp add: sendmmsg_nonblocking_def iovecs_between [OF wf] split: sum.split)
  have idle: thesis if "r1 = Inr 0 \<or> r1 = Inl WouldBlock"
  proof -
    have "took wire clock w [] w1"
      using that net_send_call(3,4) [OF net] call by fastforce
    then have taken_none: "took wire clock w [] w2"
      by (rule took_nil_trans [OF _ net_send_call(7) [OF net wait]])
    have "stall w2 < stall w"
      using net_send_call(8) [OF net call that] wait by simp
    show thesis
    proof (cases r2)
      case (Inl e)
      with run that have "send_batch_mmsg net io sent final w = Some (Inl (UdpFailed e), w2)"
        by auto
      then show thesis
        using taken_none by (rule fails)
    next
      case (Inr u)
      with run that have "send_batch_mmsg net io sent final w = send_batch_mmsg net io sent final w2"
        by auto
      then show thesis
        using taken_none \<open>stall w2 < stall w\<close> by (rule waits)
    qed
  qed
  show thesis
  proof (cases r1)
    case (Inl err)
    with run idle net_send_call(4) [OF net] call show thesis
      by (cases "err = WouldBlock") (auto intro: fails)
  next
    case (Inr n)
    with run idle net_send_call(3) [OF net, of ?ms w n w1] call show thesis
      by (cases "n = 0") (auto intro: takes simp: queued_def)
  qed
qed

lemma send_batch_mmsg_sends:
  assumes net: "net_send_laws net wire clock stall" and wf: "batch_wf D io" "final \<le> batch_size io"
  shows "sent \<le> final \<Longrightarrow> \<exists>r w'. send_batch_mmsg net io sent final w = Some (r, w')
    \<and> sends wire clock w (map fst (queued io sent final)) (is_ok r) w'"
proof (induction "final - sent" arbitrary: sent w rule: less_induct)
  case outer: less
  from outer.prems show ?case
  proof (induction "stall w" arbitrary: w rule: less_induct)
    case inner: less
    show ?case
    proof (cases "sent < final")
      case False
      then show ?thesis
        by (subst send_batch_mmsg.simps) (simp add: queued_def sends_all)
    next
      case True
      show ?thesis
      proof (rule send_batch_mmsg_turn [OF net wf True, of w])
        fix e w'
        assume "send_batch_mmsg net io sent final w = Some (Inl e, w')" "took wire clock w [] w'"
        then show ?thesis
          by (auto intro: sends_none)
      next
        fix w'
        assume "send_batch_mmsg net io sent final w = send_batch_mmsg net io sent final w'"
          "took wire clock w [] w'" "stall w' < stall w"
        then show ?thesis
          using inner.hyps [of w'] outer.prems sends_later by metis
      next
        fix n w'
        assume run: "send_batch_mmsg net io sent final w = send_batch_mmsg net io (sent + n) final w'"
          and n: "0 < n" "n \<le> final - sent" and some: "took wire clock w (take n (map fst (queued io sent final))) w'"
        have all: "map fst (queued io sent final)
            = take n (map fst (queued io sent final)) @ map fst (queued io (sent + n) final)"
          using n queued_split [of sent "sent + n" final io] by (simp add: queued_def take_map)
        have "final - (sent + n) < final - sent" "sent + n \<le> final"
          using n True by simp_all
        from outer.hyps [OF this, of w'] show ?thesis
          using sends_after [OF some] run by (subst all) auto
      qed
    qed
  qed
qed

lemma send_batch_each_sends:
  assumes net: "net_send_laws net wire clock stall"
  shows "\<exists>r w'. send_batch_each net ds w = (r, w') \<and> sends wire clock w ds (is_ok r) w'"
proof (induction ds arbitrary: w)
  case Nil
  show ?case
    by (simp add: sends_all)
next
  case (Cons d ds)
  obtain r1 w1 where call: "n_send net d w = (r1, w1)"
    by fastforce
  show ?case
  proof (cases r1)
    case (Inl e)
    then show ?thesis
      using call net_send_call(6) [OF net] by (auto intro: sends_none)
  next
    case (Inr u)
    then have "took wire clock w [d] w1"
      using net_send_call(5) [OF net] call by blast
    then show ?thesis
      using Cons.IH [of w1] sends_after Inr call by fastforce
  qed
qed

lemma send_batch_sends:
  assumes "net_send_laws net wire clock stall" "batch_wf D io" "final \<le> batch_size io" "start \<le> final"
  shows "\<exists>r w'. send_batch freebsd net io start final w = Some (r, w')
    \<and> sends wire clock w (map fst (queued io start final)) (is_ok r) w'"
proof (cases freebsd)
  case True
  then show ?thesis
    using send_batch_mmsg_sends [OF assms] by (simp add: send_batch_def)
next
  case False
  have "map (\<lambda>i. take (tx_lens io ! i) (tx_buffers io ! i)) [start..<final] = map fst (queued io start final)"
    by (simp add: queued_def comp_def)
  then show ?thesis
    using False send_batch_each_sends [OF assms(1), of "map fst (queued io start final)" w]
    by (simp add: send_batch_def)
qed

section \<open>Pacing\<close>

text \<open>Every datagram is on the wire, in order, and not before its time.\<close>

definition on_time :: "(instant \<times> bytes) list \<Rightarrow> (bytes \<times> instant) list \<Rightarrow> bool" where
  "on_time sent ds \<longleftrightarrow> list_all2 (\<lambda>(t, b) (d, at). b = d \<and> at \<le> t) sent ds"

lemma on_time_append: "on_time xs ds \<Longrightarrow> on_time ys es \<Longrightarrow> on_time (xs @ ys) (ds @ es)"
  by (simp add: on_time_def list_all2_appendI)

lemma on_time_nil [simp]: "on_time [] []"
  by (simp add: on_time_def)

lemma took_on_time:
  assumes "took wire clock w (map fst ds) w'" "\<forall>(d, at)\<in>set ds. at \<le> clock w"
  shows "\<exists>sent. wire w' = wire w @ sent \<and> on_time sent ds"
proof -
  obtain ts where ts: "length ts = length ds" "\<forall>t\<in>set ts. clock w \<le> t"
    "wire w' = wire w @ zip ts (map fst ds)"
    using assms(1) by (auto simp: took_def)
  have "on_time (zip ts (map fst ds)) ds"
    unfolding on_time_def
  proof (rule list_all2_all_nthI)
    fix i
    assume "i < length (zip ts (map fst ds))"
    then have i: "i < length ds" "i < length ts"
      by simp_all
    then have "snd (ds ! i) \<le> clock w" "clock w \<le> ts ! i"
      using assms(2) ts(2) nth_mem [OF i(1)] nth_mem [OF i(2)] by (auto simp: split_def)
    then show "(\<lambda>(t, b) (d, at). b = d \<and> at \<le> t) (zip ts (map fst ds) ! i) (ds ! i)"
      using i by (simp add: split_def)
  qed (simp add: ts(1))
  then show ?thesis
    using ts(3) by blast
qed

lemma ready_end_props:
  "final \<le> count \<Longrightarrow>
     final \<le> ready_end at count now final \<and> ready_end at count now final \<le> count
     \<and> (\<forall>i. final \<le> i \<and> i < ready_end at count now final \<longrightarrow> at ! i \<le> now)"
proof (induction at count now final rule: ready_end.induct)
  case (1 at count now final)
  show ?case
  proof (cases "final < count \<and> at ! final \<le> now")
    case True
    then have IH: "final + 1 \<le> ready_end at count now (final + 1) \<and> ready_end at count now (final + 1) \<le> count
       \<and> (\<forall>i. final + 1 \<le> i \<and> i < ready_end at count now (final + 1) \<longrightarrow> at ! i \<le> now)"
      using 1 by simp
    have "ready_end at count now final = ready_end at count now (final + 1)"
      using True by (subst ready_end.simps) simp
    then show ?thesis
      using IH True by (metis Suc_eq_plus1 Suc_leD Suc_leI le_neq_implies_less)
  next
    case False
    then have "ready_end at count now final = final"
      by (subst ready_end.simps) (rule if_not_P)
    then show ?thesis
      using "1.prems" by simp
  qed
qed

text \<open>The outcome of sending a queue: a prefix of it left on time, all of it on success.\<close>

definition delivered :: "('w \<Rightarrow> (instant \<times> bytes) list) \<Rightarrow> 'w \<Rightarrow> (bytes \<times> instant) list \<Rightarrow> bool \<Rightarrow> 'w \<Rightarrow> bool" where
  "delivered wire w ds ok w' \<longleftrightarrow>
     (\<exists>sent p. wire w' = wire w @ sent \<and> prefix p ds \<and> on_time sent p \<and> (ok \<longrightarrow> p = ds))"

lemma delivered_nil [simp]: "delivered wire w [] ok w"
  by (auto simp: delivered_def)

lemma delivered_none: "delivered wire w ds False w"
  by (auto simp: delivered_def intro: exI [of _ "[]"])

lemma delivered_more: "delivered wire w ds False w' \<Longrightarrow> delivered wire w (ds @ es) False w'"
  by (auto simp: delivered_def intro: prefix_prefix)

lemma delivered_trans:
  assumes "delivered wire w ds True w'" "delivered wire w' es ok w''"
  shows "delivered wire w (ds @ es) ok w''"
proof -
  obtain s1 where 1: "wire w' = wire w @ s1" "on_time s1 ds"
    using assms(1) by (auto simp: delivered_def)
  obtain s2 p where 2: "wire w'' = wire w' @ s2" "prefix p es" "on_time s2 p" "ok \<longrightarrow> p = es"
    using assms(2) by (auto simp: delivered_def)
  show ?thesis
    unfolding delivered_def
    by (rule exI [of _ "s1 @ s2"], rule exI [of _ "ds @ p"])
      (use 1 2 in \<open>simp add: on_time_append\<close>)
qed

lemma delivered_same_wire: "wire v = wire w \<Longrightarrow> delivered wire v ds ok w' \<Longrightarrow> delivered wire w ds ok w'"
  by (simp add: delivered_def)

lemma send_batch_delivers:
  assumes net: "net_send_laws net wire clock stall" and wf: "batch_wf D io" "final \<le> batch_size io" "start \<le> final"
    and at: "\<forall>i. start \<le> i \<and> i < final \<longrightarrow> tx_at io ! i \<le> clock w"
  shows "\<exists>r w'. send_batch freebsd net io start final w = Some (r, w')
    \<and> delivered wire w (queued io start final) (is_ok r) w'"
proof -
  obtain r w' p where run: "send_batch freebsd net io start final w = Some (r, w')"
    and p: "prefix p (map fst (queued io start final))" "took wire clock w p w'"
      "is_ok r \<longrightarrow> p = map fst (queued io start final)"
    using send_batch_sends [OF net wf, of freebsd w] unfolding sends_def by blast
  define m where "m = length p"
  have m: "p = map fst (take m (queued io start final))"
    using p(1) by (metis m_def prefix_def take_map append_eq_conv_conj)
  have "\<forall>(d, t)\<in>set (queued io start final). t \<le> clock w"
    using at by (auto simp: queued_def)
  then have "\<forall>(d, t)\<in>set (take m (queued io start final)). t \<le> clock w"
    by (blast dest: in_set_takeD)
  from took_on_time [OF p(2) [unfolded m] this] obtain sent where
    "wire w' = wire w @ sent" "on_time sent (take m (queued io start final))"
    by blast
  moreover have "is_ok r \<Longrightarrow> take m (queued io start final) = queued io start final"
    using p(3) by (simp add: m_def)
  ultimately show ?thesis
    using run take_is_prefix unfolding delivered_def by metis
qed

lemma pace_props:
  assumes net: "net_send_laws net wire clock stall" and pace: "pace net start io w = (now, io', w')"
  shows "same_slots io io' \<and> tx_at io ! start \<le> clock w' \<and> now \<le> clock w' \<and> wire w' = wire w"
proof -
  obtain t w1 where now1: "n_now net w = (t, w1)"
    by fastforce
  note first = net_send_call(1) [OF net now1]
  show ?thesis
  proof (cases "tx_at io ! start - t = 0")
    case True
    then show ?thesis
      using pace now1 first net_send_call(1) [OF net, of w1 now w']
      by (auto simp: pace_def Let_def split: prod.splits)
  next
    case False
    define w2 where "w2 = n_sleep net (tx_at io ! start - t) w1"
    have "n_now net w2 = (now, w')" "io' = note_pacing_wait (tx_at io ! start - t) io"
      using pace now1 False by (auto simp: pace_def Let_def w2_def split: prod.splits)
    moreover have "clock w1 + (tx_at io ! start - t) \<le> clock w2" "wire w2 = wire w1"
      using net_send_call(2) [OF net] by (simp_all add: w2_def)
    ultimately show ?thesis
      using first net_send_call(1) [OF net, of w2 now w'] note_pacing_wait_slots by auto
  qed
qed

text \<open>One turn waits for its first packet and sends it with those whose time has come too.\<close>

lemma send_paced_batches_turn:
  assumes net: "net_send_laws net wire clock stall" and wf: "batch_wf D io" and count: "count \<le> batch_size io" "start < count"
  obtains r :: "udp_error + unit" and io' w' final where "same_slots io io'" "start < final" "final \<le> count"
    "delivered wire w (queued io start final) (is_ok r) w'"
    "send_paced_batches freebsd net count start io w =
       (case r of Inl e \<Rightarrow> Some (Inl e, io', w') | Inr _ \<Rightarrow> send_paced_batches freebsd net count final io' w')"
proof -
  obtain now io' w1 where pace: "pace net start io w = (now, io', w1)"
    by (metis surj_pair)
  note paced = pace_props [OF net pace]
  then have slots: "same_slots io io'"
    by simp
  define final where "final = ready_end (tx_at io') count now (start + 1)"
  have sizes: "count \<le> batch_size io'" "tx_at io' = tx_at io"
    using slots count(1) by (simp_all add: same_slots_def)
  have final: "start + 1 \<le> final" "final \<le> count" "\<forall>i. start + 1 \<le> i \<and> i < final \<longrightarrow> tx_at io' ! i \<le> now"
    using ready_end_props [of "start + 1" count "tx_at io'" now] count(2) by (simp_all add: final_def)
  have at: "tx_at io' ! i \<le> clock w1" if "start \<le> i" "i < final" for i
  proof (cases "i = start")
    case False
    then have "tx_at io' ! i \<le> now"
      using that final(3) by simp
    then show ?thesis
      using paced by simp
  qed (use paced sizes(2) in simp)
  obtain r w2 where batch: "send_batch freebsd net io' start final w1 = Some (r, w2)"
    and "delivered wire w1 (queued io' start final) (is_ok r) w2"
    using send_batch_delivers [OF net same_slots_wf [OF slots wf], of final start w1 freebsd] at final sizes(1) by auto
  then have sent: "delivered wire w (queued io start final) (is_ok r) w2"
    using paced by (simp add: same_slots_queued [OF slots] delivered_def)
  have "send_paced_batches freebsd net count start io w =
      (case r of Inl e \<Rightarrow> Some (Inl e, io', w2) | Inr _ \<Rightarrow> send_paced_batches freebsd net count final io' w2)"
    by (subst send_paced_batches.simps)
      (simp only: count(2) pace Let_def final_def [symmetric] batch if_True prod.case option.case)
  then show thesis
    using that [OF slots _ final(2) sent] final(1) by simp
qed

lemma send_paced_batches_delivers:
  assumes net: "net_send_laws net wire clock stall"
  shows "batch_wf D io \<Longrightarrow> count \<le> batch_size io \<Longrightarrow> start \<le> count \<Longrightarrow>
    \<exists>r io' w'. send_paced_batches freebsd net count start io w = Some (r, io', w')
      \<and> same_slots io io' \<and> delivered wire w (queued io start count) (is_ok r) w'"
proof (induction "count - start" arbitrary: start io w rule: less_induct)
  case less
  show ?case
  proof (cases "start < count")
    case False
    then show ?thesis
      using less.prems by (subst send_paced_batches.simps) (simp add: queued_def)
  next
    case True
    obtain r :: "udp_error + unit" and io' w' final where slots: "same_slots io io'" and final: "start < final" "final \<le> count"
      and sent: "delivered wire w (queued io start final) (is_ok r) w'"
      and step: "send_paced_batches freebsd net count start io w =
        (case r of Inl e \<Rightarrow> Some (Inl e, io', w') | Inr _ \<Rightarrow> send_paced_batches freebsd net count final io' w')"
      using send_paced_batches_turn [OF net less.prems(1,2) True] .
    have all: "queued io start count = queued io start final @ queued io final count"
      using final by (intro queued_split) simp_all
    show ?thesis
    proof (cases r)
      case (Inl e)
      then show ?thesis
        using step slots sent delivered_more by (auto simp: all)
    next
      case (Inr u)
      have "count - final < count - start" "count \<le> batch_size io'"
        using final slots less.prems(2) by (auto simp: same_slots_def)
      from less.hyps [OF this(1) same_slots_wf [OF slots less.prems(1)] this(2) final(2), of w']
      show ?thesis
        using step Inr sent delivered_trans same_slots_trans [OF slots]
        by (fastforce simp: all same_slots_queued [OF slots])
    qed
  qed
qed

section \<open>The datagrams of a connection\<close>

text \<open>
  The reference: the datagrams the connection produces one after the other, for buffers of \<open>D\<close>
  bytes, each with its time.
\<close>

inductive produces :: "'c quic \<Rightarrow> nat \<Rightarrow> 'c \<Rightarrow> (bytes \<times> instant) list \<Rightarrow> 'c \<Rightarrow> bool" for q D where
  nothing: "produces q D c [] c"
| another: "q_send q D c = (Inr d, c1) \<Longrightarrow> produces q D c1 ds c2 \<Longrightarrow> produces q D c (d # ds) c2"

inductive_cases produces_ConsE: "produces q D c (d # ds) c'"

lemma produces_append:
  "produces q D c ds c1 \<Longrightarrow> produces q D c1 es c2 \<Longrightarrow> produces q D c (ds @ es) c2"
  by (induction rule: produces.induct) (auto intro: produces.intros)

lemma produces_snoc: "produces q D c ds c1 \<Longrightarrow> q_send q D c1 = (Inr d, c2) \<Longrightarrow> produces q D c (ds @ [d]) c2"
  by (rule produces_append) (auto intro: produces.intros)

lemma produces_pending:
  "produces q D c ds c' \<Longrightarrow> quic_send_laws q pending \<Longrightarrow> pending c' + length ds \<le> pending c"
proof (induction rule: produces.induct)
  case (another c d c1 ds c2)
  then have "pending c1 < pending c"
    unfolding quic_send_laws_def by (metis prod.collapse)
  then show ?case
    using another by simp
qed simp

definition fill_slot :: "nat \<Rightarrow> bytes \<times> instant \<Rightarrow> udp_batch \<Rightarrow> udp_batch" where
  "fill_slot i p io =
     io\<lparr>tx_buffers := (tx_buffers io)[i := fill_front (fst p) (tx_buffers io ! i)],
        tx_lens := (tx_lens io)[i := length (fst p)], tx_at := (tx_at io)[i := snd p]\<rparr>"

lemma fill_slot_props:
  assumes "batch_wf D io" "i < batch_size io" "length (fst p) \<le> D"
  shows "batch_wf D (fill_slot i p io)" "batch_size (fill_slot i p io) = batch_size io"
    "queued (fill_slot i p io) 0 (Suc i) = queued io 0 i @ [p]"
proof -
  show "batch_wf D (fill_slot i p io)" "batch_size (fill_slot i p io) = batch_size io"
    using assms by (auto simp: batch_wf_def fill_slot_def nth_list_update)
  have "queued (fill_slot i p io) 0 i = queued io 0 i"
    by (auto simp: queued_def fill_slot_def)
  moreover have "queued (fill_slot i p io) i (Suc i) = [p]"
    using assms batch_wfD [OF assms(1)] by (simp add: queued_def fill_slot_def take_fill_front)
  ultimately show "queued (fill_slot i p io) 0 (Suc i) = queued io 0 i @ [p]"
    using queued_split [of 0 i "Suc i" "fill_slot i p io"] by simp
qed

definition filled ::
    "'c quic \<Rightarrow> nat \<Rightarrow> nat \<Rightarrow> (bytes \<times> instant) list \<Rightarrow> 'c \<Rightarrow> udp_error + nat \<times> bool \<Rightarrow> udp_batch \<Rightarrow> 'c \<Rightarrow> bool" where
  "filled q D room all c1 r io' c' \<longleftrightarrow>
     (case r of
        Inr (n, drained) \<Rightarrow> n \<le> room \<and> queued io' 0 n = all
          \<and> (if drained then q_send q D c1 = (Inl QuicDone, c') else c' = c1 \<and> n = room)
      | Inl e \<Rightarrow> \<exists>err. err \<noteq> QuicDone \<and> e = QuicSendFailed err \<and> q_send q D c1 = (Inl err, c'))"

lemma fill_batch_produces:
  assumes laws: "quic_send_laws q pending"
  shows "fill_batch q count io c = (r, io', c') \<Longrightarrow> batch_wf D io \<Longrightarrow> count \<le> batch_size io \<Longrightarrow>
    batch_wf D io' \<and> batch_size io' = batch_size io
    \<and> (\<exists>ds c1. produces q D c ds c1 \<and> filled q D (batch_size io) (queued io 0 count @ ds) c1 r io' c')"
proof (induction "batch_size io - count" arbitrary: count io c rule: less_induct)
  case less
  note wf = batch_wfD [OF less.prems(2)]
  show ?case
  proof (cases "count < batch_size io")
    case False
    then have "r = Inr (count, False)" "io' = io" "c' = c"
      using less.prems(1) by (auto simp: fill_batch.simps [of q count io c])
    then show ?thesis
      using less.prems False produces.nothing by (fastforce simp: filled_def)
  next
    case True
    obtain a c1 where send: "q_send q D c = (a, c1)"
      by fastforce
    show ?thesis
    proof (cases a)
      case (Inl e)
      then show ?thesis
        using less.prems True send wf(7) [OF True] produces.nothing [of q D c]
        by (cases e) (fastforce simp: fill_batch.simps [of q count io c] filled_def)+
    next
      case (Inr p)
      have fits: "length (fst p) \<le> D"
        using laws send Inr by (cases p) (auto simp: quic_send_laws_def)
      note slot = fill_slot_props [OF less.prems(2) True fits]
      have "fill_batch q (Suc count) (fill_slot count p io) c1 = (r, io', c')"
        using less.prems(1) True send Inr wf(7) [OF True]
        by (cases p) (simp add: fill_batch.simps [of q count io c] fill_slot_def)
      note IH = less.hyps [OF _ this slot(1), unfolded slot(2)]
      have "batch_size io - Suc count < batch_size io - count" "Suc count \<le> batch_size io"
        using True by simp_all
      from IH [OF this] obtain ds c2 where
        "batch_wf D io'" "batch_size io' = batch_size io" and ds: "produces q D c1 ds c2"
        and "filled q D (batch_size io) (queued io 0 count @ p # ds) c2 r io' c'"
        unfolding slot(3) by auto
      moreover have "produces q D c (p # ds) c2"
        using send Inr ds by (auto intro: produces.another)
      ultimately show ?thesis
        by blast
    qed
  qed
qed

text \<open>A turn of \<open>flush_quic\<close> ends it, or a full batch was sent and there is less left to send.\<close>

lemma flush_quic_turn:
  assumes net: "net_send_laws net wire clock stall" and laws: "quic_send_laws q pending" and wf: "batch_wf D io"
  obtains (stops) r io' w' c' ds c1 where "flush_quic freebsd net q io w c = Some (r, io', w', c')" "batch_wf D io'"
      "produces q D c ds c1" "delivered wire w ds (is_ok r) w'" "is_ok r \<longrightarrow> q_send q D c1 = (Inl QuicDone, c')"
  | (goes_on) io' w' c' ds where "flush_quic freebsd net q io w c = flush_quic freebsd net q io' w' c'" "batch_wf D io'"
      "produces q D c ds c'" "delivered wire w ds True w'" "pending c' < pending c"
proof -
  obtain f io1 c1 where fill: "fill_batch q 0 io c = (f, io1, c1)"
    by (metis surj_pair)
  obtain ds c2 where wf1: "batch_wf D io1" "batch_size io1 = batch_size io" and ds: "produces q D c ds c2"
    and out: "filled q D (batch_size io) ds c2 f io1 c1"
    using fill_batch_produces [OF laws fill wf] by (auto simp: queued_def)
  show thesis
  proof (cases f)
    case (Inl e)
    then have "flush_quic freebsd net q io w c = Some (Inl e, io1, w, c1)"
      using fill by (subst flush_quic.simps) simp
    then show thesis
      using stops [OF _ wf1(1) ds, of "Inl e" w c1] delivered_none [of wire w ds] by simp
  next
    case (Inr p)
    obtain n drained where p: "p = (n, drained)"
      by fastforce
    have n: "n \<le> batch_size io1" "queued io1 0 n = ds"
      using out Inr p wf1(2) by (simp_all add: filled_def)
    obtain r io2 w2 where paced: "(if n > 0 then send_paced_batches freebsd net n 0 io1 w
        else Some (Inr (), io1, w)) = Some (r, io2, w2)"
      and slots: "same_slots io1 io2" and sent: "delivered wire w ds (is_ok r) w2"
      using send_paced_batches_delivers [OF net wf1(1) n(1), of 0 freebsd w] n(2)
      by (cases "n > 0") (auto simp: queued_def)
    have step: "flush_quic freebsd net q io w c =
        (case r of Inl e \<Rightarrow> Some (Inl e, io2, w2, c1)
         | Inr _ \<Rightarrow> if drained then Some (Inr (), io2, w2, c1) else flush_quic freebsd net q io2 w2 c1)"
      by (subst flush_quic.simps) (simp only: fill Inr p paced prod.case sum.case option.case)
    note wf2 = same_slots_wf [OF slots wf1(1)]
    show thesis
    proof (cases "is_ok r \<and> \<not> drained")
      case False
      then have "flush_quic freebsd net q io w c = Some (r, io2, w2, c1)" "is_ok r \<longrightarrow> q_send q D c2 = (Inl QuicDone, c1)"
        using step out Inr p by (auto simp: filled_def split: sum.splits)
      then show thesis
        using wf2 ds sent by (intro stops)
    next
      case True
      then have "c1 = c2" "n = batch_size io"
        using out Inr p by (simp_all add: filled_def)
      moreover have "length ds = n"
        using n(2) [symmetric] by (simp add: queued_def)
      ultimately have "pending c1 < pending c" "produces q D c ds c1"
        using produces_pending [OF ds laws] batch_wfD(1) [OF wf] ds by simp_all
      moreover have "flush_quic freebsd net q io w c = flush_quic freebsd net q io2 w2 c1"
        using step True by (auto simp: is_ok_iff)
      ultimately show thesis
        using wf2 sent True by (intro goes_on) simp_all
    qed
  qed
qed

lemma flush_quic_delivers:
  assumes net: "net_send_laws net wire clock stall" and laws: "quic_send_laws q pending"
  shows "batch_wf D io \<Longrightarrow>
    \<exists>r io' w' c' ds c1. flush_quic freebsd net q io w c = Some (r, io', w', c')
      \<and> batch_wf D io' \<and> produces q D c ds c1 \<and> delivered wire w ds (is_ok r) w'
      \<and> (is_ok r \<longrightarrow> q_send q D c1 = (Inl QuicDone, c'))"
proof (induction "pending c" arbitrary: io w c rule: less_induct)
  case less
  show ?case
  proof (rule flush_quic_turn [OF net laws less.prems, of freebsd w c])
    fix io' w' c' ds
    assume turn: "flush_quic freebsd net q io w c = flush_quic freebsd net q io' w' c'" "batch_wf D io'"
      and ds: "produces q D c ds c'" "delivered wire w ds True w'" and fewer: "pending c' < pending c"
    from less.hyps [OF fewer turn(2), of w'] show ?thesis
      using turn(1) produces_append [OF ds(1)] delivered_trans [OF ds(2)] by fastforce
  qed blast
qed

section \<open>Receiving\<close>

text \<open>
  \<open>recvmmsg_nonblocking\<close>: a truncated message gets length 0, any other the bytes received, capped
  by its buffer.
\<close>

fun store_messages :: "nat \<Rightarrow> (bytes \<times> bool) list \<Rightarrow> bytes list \<Rightarrow> nat list \<Rightarrow> bytes list \<times> nat list" where
  "store_messages i [] buffers lengths = (buffers, lengths)"
| "store_messages i ((d, truncated) # ms) buffers lengths =
     store_messages (i + 1) ms (buffers[i := fill_front d (buffers ! i)])
       (lengths[i := (if truncated then 0 else min (length d) (length (buffers ! i)))])"

definition recvmmsg_nonblocking ::
    "'w net \<Rightarrow> bytes list \<Rightarrow> nat list \<Rightarrow> 'w \<Rightarrow> (io_error + nat) \<times> (bytes list \<times> nat list) \<times> 'w" where
  "recvmmsg_nonblocking net buffers lengths w =
     (let count = min (min (length buffers) (length lengths)) MAX_UDP_BATCH_SIZE in
      case n_recvmmsg net (map length (take count buffers)) w of
        (Inl e, w1) \<Rightarrow> (Inl e, (buffers, lengths), w1)
      | (Inr ms, w1) \<Rightarrow> (Inr (length ms), store_messages 0 ms buffers lengths, w1))"

function try_recv_each :: "'w net \<Rightarrow> nat \<Rightarrow> udp_batch \<Rightarrow> 'w \<Rightarrow> (io_error + nat) \<times> udp_batch \<times> 'w" where
  "try_recv_each net count io w =
     (if count < batch_size io then
        (case n_try_recv net (length (rx_buffers io ! count)) w of
           (Inr d, w1) \<Rightarrow>
             try_recv_each net (count + 1)
               (io\<lparr>rx_buffers := (rx_buffers io)[count := fill_front d (rx_buffers io ! count)],
                   tx_lens := (tx_lens io)[count := length d]\<rparr>) w1
         | (Inl e, w1) \<Rightarrow> if e = WouldBlock then (Inr count, io, w1) else (Inl e, io, w1))
      else (Inr count, io, w))"
  by pat_completeness auto
termination
  by (relation "measure (\<lambda>(net, count, io, w). batch_size io - count)") auto

declare try_recv_each.simps [simp del]

definition try_recv_batch :: "bool \<Rightarrow> 'w net \<Rightarrow> udp_batch \<Rightarrow> 'w \<Rightarrow> (io_error + nat) \<times> udp_batch \<times> 'w" where
  "try_recv_batch freebsd net io w =
     (if freebsd then
        (case recvmmsg_nonblocking net (rx_buffers io) (tx_lens io) w of
           (Inr n, (buffers, lengths), w1) \<Rightarrow> (Inr n, io\<lparr>rx_buffers := buffers, tx_lens := lengths\<rparr>, w1)
         | (Inl e, _, w1) \<Rightarrow> if e = WouldBlock then (Inr 0, io, w1) else (Inl e, io, w1))
      else try_recv_each net 0 io w)"

text \<open>The \<open>for index in 0..count\<close> of \<open>drain_quic\<close>: an error of \<open>conn.recv\<close> is only logged.\<close>

fun feed_quic :: "'c quic \<Rightarrow> udp_batch \<Rightarrow> nat list \<Rightarrow> 'c \<Rightarrow> 'c" where
  "feed_quic q io [] c = c"
| "feed_quic q io (i # is) c =
     (if tx_lens io ! i = 0 then feed_quic q io is c
      else feed_quic q io is (snd (q_recv q (take (tx_lens io ! i) (rx_buffers io ! i)) c)))"

partial_function (option) drain_quic ::
    "bool \<Rightarrow> 'w net \<Rightarrow> 'c quic \<Rightarrow> nat \<Rightarrow> udp_batch \<Rightarrow> 'w \<Rightarrow> 'c
      \<Rightarrow> ((udp_error + nat) \<times> udp_batch \<times> 'w \<times> 'c) option" where
  "drain_quic freebsd net q sofar io w c =
     (case try_recv_batch freebsd net io w of
        (Inl e, io1, w1) \<Rightarrow> Some (Inl (UdpFailed e), io1, w1, c)
      | (Inr count, io1, w1) \<Rightarrow>
          if count = 0 then Some (Inr sofar, io1, w1, c)
          else
            (let c1 = feed_quic q io1 [0..<count] c in
             if count < batch_size io1 then Some (Inr (sofar + count), io1, w1, c1)
             else drain_quic freebsd net q (sofar + count) io1 w1 c1))"

text \<open>
  The kernel's side: \<open>inbox\<close> holds the datagrams waiting at the socket. A call takes from its front
  and cuts what does not fit, or reports an error and takes nothing.
\<close>

definition net_recv_laws :: "'w net \<Rightarrow> ('w \<Rightarrow> bytes list) \<Rightarrow> bool" where
  "net_recv_laws net inbox \<longleftrightarrow>
     (\<forall>caps w r w'. n_recvmmsg net caps w = (r, w') \<longrightarrow>
        (case r of
           Inr ms \<Rightarrow> ms = map (\<lambda>(cap, d). (take cap d, cap < length d)) (zip caps (inbox w))
             \<and> inbox w' = drop (length caps) (inbox w) \<and> inbox w \<noteq> []
         | Inl e \<Rightarrow> inbox w' = inbox w \<and> (e = WouldBlock \<longrightarrow> inbox w = [])))
     \<and> (\<forall>cap w r w'. n_try_recv net cap w = (r, w') \<longrightarrow>
        (case r of
           Inr d \<Rightarrow> inbox w \<noteq> [] \<and> d = take cap (hd (inbox w)) \<and> inbox w' = tl (inbox w)
         | Inl e \<Rightarrow> inbox w' = inbox w \<and> (e = WouldBlock \<longrightarrow> inbox w = [])))"

lemma net_recv_call:
  assumes "net_recv_laws net inbox"
  shows
    "n_recvmmsg net caps w = (Inr ms, w') \<Longrightarrow>
       ms = map (\<lambda>(cap, d). (take cap d, cap < length d)) (zip caps (inbox w))
       \<and> inbox w' = drop (length caps) (inbox w) \<and> inbox w \<noteq> []"
    "n_recvmmsg net caps w = (Inl e, w') \<Longrightarrow> inbox w' = inbox w \<and> (e = WouldBlock \<longrightarrow> inbox w = [])"
    "n_try_recv net cap w = (Inr d, w') \<Longrightarrow>
       inbox w \<noteq> [] \<and> d = take cap (hd (inbox w)) \<and> inbox w' = tl (inbox w)"
    "n_try_recv net cap w = (Inl e, w') \<Longrightarrow> inbox w' = inbox w \<and> (e = WouldBlock \<longrightarrow> inbox w = [])"
  using assms unfolding net_recv_laws_def by (fastforce, fastforce, fastforce, fastforce)

text \<open>What the connection is shown of a datagram: a truncated one is dropped on FreeBSD.\<close>

definition stored :: "bool \<Rightarrow> nat \<Rightarrow> bytes \<Rightarrow> bytes" where
  "stored freebsd D d = (if freebsd \<and> D < length d then [] else take D d)"

definition deliverable :: "bool \<Rightarrow> nat \<Rightarrow> bytes list \<Rightarrow> bytes list" where
  "deliverable freebsd D ds = filter (\<lambda>d. d \<noteq> []) (map (stored freebsd D) ds)"

definition received :: "udp_batch \<Rightarrow> nat \<Rightarrow> bytes list" where
  "received io n = map (\<lambda>i. take (tx_lens io ! i) (rx_buffers io ! i)) [0..<n]"

lemma store_messages_frame:
  "store_messages i ms buffers lengths = (buffers', lengths') \<Longrightarrow>
     length buffers' = length buffers \<and> length lengths' = length lengths
     \<and> map length buffers' = map length buffers
     \<and> (\<forall>j. j < i \<or> i + length ms \<le> j \<longrightarrow> buffers' ! j = buffers ! j \<and> lengths' ! j = lengths ! j)"
proof (induction i ms buffers lengths rule: store_messages.induct)
  case (2 i d truncated ms buffers lengths)
  have "map length (buffers[i := fill_front d (buffers ! i)]) = map length buffers"
    by (cases "i < length buffers") (auto intro!: nth_equalityI simp: nth_list_update)
  then show ?case
    using 2 by auto
qed auto

lemma store_messages_reads:
  assumes "length lengths = length buffers"
  shows "store_messages i ms buffers lengths = (buffers', lengths') \<Longrightarrow> i + length ms \<le> length buffers \<Longrightarrow>
    \<forall>j < length ms. length (fst (ms ! j)) \<le> length (buffers ! (i + j)) \<Longrightarrow>
    \<forall>j < length ms. take (lengths' ! (i + j)) (buffers' ! (i + j)) = (if snd (ms ! j) then [] else fst (ms ! j))
      \<and> lengths' ! (i + j) \<le> length (buffers ! (i + j))"
  using assms
proof (induction i ms buffers lengths rule: store_messages.induct)
  case (2 i d truncated ms buffers lengths)
  let ?b = "buffers[i := fill_front d (buffers ! i)]"
  let ?l = "lengths[i := (if truncated then 0 else min (length d) (length (buffers ! i)))]"
  have d: "length d \<le> length (buffers ! i)"
    using "2.prems"(3) by force
  have rest: "length (fst (ms ! j)) \<le> length (?b ! (i + 1 + j))" if "j < length ms" for j
    using "2.prems"(3) that by (force dest: spec [of _ "Suc j"])
  have run: "store_messages (i + 1) ms ?b ?l = (buffers', lengths')"
    using "2.prems"(1) by simp
  have IH: "\<forall>j < length ms. take (lengths' ! (i + 1 + j)) (buffers' ! (i + 1 + j))
        = (if snd (ms ! j) then [] else fst (ms ! j)) \<and> lengths' ! (i + 1 + j) \<le> length (?b ! (i + 1 + j))"
    using "2.IH" [OF run] "2.prems"(2,4) rest by simp
  have here: "buffers' ! i = ?b ! i" "lengths' ! i = ?l ! i"
    using store_messages_frame [OF run] by simp_all
  have "take (lengths' ! i) (buffers' ! i) = (if truncated then [] else d)
      \<and> lengths' ! i \<le> length (buffers ! i)"
    using here "2.prems"(2,4) d by (simp add: take_fill_front min_def)
  then show ?case
    using IH by (auto simp: less_Suc_eq_0_disj nth_Cons')
qed simp

lemma drop_min_length [simp]: "drop (min n (length xs)) xs = drop n xs"
  by (simp add: min_def)

lemma recvmmsg_receives:
  assumes net: "net_recv_laws net inbox" and wf: "batch_wf D io"
    and run: "recvmmsg_nonblocking net (rx_buffers io) (tx_lens io) w = (Inr n, (buffers, lengths), w')"
  shows "n = min (batch_size io) (length (inbox w)) \<and> inbox w' = drop n (inbox w) \<and> n > 0
    \<and> batch_wf D (io\<lparr>rx_buffers := buffers, tx_lens := lengths\<rparr>)
    \<and> received (io\<lparr>rx_buffers := buffers, tx_lens := lengths\<rparr>) n = map (stored True D) (take n (inbox w))"
proof -
  let ?io = "io\<lparr>rx_buffers := buffers, tx_lens := lengths\<rparr>"
  let ?caps = "map length (rx_buffers io)"
  note sizes = batch_wfD [OF wf]
  have caps: "?caps = replicate (batch_size io) D"
    using sizes by (intro nth_equalityI) simp_all
  obtain ms where call: "n_recvmmsg net ?caps w = (Inr ms, w')" and n: "n = length ms"
    and store: "store_messages 0 ms (rx_buffers io) (tx_lens io) = (buffers, lengths)"
    using run sizes(2,4,6) by (auto simp: recvmmsg_nonblocking_def Let_def split: prod.splits sum.splits)
  note got = net_recv_call(1) [OF net call]
  have ms: "ms = map (\<lambda>d. (take D d, D < length d)) (take n (inbox w))" "n = min (batch_size io) (length (inbox w))"
    using got n caps by (auto intro!: nth_equalityI simp: min_def)
  have fits: "\<forall>j < length ms. length (fst (ms ! j)) \<le> length (rx_buffers io ! (0 + j))"
    using ms sizes(8) by simp
  note frame = store_messages_frame [OF store]
  have "0 + length ms \<le> length (rx_buffers io)" "length (tx_lens io) = length (rx_buffers io)"
    using ms n sizes(4,6) by simp_all
  note reads = store_messages_reads [OF this(2) store this(1) fits]
  have lens: "lengths ! i \<le> D" if "i < batch_size io" for i
    using reads frame sizes(8,9) that by (cases "i < n") (force simp: n)+
  have avail: "n \<le> length (inbox w)"
    using ms(2) by simp
  have each: "take (lengths ! j) (buffers ! j) = stored True D (inbox w ! j)" if "j < n" for j
  proof -
    have "ms ! j = (take D (inbox w ! j), D < length (inbox w ! j))"
      using that avail by (subst ms(1)) simp
    then show ?thesis
      using reads n that by (simp add: stored_def)
  qed
  have buf: "length (buffers ! i) = D" if "i < batch_size io" for i
    using frame sizes(6) sizes(8) [OF that] that by (metis nth_map)
  have "batch_wf D ?io"
    using wf frame lens buf by (simp add: batch_wf_def)
  moreover have "received ?io n = map (stored True D) (take n (inbox w))"
    using each avail by (intro nth_equalityI) (simp_all add: received_def)
  ultimately show ?thesis
    using got ms(2) sizes(1) caps by auto
qed

definition put_datagram :: "nat \<Rightarrow> bytes \<Rightarrow> udp_batch \<Rightarrow> udp_batch" where
  "put_datagram i d io = io\<lparr>rx_buffers := (rx_buffers io)[i := fill_front d (rx_buffers io ! i)],
     tx_lens := (tx_lens io)[i := length d]\<rparr>"

lemma put_datagram_received:
  assumes wf: "batch_wf D io" and i: "i < batch_size io"
  shows "batch_wf D (put_datagram i (take D x) io)" "batch_size (put_datagram i (take D x) io) = batch_size io"
    "received (put_datagram i (take D x) io) (i + 1) = received io i @ [stored False D x]"
proof -
  note sizes = batch_wfD [OF wf]
  show "batch_wf D (put_datagram i (take D x) io)" "batch_size (put_datagram i (take D x) io) = batch_size io"
    using wf i by (auto simp: batch_wf_def put_datagram_def nth_list_update)
  have "received (put_datagram i (take D x) io) (i + 1)
      = received io i @ [take (length (take D x)) (fill_front (take D x) (rx_buffers io ! i))]"
    using i sizes(4,6) by (simp add: received_def put_datagram_def)
  then show "received (put_datagram i (take D x) io) (i + 1) = received io i @ [stored False D x]"
    using sizes(8) [OF i] take_fill_front [of "take D x" "rx_buffers io ! i"] by (simp add: stored_def)
qed

lemma try_recv_each_receives:
  assumes net: "net_recv_laws net inbox"
  shows "try_recv_each net count io w = (Inr n, io', w') \<Longrightarrow> batch_wf D io \<Longrightarrow> count \<le> batch_size io \<Longrightarrow>
    batch_wf D io' \<and> batch_size io' = batch_size io
    \<and> n = min (batch_size io) (count + length (inbox w)) \<and> inbox w' = drop (n - count) (inbox w)
    \<and> received io' n = received io count @ map (stored False D) (take (n - count) (inbox w))"
proof (induction "batch_size io - count" arbitrary: count io w rule: less_induct)
  case less
  note sizes = batch_wfD [OF less.prems(2)]
  show ?case
  proof (cases "count < batch_size io")
    case False
    then have "n = count" "io' = io" "w' = w"
      using less.prems(1) by (auto simp: try_recv_each.simps [of net count io w])
    then show ?thesis
      using less.prems False by simp
  next
    case True
    obtain r w1 where call: "n_try_recv net D w = (r, w1)"
      by fastforce
    show ?thesis
    proof (cases r)
      case (Inl e)
      then have "e = WouldBlock" "n = count" "io' = io" "w' = w1"
        using less.prems(1) True call sizes(8) [OF True]
        by (auto simp: try_recv_each.simps [of net count io w] split: if_splits)
      then show ?thesis
        using less.prems net_recv_call(4) [OF net] call Inl by simp
    next
      case (Inr d)
      note got = net_recv_call(3) [OF net call [unfolded Inr]]
      then obtain x xs where inbox: "inbox w = x # xs" "d = take D x" "inbox w1 = xs"
        by (cases "inbox w") auto
      define io1 where "io1 = put_datagram count d io"
      note io1 = put_datagram_received [OF less.prems(2) True, of x, folded inbox(2), folded io1_def]
      note wf1 = io1(1,2) and rec1 = io1(3)
      have run: "try_recv_each net (count + 1) io1 w1 = (Inr n, io', w')"
        using less.prems(1) True call Inr sizes(8) [OF True]
        by (simp add: try_recv_each.simps [of net count io w] io1_def put_datagram_def)
      have "batch_size io1 - (count + 1) < batch_size io - count" "count + 1 \<le> batch_size io1"
        using True wf1(2) by simp_all
      note IH = less.hyps [OF this(1) run wf1(1) this(2)]
      then have "n - count = Suc (n - (count + 1))"
        using True wf1(2) by simp
      then show ?thesis
        using IH wf1(2) rec1 inbox by auto
    qed
  qed
qed

lemma try_recv_batch_receives:
  assumes net: "net_recv_laws net inbox" and wf: "batch_wf D io"
    and run: "try_recv_batch freebsd net io w = (Inr n, io', w')"
  shows "batch_wf D io' \<and> batch_size io' = batch_size io
    \<and> n = min (batch_size io) (length (inbox w)) \<and> inbox w' = drop n (inbox w)
    \<and> received io' n = map (stored freebsd D) (take n (inbox w))"
proof (cases freebsd)
  case False
  then show ?thesis
    using try_recv_each_receives [OF net _ wf, of 0 w n io' w'] run
    by (auto simp: try_recv_batch_def received_def)
next
  case True
  obtain r bl w1 where call: "recvmmsg_nonblocking net (rx_buffers io) (tx_lens io) w = (r, bl, w1)"
    by (metis surj_pair)
  obtain buffers lengths where bl: "bl = (buffers, lengths)"
    by fastforce
  show ?thesis
  proof (cases r)
    case (Inl e)
    then have "e = WouldBlock" "n = 0" "io' = io" "w' = w1"
      using run True call bl by (auto simp: try_recv_batch_def split: if_splits)
    moreover have "inbox w1 = inbox w \<and> (e = WouldBlock \<longrightarrow> inbox w = [])"
      using call Inl net_recv_call(2) [OF net]
      by (auto simp: recvmmsg_nonblocking_def Let_def split: prod.splits sum.splits)
    ultimately show ?thesis
      using wf by (simp add: received_def)
  next
    case (Inr k)
    then have "k = n" "io' = io\<lparr>rx_buffers := buffers, tx_lens := lengths\<rparr>" "w' = w1"
      using run True call bl by (auto simp: try_recv_batch_def)
    then show ?thesis
      using recvmmsg_receives [OF net wf] call Inr bl True by simp
  qed
qed

text \<open>The connection is fed the non-empty datagrams of a batch, in order.\<close>

definition feed_all :: "'c quic \<Rightarrow> bytes list \<Rightarrow> 'c \<Rightarrow> 'c" where
  "feed_all q ds c = fold (\<lambda>d c. snd (q_recv q d c)) ds c"

lemma feed_quic_received:
  assumes "batch_wf D io" "0 < D" "\<forall>i\<in>set is. i < batch_size io"
  shows "feed_quic q io is c
    = feed_all q (filter (\<lambda>d. d \<noteq> []) (map (\<lambda>i. take (tx_lens io ! i) (rx_buffers io ! i)) is)) c"
  using assms(3)
proof (induction "is" arbitrary: c)
  case (Cons i "is")
  then have "rx_buffers io ! i \<noteq> []"
    using batch_wfD(8) [OF assms(1), of i] assms(2) by auto
  then show ?case
    using Cons by (simp add: feed_all_def)
qed (simp add: feed_all_def)

lemma drain_quic_feeds:
  assumes net: "net_recv_laws net inbox" and D: "0 < D"
  shows "batch_wf D io \<Longrightarrow>
    \<exists>r io' w' c'. drain_quic freebsd net q sofar io w c = Some (r, io', w', c')
      \<and> (\<forall>n. r = Inr n \<longrightarrow> batch_wf D io' \<and> n = sofar + length (inbox w) \<and> inbox w' = []
           \<and> c' = feed_all q (deliverable freebsd D (inbox w)) c)"
proof (induction "length (inbox w)" arbitrary: sofar io w c rule: less_induct)
  case less
  obtain r io1 w1 where recv: "try_recv_batch freebsd net io w = (r, io1, w1)"
    by (metis surj_pair)
  show ?case
  proof (cases r)
    case (Inl e)
    then show ?thesis
      using recv by (subst drain_quic.simps) simp
  next
    case (Inr n)
    note got = try_recv_batch_receives [OF net less.prems recv [unfolded Inr]]
    then have wf1: "batch_wf D io1" and n: "n = min (batch_size io) (length (inbox w))"
      "batch_size io1 = batch_size io" and inbox: "inbox w1 = drop n (inbox w)"
      by simp_all
    note size = batch_wfD(1) [OF less.prems]
    have fed: "feed_quic q io1 [0..<n] c = feed_all q (deliverable freebsd D (take n (inbox w))) c"
      using feed_quic_received [OF wf1 D, of "[0..<n]"] got n by (simp add: received_def deliverable_def)
    show ?thesis
    proof (cases "n = 0")
      case True
      then have "inbox w = []"
        using n size by (cases "inbox w") auto
      then show ?thesis
        using recv Inr True wf1 inbox by (subst drain_quic.simps) (simp add: deliverable_def feed_all_def)
    next
      case False
      show ?thesis
      proof (cases "n < batch_size io1")
        case True
        then have "n = length (inbox w)"
          using n by simp
        then show ?thesis
          using recv Inr False True wf1 inbox fed by (subst drain_quic.simps) (simp add: Let_def)
      next
        case full: False
        then have step: "drain_quic freebsd net q sofar io w c
            = drain_quic freebsd net q (sofar + n) io1 w1 (feed_quic q io1 [0..<n] c)"
          using recv Inr False by (subst drain_quic.simps) (simp add: Let_def)
        have "length (inbox w1) < length (inbox w)" "n \<le> length (inbox w)"
          using inbox False n by auto
        moreover have "feed_all q (deliverable freebsd D (drop n (inbox w)))
            (feed_all q (deliverable freebsd D (take n (inbox w))) c)
            = feed_all q (deliverable freebsd D (inbox w)) c"
          unfolding feed_all_def deliverable_def fold_append [symmetric, THEN fun_cong, unfolded comp_def]
          by (simp flip: filter_append map_append)
        ultimately show ?thesis
          using less.hyps [OF _ wf1, of w1 "sofar + n"] inbox fed unfolding step by fastforce
      qed
    qed
  qed
qed

section \<open>A world for concrete runs\<close>

text \<open>
  A connection that is a list of datagrams to send and the list of those it was shown, and a
  kernel whose socket is unwritable once.
\<close>

record sample_conn =
  to_send :: "(bytes \<times> instant) list"
  shown :: "bytes list"

definition sample_quic :: "sample_conn quic" where
  "sample_quic =
     \<lparr>q_send = (\<lambda>cap c. case to_send c of
          [] \<Rightarrow> (Inl QuicDone, c)
        | (d, at) # rest \<Rightarrow> (Inr (take cap d, at), c\<lparr>to_send := rest\<rparr>)),
      q_recv = (\<lambda>d c. (Inr (length d), c\<lparr>shown := shown c @ [d]\<rparr>)),
      q_timeout = (\<lambda>c. None), q_on_timeout = (\<lambda>c. c), q_is_established = (\<lambda>c. True),
      q_is_closed = (\<lambda>c. False), q_pmtu = (\<lambda>c. None), q_revalidate_pmtu = (\<lambda>c. c),
      q_send_ack_eliciting = (\<lambda>c. (Inr (), c)), q_dgram_max_writable_len = (\<lambda>c. None),
      q_is_dgram_send_queue_full = (\<lambda>c. False), q_dgram_send = (\<lambda>d c. (Inr (), c)),
      q_dgram_recv = (\<lambda>c. (Inl QuicDone, c))\<rparr>"

record sample_world =
  sw_clock :: instant
  sw_wire :: "(instant \<times> bytes) list"
  sw_blocked :: nat
  sw_inbox :: "bytes list"

definition sample_net :: "sample_world net" where
  "sample_net =
     \<lparr>n_now = (\<lambda>w. (sw_clock w, w)),
      n_sleep = (\<lambda>d w. w\<lparr>sw_clock := sw_clock w + d\<rparr>),
      n_send = (\<lambda>d w. (Inr (), w\<lparr>sw_wire := sw_wire w @ [(sw_clock w, d)]\<rparr>)),
      n_sendmmsg = (\<lambda>ds w. if sw_blocked w > 0 \<or> ds = [] then (Inl (if sw_blocked w > 0 then WouldBlock else IoError ''EINVAL''), w)
        else (Inr 1, w\<lparr>sw_wire := sw_wire w @ [(sw_clock w, hd ds)]\<rparr>)),
      n_writable = (\<lambda>w. (Inr (), w\<lparr>sw_blocked := sw_blocked w - 1\<rparr>)),
      n_recv = (\<lambda>cap w. (Inl WouldBlock, w)),
      n_try_recv = (\<lambda>cap w. case sw_inbox w of
          [] \<Rightarrow> (Inl WouldBlock, w) | d # ds \<Rightarrow> (Inr (take cap d), w\<lparr>sw_inbox := ds\<rparr>)),
      n_recvmmsg = (\<lambda>caps w. if sw_inbox w = [] then (Inl WouldBlock, w)
        else (Inr (map (\<lambda>(cap, d). (take cap d, cap < length d)) (zip caps (sw_inbox w))),
              w\<lparr>sw_inbox := drop (length caps) (sw_inbox w)\<rparr>))\<rparr>"

lemma sample_laws:
  "quic_send_laws sample_quic (\<lambda>c. length (to_send c))"
  "net_send_laws sample_net sw_wire sw_clock sw_blocked"
  "net_recv_laws sample_net sw_inbox"
proof -
  show "quic_send_laws sample_quic (\<lambda>c. length (to_send c))"
    by (auto simp: quic_send_laws_def sample_quic_def split: list.splits)
  have "took sw_wire sw_clock w [d] (w\<lparr>sw_wire := sw_wire w @ [(sw_clock w, d)]\<rparr>)" for d w
    by (auto simp: took_def intro: exI [of _ "[sw_clock w]"])
  moreover have "took sw_wire sw_clock w [] (w\<lparr>sw_blocked := k\<rparr>)" for w k
    by (simp add: took_def)
  moreover have "take (Suc 0) ds = [hd ds]" if "ds \<noteq> []" for ds :: "bytes list"
    using that by (cases ds) simp_all
  moreover have "Suc 0 \<le> length ds" if "ds \<noteq> []" for ds :: "bytes list"
    using that by (cases ds) simp_all
  ultimately show "net_send_laws sample_net sw_wire sw_clock sw_blocked"
    by (auto simp: net_send_laws_def sample_net_def split: if_splits)
  show "net_recv_laws sample_net sw_inbox"
    by (auto simp: net_recv_laws_def sample_net_def split: list.splits if_splits)
qed

section \<open>Properties\<close>

text \<open>
  C6. \<open>flush_quic\<close> returns, and what it puts on the wire is what the connection produces, datagram
  by datagram: in order, none twice, none before the time asked for it. On success the connection
  had no more to send and all of it was sent; on an error a prefix was.
\<close>

theorem flush_quic_paced_in_order:
  assumes "net_send_laws net wire clock stall" "quic_send_laws q pending" "batch_wf D io"
  shows "\<exists>r io' w' c' ds c1 sent.
    flush_quic freebsd net q io w c = Some (r, io', w', c') \<and> batch_wf D io'
    \<and> produces q D c ds c1 \<and> wire w' = wire w @ sent
    \<and> (\<exists>p. prefix p ds \<and> list_all2 (\<lambda>(t, b) (d, at). b = d \<and> at \<le> t) sent p
         \<and> (is_ok r \<longrightarrow> p = ds \<and> q_send q D c1 = (Inl QuicDone, c')))"
  using flush_quic_delivers [OF assms, of freebsd w c]
  unfolding delivered_def on_time_def by blast

corollary flush_quic_paced_in_order_witness:
  "\<exists>r io' w' c'. flush_quic True sample_net sample_quic (new_udp_batch 1500 2 0)
      \<lparr>sw_clock = 5, sw_wire = [], sw_blocked = 1, sw_inbox = []\<rparr>
      \<lparr>to_send = [([1], 7), ([2], 3)], shown = []\<rparr> = Some (r, io', w', c')
    \<and> batch_wf 1500 io'"
proof -
  have "batch_wf 1500 (new_udp_batch 1500 2 0)"
    using new_udp_batch_wf [of 1500 2 0] by simp
  then show ?thesis
    using flush_quic_paced_in_order [OF sample_laws(2,1), of 1500 "new_udp_batch 1500 2 0" True] by blast
qed

text \<open>
  C21. \<open>drain_quic\<close> returns, and on success the connection has been shown every waiting datagram,
  in order and once, but for the empty ones and, on FreeBSD, the truncated ones; the socket is
  then empty and the count is the number of datagrams read.
\<close>

theorem drain_quic_shows_all:
  assumes "net_recv_laws net inbox" "batch_wf D io" "0 < D"
  shows "\<exists>r io' w' c'. drain_quic freebsd net q 0 io w c = Some (r, io', w', c')
    \<and> (\<forall>n. r = Inr n \<longrightarrow> batch_wf D io' \<and> n = length (inbox w) \<and> inbox w' = []
         \<and> c' = fold (\<lambda>d c. snd (q_recv q d c)) (deliverable freebsd D (inbox w)) c)"
  using drain_quic_feeds [OF assms(1,3,2), of freebsd q 0 w c] unfolding feed_all_def by simp

corollary drain_quic_shows_all_witness:
  "\<exists>r io' w' c'. drain_quic True sample_net sample_quic 0 (new_udp_batch 1500 2 0)
      \<lparr>sw_clock = 5, sw_wire = [], sw_blocked = 0, sw_inbox = [[1], [], [2, 3]]\<rparr>
      \<lparr>to_send = [], shown = []\<rparr> = Some (r, io', w', c')
    \<and> (\<forall>n. r = Inr n \<longrightarrow> n = 3 \<and> shown c' = [[1], [2, 3]])"
proof -
  have "batch_wf 1500 (new_udp_batch 1500 2 0)"
    using new_udp_batch_wf [of 1500 2 0] by simp
  then show ?thesis
    using drain_quic_shows_all [OF sample_laws(3), of 1500 "new_udp_batch 1500 2 0" True sample_quic
        "\<lparr>sw_clock = 5, sw_wire = [], sw_blocked = 0, sw_inbox = [[1], [], [2, 3]]\<rparr>"
        "\<lparr>to_send = [], shown = []\<rparr>"]
    by (auto simp: deliverable_def stored_def sample_quic_def)
qed

text \<open>
  The batch that \<open>new\<close> builds holds between 1 and 64 datagrams, every buffer as large as a
  path may need, and no length ever reaches past its buffer.
\<close>

theorem new_udp_batch_bounds:
  "batch_wf (max datagram_size 1500) (new_udp_batch datagram_size requested now)
   \<and> batch_size (new_udp_batch datagram_size requested now) = min (max requested 1) 64"
  using new_udp_batch_wf by (simp add: new_udp_batch_def Let_def clamp_nat_def MAX_UDP_BATCH_SIZE_def)

lemma take_pacing_diagnostics_interval:
  "fst (take_pacing_diagnostics (snd (take_pacing_diagnostics io))) = (0, 0, 0)"
  by (simp add: take_pacing_diagnostics_def)

end
