(* ===== verification/Connect_Ip.thy ===== *)
theory Connect_Ip
  imports Packet
begin

text \<open>
  CONNECT-IP datagram framing, \<open>src/src/api/masque/connect_ip.rs\<close>: a datagram is the flow id and
  the context id 0 as QUIC variable-length integers, then the complete IP packet.

  The integers are encoded by the \<open>octets\<close> crate, which is not part of the repository. Its
  cursor operations are parameters: \<open>put_varint v\<close> is the bytes \<open>OctetsMut::put_varint\<close> writes
  at the cursor (\<^term>\<open>None\<close> when it fails) and \<open>get_varint xs\<close> the value \<open>Octets::get_varint\<close>
  reads from the bytes at the cursor with the number of bytes consumed. The locale
  \<open>varint_codec\<close> names what RFC 9000, section 16, documents of them.
\<close>

section \<open>Model\<close>

definition build_flow_prefix :: "(u64 \<Rightarrow> bytes option) \<Rightarrow> u64 \<Rightarrow> string + bytes" where
  "build_flow_prefix put_varint flow_id =
     (case put_varint flow_id of
        None \<Rightarrow> Inl ''encode flow_id varint''
      | Some tmp \<Rightarrow> Inr (tmp @ [0]))"

definition parse_datagram :: "(bytes \<Rightarrow> (u64 \<times> nat) option) \<Rightarrow> bytes \<Rightarrow> u64 \<Rightarrow> bytes option" where
  "parse_datagram get_varint dgram expected_flow_id =
     (case get_varint dgram of
        None \<Rightarrow> None
      | Some (flow_id, n) \<Rightarrow>
          if flow_id \<noteq> expected_flow_id then None
          else
            (case get_varint (drop n dgram) of
               None \<Rightarrow> None
             | Some (context_id, m) \<Rightarrow>
                 if context_id \<noteq> 0 then None
                 else
                   (let off = n + m
                    in if length dgram \<le> off then None else Some (drop off dgram))))"

section \<open>The interface to the integer codec\<close>

locale varint_codec =
  fixes put_varint :: "u64 \<Rightarrow> bytes option"
    and get_varint :: "bytes \<Rightarrow> (u64 \<times> nat) option"
  assumes put_defined: "unat v < 2 ^ 62 \<Longrightarrow> \<exists>enc. put_varint v = Some enc"
    and put_length: "put_varint v = Some enc \<Longrightarrow> length enc \<le> 8"
    and get_put: "put_varint v = Some enc \<Longrightarrow> get_varint (enc @ rest) = Some (v, length enc)"
    and get_zero: "get_varint (0 # rest) = Some (0, 1)"
    and get_consumes: "get_varint xs = Some (v, n) \<Longrightarrow> 0 < n \<and> n \<le> length xs"
begin

lemma build_flow_prefix_defined:
  "unat f < 2 ^ 62 \<Longrightarrow> \<exists>enc. build_flow_prefix put_varint f = Inr (enc @ [0]) \<and> put_varint f = Some enc"
  using put_defined [of f] by (auto simp: build_flow_prefix_def)

lemma length_build_flow_prefix:
  "build_flow_prefix put_varint f = Inr prefix \<Longrightarrow> 0 < length prefix \<and> length prefix \<le> 9"
  using put_length [of f] by (auto simp: build_flow_prefix_def split: option.splits)

text \<open>A datagram framed for a flow is read back on this flow and on no other.\<close>

lemma parse_built:
  assumes "build_flow_prefix put_varint f = Inr prefix"
  shows "parse_datagram get_varint (prefix @ payload) f' =
    (if f' = f \<and> payload \<noteq> [] then Some payload else None)"
proof -
  obtain enc where enc: "put_varint f = Some enc" and prefix: "prefix = enc @ [0]"
    using assms by (auto simp: build_flow_prefix_def split: option.splits)
  have "get_varint (prefix @ payload) = Some (f, length enc)"
    using get_put [OF enc, of "0 # payload"] by (simp add: prefix)
  moreover have "get_varint (drop (length enc) (prefix @ payload)) = Some (0, 1)"
    by (simp add: prefix get_zero)
  ultimately show ?thesis
    by (simp add: parse_datagram_def Let_def prefix get_zero)
qed

text \<open>What a datagram must be for the receiver to take a packet from it.\<close>

lemma parse_sound:
  assumes "parse_datagram get_varint dgram f = Some payload"
  shows "\<exists>header n. dgram = header @ payload \<and> payload \<noteq> [] \<and> 2 \<le> length header
    \<and> get_varint dgram = Some (f, n) \<and> get_varint (drop n dgram) = Some (0, length header - n)"
proof -
  obtain n m where n: "get_varint dgram = Some (f, n)" and m: "get_varint (drop n dgram) = Some (0, m)"
    and off: "n + m < length dgram" and payload: "payload = drop (n + m) dgram"
    using assms by (auto simp: parse_datagram_def Let_def not_le split: option.splits if_splits)
  have "dgram = take (n + m) dgram @ payload" "length (take (n + m) dgram) = n + m"
    using off by (simp_all add: payload)
  then show ?thesis
    using n m off payload get_consumes [OF n] get_consumes [OF m]
    by (intro exI [of _ "take (n + m) dgram"] exI [of _ n]) auto
qed

end

section \<open>The codec of RFC 9000\<close>

text \<open>
  The encoding RFC 9000 specifies, to instantiate the parameters: the two top bits of the first
  byte give the length, 1, 2, 4 or 8 bytes.
\<close>

definition varint_size :: "nat \<Rightarrow> nat option" where
  "varint_size v =
     (if v < 2 ^ 6 then Some 0 else if v < 2 ^ 14 then Some 1
      else if v < 2 ^ 30 then Some 2 else if v < 2 ^ 62 then Some 3 else None)"

definition rfc9000_put :: "u64 \<Rightarrow> bytes option" where
  "rfc9000_put v =
     (case varint_size (unat v) of
        None \<Rightarrow> None
      | Some t \<Rightarrow> Some (be_bytes (2 ^ t) (unat v + t * 2 ^ (8 * 2 ^ t - 2))))"

definition rfc9000_get :: "bytes \<Rightarrow> (u64 \<times> nat) option" where
  "rfc9000_get xs =
     (case xs of
        [] \<Rightarrow> None
      | b # _ \<Rightarrow>
          (let n = 2 ^ (unat b div 64)
           in if length xs < n then None
              else Some (word_of_nat (be_val (take n xs) mod 2 ^ (8 * n - 2)), n)))"

lemma rfc9000_tagged:
  assumes "t < 4" "v < 2 ^ (8 * 2 ^ t - 2)"
  defines "w \<equiv> v + t * 2 ^ (8 * 2 ^ t - 2)" and "n \<equiv> 2 ^ t"
  shows "w mod 256 ^ n = w" "w div 256 ^ (n - 1) div 64 = t" "w div 256 ^ (n - 1) < 256"
    "w mod 2 ^ (8 * n - 2) = v"
proof -
  have "t = 0 \<or> t = 1 \<or> t = 2 \<or> t = 3"
    using assms(1) by linarith
  then show "w mod 256 ^ n = w" "w div 256 ^ (n - 1) div 64 = t" "w div 256 ^ (n - 1) < 256"
    "w mod 2 ^ (8 * n - 2) = v"
    using assms(2) unfolding w_def n_def by (auto simp: div_mult2_eq [symmetric])
qed

lemma rfc9000_get_put:
  assumes "rfc9000_put v = Some enc"
  shows "rfc9000_get (enc @ rest) = Some (v, length enc)" "length enc \<le> 8"
proof -
  obtain t where t: "varint_size (unat v) = Some t"
    and enc: "enc = be_bytes (2 ^ t) (unat v + t * 2 ^ (8 * 2 ^ t - 2))"
    using assms by (auto simp: rfc9000_put_def split: option.splits)
  have lt: "t < 4" "unat v < 2 ^ (8 * 2 ^ t - 2)"
    using t by (auto simp: varint_size_def split: if_splits)
  note tagged = rfc9000_tagged [OF lt]
  have len: "length enc = 2 ^ t"
    by (simp add: enc)
  then obtain b bs where bs: "enc = b # bs"
    by (cases enc) auto
  have "b = hd enc"
    by (simp add: bs)
  then have "unat b = (unat v + t * 2 ^ (8 * 2 ^ t - 2)) div 256 ^ (2 ^ t - 1)"
    using tagged(3) by (simp add: enc hd_be_bytes unsigned_of_nat take_bit_eq_mod del: of_nat_add)
  then have tag: "unat b div 64 = t"
    using tagged(2) by simp
  have "be_val enc mod 2 ^ (8 * 2 ^ t - 2) = unat v"
    using tagged(1,4) by (simp add: enc be_val_be_bytes)
  moreover have "take (2 ^ t) (enc @ rest) = enc"
    by (simp add: len)
  ultimately have "word_of_nat (be_val (take (2 ^ t) (enc @ rest)) mod 2 ^ (8 * 2 ^ t - 2)) = v"
    by simp
  moreover have "rfc9000_get (enc @ rest) = (let n = 2 ^ (unat b div 64)
     in if length (enc @ rest) < n then None
        else Some (word_of_nat (be_val (take n (enc @ rest)) mod 2 ^ (8 * n - 2)), n))"
    by (simp add: rfc9000_get_def bs Let_def)
  ultimately show "rfc9000_get (enc @ rest) = Some (v, length enc)"
    by (simp add: len tag)
  have "(2::nat) ^ t \<le> 2 ^ 3"
    using lt(1) by (intro power_increasing) simp_all
  then show "length enc \<le> 8"
    by (simp add: len)
qed

interpretation rfc9000: varint_codec rfc9000_put rfc9000_get
proof
  show "\<exists>enc. rfc9000_put v = Some enc" if "unat v < 2 ^ 62" for v
    using that by (auto simp: rfc9000_put_def varint_size_def)
  show "rfc9000_get (0 # rest) = Some (0, 1)" for rest
    by (simp add: rfc9000_get_def be_val_def)
  show "0 < n \<and> n \<le> length xs" if "rfc9000_get xs = Some (v, n)" for xs v n
    using that by (auto simp: rfc9000_get_def Let_def split: list.splits if_splits)
qed (fact rfc9000_get_put)+

section \<open>Properties\<close>

text \<open>
  C34. Round trip of the framing: for every flow id an HTTP/3 stream can have, the prefix exists
  (at most nine bytes) and a payload sent behind it is delivered unchanged on this flow and
  on no other; an empty payload is not delivered. This holds for every codec that keeps the
  law of RFC 9000.
\<close>

theorem datagram_roundtrip:
  assumes "varint_codec put_varint get_varint" "unat f < 2 ^ 62"
  shows "\<exists>prefix. build_flow_prefix put_varint f = Inr prefix \<and> length prefix \<le> 9
    \<and> (\<forall>payload f'. parse_datagram get_varint (prefix @ payload) f' =
         (if f' = f \<and> payload \<noteq> [] then Some payload else None))"
  using varint_codec.build_flow_prefix_defined [OF assms]
    varint_codec.parse_built [OF assms(1)] varint_codec.length_build_flow_prefix [OF assms(1)]
  by fastforce

theorem datagram_roundtrip_witness:
  "\<exists>prefix. build_flow_prefix rfc9000_put 64 = Inr prefix
    \<and> parse_datagram rfc9000_get (prefix @ [0x45, 0x00]) 64 = Some [0x45, 0x00]
    \<and> parse_datagram rfc9000_get (prefix @ [0x45, 0x00]) 4 = None"
  using datagram_roundtrip [OF rfc9000.varint_codec_axioms, of 64] by fastforce

text \<open>
  A packet is taken from a datagram only when the datagram is a header of two integers, the
  expected flow id and the context id 0, followed by that packet, which is not empty: nothing
  of another flow, of another context or with a truncated header reaches the TUN device.
\<close>

theorem parse_datagram_sound:
  assumes "varint_codec put_varint get_varint"
    and "parse_datagram get_varint dgram f = Some payload"
  shows "\<exists>header n. dgram = header @ payload \<and> payload \<noteq> [] \<and> 2 \<le> length header
    \<and> get_varint dgram = Some (f, n) \<and> get_varint (drop n dgram) = Some (0, length header - n)"
  by (rule varint_codec.parse_sound [OF assms])

lemma parse_sample: "parse_datagram rfc9000_get [4, 0, 0x45, 0x00] 4 = Some [0x45, 0x00]"
  by (simp add: parse_datagram_def rfc9000_get_def be_val_def)

theorem parse_datagram_sound_witness:
  "parse_datagram rfc9000_get [4, 0, 0x45, 0x00] 4 = Some [0x45, 0x00]
   \<and> (\<exists>header. [4, 0, 0x45, 0x00] = header @ [0x45, 0x00 :: u8] \<and> 2 \<le> length header)"
  using parse_datagram_sound [OF rfc9000.varint_codec_axioms parse_sample] parse_sample by blast

end
