(* ===== verification/Transitions.thy ===== *)
theory Transitions
  imports Main
begin

text \<open>
  Invariants of step relations: what a component's tasks may do, in any interleaving, is a
  relation, and the locale turns "holds at the start and is kept by every step" into "holds in
  every reachable state". \<open>law\<close> is what the surroundings promise. \<open>settling_system\<close> adds what every
  single step restores.
\<close>

locale invariant_system =
  fixes law :: bool
    and init :: "'s \<Rightarrow> bool"
    and step :: "'s \<Rightarrow> 's \<Rightarrow> bool"
    and inv :: "'s \<Rightarrow> bool"
  assumes inv_init: "law \<Longrightarrow> init s \<Longrightarrow> inv s"
    and inv_step: "law \<Longrightarrow> inv s \<Longrightarrow> step s t \<Longrightarrow> inv t"
begin

lemma inv_steps: "law \<Longrightarrow> step\<^sup>*\<^sup>* s t \<Longrightarrow> inv s \<Longrightarrow> inv t"
  by (rotate_tac 1, induction rule: rtranclp_induct) (auto intro: inv_step)

lemma inv_reachable: "law \<Longrightarrow> init s \<Longrightarrow> step\<^sup>*\<^sup>* s t \<Longrightarrow> inv t"
  using inv_steps inv_init by blast

end

locale settling_system = invariant_system law init step inv
  for law :: bool and init :: "'s \<Rightarrow> bool" and step :: "'s \<Rightarrow> 's \<Rightarrow> bool" and inv :: "'s \<Rightarrow> bool" +
  fixes settled :: "'s \<Rightarrow> bool"
  assumes step_settles: "law \<Longrightarrow> inv s \<Longrightarrow> step s t \<Longrightarrow> settled t"
begin

lemma settled_after: "law \<Longrightarrow> init s \<Longrightarrow> step\<^sup>+\<^sup>+ s t \<Longrightarrow> settled t"
  by (erule tranclp.cases) (blast intro: step_settles inv_init inv_reachable dest: tranclp_into_rtranclp)+

end

end
