(* ===== verification/Native_Tun.thy ===== *)
theory Native_Tun
  imports Net_Addr Transitions
begin

text \<open>
  \<open>native_tun.rs\<close>: the TUN device. The \<open>tun_rs\<close> crate is a parameter: a record of the calls the
  code makes, over an abstract device state \<open>'d\<close>; each call answers with its error text or a
  value and leaves a new device state. The device caches the MTU and whether the IPv6 address is
  on the link, and changes both through the backend.
\<close>

section \<open>The device and its backend\<close>

definition IPV6_MIN_MTU :: u16 where "IPV6_MIN_MTU = 1280"

record tun_options =
  opt_name :: "string option"
  opt_mtu :: u16
  opt_configure_addresses :: bool
  opt_ipv4 :: bool
  opt_ipv6 :: bool
  opt_defer_ipv6 :: bool
  opt_persist :: bool

text \<open>What \<open>DeviceBuilder\<close> accumulates; a prefix length goes with each address.\<close>

record device_builder =
  bld_mtu :: u16
  bld_name :: "string option"
  bld_ipv4 :: "(string \<times> nat) option"
  bld_ipv6 :: "(128 word \<times> nat) option"

record 'd tun_rs =
  rs_build :: "device_builder \<Rightarrow> string + 'd"
  rs_recv :: "'d \<Rightarrow> (string + bytes) \<times> 'd"
  rs_send :: "bytes \<Rightarrow> 'd \<Rightarrow> (string + unit) \<times> 'd"
  rs_mtu :: "'d \<Rightarrow> string + u16"
  rs_set_mtu :: "u16 \<Rightarrow> 'd \<Rightarrow> (string + unit) \<times> 'd"
  rs_add_address_v6 :: "128 word \<Rightarrow> nat \<Rightarrow> 'd \<Rightarrow> (string + unit) \<times> 'd"
  rs_remove_address :: "ip_addr \<Rightarrow> 'd \<Rightarrow> (string + unit) \<times> 'd"
  rs_enabled :: "bool \<Rightarrow> 'd \<Rightarrow> (string + unit) \<times> 'd"
  rs_persist :: "'d \<Rightarrow> (string + unit) \<times> 'd"
  rs_name :: "'d \<Rightarrow> string + string"

record 'd tun_device =
  name :: string
  dev :: 'd
  mtu :: u16
  ipv6_address :: "128 word option"
  manage_ipv6 :: bool
  ipv6_enabled :: bool

datatype tun_error =
    TunRecv string
  | TunSend string
  | TunReadMtu string
  | TunSetMtu u16 string
  | TunAddV6 "128 word" string
  | TunRemoveV6 "128 word" string
  | TunBadIpv6 string
  | TunBuild string
  | TunPersist string

section \<open>Operations\<close>

definition recv_packet :: "'d tun_rs \<Rightarrow> 'd tun_device \<Rightarrow> (tun_error + bytes) \<times> 'd tun_device" where
  "recv_packet rs self =
     (case rs_recv rs (dev self) of
        (Inl e, d) \<Rightarrow> (Inl (TunRecv e), self\<lparr>dev := d\<rparr>)
      | (Inr packet, d) \<Rightarrow> (Inr packet, self\<lparr>dev := d\<rparr>))"

definition send_packet ::
    "'d tun_rs \<Rightarrow> bytes \<Rightarrow> 'd tun_device \<Rightarrow> (tun_error + unit) \<times> 'd tun_device" where
  "send_packet rs packet self =
     (case rs_send rs packet (dev self) of
        (Inl e, d) \<Rightarrow> (Inl (TunSend e), self\<lparr>dev := d\<rparr>)
      | (Inr _, d) \<Rightarrow> (Inr (), self\<lparr>dev := d\<rparr>))"

definition read_mtu :: "'d tun_rs \<Rightarrow> 'd tun_device \<Rightarrow> tun_error + u16" where
  "read_mtu rs self =
     (case rs_mtu rs (dev self) of Inl e \<Rightarrow> Inl (TunReadMtu e) | Inr m \<Rightarrow> Inr m)"

definition set_mtu ::
    "'d tun_rs \<Rightarrow> u16 \<Rightarrow> 'd tun_device \<Rightarrow> (tun_error + unit) \<times> 'd tun_device" where
  "set_mtu rs m self =
     (case rs_set_mtu rs m (dev self) of
        (Inl e, d) \<Rightarrow> (Inl (TunSetMtu m e), self\<lparr>dev := d\<rparr>)
      | (Inr _, d) \<Rightarrow> (Inr (), self\<lparr>dev := d, mtu := m\<rparr>))"

definition set_ipv6_enabled ::
    "'d tun_rs \<Rightarrow> bool \<Rightarrow> 'd tun_device \<Rightarrow> (tun_error + unit) \<times> 'd tun_device" where
  "set_ipv6_enabled rs enabled self =
     (case ipv6_address self of
        None \<Rightarrow> (Inr (), self)
      | Some address \<Rightarrow>
          if \<not> manage_ipv6 self \<or> ipv6_enabled self = enabled then (Inr (), self)
          else if enabled then
            (case rs_add_address_v6 rs address 128 (dev self) of
               (Inl e, d) \<Rightarrow> (Inl (TunAddV6 address e), self\<lparr>dev := d\<rparr>)
             | (Inr _, d) \<Rightarrow> (Inr (), self\<lparr>dev := d, ipv6_enabled := enabled\<rparr>))
          else
            (case rs_remove_address rs (V6 address) (dev self) of
               (Inl e, d) \<Rightarrow> (Inl (TunRemoveV6 address e), self\<lparr>dev := d\<rparr>)
             | (Inr _, d) \<Rightarrow> (Inr (), self\<lparr>dev := d, ipv6_enabled := enabled\<rparr>)))"

definition ipv6_path_supported :: "u16 \<Rightarrow> bool" where
  "ipv6_path_supported m \<longleftrightarrow> IPV6_MIN_MTU \<le> m"

definition apply_path_mtu ::
    "'d tun_rs \<Rightarrow> u16 \<Rightarrow> bool \<Rightarrow> ('d tun_device, tun_error, unit) op" where
  "apply_path_mtu rs m allow_ipv6 =
     (let enable_ipv6 = allow_ipv6 \<and> ipv6_path_supported m in
      op_bind (if \<not> enable_ipv6 then set_ipv6_enabled rs False else op_return ()) (\<lambda>_.
      op_bind (\<lambda>self. if mtu self \<noteq> m then set_mtu rs m self else (Inr (), self)) (\<lambda>_.
      if enable_ipv6 then set_ipv6_enabled rs True else op_return ())))"

text \<open>
  \<open>create\<close>: \<open>cfg_ipv4\<close> and \<open>cfg_ipv6\<close> are the configured addresses, \<open>linux\<close> is the
  \<open>target_os\<close> the crate is compiled for. A failing \<open>enabled(true)\<close> only warns.
\<close>

definition tun_builder :: "string \<Rightarrow> tun_options \<Rightarrow> 128 word option \<Rightarrow> device_builder" where
  "tun_builder cfg_ipv4 opts address =
     \<lparr>bld_mtu = opt_mtu opts,
      bld_name = (case opt_name opts of Some n \<Rightarrow> if n = [] then None else Some n | None \<Rightarrow> None),
      bld_ipv4 = (if opt_configure_addresses opts \<and> opt_ipv4 opts then Some (cfg_ipv4, 32) else None),
      bld_ipv6 = (if opt_configure_addresses opts \<and> \<not> opt_defer_ipv6 opts
                  then map_option (\<lambda>a. (a, 128)) address else None)\<rparr>"

definition create ::
    "bool \<Rightarrow> 'd tun_rs \<Rightarrow> string \<Rightarrow> string \<Rightarrow> tun_options \<Rightarrow> tun_error + 'd tun_device" where
  "create linux rs cfg_ipv4 cfg_ipv6 opts =
     and_then
       (if opt_ipv6 opts
        then (case parse_ipv6 cfg_ipv6 of None \<Rightarrow> Inl (TunBadIpv6 cfg_ipv6) | Some a \<Rightarrow> Inr (Some a))
        else Inr None)
     (\<lambda>address.
     and_then
       (case rs_build rs (tun_builder cfg_ipv4 opts address) of
          Inl e \<Rightarrow> Inl (TunBuild e) | Inr d \<Rightarrow> Inr d)
     (\<lambda>d0.
     let d1 = (if opt_configure_addresses opts \<and> linux then snd (rs_enabled rs True d0) else d0) in
     and_then
       (if opt_persist opts \<and> linux
        then (case rs_persist rs d1 of (Inl e, _) \<Rightarrow> Inl (TunPersist e) | (Inr _, d) \<Rightarrow> Inr d)
        else Inr d1)
     (\<lambda>d2.
     Inr \<lparr>name = (case rs_name rs d2 of
                     Inr n \<Rightarrow> n
                   | Inl _ \<Rightarrow> (case opt_name opts of Some n \<Rightarrow> n | None \<Rightarrow> ''tun-rs'')),
          dev = d2,
          mtu = opt_mtu opts,
          ipv6_address = address,
          manage_ipv6 = opt_configure_addresses opts,
          ipv6_enabled = opt_configure_addresses opts \<and> address \<noteq> None \<and> \<not> opt_defer_ipv6 opts\<rparr>)))"

section \<open>What the link shows\<close>

text \<open>
  \<open>link_laws\<close> is the behaviour the code relies on: the calls that change the MTU or an address
  do so when they succeed and leave the link as it was when they fail, and a built device has the
  MTU and the address the builder was given. \<open>link_mtu\<close> and \<open>link_v6\<close> observe the link.
\<close>

definition link_laws ::
    "'d tun_rs \<Rightarrow> ('d \<Rightarrow> u16) \<Rightarrow> ('d \<Rightarrow> 128 word option) \<Rightarrow> bool" where
  "link_laws rs link_mtu link_v6 \<longleftrightarrow>
     (\<forall>m d. link_v6 (snd (rs_set_mtu rs m d)) = link_v6 d
        \<and> link_mtu (snd (rs_set_mtu rs m d)) = (if is_ok (fst (rs_set_mtu rs m d)) then m else link_mtu d))
     \<and> (\<forall>a p d. link_mtu (snd (rs_add_address_v6 rs a p d)) = link_mtu d
        \<and> link_v6 (snd (rs_add_address_v6 rs a p d))
            = (if is_ok (fst (rs_add_address_v6 rs a p d)) then Some a else link_v6 d))
     \<and> (\<forall>a d. link_mtu (snd (rs_remove_address rs (V6 a) d)) = link_mtu d
        \<and> link_v6 (snd (rs_remove_address rs (V6 a) d))
            = (if is_ok (fst (rs_remove_address rs (V6 a) d)) then None else link_v6 d))
     \<and> (\<forall>b d. rs_build rs b = Inr d \<longrightarrow> link_mtu d = bld_mtu b \<and> link_v6 d = map_option fst (bld_ipv6 b))
     \<and> (\<forall>b d. link_mtu (snd (rs_enabled rs b d)) = link_mtu d \<and> link_v6 (snd (rs_enabled rs b d)) = link_v6 d)
     \<and> (\<forall>d. link_mtu (snd (rs_persist rs d)) = link_mtu d \<and> link_v6 (snd (rs_persist rs d)) = link_v6 d)"

text \<open>
  The cache agrees with the link, for a device that manages its addresses.
\<close>

definition tun_inv ::
    "('d \<Rightarrow> u16) \<Rightarrow> ('d \<Rightarrow> 128 word option) \<Rightarrow> 'd tun_device \<Rightarrow> bool" where
  "tun_inv link_mtu link_v6 self \<longleftrightarrow>
     manage_ipv6 self \<and> link_mtu (dev self) = mtu self
     \<and> link_v6 (dev self) = (if ipv6_enabled self then ipv6_address self else None)
     \<and> (ipv6_enabled self \<longrightarrow> ipv6_address self \<noteq> None)"

text \<open>RFC 8200: no IPv6 address on a link whose MTU is below 1280.\<close>

definition link_safe :: "('d \<Rightarrow> u16) \<Rightarrow> ('d \<Rightarrow> 128 word option) \<Rightarrow> 'd \<Rightarrow> bool" where
  "link_safe link_mtu link_v6 d \<longleftrightarrow> (link_v6 d \<noteq> None \<longrightarrow> IPV6_MIN_MTU \<le> link_mtu d)"

text \<open>
  The same backend, which also writes down every state of the link it leaves, for statements about
  all the states an operation passes through and not only its last.
\<close>

definition logging :: "('d \<Rightarrow> 'r \<times> 'd) \<Rightarrow> 'd \<times> 'd list \<Rightarrow> 'r \<times> ('d \<times> 'd list)" where
  "logging f = (\<lambda>(d, log). let (r, d') = f d in (r, (d', log @ [d'])))"

definition logged :: "'d tun_rs \<Rightarrow> ('d \<times> 'd list) tun_rs" where
  "logged rs =
     \<lparr>rs_build = (\<lambda>b. case rs_build rs b of Inl e \<Rightarrow> Inl e | Inr d \<Rightarrow> Inr (d, [d])),
      rs_recv = logging (rs_recv rs),
      rs_send = (\<lambda>packet. logging (rs_send rs packet)),
      rs_mtu = (\<lambda>(d, log). rs_mtu rs d),
      rs_set_mtu = (\<lambda>m. logging (rs_set_mtu rs m)),
      rs_add_address_v6 = (\<lambda>a p. logging (rs_add_address_v6 rs a p)),
      rs_remove_address = (\<lambda>a. logging (rs_remove_address rs a)),
      rs_enabled = (\<lambda>b. logging (rs_enabled rs b)),
      rs_persist = logging (rs_persist rs),
      rs_name = (\<lambda>(d, log). rs_name rs d)\<rparr>"

lemma logging_simps:
  "fst (logging f x) = fst (f (fst x))"
  "fst (snd (logging f x)) = snd (f (fst x))"
  "snd (snd (logging f x)) = snd x @ [snd (f (fst x))]"
  by (simp_all add: logging_def split_def Let_def)

lemma link_laws_logged:
  "link_laws rs link_mtu link_v6 \<Longrightarrow> link_laws (logged rs) (link_mtu \<circ> fst) (link_v6 \<circ> fst)"
  by (simp add: link_laws_def logged_def logging_simps split: sum.splits)

section \<open>Proofs\<close>

text \<open>One equation per call that changes the link, from the laws.\<close>

lemma link_laws_call:
  assumes "link_laws rs link_mtu link_v6"
  shows
    "rs_set_mtu rs m d = (Inl e, d') \<Longrightarrow> link_mtu d' = link_mtu d \<and> link_v6 d' = link_v6 d"
    "rs_set_mtu rs m d = (Inr u, d') \<Longrightarrow> link_mtu d' = m \<and> link_v6 d' = link_v6 d"
    "rs_add_address_v6 rs a p d = (Inl e, d') \<Longrightarrow> link_mtu d' = link_mtu d \<and> link_v6 d' = link_v6 d"
    "rs_add_address_v6 rs a p d = (Inr u, d') \<Longrightarrow> link_mtu d' = link_mtu d \<and> link_v6 d' = Some a"
    "rs_remove_address rs (V6 a) d = (Inl e, d') \<Longrightarrow> link_mtu d' = link_mtu d \<and> link_v6 d' = link_v6 d"
    "rs_remove_address rs (V6 a) d = (Inr u, d') \<Longrightarrow> link_mtu d' = link_mtu d \<and> link_v6 d' = None"
    "rs_build rs b = Inr d \<Longrightarrow> link_mtu d = bld_mtu b \<and> link_v6 d = map_option fst (bld_ipv6 b)"
    "link_mtu (snd (rs_enabled rs up d)) = link_mtu d \<and> link_v6 (snd (rs_enabled rs up d)) = link_v6 d"
    "rs_persist rs d = (r, d') \<Longrightarrow> link_mtu d' = link_mtu d \<and> link_v6 d' = link_v6 d"
proof -
  show "rs_set_mtu rs m d = (Inl e, d') \<Longrightarrow> link_mtu d' = link_mtu d \<and> link_v6 d' = link_v6 d"
    "rs_set_mtu rs m d = (Inr u, d') \<Longrightarrow> link_mtu d' = m \<and> link_v6 d' = link_v6 d"
    using assms unfolding link_laws_def by (metis fst_conv snd_conv is_ok_simps)+
  show "rs_add_address_v6 rs a p d = (Inl e, d') \<Longrightarrow> link_mtu d' = link_mtu d \<and> link_v6 d' = link_v6 d"
    "rs_add_address_v6 rs a p d = (Inr u, d') \<Longrightarrow> link_mtu d' = link_mtu d \<and> link_v6 d' = Some a"
    using assms unfolding link_laws_def by (metis fst_conv snd_conv is_ok_simps)+
  show "rs_remove_address rs (V6 a) d = (Inl e, d') \<Longrightarrow> link_mtu d' = link_mtu d \<and> link_v6 d' = link_v6 d"
    "rs_remove_address rs (V6 a) d = (Inr u, d') \<Longrightarrow> link_mtu d' = link_mtu d \<and> link_v6 d' = None"
    using assms unfolding link_laws_def by (metis fst_conv snd_conv is_ok_simps)+
  show "rs_build rs b = Inr d \<Longrightarrow> link_mtu d = bld_mtu b \<and> link_v6 d = map_option fst (bld_ipv6 b)"
    "link_mtu (snd (rs_enabled rs up d)) = link_mtu d \<and> link_v6 (snd (rs_enabled rs up d)) = link_v6 d"
    using assms unfolding link_laws_def by blast+
  show "rs_persist rs d = (r, d') \<Longrightarrow> link_mtu d' = link_mtu d \<and> link_v6 d' = link_v6 d"
    using assms unfolding link_laws_def by (metis snd_conv)
qed

lemma set_ipv6_enabled_result:
  assumes laws: "link_laws rs link_mtu link_v6" and inv: "tun_inv link_mtu link_v6 self"
    and call: "set_ipv6_enabled rs b self = (r, self')"
  shows "tun_inv link_mtu link_v6 self' \<and> mtu self' = mtu self
    \<and> ipv6_address self' = ipv6_address self
    \<and> ipv6_enabled self' = (if is_ok r then b \<and> ipv6_address self \<noteq> None else ipv6_enabled self)"
proof (cases "ipv6_address self")
  case None
  then show ?thesis
    using call inv by (auto simp: set_ipv6_enabled_def tun_inv_def)
next
  case (Some a)
  show ?thesis
  proof (cases "\<not> manage_ipv6 self \<or> ipv6_enabled self = b")
    case True
    then show ?thesis
      using call inv Some by (auto simp: set_ipv6_enabled_def tun_inv_def)
  next
    case False
    obtain x d where add: "rs_add_address_v6 rs a 128 (dev self) = (x, d)"
      by fastforce
    obtain y d' where remove: "rs_remove_address rs (V6 a) (dev self) = (y, d')"
      by fastforce
    show ?thesis
    proof (cases b)
      case True
      then show ?thesis
        using call inv Some False add link_laws_call(3,4) [OF laws]
        by (cases x) (auto simp: set_ipv6_enabled_def tun_inv_def)
    next
      case False
      then show ?thesis
        using call inv Some \<open>\<not> (\<not> manage_ipv6 self \<or> ipv6_enabled self = b)\<close> remove
          link_laws_call(5,6) [OF laws]
        by (cases y) (auto simp: set_ipv6_enabled_def tun_inv_def)
    qed
  qed
qed

lemma set_mtu_result:
  assumes laws: "link_laws rs link_mtu link_v6" and inv: "tun_inv link_mtu link_v6 self"
    and call: "set_mtu rs m self = (r, self')"
  shows "tun_inv link_mtu link_v6 self' \<and> mtu self' = (if is_ok r then m else mtu self)
    \<and> ipv6_address self' = ipv6_address self \<and> ipv6_enabled self' = ipv6_enabled self"
  using call inv link_laws_call(1-2) [OF laws]
  by (fastforce simp: set_mtu_def tun_inv_def split: prod.splits sum.splits)

lemma send_packet_frame:
  "mtu (snd (send_packet rs packet self)) = mtu self
   \<and> ipv6_enabled (snd (send_packet rs packet self)) = ipv6_enabled self"
  by (simp add: send_packet_def split: prod.splits sum.splits)

text \<open>
  A device is safe when its cache agrees with the link and the link is not below the IPv6 minimum
  with an IPv6 address on it. \<open>apply_path_mtu\<close> is three phases; \<open>K\<close> is anything that each call
  carries from one safe device to the next, such as a log of the states in between.
\<close>

definition tun_safe ::
    "('d \<Rightarrow> u16) \<Rightarrow> ('d \<Rightarrow> 128 word option) \<Rightarrow> 'd tun_device \<Rightarrow> bool" where
  "tun_safe link_mtu link_v6 self \<longleftrightarrow>
     tun_inv link_mtu link_v6 self \<and> (ipv6_enabled self \<longrightarrow> IPV6_MIN_MTU \<le> mtu self)"

lemma tun_safe_link: "tun_safe link_mtu link_v6 self \<Longrightarrow> link_safe link_mtu link_v6 (dev self)"
  by (auto simp: tun_safe_def tun_inv_def link_safe_def)

definition safe_with ::
    "('d \<Rightarrow> u16) \<Rightarrow> ('d \<Rightarrow> 128 word option) \<Rightarrow> ('d tun_device \<Rightarrow> bool) \<Rightarrow> 128 word option \<Rightarrow> 'd tun_device \<Rightarrow> bool" where
  "safe_with link_mtu link_v6 K address t \<longleftrightarrow> tun_safe link_mtu link_v6 t \<and> K t \<and> ipv6_address t = address"

definition carried ::
    "('d \<Rightarrow> u16) \<Rightarrow> ('d \<Rightarrow> 128 word option) \<Rightarrow> 'd tun_rs \<Rightarrow> u16 \<Rightarrow> ('d tun_device \<Rightarrow> bool) \<Rightarrow> bool" where
  "carried link_mtu link_v6 rs m K \<longleftrightarrow>
     (\<forall>b t q t'. set_ipv6_enabled rs b t = (q, t') \<longrightarrow> tun_safe link_mtu link_v6 t' \<longrightarrow> K t \<longrightarrow> K t')
     \<and> (\<forall>t q t'. set_mtu rs m t = (q, t') \<longrightarrow> tun_safe link_mtu link_v6 t' \<longrightarrow> K t \<longrightarrow> K t')"

lemma safe_with_inv: "safe_with link_mtu link_v6 K address t \<Longrightarrow> tun_inv link_mtu link_v6 t"
  by (simp add: safe_with_def tun_safe_def)

lemma set_ipv6_enabled_safe:
  assumes "link_laws rs link_mtu link_v6" "carried link_mtu link_v6 rs m K" "safe_with link_mtu link_v6 K address t"
    and "set_ipv6_enabled rs b t = (q, t')" "b \<longrightarrow> IPV6_MIN_MTU \<le> mtu t"
  shows "safe_with link_mtu link_v6 K address t'" "mtu t' = mtu t"
    "ipv6_enabled t' = (if is_ok q then b \<and> address \<noteq> None else ipv6_enabled t)"
proof -
  note R = set_ipv6_enabled_result [OF assms(1) safe_with_inv [OF assms(3)] assms(4)]
  then have "tun_safe link_mtu link_v6 t'"
    using assms(3,5) by (simp add: tun_safe_def safe_with_def)
  then show "safe_with link_mtu link_v6 K address t'" "mtu t' = mtu t"
    "ipv6_enabled t' = (if is_ok q then b \<and> address \<noteq> None else ipv6_enabled t)"
    using R assms(2-4) by (auto simp: safe_with_def carried_def)
qed

lemma set_mtu_safe:
  assumes "link_laws rs link_mtu link_v6" "carried link_mtu link_v6 rs m K" "safe_with link_mtu link_v6 K address t"
    and "set_mtu rs m t = (q, t')" "IPV6_MIN_MTU \<le> m \<or> \<not> ipv6_enabled t"
  shows "safe_with link_mtu link_v6 K address t'" "is_ok q \<longrightarrow> mtu t' = m" "ipv6_enabled t' = ipv6_enabled t"
proof -
  note R = set_mtu_result [OF assms(1) safe_with_inv [OF assms(3)] assms(4)]
  then have "tun_safe link_mtu link_v6 t'"
    using assms(3,5) by (auto simp: tun_safe_def safe_with_def)
  then show "safe_with link_mtu link_v6 K address t'" "is_ok q \<longrightarrow> mtu t' = m" "ipv6_enabled t' = ipv6_enabled t"
    using R assms(2-4) by (auto simp: safe_with_def carried_def)
qed

text \<open>The two phases after which the link has its MTU, and is without IPv6 unless that fits.\<close>

lemma path_mtu_resized:
  assumes laws: "link_laws rs link_mtu link_v6" "carried link_mtu link_v6 rs m K" "safe_with link_mtu link_v6 K address self"
    and call: "op_bind (if \<not> want then set_ipv6_enabled rs False else op_return ())
        (\<lambda>_ self. if mtu self \<noteq> m then set_mtu rs m self else (Inr (), self)) self = (r, t)"
    and fits: "want \<Longrightarrow> IPV6_MIN_MTU \<le> m"
  shows "safe_with link_mtu link_v6 K address t \<and> (is_ok r \<longrightarrow> mtu t = m \<and> (want \<or> \<not> ipv6_enabled t))"
proof -
  obtain q1 t1 where one: "(if \<not> want then set_ipv6_enabled rs False else op_return ()) self = (q1, t1)"
    by fastforce
  have safe1: "safe_with link_mtu link_v6 K address t1" "is_ok q1 \<longrightarrow> want \<or> \<not> ipv6_enabled t1"
    using one laws(3) set_ipv6_enabled_safe [OF laws, of False q1 t1] by (auto simp: op_return_def split: if_splits)
  show ?thesis
  proof (cases "is_ok q1 \<and> mtu t1 \<noteq> m")
    case True
    then have "set_mtu rs m t1 = (r, t)"
      using call one by (auto simp: op_bind_def is_ok_iff)
    with set_mtu_safe [OF laws(1,2) safe1(1) this] show ?thesis
      using True safe1(2) fits by auto
  next
    case False
    then show ?thesis
      using call one safe1 by (cases q1) (auto simp: op_bind_def)
  qed
qed

lemma op_bind_assoc: "op_bind m (\<lambda>x. op_bind (k x) h) = op_bind (op_bind m k) h"
  by (auto simp: op_bind_def fun_eq_iff split: prod.splits sum.splits)

lemma apply_path_mtu_phases:
  assumes laws: "link_laws rs link_mtu link_v6" "carried link_mtu link_v6 rs m K" "safe_with link_mtu link_v6 K address self"
    and call: "apply_path_mtu rs m allow self = (r, self')"
  shows "safe_with link_mtu link_v6 K address self'
    \<and> (is_ok r \<longrightarrow> mtu self' = m \<and> ipv6_enabled self' = ((allow \<and> ipv6_path_supported m) \<and> address \<noteq> None))"
proof -
  define want where "want = (allow \<and> ipv6_path_supported m)"
  have fits: "want \<Longrightarrow> IPV6_MIN_MTU \<le> m"
    by (simp add: want_def ipv6_path_supported_def)
  obtain q t where two: "op_bind (if \<not> want then set_ipv6_enabled rs False else op_return ())
      (\<lambda>_ self. if mtu self \<noteq> m then set_mtu rs m self else (Inr (), self)) self = (q, t)"
    by fastforce
  note resized = path_mtu_resized [OF laws two fits]
  have three: "(case q of Inl e \<Rightarrow> (Inl e, t) | Inr _ \<Rightarrow> (if want then set_ipv6_enabled rs True else op_return ()) t) = (r, self')"
    using call two by (simp add: apply_path_mtu_def Let_def want_def [symmetric] op_bind_assoc op_bind_def)
  show ?thesis
  proof (cases "is_ok q \<and> want")
    case True
    then have "set_ipv6_enabled rs True t = (r, self')"
      using three by (auto simp: is_ok_iff)
    with set_ipv6_enabled_safe [OF laws(1,2) conjunct1 [OF resized] this] show ?thesis
      using True resized fits by (auto simp: want_def)
  next
    case False
    then show ?thesis
      using three resized by (cases q) (auto simp: want_def op_return_def)
  qed
qed

lemma apply_path_mtu_result:
  assumes "link_laws rs link_mtu link_v6" "tun_safe link_mtu link_v6 self" "apply_path_mtu rs m allow self = (r, self')"
  shows "tun_safe link_mtu link_v6 self' \<and> ipv6_address self' = ipv6_address self
    \<and> (is_ok r \<longrightarrow> mtu self' = m
        \<and> ipv6_enabled self' = ((allow \<and> ipv6_path_supported m) \<and> ipv6_address self \<noteq> None))"
proof -
  have "carried link_mtu link_v6 rs m (\<lambda>_. True)" "safe_with link_mtu link_v6 (\<lambda>_. True) (ipv6_address self) self"
    using assms(2) by (simp_all add: carried_def safe_with_def)
  from apply_path_mtu_phases [OF assms(1) this assms(3)] show ?thesis
    by (simp add: safe_with_def)
qed

lemma logged_calls:
  assumes "set_ipv6_enabled (logged rs) b t = (q, t') \<or> set_mtu (logged rs) m t = (q, t')"
  shows "set (snd (dev t')) \<subseteq> insert (fst (dev t')) (set (snd (dev t)))"
  using assms
  by (auto simp: set_ipv6_enabled_def set_mtu_def logged_def logging_def Let_def
      split: option.splits if_splits prod.splits sum.splits)

section \<open>Properties\<close>

text \<open>
  C17. IPv6 is never left on a link that cannot carry it: when the path MTU changes, every state the
  link passes through, the ones after a failed call included, has an MTU of at least 1280 while the
  IPv6 address is on it, and the cached state still agrees with the link.
\<close>

theorem apply_path_mtu_safe:
  assumes "link_laws rs link_mtu link_v6"
    and "tun_safe (link_mtu \<circ> fst) (link_v6 \<circ> fst) self" "snd (dev self) = []"
    and "apply_path_mtu (logged rs) m allow_ipv6 self = (r, self')"
  shows "tun_safe (link_mtu \<circ> fst) (link_v6 \<circ> fst) self'
    \<and> list_all (link_safe link_mtu link_v6) (snd (dev self'))"
proof -
  let ?K = "\<lambda>t. list_all (link_safe link_mtu link_v6) (snd (dev t))"
  have "carried (link_mtu \<circ> fst) (link_v6 \<circ> fst) (logged rs) m ?K"
    using logged_calls [of rs] by (fastforce simp: carried_def list_all_iff link_safe_def dest!: tun_safe_link)
  moreover have "safe_with (link_mtu \<circ> fst) (link_v6 \<circ> fst) ?K (ipv6_address self) self"
    using assms(2,3) by (simp add: safe_with_def)
  ultimately show ?thesis
    using apply_path_mtu_phases [OF link_laws_logged [OF assms(1)] _ _ assms(4)] by (fastforce simp: safe_with_def)
qed

text \<open>A backend whose calls all succeed but removing an address, for concrete runs.\<close>

definition sample_rs :: "(u16 \<times> 128 word option) tun_rs" where
  "sample_rs =
     \<lparr>rs_build = (\<lambda>b. Inr (bld_mtu b, map_option fst (bld_ipv6 b))),
      rs_recv = (\<lambda>d. (Inl ''EAGAIN'', d)),
      rs_send = (\<lambda>packet d. (Inr (), d)),
      rs_mtu = (\<lambda>d. Inr (fst d)),
      rs_set_mtu = (\<lambda>m d. (Inr (), (m, snd d))),
      rs_add_address_v6 = (\<lambda>a p d. (Inr (), (fst d, Some a))),
      rs_remove_address = (\<lambda>a d. (case a of V4 _ \<Rightarrow> (Inl ''EINVAL'', d) | V6 _ \<Rightarrow> (Inr (), (fst d, None)))),
      rs_enabled = (\<lambda>b d. (Inr (), d)),
      rs_persist = (\<lambda>d. (Inl ''EPERM'', d)),
      rs_name = (\<lambda>d. Inr ''tun0'')\<rparr>"

lemma link_laws_sample: "link_laws sample_rs fst snd"
  by (simp add: link_laws_def sample_rs_def)

definition sample_device :: "'d \<Rightarrow> 'd tun_device" where
  "sample_device d =
     \<lparr>name = ''tun0'', dev = d, mtu = 1420, ipv6_address = Some 1, manage_ipv6 = True,
      ipv6_enabled = True\<rparr>"

lemma sample_device_safe:
  "tun_safe fst snd (sample_device (1420, Some 1))"
  "tun_safe (fst \<circ> fst) (snd \<circ> fst) (sample_device ((1420, Some 1), []))"
  by (simp_all add: tun_safe_def tun_inv_def sample_device_def IPV6_MIN_MTU_def)

corollary apply_path_mtu_safe_witness:
  "list_all (link_safe fst snd)
     (snd (dev (snd (apply_path_mtu (logged sample_rs) 1200 True (sample_device ((1420, Some 1), []))))))
   \<and> snd (dev (snd (apply_path_mtu (logged sample_rs) 1200 True (sample_device ((1420, Some 1), [])))))
       = [(1420, None), (1200, None)]"
proof
  let ?run = "apply_path_mtu (logged sample_rs) 1200 True (sample_device ((1420, Some 1), []))"
  show "list_all (link_safe fst snd) (snd (dev (snd ?run)))"
    using apply_path_mtu_safe [OF link_laws_sample sample_device_safe(2), of 1200 True "fst ?run" "snd ?run"]
    by (simp add: sample_device_def)
  show "snd (dev (snd ?run)) = [(1420, None), (1200, None)]"
    by (simp add: apply_path_mtu_def Let_def set_ipv6_enabled_def set_mtu_def op_simps logged_def
        logging_def sample_rs_def sample_device_def ipv6_path_supported_def IPV6_MIN_MTU_def)
qed

text \<open>
  When \<open>apply_path_mtu\<close> succeeds the link has the requested MTU, and carries the configured
  IPv6 address exactly when IPv6 is allowed and the MTU is at least 1280.
\<close>

theorem apply_path_mtu_done:
  assumes "link_laws rs link_mtu link_v6" "tun_safe link_mtu link_v6 self"
    and "apply_path_mtu rs m allow_ipv6 self = (Inr (), self')"
  shows "mtu self' = m \<and> link_mtu (dev self') = m
    \<and> link_v6 (dev self') = (if allow_ipv6 \<and> 1280 \<le> m then ipv6_address self else None)"
  using apply_path_mtu_result [OF assms]
  by (auto simp: tun_safe_def tun_inv_def ipv6_path_supported_def IPV6_MIN_MTU_def)

corollary apply_path_mtu_done_witness:
  "mtu (snd (apply_path_mtu sample_rs 1200 True (sample_device (1420, Some 1)))) = 1200"
proof -
  have "fst (apply_path_mtu sample_rs 1200 True (sample_device (1420, Some 1))) = Inr ()"
    by (simp add: apply_path_mtu_def Let_def set_ipv6_enabled_def set_mtu_def op_simps
        sample_rs_def sample_device_def ipv6_path_supported_def IPV6_MIN_MTU_def)
  then show ?thesis
    using apply_path_mtu_done [OF link_laws_sample sample_device_safe(1), of 1200 True]
    by (metis prod.collapse)
qed

text \<open>
  The life of a device: built by \<open>create\<close>, then read, written and re-sized in any order.
\<close>

inductive tun_step :: "'d tun_rs \<Rightarrow> 'd tun_device \<Rightarrow> 'd tun_device \<Rightarrow> bool" for rs where
  recv: "recv_packet rs self = (r, self') \<Longrightarrow> tun_step rs self self'"
| send: "send_packet rs packet self = (r', self') \<Longrightarrow> tun_step rs self self'"
| resize: "apply_path_mtu rs m allow_ipv6 self = (r', self') \<Longrightarrow> tun_step rs self self'"

inductive_cases tun_stepE: "tun_step rs self self'"

text \<open>The devices that are reached from \<open>create\<close> on.\<close>

definition tun_reachable :: "bool \<Rightarrow> 'd tun_rs \<Rightarrow> string \<Rightarrow> string \<Rightarrow> tun_options \<Rightarrow> 'd tun_device \<Rightarrow> bool" where
  "tun_reachable linux rs cfg_ipv4 cfg_ipv6 opts self \<longleftrightarrow>
     (\<exists>self0. create linux rs cfg_ipv4 cfg_ipv6 opts = Inr self0 \<and> (tun_step rs)\<^sup>*\<^sup>* self0 self)"

definition packet_io_laws :: "'d tun_rs \<Rightarrow> ('d \<Rightarrow> u16) \<Rightarrow> ('d \<Rightarrow> 128 word option) \<Rightarrow> bool" where
  "packet_io_laws rs link_mtu link_v6 \<longleftrightarrow>
     (\<forall>d. link_mtu (snd (rs_recv rs d)) = link_mtu d \<and> link_v6 (snd (rs_recv rs d)) = link_v6 d)
     \<and> (\<forall>p d. link_mtu (snd (rs_send rs p d)) = link_mtu d \<and> link_v6 (snd (rs_send rs p d)) = link_v6 d)"

lemma packet_io_moves_only_dev:
  "snd (recv_packet rs self) = self\<lparr>dev := snd (rs_recv rs (dev self))\<rparr>"
  "snd (send_packet rs packet self) = self\<lparr>dev := snd (rs_send rs packet (dev self))\<rparr>"
  by (simp_all add: recv_packet_def send_packet_def split: prod.split sum.split)

lemma packet_io_safe:
  assumes "packet_io_laws rs link_mtu link_v6" "tun_safe link_mtu link_v6 self"
  shows "tun_safe link_mtu link_v6 (snd (recv_packet rs self))"
    "tun_safe link_mtu link_v6 (snd (send_packet rs packet self))"
  using assms by (simp_all add: packet_io_laws_def packet_io_moves_only_dev tun_safe_def tun_inv_def)

lemma create_result:
  assumes "create linux rs cfg_ipv4 cfg_ipv6 opts = Inr self"
  shows "\<exists>address d0 d1.
    rs_build rs (tun_builder cfg_ipv4 opts address) = Inr d0
    \<and> (d1 = d0 \<or> d1 = snd (rs_enabled rs True d0))
    \<and> (dev self = d1 \<or> (\<exists>r. rs_persist rs d1 = (r, dev self)))
    \<and> mtu self = opt_mtu opts \<and> ipv6_address self = address
    \<and> manage_ipv6 self = opt_configure_addresses opts
    \<and> ipv6_enabled self = (opt_configure_addresses opts \<and> address \<noteq> None \<and> \<not> opt_defer_ipv6 opts)
    \<and> (address \<noteq> None \<longrightarrow> opt_ipv6 opts)"
proof -
  define d1 where "d1 d0 = (if opt_configure_addresses opts \<and> linux then snd (rs_enabled rs True d0) else d0)"
    for d0
  obtain address d0 d2 nm where
    address: "(if opt_ipv6 opts
        then (case parse_ipv6 cfg_ipv6 of None \<Rightarrow> Inl (TunBadIpv6 cfg_ipv6) | Some a \<Rightarrow> Inr (Some a))
        else Inr None) = Inr address"
    and build: "(case rs_build rs (tun_builder cfg_ipv4 opts address) of Inl e \<Rightarrow> Inl (TunBuild e) | Inr d \<Rightarrow> Inr d)
      = Inr d0"
    and persist: "(if opt_persist opts \<and> linux
        then (case rs_persist rs (d1 d0) of (Inl e, _) \<Rightarrow> Inl (TunPersist e) | (Inr _, d) \<Rightarrow> Inr d)
        else Inr (d1 d0)) = Inr d2"
    and self: "\<lparr>name = nm, dev = d2, mtu = opt_mtu opts, ipv6_address = address,
      manage_ipv6 = opt_configure_addresses opts,
      ipv6_enabled = (opt_configure_addresses opts \<and> address \<noteq> None \<and> \<not> opt_defer_ipv6 opts)\<rparr> = self"
    using assms unfolding create_def and_then_eq_Inr Let_def d1_def sum.inject
    by (elim exE conjE) (rule that, assumption, assumption, unfold d1_def, assumption+)
  have "address \<noteq> None \<longrightarrow> opt_ipv6 opts"
    using address by (auto split: if_splits)
  moreover have "rs_build rs (tun_builder cfg_ipv4 opts address) = Inr d0"
    using build by (simp split: sum.splits)
  moreover have "d2 = d1 d0 \<or> (\<exists>r. rs_persist rs (d1 d0) = (r, d2))"
    using persist by (auto split: if_splits prod.splits sum.splits)
  moreover have "d1 d0 = d0 \<or> d1 d0 = snd (rs_enabled rs True d0)"
    by (simp add: d1_def)
  ultimately show ?thesis
    using self by (intro exI [of _ address] exI [of _ d0] exI [of _ "d1 d0"]) auto
qed

lemma create_safe:
  assumes laws: "link_laws rs link_mtu link_v6"
    and create: "create linux rs cfg_ipv4 cfg_ipv6 opts = Inr self" "opt_configure_addresses opts"
    and mtu: "opt_ipv6 opts \<and> \<not> opt_defer_ipv6 opts \<longrightarrow> 1280 \<le> opt_mtu opts"
  shows "tun_safe link_mtu link_v6 self"
proof -
  obtain address d0 d1 where
    build: "rs_build rs (tun_builder cfg_ipv4 opts address) = Inr d0"
    and dev: "d1 = d0 \<or> d1 = snd (rs_enabled rs True d0)"
      "dev self = d1 \<or> (\<exists>r. rs_persist rs d1 = (r, dev self))"
    and fields: "mtu self = opt_mtu opts" "ipv6_address self = address"
    "manage_ipv6 self = opt_configure_addresses opts"
    "ipv6_enabled self = (opt_configure_addresses opts \<and> address \<noteq> None \<and> \<not> opt_defer_ipv6 opts)"
    "address \<noteq> None \<longrightarrow> opt_ipv6 opts"
    using create_result [OF create(1)] by metis
  have "link_mtu (dev self) = link_mtu d0 \<and> link_v6 (dev self) = link_v6 d0"
    using dev link_laws_call(8,9) [OF laws] by metis
  moreover have "link_mtu d0 = opt_mtu opts"
    "link_v6 d0 = (if opt_defer_ipv6 opts then None else address)"
    using link_laws_call(7) [OF laws build] create(2)
    by (cases address; simp add: tun_builder_def)+
  ultimately show ?thesis
    using fields create(2) mtu
    by (auto simp: tun_safe_def tun_inv_def IPV6_MIN_MTU_def split: if_splits)
qed

lemma tun_step_safe:
  assumes "link_laws rs link_mtu link_v6" "packet_io_laws rs link_mtu link_v6"
    and "tun_safe link_mtu link_v6 self" "tun_step rs self self'"
  shows "tun_safe link_mtu link_v6 self'"
  using assms(4) packet_io_safe [OF assms(2,3)] apply_path_mtu_result [OF assms(1,3)]
  by (elim tun_stepE) (metis snd_conv | fast)+

text \<open>The options the commands pass: addresses are managed, and IPv6 waits or fits the first MTU.\<close>

definition managed_options :: "tun_options \<Rightarrow> bool" where
  "managed_options opts \<longleftrightarrow>
     opt_configure_addresses opts \<and> (opt_ipv6 opts \<and> \<not> opt_defer_ipv6 opts \<longrightarrow> 1280 \<le> opt_mtu opts)"

interpretation tun_link: invariant_system
  "link_laws rs link_mtu link_v6 \<and> packet_io_laws rs link_mtu link_v6"
  "\<lambda>self. managed_options opts \<and> create linux rs cfg_ipv4 cfg_ipv6 opts = Inr self"
  "tun_step rs" "tun_safe link_mtu link_v6" for rs link_mtu link_v6 opts linux cfg_ipv4 cfg_ipv6
  by unfold_locales (auto simp: managed_options_def intro: create_safe tun_step_safe)

text \<open>
  C33. A device built from options that defer IPv6 or start at an MTU of at least 1280, and then
  used in any way, never has its IPv6 address on a link below the IPv6 minimum MTU.
\<close>

theorem tun_reachable_safe:
  assumes "link_laws rs link_mtu link_v6" "packet_io_laws rs link_mtu link_v6"
    and "opt_configure_addresses opts" "opt_ipv6 opts \<and> \<not> opt_defer_ipv6 opts \<longrightarrow> 1280 \<le> opt_mtu opts"
    and "tun_reachable linux rs cfg_ipv4 cfg_ipv6 opts self"
  shows "link_safe link_mtu link_v6 (dev self) \<and> link_mtu (dev self) = mtu self"
proof -
  from assms(5) obtain self0 where "create linux rs cfg_ipv4 cfg_ipv6 opts = Inr self0" "(tun_step rs)\<^sup>*\<^sup>* self0 self"
    unfolding tun_reachable_def by blast
  then have "tun_safe link_mtu link_v6 self"
    using assms(1-4) tun_link.inv_reachable unfolding managed_options_def by blast
  then show ?thesis
    by (simp add: tun_safe_link) (simp add: tun_safe_def tun_inv_def)
qed

corollary tun_reachable_safe_witness:
  "\<exists>self. tun_reachable True sample_rs ''10.0.0.1'' ''::1''
      \<lparr>opt_name = None, opt_mtu = 1280, opt_configure_addresses = True, opt_ipv4 = True,
       opt_ipv6 = False, opt_defer_ipv6 = False, opt_persist = False\<rparr> self
    \<and> link_safe fst snd (dev self)"
proof -
  let ?opts = "\<lparr>opt_name = None, opt_mtu = 1280, opt_configure_addresses = True, opt_ipv4 = True,
       opt_ipv6 = False, opt_defer_ipv6 = False, opt_persist = False\<rparr>"
  have "\<exists>self. create True sample_rs ''10.0.0.1'' ''::1'' ?opts = Inr self"
    by (simp add: create_def sample_rs_def Let_def)
  then obtain self where reach: "tun_reachable True sample_rs ''10.0.0.1'' ''::1'' ?opts self"
    by (auto simp: tun_reachable_def)
  moreover have "packet_io_laws sample_rs fst snd"
    by (simp add: packet_io_laws_def sample_rs_def)
  ultimately show ?thesis
    using tun_reachable_safe [OF link_laws_sample, of ?opts] by auto
qed

end
