(* ===== verification/Channel.thy ===== *)
theory Channel
  imports Prelude
begin

text \<open>
  The bounded channels (\<open>tokio::sync::mpsc\<close>) between the TUN reader and the packet pump: one
  carries datagrams to the pump, the other carries spent buffers back. The locale is what the
  code uses of a channel; the record is the channel of the model.
\<close>

section \<open>The interface\<close>

locale fifo_channel =
  fixes offer :: "'a \<Rightarrow> 'q \<Rightarrow> bool \<times> 'q"
    and next_item :: "'q \<Rightarrow> 'a option \<times> 'q"
    and contents :: "'q \<Rightarrow> 'a list"
    and room :: "'q \<Rightarrow> nat"
  assumes offer_room: "0 < room q \<Longrightarrow> fst (offer x q)"
    and offer_ok: "offer x q = (True, q') \<Longrightarrow> contents q' = contents q @ [x] \<and> room q = Suc (room q')"
    and offer_full: "offer x q = (False, q') \<Longrightarrow> q' = q"
    and next_some: "next_item q = (Some x, q') \<Longrightarrow> contents q = x # contents q' \<and> room q \<le> room q'"
    and next_none: "next_item q = (None, q') \<Longrightarrow> contents q = [] \<and> q' = q"
begin

definition offer_all :: "'a list \<Rightarrow> 'q \<Rightarrow> 'q" where
  "offer_all xs q = fold (\<lambda>x q. snd (offer x q)) xs q"

lemma offer_all_simps [simp]:
  "offer_all [] q = q"
  "offer_all (x # xs) q = offer_all xs (snd (offer x q))"
  by (simp_all add: offer_all_def)

lemma offer_all_append: "offer_all (xs @ ys) q = offer_all ys (offer_all xs q)"
  by (simp add: offer_all_def)

text \<open>Nothing is lost while there is room, and the order is kept.\<close>

lemma contents_offer_all:
  "length xs \<le> room q \<Longrightarrow> contents (offer_all xs q) = contents q @ xs \<and> room (offer_all xs q) = room q - length xs"
proof (induction xs arbitrary: q)
  case (Cons x xs)
  obtain b q' where q': "offer x q = (b, q')"
    by fastforce
  have b
    using offer_room [of q x] Cons.prems q' by simp
  then have "contents q' = contents q @ [x]" "room q = Suc (room q')"
    using offer_ok q' by auto
  then show ?case
    using Cons q' by simp
qed simp

lemma next_after_offer:
  assumes "contents q = []" "0 < room q" "next_item (snd (offer x q)) = (r, q'')"
  shows "r = Some x \<and> contents q'' = []"
proof -
  obtain b q' where q': "offer x q = (b, q')"
    by fastforce
  then have b: b
    using offer_room [OF assms(2), of x] by simp
  then have "contents q' = [x]"
    using offer_ok q' assms(1) by fastforce
  then show ?thesis
    using next_some [of q' _ q''] next_none [of q' q''] assms(3) q' by (cases r) auto
qed

end

section \<open>The channel of the model\<close>

record 'a channel =
  ch_items :: "'a list"
  ch_capacity :: nat
  ch_closed :: bool

definition try_send :: "'a \<Rightarrow> 'a channel \<Rightarrow> bool \<times> 'a channel" where
  "try_send x ch =
     (if ch_closed ch \<or> ch_capacity ch \<le> length (ch_items ch) then (False, ch)
      else (True, ch\<lparr>ch_items := ch_items ch @ [x]\<rparr>))"

definition try_recv :: "'a channel \<Rightarrow> 'a option \<times> 'a channel" where
  "try_recv ch =
     (case ch_items ch of
        [] \<Rightarrow> (None, ch)
      | x # xs \<Rightarrow> (Some x, ch\<lparr>ch_items := xs\<rparr>))"

definition ch_room :: "'a channel \<Rightarrow> nat" where
  "ch_room ch = (if ch_closed ch then 0 else ch_capacity ch - length (ch_items ch))"

definition new_channel :: "nat \<Rightarrow> 'a channel" where
  "new_channel n = \<lparr>ch_items = [], ch_capacity = n, ch_closed = False\<rparr>"

interpretation mpsc: fifo_channel try_send try_recv ch_items ch_room
  by unfold_locales (auto simp: try_send_def try_recv_def ch_room_def split: if_splits list.splits)

lemma offer_all_frame [simp]:
  "ch_capacity (mpsc.offer_all xs ch) = ch_capacity ch"
  "ch_closed (mpsc.offer_all xs ch) = ch_closed ch"
  by (induction xs arbitrary: ch) (simp_all add: try_send_def)

end
