(* ===== verification/Stats.thy ===== *)
theory Stats
  imports Rust_Str
begin

text \<open>
  \<open>api/masque/stats.rs\<close>: the tunnel's counters, atomic 64-bit integers that wrap, and the text
  forms of a byte count and of a duration in the periodic log line.
\<close>

record stats =
  st_tx_packets :: u64
  st_rx_packets :: u64
  st_tx_bytes :: u64
  st_rx_bytes :: u64
  st_dropped :: u64
  st_quic_lost :: u64
  st_quic_retrans :: u64
  st_tx_queue_len :: u64
  st_tx_backpressure :: u64
  st_rx_drain_budget_hits :: u64

definition new_stats :: stats where
  "new_stats =
     \<lparr>st_tx_packets = 0, st_rx_packets = 0, st_tx_bytes = 0, st_rx_bytes = 0, st_dropped = 0,
      st_quic_lost = 0, st_quic_retrans = 0, st_tx_queue_len = 0, st_tx_backpressure = 0,
      st_rx_drain_budget_hits = 0\<rparr>"

text \<open>The \<open>fetch_add\<close> calls of the packet paths.\<close>

definition count_dropped :: "stats \<Rightarrow> stats" where
  "count_dropped s = s\<lparr>st_dropped := st_dropped s + 1\<rparr>"

definition count_backpressure :: "stats \<Rightarrow> stats" where
  "count_backpressure s = s\<lparr>st_tx_backpressure := st_tx_backpressure s + 1\<rparr>"

definition count_sent :: "nat \<Rightarrow> stats \<Rightarrow> stats" where
  "count_sent len s =
     s\<lparr>st_tx_packets := st_tx_packets s + 1, st_tx_bytes := st_tx_bytes s + word_of_nat len\<rparr>"

definition count_received :: "nat \<Rightarrow> stats \<Rightarrow> stats" where
  "count_received len s =
     s\<lparr>st_rx_packets := st_rx_packets s + 1, st_rx_bytes := st_rx_bytes s + word_of_nat len\<rparr>"

definition count_budget_hit :: "stats \<Rightarrow> stats" where
  "count_budget_hit s = s\<lparr>st_rx_drain_budget_hits := st_rx_drain_budget_hits s + 1\<rparr>"

lemmas count_defs = count_dropped_def count_backpressure_def count_sent_def count_received_def
  count_budget_hit_def

text \<open>\<open>{:02}\<close>\<close>

definition dec02 :: "nat \<Rightarrow> string" where
  "dec02 n = (if n < 10 then ''0'' @ dec n else dec n)"

definition format_duration :: "duration \<Rightarrow> string" where
  "format_duration d =
     (let secs = d div 10 ^ 9 in
      if secs < 60 then dec secs @ ''s''
      else if secs < 3600 then dec (secs div 60) @ ''m '' @ dec02 (secs mod 60) @ ''s''
      else dec (secs div 3600) @ ''h '' @ dec02 (secs mod 3600 div 60) @ ''m '' @ dec02 (secs mod 60) @ ''s'')"

text \<open>
  \<open>{:.1}\<close> of a quotient \<open>n / 2 ^ k\<close>: exact below \<open>2 ^ 53\<close>, where both conversions to \<open>f64\<close> and
  the division by a power of two are exact, and rounded half to even on the last digit. A count
  above that is first rounded to 53 bits by the conversion, half to even.
\<close>

definition round_half_even :: "nat \<Rightarrow> nat \<Rightarrow> nat" where
  "round_half_even n d =
     (let q = n div d; r = n mod d in
      if 2 * r < d then q else if d < 2 * r then q + 1 else if even q then q else q + 1)"

fun bit_len :: "nat \<Rightarrow> nat" where
  "bit_len n = (if n = 0 then 0 else Suc (bit_len (n div 2)))"

declare bit_len.simps [simp del]

definition to_f64 :: "nat \<Rightarrow> nat" where
  "to_f64 n =
     (if n < 2 ^ 53 then n
      else (let e = bit_len n - 53 in round_half_even n (2 ^ e) * 2 ^ e))"

definition one_decimal :: "nat \<Rightarrow> nat \<Rightarrow> string" where
  "one_decimal n d =
     (let tenths = round_half_even (to_f64 n * 10) d in dec (tenths div 10) @ ''.'' @ dec (tenths mod 10))"

definition format_bytes :: "u64 \<Rightarrow> string" where
  "format_bytes b =
     (let n = unat b in
      if n \<ge> 2 ^ 30 then one_decimal n (2 ^ 30) @ '' GiB''
      else if n \<ge> 2 ^ 20 then one_decimal n (2 ^ 20) @ '' MiB''
      else if n \<ge> 2 ^ 10 then one_decimal n (2 ^ 10) @ '' KiB''
      else dec n @ '' B'')"

section \<open>The counters\<close>

lemma unat_count:
  "unat (a + 1) = (unat a + 1) mod 2 ^ 64" "unat (a + word_of_nat n) = (unat a + n) mod 2 ^ 64" for a :: u64
  by (simp_all add: unat_word_ariths unat_of_nat mod_add_right_eq)

section \<open>The duration\<close>

text \<open>
  The parts of the printed duration determine it: hours, minutes below 60 and seconds below 60 add
  up to the whole seconds.
\<close>

definition duration_parts :: "duration \<Rightarrow> nat \<times> nat \<times> nat" where
  "duration_parts d = (let secs = d div 10 ^ 9 in (secs div 3600, secs mod 3600 div 60, secs mod 60))"

lemma hours_minutes_seconds:
  "n mod 3600 div 60 < 60" "n div 3600 * 3600 + n mod 3600 div 60 * 60 + n mod 60 = n" for n :: nat
proof -
  show "n mod 3600 div 60 < 60"
    by (simp add: div_less_iff_less_mult [of 60])
  have "n mod 3600 div 60 * 60 + n mod 3600 mod 60 = n mod 3600"
    by (rule div_mult_mod_eq)
  moreover have "n mod 3600 mod 60 = n mod 60"
    by (rule mod_mod_cancel) simp
  moreover have "n div 3600 * 3600 + n mod 3600 = n"
    by (rule div_mult_mod_eq)
  ultimately show "n div 3600 * 3600 + n mod 3600 div 60 * 60 + n mod 60 = n"
    by linarith
qed

lemma duration_parts_sum:
  "duration_parts d = (h, m, s) \<Longrightarrow> m < 60 \<and> s < 60 \<and> h * 3600 + m * 60 + s = d div 10 ^ 9"
  using hours_minutes_seconds [of "d div 10 ^ 9"] by (auto simp: duration_parts_def Let_def)

lemma format_duration_parts:
  "format_duration d =
     (case duration_parts d of
        (h, m, s) \<Rightarrow>
          if h = 0 \<and> m = 0 then dec s @ ''s''
          else if h = 0 then dec m @ ''m '' @ dec02 s @ ''s''
          else dec h @ ''h '' @ dec02 m @ ''m '' @ dec02 s @ ''s'')"
  by (auto simp: format_duration_def duration_parts_def Let_def div_eq_0_iff)

lemma char_of_digits:
  "char_of (48 :: nat) = CHR ''0''" "char_of (49 :: nat) = CHR ''1''" "char_of (50 :: nat) = CHR ''2''"
  "char_of (51 :: nat) = CHR ''3''" "char_of (52 :: nat) = CHR ''4''" "char_of (53 :: nat) = CHR ''5''"
  "char_of (54 :: nat) = CHR ''6''" "char_of (55 :: nat) = CHR ''7''" "char_of (56 :: nat) = CHR ''8''"
  "char_of (57 :: nat) = CHR ''9''"
  by (simp_all add: char_of_def bit_0)

lemma format_duration_samples:
  "format_duration (59 * 10 ^ 9) = ''59s''"
  "format_duration (3599 * 10 ^ 9) = ''59m 59s''"
  "format_duration (7384 * 10 ^ 9) = ''2h 03m 04s''"
  by (simp_all add: format_duration_def Let_def dec02_def dec.simps char_of_digits)

lemma format_bytes_samples:
  "format_bytes 1023 = ''1023 B''"
  "format_bytes 1024 = ''1.0 KiB''"
  "format_bytes (1536 * 1024) = ''1.5 MiB''"
  by (simp_all add: format_bytes_def Let_def dec.simps one_decimal_def to_f64_def round_half_even_def
      char_of_digits)

end
