(* ===== verification/Tx_Path.thy ===== *)
theory Tx_Path
  imports Icmp Connect_Ip Quic Native_Tun Channel Stats
begin

text \<open>
  The packet paths of \<open>api/masque.rs\<close>: the TUN reader that frames a packet, the queue of framed
  datagrams that goes to the connection (\<open>queue_tx_datagrams\<close>) and the datagrams that come back
  (\<open>drain_incoming_datagrams\<close>). A slice out of range is a panic, \<^term>\<open>None\<close>.
\<close>

section \<open>From the TUN device to the queue\<close>

definition RX_DGRAM_DRAIN_BURST :: nat where "RX_DGRAM_DRAIN_BURST = 32"
definition TX_CHANNEL_DRAIN_BURST :: nat where "TX_CHANNEL_DRAIN_BURST = 256"
definition MAX_PACKET_BUFFER_POOL_SIZE :: nat where "MAX_PACKET_BUFFER_POOL_SIZE = 16384"

record tx_datagram =
  td_bytes :: bytes
  td_wire_len :: nat
  td_ip_len :: nat

datatype reader_outcome =
    ReaderStops
  | ReaderRecycles bytes
  | ReaderSends tx_datagram

text \<open>
  One turn of the reader with a buffer of the pool: the prefix is copied to its front, the packet
  is read behind it (\<open>read\<close> is what \<open>recv_packet\<close> gave: an error, or the bytes), and the packet is
  prepared in place. The second result says that a packet was dropped.
\<close>

definition tun_reader_step ::
    "bytes \<Rightarrow> bytes \<Rightarrow> tun_error + bytes \<Rightarrow> (reader_outcome \<times> bool) option" where
  "tun_reader_step flow_prefix dgram read =
     (let prefix_len = length flow_prefix in
      do {
        dgram \<leftarrow> copy_into 0 prefix_len flow_prefix dgram;
        (case read of
           Inl err \<Rightarrow> Some (ReaderStops, False)
         | Inr packet \<Rightarrow>
             if packet = [] then Some (ReaderStops, False)
             else do {
               dgram \<leftarrow> copy_into prefix_len (prefix_len + length packet) packet dgram;
               ip \<leftarrow> slice prefix_len (prefix_len + length packet) dgram;
               (verdict, ip) \<leftarrow> prepare_outgoing ip;
               dgram \<leftarrow> copy_into prefix_len (prefix_len + length packet) ip dgram;
               (case verdict of
                  Inl e \<Rightarrow> Some (ReaderRecycles dgram, True)
                | Inr _ \<Rightarrow> Some (ReaderSends \<lparr>td_bytes = dgram, td_wire_len = prefix_len + length packet,
                                             td_ip_len = length packet\<rparr>, False))
             })
      })"

section \<open>From the queue to the connection\<close>

record tx_progress =
  tp_queued :: nat
  tp_backpressure :: bool
  tp_icmp_packets :: "bytes list"

record 'c tx_state =
  tx_conn :: 'c
  tx_stats :: stats
  tx_recycle :: "bytes channel"
  tx_progress :: tx_progress

definition recycle :: "bytes \<Rightarrow> 'c tx_state \<Rightarrow> 'c tx_state" where
  "recycle b st = st\<lparr>tx_recycle := snd (try_send b (tx_recycle st))\<rparr>"

definition hold_back :: "'c tx_state \<Rightarrow> 'c tx_state" where
  "hold_back st =
     st\<lparr>tx_stats := count_backpressure (tx_stats st),
        tx_progress := (tx_progress st)\<lparr>tp_backpressure := True\<rparr>\<rparr>"

text \<open>The \<open>while progress.queued < budget\<close> loop, with the queue that is left.\<close>

fun tx_loop ::
    "'c quic \<Rightarrow> nat \<Rightarrow> nat \<Rightarrow> u16 \<Rightarrow> tx_datagram list \<Rightarrow> 'c tx_state
      \<Rightarrow> ('c tx_state \<times> tx_datagram list) option" where
  "tx_loop q budget flow_prefix_len tun_mtu [] st = Some (st, [])"
| "tx_loop q budget flow_prefix_len tun_mtu (item # rest) st =
     (if \<not> tp_queued (tx_progress st) < budget then Some (st, item # rest)
      else if (case q_dgram_max_writable_len q (tx_conn st) of
                 Some max_len \<Rightarrow> td_wire_len item > max_len | None \<Rightarrow> False) then
        do {
          reply \<leftarrow> (if td_wire_len item \<ge> flow_prefix_len then
                       do {
                         ip \<leftarrow> slice flow_prefix_len (td_wire_len item) (td_bytes item);
                         compose_icmp_too_large ip tun_mtu
                       }
                     else Some None);
          let progress = (case reply of
              None \<Rightarrow> tx_progress st
            | Some packet \<Rightarrow> (tx_progress st)\<lparr>tp_icmp_packets := tp_icmp_packets (tx_progress st) @ [packet]\<rparr>);
          tx_loop q budget flow_prefix_len tun_mtu rest
            (recycle (td_bytes item) (st\<lparr>tx_stats := count_dropped (tx_stats st), tx_progress := progress\<rparr>))
        }
      else if q_is_dgram_send_queue_full q (tx_conn st) then Some (hold_back st, item # rest)
      else do {
        wire \<leftarrow> slice 0 (td_wire_len item) (td_bytes item);
        (case q_dgram_send q wire (tx_conn st) of
           (Inr _, c) \<Rightarrow>
             tx_loop q budget flow_prefix_len tun_mtu rest
               ((recycle (td_bytes item)
                   (st\<lparr>tx_conn := c, tx_stats := count_sent (td_ip_len item) (tx_stats st)\<rparr>))
                \<lparr>tx_progress := (tx_progress st)\<lparr>tp_queued := tp_queued (tx_progress st) + 1\<rparr>\<rparr>)
         | (Inl QuicDone, c) \<Rightarrow> Some (hold_back (st\<lparr>tx_conn := c\<rparr>), item # rest)
         | (Inl (QuicError e), c) \<Rightarrow>
             tx_loop q budget flow_prefix_len tun_mtu rest
               (recycle (td_bytes item) (st\<lparr>tx_conn := c, tx_stats := count_dropped (tx_stats st)\<rparr>)))
      })"

definition queue_tx_datagrams ::
    "'c quic \<Rightarrow> 'c \<Rightarrow> tx_datagram list \<Rightarrow> stats \<Rightarrow> nat \<Rightarrow> bytes channel \<Rightarrow> nat \<Rightarrow> u16
      \<Rightarrow> ('c tx_state \<times> tx_datagram list) option" where
  "queue_tx_datagrams q conn tx_queue stats tx_burst_packets recycle_tx flow_prefix_len effective_tun_mtu =
     tx_loop q (max tx_burst_packets 1) flow_prefix_len effective_tun_mtu tx_queue
       \<lparr>tx_conn = conn, tx_stats = stats, tx_recycle = recycle_tx,
        tx_progress = \<lparr>tp_queued = 0, tp_backpressure = False, tp_icmp_packets = []\<rparr>\<rparr>"

section \<open>From the connection to the TUN device\<close>

text \<open>
  \<open>drain_loop\<close> is \<open>while drained < RX_DGRAM_DRAIN_BURST\<close> with the iterations left as its
  argument; the result is the flag, the connection, the counters and the device.
\<close>

fun drain_loop ::
    "'c quic \<Rightarrow> (bytes \<Rightarrow> (u64 \<times> nat) option) \<Rightarrow> 'd tun_rs \<Rightarrow> u64 \<Rightarrow> nat \<Rightarrow> 'c \<Rightarrow> stats \<Rightarrow> 'd tun_device
      \<Rightarrow> (bool \<times> 'c \<times> stats \<times> 'd tun_device) option" where
  "drain_loop q get_varint rs flow_id 0 conn stats tun = Some (True, conn, count_budget_hit stats, tun)"
| "drain_loop q get_varint rs flow_id (Suc left) conn stats tun =
     (case q_dgram_recv q conn of
        (Inl e, c) \<Rightarrow> Some (False, c, stats, tun)
      | (Inr dgram, c) \<Rightarrow>
          (case parse_datagram get_varint dgram flow_id of
             None \<Rightarrow> drain_loop q get_varint rs flow_id left c stats tun
           | Some ip_payload \<Rightarrow>
               do {
                 verdict \<leftarrow> validate_incoming ip_payload;
                 (if is_ok verdict then
                    drain_loop q get_varint rs flow_id left c (count_received (length ip_payload) stats)
                      (snd (send_packet rs ip_payload tun))
                  else drain_loop q get_varint rs flow_id left c stats tun)
               }))"

definition drain_incoming_datagrams ::
    "'c quic \<Rightarrow> (bytes \<Rightarrow> (u64 \<times> nat) option) \<Rightarrow> 'd tun_rs \<Rightarrow> 'c \<Rightarrow> u64 \<Rightarrow> stats \<Rightarrow> 'd tun_device
      \<Rightarrow> (bool \<times> 'c \<times> stats \<times> 'd tun_device) option" where
  "drain_incoming_datagrams q get_varint rs conn flow_id stats tun =
     drain_loop q get_varint rs flow_id RX_DGRAM_DRAIN_BURST conn stats tun"

section \<open>What becomes of a queued datagram\<close>

datatype fate = Sent | TooBig | Refused

definition item_ok :: "nat \<Rightarrow> tx_datagram \<Rightarrow> bool" where
  "item_ok flow_prefix_len item \<longleftrightarrow>
     flow_prefix_len \<le> td_wire_len item \<and> td_wire_len item \<le> length (td_bytes item)"

definition wire_bytes :: "tx_datagram \<Rightarrow> bytes" where
  "wire_bytes item = take (td_wire_len item) (td_bytes item)"

definition ip_bytes :: "nat \<Rightarrow> tx_datagram \<Rightarrow> bytes" where
  "ip_bytes flow_prefix_len item = drop flow_prefix_len (wire_bytes item)"

definition too_big_reply :: "nat \<Rightarrow> u16 \<Rightarrow> tx_datagram \<Rightarrow> bytes list" where
  "too_big_reply flow_prefix_len tun_mtu item =
     (case compose_icmp_too_large (ip_bytes flow_prefix_len item) tun_mtu of
        Some (Some packet) \<Rightarrow> [packet] | _ \<Rightarrow> [])"

definition with_fate :: "fate \<Rightarrow> (tx_datagram \<times> fate) list \<Rightarrow> tx_datagram list" where
  "with_fate f fates = map fst (filter (\<lambda>(item, g). g = f) fates)"

lemma with_fate_simps [simp]:
  "with_fate f [] = []"
  "with_fate f ((item, g) # fates) = (if g = f then item # with_fate f fates else with_fate f fates)"
  by (simp_all add: with_fate_def)

text \<open>\<open>outbox\<close> reads the datagrams the connection has accepted, oldest first.\<close>

definition dgram_send_laws :: "'c quic \<Rightarrow> ('c \<Rightarrow> bytes list) \<Rightarrow> bool" where
  "dgram_send_laws q outbox \<longleftrightarrow>
     (\<forall>d c r c'. q_dgram_send q d c = (r, c') \<longrightarrow>
        outbox c' = (if is_ok r then outbox c @ [d] else outbox c))"

lemma compose_icmp_no_panic: "\<exists>r. compose_icmp_too_large packet tun_mtu = Some r"
  by (simp add: compose_icmp_too_large_eq split: sum.split)

lemma slice_wire:
  assumes "item_ok n item"
  shows "slice 0 (td_wire_len item) (td_bytes item) = Some (wire_bytes item)"
    "slice n (td_wire_len item) (td_bytes item) = Some (ip_bytes n item)"
  using assms by (simp_all add: item_ok_def slice_in wire_bytes_def ip_bytes_def drop_take)

text \<open>
  What the connection makes of the datagrams: one that is longer than it takes goes no further; of the
  others it accepts or refuses each, as long as its queue is not full. It pushes back with a full queue,
  or by saying that it is done.
\<close>

definition over :: "'c quic \<Rightarrow> tx_datagram \<Rightarrow> 'c \<Rightarrow> bool" where
  "over q item c \<longleftrightarrow> (\<exists>max_len. q_dgram_max_writable_len q c = Some max_len \<and> max_len < td_wire_len item)"

definition goes :: "'c quic \<Rightarrow> tx_datagram \<Rightarrow> fate \<Rightarrow> 'c \<Rightarrow> 'c \<Rightarrow> bool" where
  "goes q item f c c1 \<longleftrightarrow>
     (case f of
        TooBig \<Rightarrow> over q item c \<and> c1 = c
      | Sent \<Rightarrow> \<not> over q item c \<and> \<not> q_is_dgram_send_queue_full q c
          \<and> q_dgram_send q (wire_bytes item) c = (Inr (), c1)
      | Refused \<Rightarrow> \<not> over q item c \<and> \<not> q_is_dgram_send_queue_full q c
          \<and> (\<exists>e. q_dgram_send q (wire_bytes item) c = (Inl (QuicError e), c1)))"

fun all_go :: "'c quic \<Rightarrow> (tx_datagram \<times> fate) list \<Rightarrow> 'c \<Rightarrow> 'c \<Rightarrow> bool" where
  "all_go q [] c c' \<longleftrightarrow> c' = c"
| "all_go q ((item, f) # fates) c c' \<longleftrightarrow> (\<exists>c1. goes q item f c c1 \<and> all_go q fates c1 c')"

definition pushes_back :: "'c quic \<Rightarrow> tx_datagram \<Rightarrow> 'c \<Rightarrow> 'c \<Rightarrow> bool" where
  "pushes_back q item c c' \<longleftrightarrow> \<not> over q item c
     \<and> (if q_is_dgram_send_queue_full q c then c' = c else q_dgram_send q (wire_bytes item) c = (Inl QuicDone, c'))"

text \<open>The counters after these fates: packets and bytes sent, datagrams dropped, one push back.\<close>

definition tallied :: "(tx_datagram \<times> fate) list \<Rightarrow> bool \<Rightarrow> stats \<Rightarrow> stats" where
  "tallied fates pushed s =
     s\<lparr>st_tx_packets := st_tx_packets s + word_of_nat (length (with_fate Sent fates)),
       st_tx_bytes := st_tx_bytes s + word_of_nat (sum_list (map td_ip_len (with_fate Sent fates))),
       st_dropped := st_dropped s + word_of_nat (length (with_fate TooBig fates) + length (with_fate Refused fates)),
       st_tx_backpressure := st_tx_backpressure s + (if pushed then 1 else 0)\<rparr>"

lemma tallied_Cons: "tallied (x # fates) pushed s = tallied fates pushed (tallied [x] False s)"
  by (cases x; cases "snd x") (simp_all add: tallied_def ac_simps)

lemma tallied_Nil [simp]: "tallied [] False s = s"
  by (simp add: tallied_def)

definition tx_result ::
    "'c quic \<Rightarrow> ('c \<Rightarrow> bytes list) \<Rightarrow> nat \<Rightarrow> nat \<Rightarrow> u16 \<Rightarrow> tx_datagram list \<Rightarrow> 'c tx_state
      \<Rightarrow> 'c tx_state \<Rightarrow> tx_datagram list \<Rightarrow> bool" where
  "tx_result q outbox budget n tun_mtu queue st st' rest \<longleftrightarrow>
     (\<exists>fates c. queue = map fst fates @ rest \<and> all_go q fates (tx_conn st) c
        \<and> outbox (tx_conn st') = outbox (tx_conn st) @ map wire_bytes (with_fate Sent fates)
        \<and> tp_queued (tx_progress st') = tp_queued (tx_progress st) + length (with_fate Sent fates)
        \<and> tp_queued (tx_progress st') \<le> max budget (tp_queued (tx_progress st))
        \<and> tp_icmp_packets (tx_progress st')
            = tp_icmp_packets (tx_progress st) @ concat (map (too_big_reply n tun_mtu) (with_fate TooBig fates))
        \<and> tx_recycle st' = mpsc.offer_all (map (td_bytes \<circ> fst) fates) (tx_recycle st)
        \<and> tx_stats st' = tallied fates (tp_backpressure (tx_progress st')) (tx_stats st)
        \<and> (if tp_backpressure (tx_progress st') then rest \<noteq> [] \<and> pushes_back q (hd rest) c (tx_conn st')
            else tx_conn st' = c \<and> (rest = [] \<or> budget \<le> tp_queued (tx_progress st'))))"

text \<open>One turn of the loop takes the datagram, with a fate, or leaves it and stops.\<close>

definition tx_step ::
    "'c quic \<Rightarrow> ('c \<Rightarrow> bytes list) \<Rightarrow> nat \<Rightarrow> nat \<Rightarrow> u16 \<Rightarrow> tx_datagram \<Rightarrow> fate \<Rightarrow> 'c tx_state \<Rightarrow> 'c tx_state \<Rightarrow> bool" where
  "tx_step q outbox budget n tun_mtu item f st st1 \<longleftrightarrow>
     goes q item f (tx_conn st) (tx_conn st1)
     \<and> outbox (tx_conn st1) = outbox (tx_conn st) @ (if f = Sent then [wire_bytes item] else [])
     \<and> tp_queued (tx_progress st1) = tp_queued (tx_progress st) + (if f = Sent then 1 else 0)
     \<and> tp_queued (tx_progress st) < budget
     \<and> tp_icmp_packets (tx_progress st1)
        = tp_icmp_packets (tx_progress st) @ (if f = TooBig then too_big_reply n tun_mtu item else [])
     \<and> tx_recycle st1 = snd (try_send (td_bytes item) (tx_recycle st))
     \<and> tx_stats st1 = tallied [(item, f)] False (tx_stats st)
     \<and> tp_backpressure (tx_progress st1) = tp_backpressure (tx_progress st)"

definition tx_stop ::
    "'c quic \<Rightarrow> ('c \<Rightarrow> bytes list) \<Rightarrow> nat \<Rightarrow> tx_datagram \<Rightarrow> 'c tx_state \<Rightarrow> 'c tx_state \<Rightarrow> bool" where
  "tx_stop q outbox budget item st st' \<longleftrightarrow>
     outbox (tx_conn st') = outbox (tx_conn st)
     \<and> tp_queued (tx_progress st') = tp_queued (tx_progress st)
     \<and> tp_icmp_packets (tx_progress st') = tp_icmp_packets (tx_progress st)
     \<and> tx_recycle st' = tx_recycle st
     \<and> tx_stats st' = tallied [] (tp_backpressure (tx_progress st')) (tx_stats st)
     \<and> (if tp_backpressure (tx_progress st') then pushes_back q item (tx_conn st) (tx_conn st')
         else tx_conn st' = tx_conn st \<and> budget \<le> tp_queued (tx_progress st))"

lemma tx_result_stop:
  "tx_stop q outbox budget item st st' \<Longrightarrow> tx_result q outbox budget n tun_mtu (item # rest) st st' (item # rest)"
  unfolding tx_stop_def tx_result_def
  by (intro exI [of _ "[]"] exI [of _ "tx_conn st"]) (auto split: if_splits)

lemma tx_result_step:
  assumes "tx_result q outbox budget n tun_mtu rest st1 st' rest'" "tx_step q outbox budget n tun_mtu item f st st1"
  shows "tx_result q outbox budget n tun_mtu (item # rest) st st' rest'"
proof -
  obtain fates c where fates: "rest = map fst fates @ rest'" "all_go q fates (tx_conn st1) c"
    "outbox (tx_conn st') = outbox (tx_conn st1) @ map wire_bytes (with_fate Sent fates)"
    "tp_queued (tx_progress st') = tp_queued (tx_progress st1) + length (with_fate Sent fates)"
    "tp_queued (tx_progress st') \<le> max budget (tp_queued (tx_progress st1))"
    "tp_icmp_packets (tx_progress st')
      = tp_icmp_packets (tx_progress st1) @ concat (map (too_big_reply n tun_mtu) (with_fate TooBig fates))"
    "tx_recycle st' = mpsc.offer_all (map (td_bytes \<circ> fst) fates) (tx_recycle st1)"
    "tx_stats st' = tallied fates (tp_backpressure (tx_progress st')) (tx_stats st1)"
    "if tp_backpressure (tx_progress st') then rest' \<noteq> [] \<and> pushes_back q (hd rest') c (tx_conn st')
     else tx_conn st' = c \<and> (rest' = [] \<or> budget \<le> tp_queued (tx_progress st'))"
    using assms(1) unfolding tx_result_def by blast
  have "all_go q ((item, f) # fates) (tx_conn st) c"
    using assms(2) fates(2) by (auto simp: tx_step_def)
  moreover have "tx_stats st' = tallied ((item, f) # fates) (tp_backpressure (tx_progress st')) (tx_stats st)"
    using assms(2) fates(8) tallied_Cons [of "(item, f)" fates] by (simp add: tx_step_def)
  ultimately show ?thesis
    unfolding tx_result_def
    by (intro exI [of _ "(item, f) # fates"] exI [of _ c], cases f)
      (use assms(2) fates(1,3-7,9) in \<open>simp_all add: ac_simps tx_step_def del: all_go.simps\<close>)
qed

lemma over_case:
  "(case q_dgram_max_writable_len q c of Some max_len \<Rightarrow> td_wire_len item > max_len | None \<Rightarrow> False) \<longleftrightarrow> over q item c"
  by (simp add: over_def split: option.split)

lemma tx_loop_too_big:
  assumes "tp_queued (tx_progress st) < budget" "over q item (tx_conn st)" "item_ok n item"
  obtains st1 where "tx_loop q budget n tun_mtu (item # rest) st = tx_loop q budget n tun_mtu rest st1"
    "tx_step q outbox budget n tun_mtu item TooBig st st1"
proof -
  obtain reply where reply: "compose_icmp_too_large (ip_bytes n item) tun_mtu = Some reply"
    using compose_icmp_no_panic by blast
  define st1 where "st1 = recycle (td_bytes item) (st\<lparr>tx_stats := count_dropped (tx_stats st),
    tx_progress := (case reply of None \<Rightarrow> tx_progress st
      | Some packet \<Rightarrow> (tx_progress st)\<lparr>tp_icmp_packets := tp_icmp_packets (tx_progress st) @ [packet]\<rparr>)\<rparr>)"
  have "tx_loop q budget n tun_mtu (item # rest) st = tx_loop q budget n tun_mtu rest st1"
    using assms reply
    by (simp add: over_case slice_wire(2) [OF assms(3)] st1_def Let_def) (simp add: item_ok_def)
  moreover have "tx_step q outbox budget n tun_mtu item TooBig st st1"
    using assms(1,2)
    by (simp add: tx_step_def goes_def st1_def recycle_def count_defs tallied_def too_big_reply_def reply split: option.split)
  ultimately show thesis
    by (rule that)
qed

lemma tx_loop_sends:
  assumes "dgram_send_laws q outbox" "tp_queued (tx_progress st) < budget" "\<not> over q item (tx_conn st)" "item_ok n item"
    and "\<not> q_is_dgram_send_queue_full q (tx_conn st)"
  obtains (stops) st' where "tx_loop q budget n tun_mtu (item # rest) st = Some (st', item # rest)"
      "tx_stop q outbox budget item st st'"
  | (takes) f st1 where "tx_loop q budget n tun_mtu (item # rest) st = tx_loop q budget n tun_mtu rest st1"
      "tx_step q outbox budget n tun_mtu item f st st1"
proof -
  obtain r c where call: "q_dgram_send q (wire_bytes item) (tx_conn st) = (r, c)"
    by fastforce
  note box = assms(1) [unfolded dgram_send_laws_def, rule_format, OF call]
  have turn: "tx_loop q budget n tun_mtu (item # rest) st =
     (case r of
        Inr _ \<Rightarrow> tx_loop q budget n tun_mtu rest
          ((recycle (td_bytes item) (st\<lparr>tx_conn := c, tx_stats := count_sent (td_ip_len item) (tx_stats st)\<rparr>))
             \<lparr>tx_progress := (tx_progress st)\<lparr>tp_queued := tp_queued (tx_progress st) + 1\<rparr>\<rparr>)
      | Inl QuicDone \<Rightarrow> Some (hold_back (st\<lparr>tx_conn := c\<rparr>), item # rest)
      | Inl (QuicError e) \<Rightarrow> tx_loop q budget n tun_mtu rest
          (recycle (td_bytes item) (st\<lparr>tx_conn := c, tx_stats := count_dropped (tx_stats st)\<rparr>)))"
    using assms(2-) call by (simp add: over_case slice_wire(1) [OF assms(4)])
  show thesis
  proof (cases r)
    case (Inr u)
    show thesis
      by (rule takes [OF turn [unfolded Inr sum.case], where f = Sent])
        (use box Inr assms(2,3,5) call in \<open>simp add: tx_step_def goes_def tallied_def recycle_def count_defs\<close>)
  next
    case (Inl e)
    show thesis
    proof (cases e)
      case QuicDone
      show thesis
        by (rule stops [OF turn [unfolded Inl QuicDone sum.case quic_error.case]])
          (use box Inl QuicDone assms(3,5) call in
            \<open>simp add: tx_stop_def pushes_back_def tallied_def hold_back_def count_defs\<close>)
    next
      case (QuicError msg)
      show thesis
        by (rule takes [OF turn [unfolded Inl QuicError sum.case quic_error.case], where f = Refused])
          (use box Inl QuicError assms(2,3,5) call in
            \<open>simp add: tx_step_def goes_def tallied_def recycle_def count_defs\<close>)
    qed
  qed
qed

lemma tx_loop_turn:
  assumes "dgram_send_laws q outbox" "item_ok n item" "\<not> tp_backpressure (tx_progress st)"
  obtains (stops) st' where "tx_loop q budget n tun_mtu (item # rest) st = Some (st', item # rest)"
      "tx_stop q outbox budget item st st'"
  | (takes) f st1 where "tx_loop q budget n tun_mtu (item # rest) st = tx_loop q budget n tun_mtu rest st1"
      "tx_step q outbox budget n tun_mtu item f st st1"
proof (cases "tp_queued (tx_progress st) < budget")
  case False
  then show thesis
    using assms(3) by (intro stops [of st]) (simp_all add: tx_stop_def)
next
  case room: True
  show thesis
  proof (cases "over q item (tx_conn st)")
    case True
    then show thesis
      using tx_loop_too_big [OF room _ assms(2)] takes by metis
  next
    case fits: False
    show thesis
    proof (cases "q_is_dgram_send_queue_full q (tx_conn st)")
      case True
      then show thesis
        using room fits
        by (intro stops [of "hold_back st"])
          (simp_all add: over_case tx_stop_def pushes_back_def tallied_def hold_back_def count_defs)
    next
      case False
      show thesis
        by (rule tx_loop_sends [OF assms(1) room fits assms(2) False]) (rule stops takes; assumption)+
    qed
  qed
qed

lemma tx_loop_result:
  assumes "dgram_send_laws q outbox"
  shows "list_all (item_ok n) queue \<Longrightarrow> \<not> tp_backpressure (tx_progress st) \<Longrightarrow>
    \<exists>st' rest. tx_loop q budget n tun_mtu queue st = Some (st', rest)
      \<and> tx_result q outbox budget n tun_mtu queue st st' rest"
proof (induction queue arbitrary: st)
  case Nil
  then show ?case
    unfolding tx_result_def by (auto intro!: exI [of _ "[]"])
next
  case (Cons item rest)
  then have ok: "item_ok n item" "list_all (item_ok n) rest"
    by simp_all
  show ?case
  proof (rule tx_loop_turn [OF assms ok(1) Cons.prems(2)])
    show ?thesis if "tx_loop q budget n tun_mtu (item # rest) st = Some (st', item # rest)"
      "tx_stop q outbox budget item st st'" for st'
      using that tx_result_stop by blast
    show ?thesis if run: "tx_loop q budget n tun_mtu (item # rest) st = tx_loop q budget n tun_mtu rest st1"
      and step: "tx_step q outbox budget n tun_mtu item f st st1" for f st1
    proof -
      have "\<not> tp_backpressure (tx_progress st1)"
        using step Cons.prems(2) by (simp add: tx_step_def)
      from Cons.IH [OF ok(2) this] show ?thesis
        using run tx_result_step [OF _ step] by fastforce
    qed
  qed
qed

definition tx_start :: "'c \<Rightarrow> stats \<Rightarrow> bytes channel \<Rightarrow> 'c tx_state" where
  "tx_start conn stats recycle_tx =
     \<lparr>tx_conn = conn, tx_stats = stats, tx_recycle = recycle_tx,
      tx_progress = \<lparr>tp_queued = 0, tp_backpressure = False, tp_icmp_packets = []\<rparr>\<rparr>"

lemma queue_tx_result:
  assumes "dgram_send_laws q outbox" "list_all (item_ok n) queue"
  shows "\<exists>st rest. queue_tx_datagrams q conn queue stats burst recycle_tx n tun_mtu = Some (st, rest)
    \<and> tx_result q outbox (max burst 1) n tun_mtu queue (tx_start conn stats recycle_tx) st rest"
  using tx_loop_result [OF assms, of "tx_start conn stats recycle_tx" "max burst 1" tun_mtu]
  by (simp add: queue_tx_datagrams_def tx_start_def)

text \<open>With room in the free channel every buffer of a consumed datagram is back in it.\<close>

lemma tx_result_buffers:
  assumes "tx_result q outbox budget n tun_mtu queue (tx_start conn stats recycle_tx) st rest"
    and "length queue \<le> ch_room recycle_tx"
  shows "\<exists>gone. queue = gone @ rest \<and> ch_items (tx_recycle st) = ch_items recycle_tx @ map td_bytes gone
    \<and> ch_capacity (tx_recycle st) = ch_capacity recycle_tx \<and> ch_closed (tx_recycle st) = ch_closed recycle_tx"
proof -
  obtain fates :: "(tx_datagram \<times> fate) list" where "queue = map fst fates @ rest"
    "tx_recycle st = mpsc.offer_all (map (td_bytes \<circ> fst) fates) (tx_recycle (tx_start conn stats recycle_tx))"
    using assms(1) unfolding tx_result_def by blast
  then have fates: "queue = map fst fates @ rest"
    "tx_recycle st = mpsc.offer_all (map (td_bytes \<circ> fst) fates) recycle_tx"
    by (simp_all add: tx_start_def)
  have "length (map (td_bytes \<circ> fst) fates) \<le> ch_room recycle_tx"
    using assms(2) fates(1) by simp
  then show ?thesis
    using mpsc.contents_offer_all [of "map (td_bytes \<circ> fst) fates" recycle_tx] fates
    by (intro exI [of _ "map fst fates"]) simp
qed

section \<open>The reader\<close>

lemma tun_reader_step_eq:
  assumes "length flow_prefix + length packet \<le> length dgram" "packet \<noteq> []"
  shows "\<exists>body. length body = length dgram \<and> tun_reader_step flow_prefix dgram (Inr packet) =
    Some (case verdict packet of
        Inl e \<Rightarrow> (ReaderRecycles body, True)
      | Inr v \<Rightarrow> if hop_count packet \<le> 1 then (ReaderRecycles body, True)
          else (ReaderSends \<lparr>td_bytes = body, td_wire_len = length flow_prefix + length packet,
                             td_ip_len = length packet\<rparr>, False))
    \<and> (\<forall>v. prepare_outgoing packet = Some (Inr v, forwarded packet) \<longrightarrow>
        take (length flow_prefix + length packet) body = flow_prefix @ forwarded packet)"
proof -
  let ?n = "length flow_prefix"
  define d1 where "d1 = patch 0 flow_prefix dgram"
  define d2 where "d2 = patch ?n packet d1"
  obtain vd ip where prep: "prepare_outgoing packet = Some (vd, ip)"
    by (metis prepare_outgoing_eq surj_pair)
  have len_ip: "length ip = length packet"
    using prep length_forwarded [of packet]
    by (cases "verdict packet") (auto simp: prepare_outgoing_eq split: if_splits)
  define body where "body = patch ?n ip d2"
  have len: "length d1 = length dgram" "length d2 = length dgram" "length body = length dgram"
    using assms(1) len_ip by (simp_all add: d1_def d2_def body_def)
  have s1: "copy_into 0 ?n flow_prefix dgram = Some d1"
    using assms(1) by (simp add: copy_into_in d1_def)
  have s2: "copy_into ?n (?n + length packet) packet d1 = Some d2"
    using assms(1) len by (simp add: copy_into_in d2_def)
  have s3: "slice ?n (?n + length packet) d2 = Some packet"
    using assms(1) len by (simp add: slice_in d2_def range_patch_same)
  have s4: "copy_into ?n (?n + length packet) ip d2 = Some body"
    using assms(1) len len_ip by (simp add: copy_into_in body_def)
  have "tun_reader_step flow_prefix dgram (Inr packet) =
    Some (case vd of Inl e \<Rightarrow> (ReaderRecycles body, True)
      | Inr v \<Rightarrow> (ReaderSends \<lparr>td_bytes = body, td_wire_len = ?n + length packet,
                             td_ip_len = length packet\<rparr>, False))"
    using assms(2) by (simp add: tun_reader_step_def Let_def s1 s2 s3 s4 prep split: sum.split)
  moreover have "take (?n + length packet) body = flow_prefix @ ip"
  proof -
    have "take ?n body = flow_prefix"
      using assms(1) len len_ip by (simp add: body_def d2_def d1_def take_patch_below) (simp add: patch_def)
    moreover have "take (length packet) (drop ?n body) = ip"
      using assms(1) len len_ip by (simp add: body_def range_patch_same)
    ultimately show ?thesis
      by (metis take_add)
  qed
  ultimately show ?thesis
    using prep len(3) by (intro exI [of _ body]) (auto simp: prepare_outgoing_eq split: sum.splits if_splits)
qed

section \<open>The way back\<close>

text \<open>\<open>dgram_inbox\<close> reads the datagrams the connection has received and not yet delivered.\<close>

definition dgram_recv_laws :: "'c quic \<Rightarrow> ('c \<Rightarrow> bytes list) \<Rightarrow> bool" where
  "dgram_recv_laws q dgram_inbox \<longleftrightarrow>
     (\<forall>c r c'. q_dgram_recv q c = (r, c') \<longrightarrow>
        (case r of Inr d \<Rightarrow> dgram_inbox c = d # dgram_inbox c'
         | Inl e \<Rightarrow> dgram_inbox c' = dgram_inbox c \<and> (e = QuicDone \<longrightarrow> dgram_inbox c = [])))"

text \<open>\<open>tun_written\<close> reads the packets written to the link, whether or not the write succeeded.\<close>

definition tun_write_laws :: "'d tun_rs \<Rightarrow> ('d \<Rightarrow> bytes list) \<Rightarrow> bool" where
  "tun_write_laws rs tun_written \<longleftrightarrow> (\<forall>p d. tun_written (snd (rs_send rs p d)) = tun_written d @ [p])"

definition accepted_packets :: "(bytes \<Rightarrow> (u64 \<times> nat) option) \<Rightarrow> u64 \<Rightarrow> bytes list \<Rightarrow> bytes list" where
  "accepted_packets get_varint flow_id ds =
     filter (\<lambda>p. is_ok (verdict p)) (List.map_filter (\<lambda>d. parse_datagram get_varint d flow_id) ds)"

lemma accepted_packets_simps [simp]:
  "accepted_packets get_varint flow_id [] = []"
  "accepted_packets get_varint flow_id (d # ds) =
     (case parse_datagram get_varint d flow_id of
        None \<Rightarrow> accepted_packets get_varint flow_id ds
      | Some p \<Rightarrow> if is_ok (verdict p) then p # accepted_packets get_varint flow_id ds
                  else accepted_packets get_varint flow_id ds)"
  by (simp_all add: accepted_packets_def List.map_filter_simps split: option.split)

lemma drain_loop_delivers:
  assumes "dgram_recv_laws q dgram_inbox" "tun_write_laws rs tun_written"
  shows "\<exists>hit c' stats' tun' ds. drain_loop q get_varint rs flow_id left c stats tun = Some (hit, c', stats', tun')
    \<and> dgram_inbox c = ds @ dgram_inbox c' \<and> length ds \<le> left \<and> (hit \<longleftrightarrow> length ds = left)
    \<and> tun_written (dev tun') = tun_written (dev tun) @ accepted_packets get_varint flow_id ds
    \<and> st_rx_packets stats' = st_rx_packets stats + word_of_nat (length (accepted_packets get_varint flow_id ds))
    \<and> st_rx_bytes stats' = st_rx_bytes stats
        + word_of_nat (sum_list (map length (accepted_packets get_varint flow_id ds)))"
proof (induction left arbitrary: c stats tun)
  case 0
  then show ?case
    by (intro exI [of _ True] exI [of _ c] exI [of _ "count_budget_hit stats"] exI [of _ tun] exI [of _ "[]"])
      (simp add: count_defs)
next
  case (Suc left)
  obtain r c1 where recv: "q_dgram_recv q c = (r, c1)"
    by fastforce
  note law = assms(1) [unfolded dgram_recv_laws_def, rule_format, OF recv]
  show ?case
  proof (cases r)
    case (Inl e)
    then show ?thesis
      using recv law by (intro exI [of _ False]) simp
  next
    case (Inr d)
    define ps where "ps = accepted_packets get_varint flow_id [d]"
    define tun1 where "tun1 = fold (\<lambda>p t. snd (send_packet rs p t)) ps tun"
    define stats1 where "stats1 = fold (\<lambda>p s. count_received (length p) s) ps stats"
    have ps: "ps = [] \<or> (\<exists>p. ps = [p])"
      by (simp add: ps_def split: option.split)
    have step: "drain_loop q get_varint rs flow_id (Suc left) c stats tun
        = drain_loop q get_varint rs flow_id left c1 stats1 tun1"
      using recv Inr by (simp add: ps_def tun1_def stats1_def validate_incoming_eq split: option.split)
    have one: "tun_written (dev tun1) = tun_written (dev tun) @ ps"
      "st_rx_packets stats1 = st_rx_packets stats + word_of_nat (length ps)"
      "st_rx_bytes stats1 = st_rx_bytes stats + word_of_nat (sum_list (map length ps))"
      using ps assms(2) by (auto simp: tun1_def stats1_def count_defs packet_io_moves_only_dev tun_write_laws_def)
    have parts: "accepted_packets get_varint flow_id (d # ds) = ps @ accepted_packets get_varint flow_id ds" for ds
      by (simp add: ps_def split: option.split)
    obtain hit c' stats' tun' ds where IH: "drain_loop q get_varint rs flow_id left c1 stats1 tun1 = Some (hit, c', stats', tun')"
      "dgram_inbox c1 = ds @ dgram_inbox c'" "length ds \<le> left" "hit \<longleftrightarrow> length ds = left"
      "tun_written (dev tun') = tun_written (dev tun1) @ accepted_packets get_varint flow_id ds"
      "st_rx_packets stats' = st_rx_packets stats1 + word_of_nat (length (accepted_packets get_varint flow_id ds))"
      "st_rx_bytes stats' = st_rx_bytes stats1
        + word_of_nat (sum_list (map length (accepted_packets get_varint flow_id ds)))"
      using Suc.IH [of c1 stats1 tun1] by blast
    show ?thesis
      unfolding step
      by (intro exI [of _ hit] exI [of _ c'] exI [of _ stats'] exI [of _ tun'] exI [of _ "d # ds"])
        (use IH one law Inr in \<open>simp add: parts del: accepted_packets_simps(2)\<close>)
  qed
qed

section \<open>Samples\<close>

text \<open>A connection with a bounded queue of datagrams and a size limit.\<close>

record sample_dgrams =
  sd_out :: "bytes list"
  sd_in :: "bytes list"

definition sample_dgram_quic :: "sample_dgrams quic" where
  "sample_dgram_quic =
     \<lparr>q_send = (\<lambda>cap c. (Inl QuicDone, c)),
      q_recv = (\<lambda>d c. (Inr (length d), c)),
      q_timeout = (\<lambda>c. None), q_on_timeout = (\<lambda>c. c), q_is_established = (\<lambda>c. True),
      q_is_closed = (\<lambda>c. False), q_pmtu = (\<lambda>c. None), q_revalidate_pmtu = (\<lambda>c. c),
      q_send_ack_eliciting = (\<lambda>c. (Inr (), c)),
      q_dgram_max_writable_len = (\<lambda>c. Some 22),
      q_is_dgram_send_queue_full = (\<lambda>c. length (sd_out c) \<ge> 2),
      q_dgram_send = (\<lambda>d c. (Inr (), c\<lparr>sd_out := sd_out c @ [d]\<rparr>)),
      q_dgram_recv = (\<lambda>c. case sd_in c of [] \<Rightarrow> (Inl QuicDone, c) | d # ds \<Rightarrow> (Inr d, c\<lparr>sd_in := ds\<rparr>))\<rparr>"

lemma sample_dgram_laws:
  "dgram_send_laws sample_dgram_quic sd_out" "dgram_recv_laws sample_dgram_quic sd_in"
  by (auto simp: dgram_send_laws_def dgram_recv_laws_def sample_dgram_quic_def split: list.splits)

definition sample_tun_rs :: "bytes list tun_rs" where
  "sample_tun_rs =
     \<lparr>rs_build = (\<lambda>b. Inr []), rs_recv = (\<lambda>d. (Inl ''EAGAIN'', d)),
      rs_send = (\<lambda>p d. (Inr (), d @ [p])), rs_mtu = (\<lambda>d. Inr 1420),
      rs_set_mtu = (\<lambda>m d. (Inr (), d)), rs_add_address_v6 = (\<lambda>a p d. (Inr (), d)),
      rs_remove_address = (\<lambda>a d. (Inr (), d)), rs_enabled = (\<lambda>b d. (Inr (), d)),
      rs_persist = (\<lambda>d. (Inr (), d)), rs_name = (\<lambda>d. Inr ''tun0'')\<rparr>"

lemma sample_tun_laws: "tun_write_laws sample_tun_rs id"
  by (simp add: tun_write_laws_def sample_tun_rs_def)

section \<open>Properties\<close>

text \<open>
  C8. End to end through the tunnel: a packet that \<open>prepare_outgoing\<close> accepts is framed by the
  TUN reader inside its pool buffer, without a panic; what goes on the wire is the flow prefix and
  the forwarded packet, and the peer's \<open>parse_datagram\<close> and \<open>validate_incoming\<close> give back that
  packet.
\<close>

theorem tunnel_loopback:
  assumes "varint_codec put_varint get_varint" "build_flow_prefix put_varint flow_id = Inr flow_prefix"
    and "length flow_prefix + length packet \<le> length dgram"
    and "prepare_outgoing packet = Some (Inr v, forwarded_packet)"
  shows "\<exists>item. tun_reader_step flow_prefix dgram (Inr packet) = Some (ReaderSends item, False)
    \<and> td_ip_len item = length packet \<and> length (td_bytes item) = length dgram
    \<and> item_ok (length flow_prefix) item \<and> wire_bytes item = flow_prefix @ forwarded_packet
    \<and> parse_datagram get_varint (wire_bytes item) flow_id = Some forwarded_packet
    \<and> validate_incoming forwarded_packet = Some (Inr v)"
proof -
  from assms(4) have v: "verdict packet = Inr v" "1 < hop_count packet" "forwarded_packet = forwarded packet"
    by (rule prepare_outgoing_okE; simp)+
  have ne: "packet \<noteq> []"
    using verdict_InrD [OF v(1)] by simp
  obtain body where body: "length body = length dgram"
    "tun_reader_step flow_prefix dgram (Inr packet) = Some (ReaderSends \<lparr>td_bytes = body,
       td_wire_len = length flow_prefix + length packet, td_ip_len = length packet\<rparr>, False)"
    "take (length flow_prefix + length packet) body = flow_prefix @ forwarded packet"
    using tun_reader_step_eq [OF assms(3) ne] v assms(4) by (auto simp: not_le)
  have "forwarded packet \<noteq> []"
    using ne length_forwarded [OF v(1)] by (metis length_0_conv)
  then have "parse_datagram get_varint (flow_prefix @ forwarded packet) flow_id = Some (forwarded packet)"
    using varint_codec.parse_built [OF assms(1,2)] by simp
  then show ?thesis
    using body assms(3) v(3) verdict_forwarded [OF v(1)]
    by (simp add: item_ok_def wire_bytes_def validate_incoming_eq)
qed

corollary tunnel_loopback_witness:
  "\<exists>item. tun_reader_step [4, 0] (replicate 150 0) (Inr sample_ipv4) = Some (ReaderSends item, False)
    \<and> wire_bytes item = [4, 0] @ sample_forwarded"
proof -
  have "build_flow_prefix rfc9000_put 4 = Inr [4, 0]"
    by (simp add: build_flow_prefix_def rfc9000_put_def varint_size_def be_bytes.simps)
  then show ?thesis
    using tunnel_loopback [OF rfc9000.varint_codec_axioms _ _ prepare_outgoing_sample, of 4 "[4, 0]" "replicate 150 0"]
    by (auto simp: length_sample)
qed

text \<open>
  C19. \<open>queue_tx_datagrams\<close> never panics on well-formed datagrams and accounts for every one of
  them. A front part of the queue is consumed, in order, at most a burst of it sent. A consumed datagram
  was longer than the connection took at that moment, and was answered with its ICMP message; or it
  was not, and was handed to the connection once, which took it or refused it with an error. Its buffer
  goes back to the pool. The counters are exactly these: packets and IP bytes of what was sent, the
  others as dropped, one push back or none. And the rest stays in order, because the burst is used up or
  the connection pushed back the first of it: its queue was full, or it said that it was done.
\<close>

theorem queue_tx_datagrams_accounts:
  assumes "dgram_send_laws q outbox" "list_all (item_ok n) tx_queue"
  shows "\<exists>st rest fates c.
    queue_tx_datagrams q conn tx_queue stats burst recycle_tx n tun_mtu = Some (st, rest)
    \<and> tx_queue = map fst fates @ rest \<and> all_go q fates conn c
    \<and> outbox (tx_conn st) = outbox conn @ map wire_bytes (with_fate Sent fates)
    \<and> tp_queued (tx_progress st) = length (with_fate Sent fates) \<and> tp_queued (tx_progress st) \<le> max burst 1
    \<and> tp_icmp_packets (tx_progress st) = concat (map (too_big_reply n tun_mtu) (with_fate TooBig fates))
    \<and> (length tx_queue \<le> ch_room recycle_tx \<longrightarrow>
        ch_items (tx_recycle st) = ch_items recycle_tx @ map (td_bytes \<circ> fst) fates)
    \<and> tx_stats st = stats\<lparr>st_tx_packets := st_tx_packets stats + word_of_nat (length (with_fate Sent fates)),
        st_tx_bytes := st_tx_bytes stats + word_of_nat (sum_list (map td_ip_len (with_fate Sent fates))),
        st_dropped := st_dropped stats
          + word_of_nat (length (with_fate TooBig fates) + length (with_fate Refused fates)),
        st_tx_backpressure := st_tx_backpressure stats + (if tp_backpressure (tx_progress st) then 1 else 0)\<rparr>
    \<and> (if tp_backpressure (tx_progress st) then rest \<noteq> [] \<and> pushes_back q (hd rest) c (tx_conn st)
        else tx_conn st = c \<and> (rest = [] \<or> tp_queued (tx_progress st) = max burst 1))"
proof -
  obtain st rest where run: "queue_tx_datagrams q conn tx_queue stats burst recycle_tx n tun_mtu = Some (st, rest)"
    and result: "tx_result q outbox (max burst 1) n tun_mtu tx_queue (tx_start conn stats recycle_tx) st rest"
    using queue_tx_result [OF assms] by blast
  obtain fates c where fates: "tx_queue = map fst fates @ rest" "all_go q fates conn c"
    "tx_recycle st = mpsc.offer_all (map (td_bytes \<circ> fst) fates) recycle_tx"
    "outbox (tx_conn st) = outbox conn @ map wire_bytes (with_fate Sent fates)"
    "tp_queued (tx_progress st) = length (with_fate Sent fates)" "tp_queued (tx_progress st) \<le> max burst 1"
    "tp_icmp_packets (tx_progress st) = concat (map (too_big_reply n tun_mtu) (with_fate TooBig fates))"
    "tx_stats st = tallied fates (tp_backpressure (tx_progress st)) stats"
    "if tp_backpressure (tx_progress st) then rest \<noteq> [] \<and> pushes_back q (hd rest) c (tx_conn st)
     else tx_conn st = c \<and> (rest = [] \<or> max burst 1 \<le> tp_queued (tx_progress st))"
    using result unfolding tx_result_def tx_start_def by auto
  have "length (map (td_bytes \<circ> fst) fates) \<le> length tx_queue"
    by (simp add: fates(1))
  then have "length tx_queue \<le> ch_room recycle_tx \<longrightarrow>
      ch_items (tx_recycle st) = ch_items recycle_tx @ map (td_bytes \<circ> fst) fates"
    unfolding fates(3) using mpsc.contents_offer_all [of "map (td_bytes \<circ> fst) fates" recycle_tx]
    by linarith
  then show ?thesis
    using run fates(1,2,4-)
    by (intro exI [of _ st] exI [of _ rest] exI [of _ fates] exI [of _ c]) (auto simp: tallied_def split: if_splits)
qed

corollary queue_tx_datagrams_accounts_witness:
  "\<exists>st rest. queue_tx_datagrams sample_dgram_quic \<lparr>sd_out = [], sd_in = []\<rparr>
     [\<lparr>td_bytes = [4, 0, 0x45, 7], td_wire_len = 3, td_ip_len = 1\<rparr>] new_stats 4 (new_channel 8) 2 1280
   = Some (st, rest) \<and> tp_queued (tx_progress st) \<le> 4"
proof -
  have ok: "list_all (item_ok 2) [\<lparr>td_bytes = [4, 0, 0x45, 7], td_wire_len = 3, td_ip_len = 1\<rparr>]"
    by (simp add: item_ok_def)
  show ?thesis
    using queue_tx_datagrams_accounts [OF sample_dgram_laws(1) ok,
        of "\<lparr>sd_out = [], sd_in = []\<rparr>" new_stats 4 "new_channel 8" 1280]
    by fastforce
qed

text \<open>
  C25. \<open>drain_incoming_datagrams\<close> never panics, takes at most 32 datagrams from the connection and
  says whether it took all 32; what it writes to the TUN device is, in order, exactly the payloads
  of this flow that are well-formed IP packets, and the counters count them and their bytes.
\<close>

theorem drain_incoming_datagrams_delivers:
  assumes "dgram_recv_laws q dgram_inbox" "tun_write_laws rs tun_written"
  shows "\<exists>hit c' stats' tun' ds. drain_incoming_datagrams q get_varint rs c flow_id stats tun = Some (hit, c', stats', tun')
    \<and> dgram_inbox c = ds @ dgram_inbox c' \<and> length ds \<le> 32 \<and> (hit \<longleftrightarrow> length ds = 32)
    \<and> tun_written (dev tun') = tun_written (dev tun) @ accepted_packets get_varint flow_id ds
    \<and> st_rx_packets stats' = st_rx_packets stats + word_of_nat (length (accepted_packets get_varint flow_id ds))
    \<and> st_rx_bytes stats' = st_rx_bytes stats
        + word_of_nat (sum_list (map length (accepted_packets get_varint flow_id ds)))"
  using drain_loop_delivers [OF assms, of get_varint flow_id 32 c stats tun]
  unfolding drain_incoming_datagrams_def RX_DGRAM_DRAIN_BURST_def by blast

corollary drain_incoming_datagrams_delivers_witness:
  "\<exists>hit c' stats' tun'. drain_incoming_datagrams sample_dgram_quic rfc9000_get sample_tun_rs
      \<lparr>sd_out = [], sd_in = [[4, 0] @ sample_forwarded]\<rparr> 4 new_stats (sample_device []) = Some (hit, c', stats', tun')
    \<and> \<not> hit"
proof -
  have "length ds \<noteq> 32" if "[[4, 0] @ sample_forwarded] = ds @ rest" for ds rest :: "bytes list"
    using arg_cong [OF that, of length] by simp
  then show ?thesis
    using drain_incoming_datagrams_delivers [OF sample_dgram_laws(2) sample_tun_laws,
        of rfc9000_get "\<lparr>sd_out = [], sd_in = [[4, 0] @ sample_forwarded]\<rparr>" 4 new_stats "sample_device []"]
    by fastforce
qed

end
