(* ===== verification/Buffer_Pool.thy ===== *)
theory Buffer_Pool
  imports Tx_Path Transitions
begin

text \<open>
  The packet buffers of \<open>data_loop\<close> (\<open>api/masque.rs\<close>): a fixed set of buffers goes round from the
  free channel to the TUN reader, through the datagram channel to the pump's queue, and back. The
  reader task and the pump run concurrently; a step of the relation is one turn of either.
\<close>

section \<open>State\<close>

datatype reader =
    Idle
  | Holding bytes
  | Handing tx_datagram
  | Stopped

record pool_config =
  pc_prefix :: bytes
  pc_mtu :: nat
  pc_pool_size :: nat
  pc_queue_len :: nat

definition pool_size :: "pool_config \<Rightarrow> nat" where
  "pool_size cfg = clamp_nat 1 MAX_PACKET_BUFFER_POOL_SIZE (pc_pool_size cfg)"

definition queue_size :: "pool_config \<Rightarrow> nat" where
  "queue_size cfg = max (min (pc_queue_len cfg) (pool_size cfg)) 1"

definition packet_buffer_len :: "pool_config \<Rightarrow> nat" where
  "packet_buffer_len cfg = length (pc_prefix cfg) + (pc_mtu cfg + 128)"

record pool =
  free :: "bytes channel"
  reader :: reader
  handoff :: "tx_datagram channel"
  pump_queue :: "tx_datagram list"

text \<open>The \<open>for _ in 0..pool_size\<close> that fills the free channel; a refused buffer is an error.\<close>

fun fill_pool :: "nat \<Rightarrow> bytes \<Rightarrow> bytes channel \<Rightarrow> bytes channel option" where
  "fill_pool 0 b ch = Some ch"
| "fill_pool (Suc n) b ch =
     (case try_send b ch of (True, ch') \<Rightarrow> fill_pool n b ch' | (False, _) \<Rightarrow> None)"

definition start_pool :: "pool_config \<Rightarrow> pool option" where
  "start_pool cfg =
     do {
       ch \<leftarrow> fill_pool (pool_size cfg) (replicate (packet_buffer_len cfg) 0) (new_channel (pool_size cfg));
       Some \<lparr>free = ch, reader = Idle, handoff = new_channel (queue_size cfg), pump_queue = []\<rparr>
     }"

section \<open>Steps\<close>

text \<open>
  \<open>read\<close> is what the device returns: the packet fits the buffer behind the prefix. The pump takes
  a datagram while its queue is below \<open>tx_queue_len\<close>, and sends through any connection.
\<close>

inductive pool_step :: "'c quic \<Rightarrow> pool_config \<Rightarrow> pool \<Rightarrow> pool \<Rightarrow> bool" for q cfg where
  take_buffer:
    "reader s = Idle \<Longrightarrow> try_recv (free s) = (Some b, ch)
     \<Longrightarrow> pool_step q cfg s (s\<lparr>free := ch, reader := Holding b\<rparr>)"
| read_stops:
    "reader s = Holding b \<Longrightarrow> tun_reader_step (pc_prefix cfg) b read = Some (ReaderStops, d)
     \<Longrightarrow> pool_step q cfg s (s\<lparr>reader := Stopped\<rparr>)"
| read_recycles:
    "reader s = Holding b \<Longrightarrow> length packet \<le> length b - length (pc_prefix cfg)
     \<Longrightarrow> tun_reader_step (pc_prefix cfg) b (Inr packet) = Some (ReaderRecycles b', d)
     \<Longrightarrow> pool_step q cfg s (s\<lparr>free := snd (try_send b' (free s)), reader := Idle\<rparr>)"
| read_sends:
    "reader s = Holding b \<Longrightarrow> length packet \<le> length b - length (pc_prefix cfg)
     \<Longrightarrow> tun_reader_step (pc_prefix cfg) b (Inr packet) = Some (ReaderSends item, d)
     \<Longrightarrow> pool_step q cfg s (s\<lparr>reader := Handing item\<rparr>)"
| hand_over:
    "reader s = Handing item \<Longrightarrow> try_send item (handoff s) = (True, ch)
     \<Longrightarrow> pool_step q cfg s (s\<lparr>handoff := ch, reader := Idle\<rparr>)"
| pump_takes:
    "length (pump_queue s) < pc_queue_len cfg \<Longrightarrow> try_recv (handoff s) = (Some item, ch)
     \<Longrightarrow> pool_step q cfg s (s\<lparr>handoff := ch, pump_queue := pump_queue s @ [item]\<rparr>)"
| pump_sends:
    "queue_tx_datagrams q conn (pump_queue s) stats burst (free s) (length (pc_prefix cfg)) tun_mtu = Some (st, rest)
     \<Longrightarrow> pool_step q cfg s (s\<lparr>free := tx_recycle st, pump_queue := rest\<rparr>)"

inductive_cases pool_stepE: "pool_step q cfg s t"

section \<open>Conservation\<close>

definition reader_buffers :: "reader \<Rightarrow> bytes list" where
  "reader_buffers r =
     (case r of Holding b \<Rightarrow> [b] | Handing item \<Rightarrow> [td_bytes item] | _ \<Rightarrow> [])"

definition pool_buffers :: "pool \<Rightarrow> bytes list" where
  "pool_buffers s =
     ch_items (free s) @ reader_buffers (reader s) @ map td_bytes (ch_items (handoff s))
     @ map td_bytes (pump_queue s)"

text \<open>
  \<open>pool_inv\<close>: no buffer is lost or made (but the one the reader drops when it stops), each keeps
  its length, every datagram under way is well formed, and the free channel has room for all that
  are out.
\<close>

definition pool_inv :: "pool_config \<Rightarrow> pool \<Rightarrow> bool" where
  "pool_inv cfg s \<longleftrightarrow>
     length (pool_buffers s) = pool_size cfg - (if reader s = Stopped then 1 else 0)
     \<and> (\<forall>b\<in>set (pool_buffers s). length b = packet_buffer_len cfg)
     \<and> list_all (item_ok (length (pc_prefix cfg))) (ch_items (handoff s) @ pump_queue s)
     \<and> (\<forall>item. reader s = Handing item \<longrightarrow> item_ok (length (pc_prefix cfg)) item)
     \<and> ch_capacity (free s) = pool_size cfg \<and> \<not> ch_closed (free s)
     \<and> length (pump_queue s) \<le> pc_queue_len cfg"

lemma pool_size_pos: "0 < pool_size cfg"
  by (simp add: pool_size_def clamp_nat_def MAX_PACKET_BUFFER_POOL_SIZE_def)

lemma fill_pool_fills:
  "n \<le> ch_room ch \<Longrightarrow> fill_pool n b ch = Some (ch\<lparr>ch_items := ch_items ch @ replicate n b\<rparr>)"
proof (induction n arbitrary: ch)
  case (Suc n)
  then show ?case
    using Suc.IH [of "ch\<lparr>ch_items := ch_items ch @ [b]\<rparr>"]
    by (auto simp: try_send_def ch_room_def split: if_splits)
qed simp

lemma start_pool_inv:
  "\<exists>s. start_pool cfg = Some s \<and> pool_inv cfg s"
proof -
  have "fill_pool (pool_size cfg) b (new_channel (pool_size cfg))
      = Some ((new_channel (pool_size cfg))\<lparr>ch_items := replicate (pool_size cfg) b\<rparr>)" for b
    by (subst fill_pool_fills) (simp_all add: ch_room_def new_channel_def)
  then show ?thesis
    by (simp add: start_pool_def pool_inv_def pool_buffers_def reader_buffers_def new_channel_def)
qed

lemma reader_outcome_buffer:
  assumes "tun_reader_step prefix b (Inr packet) = Some (out, d)" "length packet \<le> length b - length prefix"
  shows "case out of
      ReaderStops \<Rightarrow> True
    | ReaderRecycles b' \<Rightarrow> length b' = length b
    | ReaderSends item \<Rightarrow> length (td_bytes item) = length b \<and> item_ok (length prefix) item"
proof (cases "packet = []")
  case True
  then show ?thesis
    using assms(1) by (auto simp: tun_reader_step_def Let_def bind_eq_Some_conv)
next
  case False
  have fits: "length prefix \<le> length b"
    using assms(1) by (auto simp: tun_reader_step_def Let_def bind_eq_Some_conv copy_into_def split: if_splits)
  then have "length prefix + length packet \<le> length b"
    using assms(2) by simp
  then show ?thesis
    using tun_reader_step_eq [of prefix packet b] assms(1) False
    by (cases "verdict packet") (auto simp: item_ok_def split: if_splits)
qed

lemma pool_inv_pump:
  assumes laws: "dgram_send_laws q outbox" and inv: "pool_inv cfg s"
    and sent: "queue_tx_datagrams q conn (pump_queue s) stats burst (free s) (length (pc_prefix cfg)) tun_mtu = Some (st, rest)"
  shows "pool_inv cfg (s\<lparr>free := tx_recycle st, pump_queue := rest\<rparr>)"
proof -
  have ok: "list_all (item_ok (length (pc_prefix cfg))) (pump_queue s)"
    using inv by (simp add: pool_inv_def)
  have room: "length (pump_queue s) \<le> ch_room (free s)"
    using inv by (auto simp: pool_inv_def pool_buffers_def ch_room_def split: if_splits)
  have result: "tx_result q outbox (max burst 1) (length (pc_prefix cfg)) tun_mtu (pump_queue s)
      (tx_start conn stats (free s)) st rest"
    using queue_tx_result [OF laws ok, of conn stats burst "free s" tun_mtu] sent by simp
  obtain gone where "pump_queue s = gone @ rest"
    "ch_items (tx_recycle st) = ch_items (free s) @ map td_bytes gone"
    "ch_capacity (tx_recycle st) = ch_capacity (free s)" "ch_closed (tx_recycle st) = ch_closed (free s)"
    using tx_result_buffers [OF result room] by blast
  then show ?thesis
    using inv by (auto simp: pool_inv_def pool_buffers_def reader_buffers_def)
qed

lemma pool_inv_step:
  assumes laws: "dgram_send_laws q outbox" and inv: "pool_inv cfg s" and step: "pool_step q cfg s t"
  shows "pool_inv cfg t"
  using step
proof cases
  case (take_buffer b ch)
  then have "ch_items (free s) = b # ch_items ch" "ch_capacity ch = ch_capacity (free s)"
    "ch_closed ch = ch_closed (free s)"
    by (auto simp: try_recv_def split: list.splits)
  then show ?thesis
    using inv take_buffer(1,2) by (simp add: pool_inv_def pool_buffers_def reader_buffers_def)
next
  case (read_stops b read d)
  then show ?thesis
    using inv by (auto simp: pool_inv_def pool_buffers_def reader_buffers_def)
next
  case (read_recycles b packet b' d)
  have "length b' = length b"
    using reader_outcome_buffer [OF read_recycles(4,3)] by simp
  moreover have "snd (try_send b' (free s)) = (free s)\<lparr>ch_items := ch_items (free s) @ [b']\<rparr>"
    using inv read_recycles(2)
    by (auto simp: try_send_def pool_inv_def pool_buffers_def reader_buffers_def)
  ultimately show ?thesis
    using inv read_recycles(1,2) by (auto simp: pool_inv_def pool_buffers_def reader_buffers_def)
next
  case (read_sends b packet item d)
  then show ?thesis
    using inv reader_outcome_buffer [OF read_sends(4,3)]
    by (auto simp: pool_inv_def pool_buffers_def reader_buffers_def)
next
  case (hand_over item ch)
  then show ?thesis
    using inv mpsc.offer_ok [OF hand_over(3)]
    by (auto simp: pool_inv_def pool_buffers_def reader_buffers_def)
next
  case (pump_takes item ch)
  then show ?thesis
    using inv mpsc.next_some [OF pump_takes(3)]
    by (auto simp: pool_inv_def pool_buffers_def reader_buffers_def)
next
  case (pump_sends conn stats burst tun_mtu st rest)
  then show ?thesis
    using pool_inv_pump [OF laws inv pump_sends(2)] by simp
qed

interpretation pool: invariant_system
  "dgram_send_laws q outbox" "\<lambda>s. start_pool cfg = Some s" "pool_step q cfg" "pool_inv cfg" for cfg q outbox
proof
  show "start_pool cfg = Some s \<Longrightarrow> pool_inv cfg s" for s
    using start_pool_inv [of cfg] by auto
  show "dgram_send_laws q outbox \<Longrightarrow> pool_inv cfg s \<Longrightarrow> pool_step q cfg s t \<Longrightarrow> pool_inv cfg t" for s t
    using pool_inv_step by blast
qed

text \<open>A buffer of the pool always holds the prefix and a packet, so the reader cannot panic.\<close>

lemma reader_never_panics:
  assumes "length b = packet_buffer_len cfg" "length packet \<le> length b - length (pc_prefix cfg)"
  shows "\<exists>out. tun_reader_step (pc_prefix cfg) b (Inr packet) = Some out"
proof (cases "packet = []")
  case True
  then show ?thesis
    using assms by (simp add: tun_reader_step_def Let_def copy_into_in packet_buffer_len_def del: split_paired_Ex)
next
  case False
  have "length (pc_prefix cfg) + length packet \<le> length b"
    using assms by (simp add: packet_buffer_len_def)
  from tun_reader_step_eq [OF this False] show ?thesis
    by blast
qed

section \<open>Properties\<close>

text \<open>
  C7. The pool is built without a refused buffer, and in every state the reader and the pump can
  reach together the buffers are conserved: those in the free channel, with the reader, in the
  hand-over channel and in the pump's queue are together the whole pool, but for the one the
  reader drops when it stops; each keeps its length; and neither the reader nor the pump panics.
\<close>

theorem pool_conserved:
  assumes "dgram_send_laws q outbox"
  shows "(\<exists>s0. start_pool cfg = Some s0)
    \<and> (\<forall>s0 s. start_pool cfg = Some s0 \<longrightarrow> (pool_step q cfg)\<^sup>*\<^sup>* s0 s \<longrightarrow>
        length (pool_buffers s) + (if reader s = Stopped then 1 else 0) = pool_size cfg
        \<and> (\<forall>b\<in>set (pool_buffers s). length b = packet_buffer_len cfg)
        \<and> (\<forall>b packet. reader s = Holding b \<longrightarrow> length packet \<le> length b - length (pc_prefix cfg) \<longrightarrow>
             tun_reader_step (pc_prefix cfg) b (Inr packet) \<noteq> None)
        \<and> (\<forall>conn stats burst tun_mtu.
             queue_tx_datagrams q conn (pump_queue s) stats burst (free s) (length (pc_prefix cfg)) tun_mtu \<noteq> None))"
proof (intro conjI allI impI)
  show "\<exists>s0. start_pool cfg = Some s0"
    using start_pool_inv by blast
next
  fix s0 s
  assume "start_pool cfg = Some s0" "(pool_step q cfg)\<^sup>*\<^sup>* s0 s"
  then have inv: "pool_inv cfg s"
    by (rule pool.inv_reachable [OF assms])
  show "length (pool_buffers s) + (if reader s = Stopped then 1 else 0) = pool_size cfg"
    using inv pool_size_pos [of cfg] by (simp add: pool_inv_def)
  show sizes: "\<forall>b\<in>set (pool_buffers s). length b = packet_buffer_len cfg"
    using inv by (simp add: pool_inv_def)
  fix b and packet :: bytes
  assume "reader s = Holding b" "length packet \<le> length b - length (pc_prefix cfg)"
  moreover from this have "length b = packet_buffer_len cfg"
    using sizes by (simp add: pool_buffers_def reader_buffers_def)
  ultimately show "tun_reader_step (pc_prefix cfg) b (Inr packet) \<noteq> None"
    using reader_never_panics by blast
next
  fix s0 s conn stats burst tun_mtu
  assume "start_pool cfg = Some s0" "(pool_step q cfg)\<^sup>*\<^sup>* s0 s"
  then have "pool_inv cfg s"
    by (rule pool.inv_reachable [OF assms])
  then have "list_all (item_ok (length (pc_prefix cfg))) (pump_queue s)"
    by (simp add: pool_inv_def)
  from queue_tx_result [OF assms this]
  show "queue_tx_datagrams q conn (pump_queue s) stats burst (free s) (length (pc_prefix cfg)) tun_mtu \<noteq> None"
    by (metis option.distinct(1))
qed

corollary pool_conserved_witness:
  "\<exists>s0. start_pool \<lparr>pc_prefix = [4, 0], pc_mtu = 1280, pc_pool_size = 4, pc_queue_len = 2\<rparr> = Some s0
    \<and> length (pool_buffers s0) + (if reader s0 = Stopped then 1 else 0) = 4"
proof -
  have "pool_size \<lparr>pc_prefix = [4, 0], pc_mtu = 1280, pc_pool_size = 4, pc_queue_len = 2\<rparr> = 4"
    by (simp add: pool_size_def clamp_nat_def MAX_PACKET_BUFFER_POOL_SIZE_def)
  then show ?thesis
    using pool_conserved [OF sample_dgram_laws(1),
        of "\<lparr>pc_prefix = [4, 0], pc_mtu = 1280, pc_pool_size = 4, pc_queue_len = 2\<rparr>"]
    by (metis rtranclp.rtrancl_refl)
qed

end
