(* ===== verification/Models.thy ===== *)
theory Models
  imports Rust_Str Net_Addr
begin

text \<open>
  The data of \<open>models.rs\<close> and of \<open>config.rs\<close>: what Cloudflare's API sends and takes, and what the
  configuration file holds. The (de)serialisation is that of \<open>serde\<close>, a parameter where it is used.
\<close>

section \<open>Device registration\<close>

record device_identity =
  di_name :: string
  di_device_type :: string
  di_manufacturer :: string
  di_model :: string
  di_os_version :: string
  di_client_version :: string
  di_serial_number :: string
  di_locale :: string

definition default_identity :: device_identity where
  "default_identity =
     \<lparr>di_name = [], di_device_type = [], di_manufacturer = [], di_model = [], di_os_version = [],
      di_client_version = [], di_serial_number = [], di_locale = []\<rparr>"

record registration =
  rg_key :: string
  rg_install_id :: string
  rg_fcm_token :: string
  rg_tos :: string
  rg_model :: string
  rg_serial_number :: string
  rg_os_version :: string
  rg_key_type :: string
  rg_tunnel_type :: string
  rg_locale :: string
  rg_device_type :: string
  rg_name :: string
  rg_manufacturer :: string

record device_update =
  up_key :: string
  up_key_type :: string
  up_tunnel_type :: string
  up_name :: "string option"
  up_model :: string
  up_serial_number :: string
  up_os_version :: string
  up_locale :: string
  up_device_type :: string
  up_manufacturer :: string

section \<open>API answers\<close>

definition INVALID_PUBLIC_KEY :: string where "INVALID_PUBLIC_KEY = ''Invalid public key''"

record error_info =
  ei_message :: string

record api_error =
  ae_errors :: "error_info list"

definition default_api_error :: api_error where
  "default_api_error = \<lparr>ae_errors = []\<rparr>"

text \<open>\<open>join\<close>\<close>

fun join :: "string \<Rightarrow> string list \<Rightarrow> string" where
  "join sep [] = []"
| "join sep [x] = x"
| "join sep (x # y # ys) = x @ sep @ join sep (y # ys)"

definition errors_as_string :: "string \<Rightarrow> api_error \<Rightarrow> string" where
  "errors_as_string separator self = join separator (map ei_message (ae_errors self))"

definition has_error_message :: "string \<Rightarrow> api_error \<Rightarrow> bool" where
  "has_error_message message self \<longleftrightarrow> list_ex (\<lambda>e. ei_message e = message) (ae_errors self)"

record addresses =
  ad_v4 :: string
  ad_v6 :: string

record endpoint =
  ep_v4 :: string
  ep_v6 :: string
  ep_host :: string
  ep_ports :: "u16 list"

record peer =
  pr_public_key :: string
  pr_endpoint :: endpoint

record account_config =
  ac_peers :: "peer list"
  ac_interface :: addresses

record account =
  at_id :: string
  at_license :: string

record policy =
  po_policy_id :: string
  po_switch_locked :: bool

record account_data =
  acc_id :: string
  acc_account :: account
  acc_config :: account_config
  acc_token :: string
  acc_policy :: policy

definition default_account_data :: account_data where
  "default_account_data =
     \<lparr>acc_id = [], acc_account = \<lparr>at_id = [], at_license = []\<rparr>,
      acc_config = \<lparr>ac_peers = [], ac_interface = \<lparr>ad_v4 = [], ad_v6 = []\<rparr>\<rparr>, acc_token = [],
      acc_policy = \<lparr>po_policy_id = [], po_switch_locked = False\<rparr>\<rparr>"

section \<open>The configuration\<close>

datatype tunnel_role = RoleClient | RoleMeshNode

definition role_text :: "tunnel_role \<Rightarrow> string" where
  "role_text role = (case role of RoleClient \<Rightarrow> ''client'' | RoleMeshNode \<Rightarrow> ''mesh-node'')"

record mesh_node_identity =
  mn_account_tag :: string
  mn_tunnel_id :: string
  mn_activation_probe_target :: "ip_addr option"
  mn_native_platform :: string
  mn_registration_platform_claim :: string

record masque_peer_config =
  mp_endpoint_v4 :: string
  mp_endpoint_v6 :: string
  mp_endpoint_host :: string
  mp_ports :: "u16 list"
  mp_endpoint_pub_key :: string

record app_config =
  cf_role :: tunnel_role
  cf_mesh_node :: "mesh_node_identity option"
  cf_private_key :: string
  cf_endpoint_v4 :: string
  cf_endpoint_v6 :: string
  cf_endpoint_pub_key :: string
  cf_license :: string
  cf_id :: string
  cf_access_token :: string
  cf_ipv4 :: string
  cf_ipv6 :: string
  cf_device_identity :: device_identity
  cf_masque_peers :: "masque_peer_config list"

text \<open>The list of errors is empty or named in the text, in order.\<close>

lemma errors_as_string_simps [simp]:
  "errors_as_string sep default_api_error = []"
  "errors_as_string sep \<lparr>ae_errors = [e]\<rparr> = ei_message e"
  by (simp_all add: errors_as_string_def default_api_error_def)

end
