(* ===== verification/Identity.thy ===== *)
theory Identity
  imports Models
begin

text \<open>
  \<open>internal.rs\<close>: the constants of the registration API, the identity a device registers with, and
  the check of an interface name. The operating system is a parameter.
\<close>

section \<open>Constants\<close>

definition API_URL :: string where "API_URL = ''https://api.devices.cloudflare.com''"
definition API_VERSION :: string where "API_VERSION = ''v0a4471''"
definition CONNECT_SNI :: string where "CONNECT_SNI = ''consumer-masque.cloudflareclient.com''"
definition DEFAULT_MODEL :: string where "DEFAULT_MODEL = ''FreeBSD''"
definition KEY_TYPE_MASQUE :: string where "KEY_TYPE_MASQUE = ''secp256r1''"
definition TUN_TYPE_MASQUE :: string where "TUN_TYPE_MASQUE = ''masque''"
definition DEFAULT_LOCALE :: string where "DEFAULT_LOCALE = ''en_US''"

text \<open>\<open>CARGO_PKG_VERSION\<close>, from \<open>Cargo.toml\<close>.\<close>

definition CLIENT_VERSION :: string where "CLIENT_VERSION = ''0.8.5''"

section \<open>The operating system\<close>

text \<open>
  The environment, a program's exit status and output (as lossy text), and files; the SHA-256 digest
  of \<open>ring\<close> and the encoder of \<open>hex\<close>.
\<close>

record system =
  sy_env :: "string \<Rightarrow> string option"
  sy_command :: "string \<Rightarrow> string list \<Rightarrow> (bool \<times> string) option"
  sy_read_to_string :: "string \<Rightarrow> string option"
  sy_os :: string
  sy_sha256 :: "string \<Rightarrow> bytes"
  sy_hex :: "bytes \<Rightarrow> string"

definition runtime_client_version :: "device_identity \<Rightarrow> string" where
  "runtime_client_version registered_identity = CLIENT_VERSION"

definition api_url :: "system \<Rightarrow> string" where
  "api_url sys = unwrap_or (sy_env sys ''USQUE_API_URL'') API_URL"

definition api_version :: "system \<Rightarrow> string" where
  "api_version sys = unwrap_or (sy_env sys ''USQUE_API_VERSION'') API_VERSION"

definition client_user_agent :: string where
  "client_user_agent = ''usque-nativetun/'' @ CLIENT_VERSION @ '' (FreeBSD; TunnelOnly; MASQUE)''"

text \<open>\<open>non_empty\<close> of \<open>internal.rs\<close>: the trimmed text, if any.\<close>

definition non_empty_trimmed :: "string \<Rightarrow> string option" where
  "non_empty_trimmed v = (if trim v = [] then None else Some (trim v))"

text \<open>\<open>or_else\<close>\<close>

definition or_else :: "'a option \<Rightarrow> 'a option \<Rightarrow> 'a option" where
  "or_else x y = (case x of None \<Rightarrow> y | Some v \<Rightarrow> Some v)"

lemma or_else_simps [simp]: "or_else None y = y" "or_else (Some v) y = Some v"
  by (simp_all add: or_else_def)

lemma or_else_eq_Some: "or_else x y = Some v \<longleftrightarrow> x = Some v \<or> x = None \<and> y = Some v"
  by (cases x) auto

definition command_output :: "system \<Rightarrow> string \<Rightarrow> string list \<Rightarrow> string option" where
  "command_output sys program args =
     (case sy_command sys program args of
        None \<Rightarrow> None
      | Some (success, stdout) \<Rightarrow> if \<not> success then None else non_empty_trimmed stdout)"

definition detect_hostname :: "system \<Rightarrow> string" where
  "detect_hostname sys =
     unwrap_or (or_else (command_output sys ''hostname'' [])
       (or_else (Option.bind (sy_env sys ''HOSTNAME'') non_empty_trimmed)
         (Option.bind (sy_env sys ''COMPUTERNAME'') non_empty_trimmed))) ''freebsd-device''"

definition detect_os_version :: "system \<Rightarrow> string" where
  "detect_os_version sys =
     unwrap_or (or_else (command_output sys ''freebsd-version'' [''-u'']) (command_output sys ''uname'' [''-K'']))
       (sy_os sys)"

definition detect_hardware_source :: "system \<Rightarrow> string option" where
  "detect_hardware_source sys =
     or_else (command_output sys ''kenv'' [''-q'', ''smbios.system.uuid''])
       (Option.bind (sy_read_to_string sys ''/etc/hostid'') non_empty_trimmed)"

definition detect_device_identity :: "system \<Rightarrow> string \<Rightarrow> string \<Rightarrow> string \<Rightarrow> device_identity" where
  "detect_device_identity sys requested_name requested_model locale =
     (let name = unwrap_or (non_empty_trimmed requested_name) (detect_hostname sys);
          os_version = detect_os_version sys;
          stable_source = unwrap_or (detect_hardware_source sys) (name @ [CHR 0x00] @ os_version);
          serial_number = sy_hex sys (take 16 (sy_sha256 sys stable_source))
      in \<lparr>di_name = name, di_device_type = ''FreeBSD'', di_manufacturer = ''FreeBSD Project'',
          di_model = unwrap_or (non_empty_trimmed requested_model) DEFAULT_MODEL, di_os_version = os_version,
          di_client_version = CLIENT_VERSION, di_serial_number = serial_number,
          di_locale = unwrap_or (non_empty_trimmed locale) DEFAULT_LOCALE\<rparr>)"

section \<open>Key pairs\<close>

text \<open>The crate \<open>p256\<close>: a random key, and its two encodings.\<close>

record ('k, 'w) ec_keys =
  ek_random :: "'w \<Rightarrow> 'k \<times> 'w"
  ek_sec1_der :: "'k \<Rightarrow> string + bytes"
  ek_spki_der :: "'k \<Rightarrow> string + bytes"

definition generate_ec_key_pair :: "('k, 'w) ec_keys \<Rightarrow> ('w, string, bytes \<times> bytes) op" where
  "generate_ec_key_pair ec w =
     (case ek_random ec w of
        (secret, w') \<Rightarrow>
          (and_then (ek_sec1_der ec secret) (\<lambda>private_der.
           and_then (ek_spki_der ec secret) (\<lambda>public_der. Inr (private_der, public_der))), w'))"

section \<open>Interface names\<close>

datatype ifname_error = EmptyIfname | InvalidIfname

text \<open>Some character of a UTF-8 text is white space.\<close>

fun has_white_space :: "string \<Rightarrow> bool" where
  "has_white_space [] = False"
| "has_white_space (c # cs) \<longleftrightarrow> strip_any white_space (c # cs) \<noteq> None \<or> has_white_space cs"

definition check_ifname :: "string \<Rightarrow> ifname_error + unit" where
  "check_ifname name =
     (if name = [] then Inl EmptyIfname
      else if CHR ''/'' \<in> set name \<or> has_white_space name then Inl InvalidIfname
      else Inr ())"

section \<open>Lemmas\<close>

lemma strip_any_white: "x \<in> {CHR 0x09, CHR 0x0A, CHR 0x0D, CHR 0x20} \<Longrightarrow> strip_any white_space (x # xs) \<noteq> None"
  by (auto simp: strip_any_None white_space_def strip_prefix_def)

lemma has_white_space_member:
  "x \<in> set s \<Longrightarrow> x \<in> {CHR 0x09, CHR 0x0A, CHR 0x0D, CHR 0x20} \<Longrightarrow> has_white_space s"
  by (induction s) (use strip_any_white in \<open>force+\<close>)

text \<open>An accepted name is one path component and one word.\<close>

lemma check_ifname_ok:
  "check_ifname name = Inr () \<Longrightarrow>
     name \<noteq> [] \<and> CHR ''/'' \<notin> set name \<and> CHR 0x20 \<notin> set name \<and> CHR 0x0A \<notin> set name"
  using has_white_space_member [of _ name] by (auto simp: check_ifname_def split: if_splits)

text \<open>A device keeps its serial number as long as its hardware answers, whatever it is named.\<close>

lemma serial_number_stable:
  "detect_hardware_source sys \<noteq> None \<Longrightarrow>
     di_serial_number (detect_device_identity sys n1 m1 l1) = di_serial_number (detect_device_identity sys n2 m2 l2)"
  by (auto simp: detect_device_identity_def Let_def)

text \<open>A system that answers nothing, for the concrete runs of the other theories.\<close>

definition sample_system :: system where
  "sample_system =
     \<lparr>sy_env = \<lambda>_. None, sy_command = \<lambda>_ _. None, sy_read_to_string = \<lambda>_. None, sy_os = ''freebsd'',
      sy_sha256 = \<lambda>_. [], sy_hex = \<lambda>_. ''00''\<rparr>"

lemma sample_system_url:
  "api_url sample_system = ''https://api.devices.cloudflare.com''" "api_version sample_system = ''v0a4471''"
  by (simp_all add: api_url_def api_version_def API_URL_def API_VERSION_def sample_system_def)

end
