(* ===== verification/Runs.thy ===== *)
theory Runs
  imports Prelude
begin

text \<open>
  Fallible operations that may also fail to return: the async functions of \<open>api/masque.rs\<close> over
  their mutable state. \<^term>\<open>None\<close> is a panic or a loop that does not end; \<open>run_bind\<close> is \<open>?\<close> (or
  \<open>.await?\<close>) followed by the rest of the body. \<open>keeps\<close> and \<open>returns\<close> are the two facts the
  component theories carry through such a body.
\<close>

type_synonym ('s, 'e, 'a) run = "'s \<Rightarrow> (('e + 'a) \<times> 's) option"

definition run_return :: "'a \<Rightarrow> ('s, 'e, 'a) run" where
  "run_return x s = Some (Inr x, s)"

definition run_fail :: "'e \<Rightarrow> ('s, 'e, 'a) run" where
  "run_fail e s = Some (Inl e, s)"

definition run_bind :: "('s, 'e, 'a) run \<Rightarrow> ('a \<Rightarrow> ('s, 'e, 'b) run) \<Rightarrow> ('s, 'e, 'b) run" where
  "run_bind m k s =
     (case m s of
        None \<Rightarrow> None
      | Some (Inl e, s') \<Rightarrow> Some (Inl e, s')
      | Some (Inr x, s') \<Rightarrow> k x s')"

definition run_get :: "('s \<Rightarrow> 'a) \<Rightarrow> ('s, 'e, 'a) run" where
  "run_get f s = Some (Inr (f s), s)"

definition run_modify :: "('s \<Rightarrow> 's) \<Rightarrow> ('s, 'e, unit) run" where
  "run_modify f s = Some (Inr (), f s)"

text \<open>\<open>Result\<close> values as they are, and with the error mapped.\<close>

definition run_lift :: "'e + 'a \<Rightarrow> ('s, 'e, 'a) run" where
  "run_lift r s = Some (r, s)"

named_theorems run_simps \<open>evaluation of the run combinators\<close>

lemmas [run_simps] = run_return_def run_fail_def run_get_def run_modify_def run_lift_def

section \<open>Invariants\<close>

definition keeps :: "('s \<Rightarrow> bool) \<Rightarrow> ('s, 'e, 'a) run \<Rightarrow> bool" where
  "keeps I m \<longleftrightarrow> (\<forall>s r s'. I s \<longrightarrow> m s = Some (r, s') \<longrightarrow> I s')"

lemma keepsD: "keeps I m \<Longrightarrow> I s \<Longrightarrow> m s = Some (r, s') \<Longrightarrow> I s'"
  by (simp add: keeps_def)

lemma keepsI: "(\<And>s r s'. I s \<Longrightarrow> m s = Some (r, s') \<Longrightarrow> I s') \<Longrightarrow> keeps I m"
  by (simp add: keeps_def)

lemma keeps_return [intro]: "keeps I (run_return x)"
  by (simp add: keeps_def run_simps)

lemma keeps_fail [intro]: "keeps I (run_fail e)"
  by (simp add: keeps_def run_simps)

lemma keeps_get [intro]: "keeps I (run_get f)"
  by (simp add: keeps_def run_simps)

lemma keeps_lift [intro]: "keeps I (run_lift r)"
  by (simp add: keeps_def run_simps)

lemma keeps_modify: "(\<And>s. I s \<Longrightarrow> I (f s)) \<Longrightarrow> keeps I (run_modify f)"
  by (simp add: keeps_def run_simps)

lemma keeps_bind [intro]: "keeps I m \<Longrightarrow> (\<And>x. keeps I (k x)) \<Longrightarrow> keeps I (run_bind m k)"
proof (rule keepsI)
  fix s r s'
  assume m: "keeps I m" and k: "\<And>x. keeps I (k x)" and "I s" and run: "run_bind m k s = Some (r, s')"
  then obtain y where y: "m s = Some y"
    unfolding run_bind_def by (cases "m s") simp_all
  obtain r1 s1 where "y = (r1, s1)"
    by (rule prod.exhaust)
  with y have m1: "m s = Some (r1, s1)"
    by simp
  then have "I s1"
    using keepsD [OF m \<open>I s\<close>] by blast
  then show "I s'"
  proof (cases r1)
    case (Inr x)
    then show ?thesis
      using run m1 keepsD [OF k \<open>I s1\<close>, of x] by (simp add: run_bind_def)
  qed (use run m1 in \<open>simp add: run_bind_def\<close>)
qed

lemma keeps_if [intro]: "(b \<Longrightarrow> keeps I m) \<Longrightarrow> (\<not> b \<Longrightarrow> keeps I n) \<Longrightarrow> keeps I (if b then m else n)"
  by simp

lemma keeps_state: "(\<And>s. I s \<Longrightarrow> keeps I (f s)) \<Longrightarrow> keeps I (\<lambda>s. f s s)"
  unfolding keeps_def by blast

section \<open>Results\<close>

definition returns :: "('s \<Rightarrow> bool) \<Rightarrow> ('s, 'e, 'a) run \<Rightarrow> bool" where
  "returns I m \<longleftrightarrow> (\<forall>s. I s \<longrightarrow> (\<exists>r s'. m s = Some (r, s') \<and> (is_ok r \<longrightarrow> I s')))"

lemma returnsI: "(\<And>s. I s \<Longrightarrow> \<exists>r s'. m s = Some (r, s') \<and> (is_ok r \<longrightarrow> I s')) \<Longrightarrow> returns I m"
  by (simp add: returns_def)

lemma returnsD: "returns I m \<Longrightarrow> I s \<Longrightarrow> \<exists>r s'. m s = Some (r, s') \<and> (is_ok r \<longrightarrow> I s')"
  by (simp add: returns_def)

lemma returns_return [intro]: "returns I (run_return x)"
  by (simp add: returns_def run_simps)

lemma returns_fail [intro]: "returns I (run_fail e)"
  by (simp add: returns_def run_simps)

lemma returns_get [intro]: "returns I (run_get f)"
  by (simp add: returns_def run_simps)

lemma returns_lift [intro]: "returns I (run_lift r)"
  by (simp add: returns_def run_simps)

lemma returns_modify: "(\<And>s. I s \<Longrightarrow> I (f s)) \<Longrightarrow> returns I (run_modify f)"
  by (simp add: returns_def run_simps)

lemma returns_bind [intro]: "returns I m \<Longrightarrow> (\<And>x. returns I (k x)) \<Longrightarrow> returns I (run_bind m k)"
proof (rule returnsI)
  fix s
  assume m: "returns I m" and k: "\<And>x. returns I (k x)" and "I s"
  obtain r1 s1 where m1: "m s = Some (r1, s1)" "is_ok r1 \<longrightarrow> I s1"
    using returnsD [OF m \<open>I s\<close>] by blast
  show "\<exists>r s'. run_bind m k s = Some (r, s') \<and> (is_ok r \<longrightarrow> I s')"
  proof (cases r1)
    case (Inl e)
    then show ?thesis
      using m1 by (simp add: run_bind_def)
  next
    case (Inr x)
    then show ?thesis
      using m1 returnsD [OF k, of s1 x] by (simp add: run_bind_def)
  qed
qed

lemma returns_if [intro]: "(b \<Longrightarrow> returns I m) \<Longrightarrow> (\<not> b \<Longrightarrow> returns I n) \<Longrightarrow> returns I (if b then m else n)"
  by simp

lemma returns_state: "(\<And>s. I s \<Longrightarrow> returns I (f s)) \<Longrightarrow> returns I (\<lambda>s. f s s)"
  unfolding returns_def by blast

section \<open>Reading a run\<close>

lemma run_bind_Some:
  "run_bind m k s = Some (r, s'') \<longleftrightarrow>
     (\<exists>e. r = Inl e \<and> m s = Some (Inl e, s''))
     \<or> (\<exists>x s'. m s = Some (Inr x, s') \<and> k x s' = Some (r, s''))"
  by (cases "m s") (auto simp: run_bind_def split: sum.splits prod.splits)

lemma run_bind_Inr:
  "m s = Some (Inr x, s') \<Longrightarrow> run_bind m k s = k x s'"
  by (simp add: run_bind_def)

lemma run_bind_Inl:
  "m s = Some (Inl e, s') \<Longrightarrow> run_bind m k s = Some (Inl e, s')"
  by (simp add: run_bind_def)

text \<open>A step of a run that keeps \<open>I\<close>: it stops the run, or the rest goes on with \<open>I\<close>.\<close>

lemma run_bind_kept:
  assumes "run_bind m k s = Some (r, s'')" "keeps I m" "I s"
  obtains (stopped) e where "r = Inl e" "I s''"
    | (went) x s' where "m s = Some (Inr x, s')" "I s'" "k x s' = Some (r, s'')"
  using assms keepsD [OF assms(2,3)] by (auto simp: run_bind_Some)

lemmas run_reads = run_bind_Some run_bind_Inr run_bind_Inl

end
