(* ===== verification/State_Payload.thy ===== *)
theory State_Payload
  imports Complex_Main Models
begin

text \<open>
  The body of a device-state report in \<open>api/device_state.rs\<close>. A percentage is the exact value of its
  float, a fraction from zero to one.
\<close>

record ip_info =
  ii_address :: string
  ii_netmask :: string

record interface_info =
  in_name :: string
  in_connection_type :: string
  in_network_sent_bps :: "nat option"
  in_network_rcvd_bps :: "nat option"
  in_device_ipv4 :: "ip_info option"
  in_device_ipv6 :: "ip_info option"

record tunnel_stats_payload =
  ts_rtt_us :: nat
  ts_min_rtt_us :: "nat option"
  ts_rtt_var_us :: nat
  ts_packets_sent :: nat
  ts_packets_lost :: "nat option"
  ts_packets_retrans :: "nat option"
  ts_bytes_sent :: u64
  ts_bytes_lost :: "u64 option"
  ts_bytes_retrans :: "u64 option"

text \<open>
  \<open>firewalls\<close> and the lists per application are of types without any value the program makes but the
  empty one.
\<close>

record device_state_payload =
  dp_timestamp :: string
  dp_account_id :: string
  dp_status :: string
  dp_mode :: string
  dp_always_on :: bool
  dp_reg_id :: string
  dp_doh_subdomain :: string
  dp_switch_locked :: bool
  dp_client_version :: string
  dp_client_platform :: string
  dp_warp_metal :: string
  dp_warp_colo :: string
  dp_handshake_latency_ms :: "nat option"
  dp_estimated_loss :: "rat option"
  dp_tunnel_type :: string
  dp_interfaces :: "interface_info list"
  dp_firewalls :: "(string \<times> bool) list"
  dp_tunnel_stats_upstream :: "tunnel_stats_payload option"
  dp_tunnel_stats_downstream :: "tunnel_stats_payload option"
  dp_cpu_pct :: "rat option"
  dp_cpu_pct_by_app :: "unit list option"
  dp_ram_used_pct :: "rat option"
  dp_ram_used_pct_by_app :: "unit list option"
  dp_ram_available_kb :: "nat option"
  dp_disk_usage_pct :: "rat option"
  dp_disk_read_bps :: "nat option"
  dp_disk_write_bps :: "nat option"
  dp_profile_id :: string

end
