(* ===== verification/Json.thy ===== *)
theory Json
  imports Complex_Main Models
begin

text \<open>
  The data the program exchanges as JSON, and what the attributes of a \<open>derive(Serialize)\<close> or
  \<open>derive(Deserialize)\<close> say of a structure: the name of each field, the fields that are left out
  (\<open>skip_serializing_if\<close>) and those that may be missing (\<open>default\<close>). The text of a JSON value, as
  \<open>serde_json\<close> reads and writes it, is a parameter where it is used.
\<close>

datatype json =
    JNull
  | JBool bool
  | JInt int
  | JRat rat
  | JStr string
  | JArr "json list"
  | JObj "(string \<times> json) list"

section \<open>Writing\<close>

definition json_nat :: "nat \<Rightarrow> json" where
  "json_nat n = JInt (int n)"

definition json_u16 :: "u16 \<Rightarrow> json" where
  "json_u16 n = json_nat (unat n)"

definition json_list :: "('a \<Rightarrow> json) \<Rightarrow> 'a list \<Rightarrow> json" where
  "json_list encode xs = JArr (map encode xs)"

definition json_option :: "('a \<Rightarrow> json) \<Rightarrow> 'a option \<Rightarrow> json" where
  "json_option encode x = (case x of None \<Rightarrow> JNull | Some y \<Rightarrow> encode y)"

text \<open>\<open>skip_serializing_if = "Option::is_none"\<close> and \<open>"Vec::is_empty"\<close>\<close>

definition unless_none :: "string \<Rightarrow> ('a \<Rightarrow> json) \<Rightarrow> 'a option \<Rightarrow> (string \<times> json) list" where
  "unless_none n encode x = (case x of None \<Rightarrow> [] | Some y \<Rightarrow> [(n, encode y)])"

definition unless_empty :: "string \<Rightarrow> ('a \<Rightarrow> json) \<Rightarrow> 'a list \<Rightarrow> (string \<times> json) list" where
  "unless_empty n encode xs = (if xs = [] then [] else [(n, json_list encode xs)])"

section \<open>Reading\<close>

fun json_string :: "json \<Rightarrow> string option" where
  "json_string (JStr s) = Some s"
| "json_string _ = None"

fun json_bool :: "json \<Rightarrow> bool option" where
  "json_bool (JBool b) = Some b"
| "json_bool _ = None"

fun u16_of_json :: "json \<Rightarrow> u16 option" where
  "u16_of_json (JInt n) = (if 0 \<le> n \<and> n < 65536 then Some (word_of_int n) else None)"
| "u16_of_json _ = None"

fun all_some :: "('a \<Rightarrow> 'b option) \<Rightarrow> 'a list \<Rightarrow> 'b list option" where
  "all_some f [] = Some []"
| "all_some f (x # xs) = do { y \<leftarrow> f x; ys \<leftarrow> all_some f xs; Some (y # ys) }"

fun list_of_json :: "(json \<Rightarrow> 'a option) \<Rightarrow> json \<Rightarrow> 'a list option" where
  "list_of_json decode (JArr js) = all_some decode js"
| "list_of_json decode _ = None"

definition option_of_json :: "(json \<Rightarrow> 'a option) \<Rightarrow> json \<Rightarrow> 'a option option" where
  "option_of_json decode j = (if j = JNull then Some None else map_option Some (decode j))"

text \<open>
  A structure is read from an object, whose unknown fields are ignored and whose known fields may
  not be repeated, or from an array, which holds the fields in their order.
\<close>

fun struct_fields :: "string list \<Rightarrow> json \<Rightarrow> (string \<times> json) list option" where
  "struct_fields names (JObj es) =
     (if distinct (filter (\<lambda>n. n \<in> set names) (map fst es)) then Some es else None)"
| "struct_fields names (JArr js) = (if length js \<le> length names then Some (zip names js) else None)"
| "struct_fields names _ = None"

definition required_field :: "(string \<times> json) list \<Rightarrow> string \<Rightarrow> (json \<Rightarrow> 'a option) \<Rightarrow> 'a option" where
  "required_field es n decode = Option.bind (map_of es n) decode"

definition default_field :: "(string \<times> json) list \<Rightarrow> string \<Rightarrow> (json \<Rightarrow> 'a option) \<Rightarrow> 'a \<Rightarrow> 'a option" where
  "default_field es n decode d = (case map_of es n of None \<Rightarrow> Some d | Some j \<Rightarrow> decode j)"

section \<open>What is written is read back\<close>

locale codec =
  fixes encode :: "'a \<Rightarrow> json" and decode :: "json \<Rightarrow> 'a option"
  assumes decode_encode: "decode (encode x) = Some x"
begin

lemma list_decode_encode: "list_of_json decode (json_list encode xs) = Some xs"
proof -
  have "all_some decode (map encode xs) = Some xs"
    by (induction xs) (simp_all add: decode_encode)
  then show ?thesis
    by (simp add: json_list_def)
qed

lemma some_decode_encode: "encode x \<noteq> JNull \<Longrightarrow> option_of_json decode (encode x) = Some (Some x)"
  by (simp add: option_of_json_def decode_encode)

lemma encode_inj: "encode x = encode y \<longleftrightarrow> x = y"
  using decode_encode by (metis option.inject)

end

interpretation strings: codec JStr json_string
  by unfold_locales simp

interpretation bools: codec JBool json_bool
  by unfold_locales simp

interpretation u16s: codec json_u16 u16_of_json
proof
  fix n :: u16
  have "uint n < 65536"
    using unsigned_less [of n, where ?'a = int] by simp
  then show "u16_of_json (json_u16 n) = Some n"
    by (simp add: json_u16_def json_nat_def)
qed

text \<open>The value of a field that was written, or not.\<close>

lemma map_of_append: "map_of (es @ fs) n = (case map_of es n of None \<Rightarrow> map_of fs n | Some j \<Rightarrow> Some j)"
  by (simp add: map_add_def split: option.splits)

lemmas json_fields = required_field_def default_field_def unless_none_def unless_empty_def json_option_def

end
