(* ===== verification/Cloudflare.thy ===== *)
theory Cloudflare
  imports Identity Runs State_Payload Json
begin

text \<open>
  \<open>api/cloudflare.rs\<close>: registration, key enrollment and the registration's current state. An HTTPS
  client, the JSON decoders, Base64, the clock's text and the terminal are parameters; what the code
  decides from them is not.
\<close>

section \<open>Requests and answers\<close>

datatype http_method = Get | Post | Patch

record mesh_registration =
  mr_device_type :: string
  mr_model :: string
  mr_name :: string
  mr_key :: string
  mr_key_type :: string
  mr_tunnel_type :: string
  mr_os_version :: string
  mr_serial_number :: string
  mr_warp_connector_token :: string
  mr_tos :: string

datatype request_body =
    NoBody
  | RegistrationBody registration
  | UpdateBody device_update
  | MeshBody mesh_registration
  | StateBody device_state_payload

record http_request =
  rq_method :: http_method
  rq_url :: string
  rq_headers :: "(string \<times> string) list"
  rq_query :: "(string \<times> string) list"
  rq_body :: request_body

text \<open>The body may still fail to arrive.\<close>

record http_response =
  rs_status :: nat
  rs_location :: "bytes option"
  rs_body :: "string + bytes"

definition STATUS_OK :: nat where "STATUS_OK = 200"

record 'w web =
  wb_send :: "http_request \<Rightarrow> ('w, string, http_response) op"
  wb_account :: "bytes \<Rightarrow> string + account_data"
  wb_api_error :: "bytes \<Rightarrow> string + api_error"
  wb_json :: "bytes \<Rightarrow> string + json"
  wb_account_of_json :: "json \<Rightarrow> string + account_data"
  wb_base64 :: "bytes \<Rightarrow> string"
  wb_cf_time :: "'w \<Rightarrow> string \<times> 'w"
  wb_read_line :: "('w, string, string) op"

definition client_headers :: "http_request \<Rightarrow> http_request" where
  "client_headers req =
     req\<lparr>rq_headers := rq_headers req
       @ [(''User-Agent'', client_user_agent), (''CF-Client-Version'', CLIENT_VERSION),
          (''Content-Type'', ''application/json; charset=UTF-8'')]\<rparr>"

definition header_field :: "string \<Rightarrow> string \<Rightarrow> http_request \<Rightarrow> http_request" where
  "header_field name v req = req\<lparr>rq_headers := rq_headers req @ [(name, v)]\<rparr>"

definition bearer_auth :: "string \<Rightarrow> http_request \<Rightarrow> http_request" where
  "bearer_auth token = header_field ''Authorization'' (''Bearer '' @ token)"

definition new_request :: "http_method \<Rightarrow> string \<Rightarrow> http_request" where
  "new_request method url =
     \<lparr>rq_method = method, rq_url = url, rq_headers = [], rq_query = [], rq_body = NoBody\<rparr>"

text \<open>\<open>unwrap_or_default\<close> on the errors of a refused request.\<close>

definition api_error_of :: "'w web \<Rightarrow> bytes \<Rightarrow> api_error" where
  "api_error_of web body = (case wb_api_error web body of Inl _ \<Rightarrow> default_api_error | Inr e \<Rightarrow> e)"

section \<open>Operations\<close>

datatype api_failure =
    TosNotAccepted
  | InputFailed string
  | SendFailed string
  | BodyFailed string
  | Refused nat api_error
  | BadAnswer string
  | OmittedCredentials

definition op_lift :: "'e + 'a \<Rightarrow> ('s, 'e, 'a) op" where
  "op_lift r s = (r, s)"

definition op_context :: "('e \<Rightarrow> 'f) \<Rightarrow> ('s, 'e, 'a) op \<Rightarrow> ('s, 'f, 'a) op" where
  "op_context err m s = (case m s of (Inl e, s') \<Rightarrow> (Inl (err e), s') | (Inr x, s') \<Rightarrow> (Inr x, s'))"

definition with_context :: "('e \<Rightarrow> 'f) \<Rightarrow> 'e + 'a \<Rightarrow> 'f + 'a" where
  "with_context err r = (case r of Inl e \<Rightarrow> Inl (err e) | Inr x \<Rightarrow> Inr x)"

lemmas [op_simps] = op_lift_def op_context_def

lemma with_context_simps [simp]:
  "with_context err (Inl e) = Inl (err e)" "with_context err (Inr x) = Inr x"
  by (simp_all add: with_context_def)

lemma with_context_Inr [simp]: "with_context err r = Inr x \<longleftrightarrow> r = Inr x"
  by (cases r) auto

text \<open>The question before a registration, when it was not answered on the command line.\<close>

definition confirm_tos :: "'w web \<Rightarrow> bool \<Rightarrow> ('w, api_failure, unit) op" where
  "confirm_tos web accept_tos =
     (if accept_tos then op_return ()
      else op_bind (op_context InputFailed (wb_read_line web)) (\<lambda>response.
        if trim response \<noteq> ''y'' then op_fail TosNotAccepted else op_return ()))"

text \<open>The answer's status and body; a body is read before the status is looked at.\<close>

definition exchange :: "'w web \<Rightarrow> http_request \<Rightarrow> ('w, api_failure, nat \<times> bytes) op" where
  "exchange web req =
     op_bind (op_context SendFailed (wb_send web req)) (\<lambda>resp.
     op_bind (op_lift (with_context BodyFailed (rs_body resp))) (\<lambda>body.
     op_return (rs_status resp, body)))"

definition cf_time :: "'w web \<Rightarrow> ('w, 'e, string) op" where
  "cf_time web w = (case wb_cf_time web w of (t, w') \<Rightarrow> (Inr t, w'))"

definition registration_of :: "'w web \<Rightarrow> device_identity \<Rightarrow> bytes \<Rightarrow> string \<Rightarrow> registration" where
  "registration_of web identity public_key_der tos =
     \<lparr>rg_key = wb_base64 web public_key_der, rg_install_id = [], rg_fcm_token = [], rg_tos = tos,
      rg_model = di_model identity, rg_serial_number = di_serial_number identity,
      rg_os_version = di_os_version identity, rg_key_type = KEY_TYPE_MASQUE, rg_tunnel_type = TUN_TYPE_MASQUE,
      rg_locale = di_locale identity, rg_device_type = di_device_type identity, rg_name = di_name identity,
      rg_manufacturer = di_manufacturer identity\<rparr>"

definition register_request ::
    "system \<Rightarrow> 'w web \<Rightarrow> device_identity \<Rightarrow> bytes \<Rightarrow> string option \<Rightarrow> string \<Rightarrow> http_request" where
  "register_request sys web identity public_key_der jwt tos =
     (let req = (client_headers (new_request Post (api_url sys @ ''/'' @ api_version sys @ ''/reg'')))
                  \<lparr>rq_body := RegistrationBody (registration_of web identity public_key_der tos)\<rparr>
      in (case jwt of
            Some token \<Rightarrow> if token = [] then req else header_field ''CF-Access-Jwt-Assertion'' token req
          | None \<Rightarrow> req))"

definition register ::
    "system \<Rightarrow> 'w web \<Rightarrow> device_identity \<Rightarrow> bytes \<Rightarrow> string option \<Rightarrow> bool \<Rightarrow> ('w, api_failure, account_data) op" where
  "register sys web identity public_key_der jwt accept_tos =
     op_bind (confirm_tos web accept_tos) (\<lambda>_.
     op_bind (cf_time web) (\<lambda>tos.
     op_bind (op_context SendFailed (wb_send web (register_request sys web identity public_key_der jwt tos))) (\<lambda>resp.
     if rs_status resp \<noteq> STATUS_OK then op_fail (Refused (rs_status resp) default_api_error)
     else op_lift (and_then (with_context BadAnswer (rs_body resp)) (\<lambda>body. with_context BadAnswer (wb_account web body))))))"

text \<open>\<open>EnrollFailure\<close>: the server's refusal, or a failure on the way.\<close>

datatype enroll_failure =
    EnrollApi nat api_error
  | EnrollTransport string

definition show_enroll_failure :: "(nat \<Rightarrow> string) \<Rightarrow> enroll_failure \<Rightarrow> string" where
  "show_enroll_failure show_status e =
     (case e of
        EnrollApi status err \<Rightarrow>
          ''failed to update: '' @ show_status status @ ''; API errors: '' @ errors_as_string ''; '' err
      | EnrollTransport text \<Rightarrow> text)"

definition device_update_of :: "'w web \<Rightarrow> device_identity \<Rightarrow> bytes \<Rightarrow> device_update" where
  "device_update_of web identity public_key_der =
     \<lparr>up_key = wb_base64 web public_key_der, up_key_type = KEY_TYPE_MASQUE, up_tunnel_type = TUN_TYPE_MASQUE,
      up_name = Some (di_name identity), up_model = di_model identity, up_serial_number = di_serial_number identity,
      up_os_version = di_os_version identity, up_locale = di_locale identity,
      up_device_type = di_device_type identity, up_manufacturer = di_manufacturer identity\<rparr>"

definition enroll_request ::
    "system \<Rightarrow> 'w web \<Rightarrow> account_data \<Rightarrow> bytes \<Rightarrow> device_identity \<Rightarrow> http_request" where
  "enroll_request sys web account_data public_key_der identity =
     header_field ''Authorization'' (''Bearer '' @ acc_token account_data)
       ((client_headers (new_request Patch
           (api_url sys @ ''/'' @ api_version sys @ ''/reg/'' @ acc_id account_data)))
         \<lparr>rq_body := UpdateBody (device_update_of web identity public_key_der)\<rparr>)"

definition enroll_key ::
    "system \<Rightarrow> 'w web \<Rightarrow> account_data \<Rightarrow> bytes \<Rightarrow> device_identity \<Rightarrow> ('w, enroll_failure, account_data) op" where
  "enroll_key sys web account_data public_key_der identity =
     op_bind (op_context (\<lambda>e. EnrollTransport (''failed to send enroll request: '' @ e))
                (wb_send web (enroll_request sys web account_data public_key_der identity))) (\<lambda>resp.
     op_bind (op_lift (with_context (\<lambda>e. EnrollTransport (''failed to read enroll response: '' @ e)) (rs_body resp)))
       (\<lambda>body.
     if rs_status resp \<noteq> STATUS_OK then op_fail (EnrollApi (rs_status resp) (api_error_of web body))
     else op_lift (with_context (\<lambda>e. EnrollTransport (''failed to decode enroll response: '' @ e))
            (wb_account web body))))"

definition get_registration ::
    "system \<Rightarrow> 'w web \<Rightarrow> string \<Rightarrow> string \<Rightarrow> ('w, api_failure, account_data) op" where
  "get_registration sys web registration_id access_token =
     op_bind (exchange web (bearer_auth access_token (client_headers (new_request Get
                (api_url sys @ ''/'' @ api_version sys @ ''/reg/'' @ registration_id))))) (\<lambda>(status, body).
     if status \<noteq> STATUS_OK then op_fail (Refused status (api_error_of web body))
     else op_lift (with_context BadAnswer (wb_account web body)))"

section \<open>Lemmas\<close>

lemma op_bind_okE:
  assumes "op_bind m k s = (Inr y, s'')"
  obtains x s' where "m s = (Inr x, s')" "k x s' = (Inr y, s'')"
  using assms unfolding op_bind_eq_Inr by blast

lemma op_context_Inr: "op_context err m s = (Inr x, s') \<longleftrightarrow> m s = (Inr x, s')"
  by (cases "m s"; cases "fst (m s)") (auto simp: op_context_def)

text \<open>A key is only taken as enrolled when the server said so, with 200 and a readable answer.\<close>

lemma enroll_key_ok:
  assumes "enroll_key sys web account_data key identity w = (Inr account, w')"
  obtains resp body where "wb_send web (enroll_request sys web account_data key identity) w = (Inr resp, w')"
    "rs_status resp = 200" "rs_body resp = Inr body" "wb_account web body = Inr account"
  using assms unfolding enroll_key_def STATUS_OK_def
  by (elim op_bind_okE) (auto simp: op_context_Inr op_lift_def op_fail_def split: if_splits)

text \<open>Every request about a registration carries its token, and no other request does.\<close>

lemma enroll_request_headers:
  "(''Authorization'', v) \<in> set (rq_headers (enroll_request sys web account_data key identity))
     \<longleftrightarrow> v = ''Bearer '' @ acc_token account_data"
  by (auto simp: enroll_request_def header_field_def client_headers_def new_request_def)

lemma register_request_headers:
  "(''Authorization'', v) \<notin> set (rq_headers (register_request sys web identity key jwt tos))"
  "(''CF-Access-Jwt-Assertion'', v) \<in> set (rq_headers (register_request sys web identity key jwt tos))
     \<longleftrightarrow> jwt = Some v \<and> v \<noteq> []"
  by (auto simp: register_request_def header_field_def client_headers_def new_request_def Let_def
      split: option.splits if_splits)

lemma register_needs_tos:
  assumes "register sys web identity key jwt accept_tos w = (Inr account, w')" "\<not> accept_tos"
  shows "\<exists>response w1. wb_read_line web w = (Inr response, w1) \<and> trim response = ''y''"
  using assms unfolding register_def confirm_tos_def
  by (elim op_bind_okE) (auto simp: op_context_Inr op_fail_def split: if_splits elim!: op_bind_okE)

end
