(* ===== verification/Private_File.thy ===== *)
theory Private_File
  imports Cloudflare
begin

text \<open>
  Files with secrets: the registration text and secret of \<open>commands.rs\<close>, read through one handle, and
  the check of the Mesh token file in \<open>api/mesh.rs\<close>. Every call goes to the file system anew, which
  may have changed in between.
\<close>

record file_metadata =
  fm_is_symlink :: bool
  fm_is_file :: bool
  fm_len :: nat
  fm_uid :: nat
  fm_mode :: u32

text \<open>\<open>dk_open\<close> does not follow a symbolic link; \<open>dk_take n\<close> reads at most \<open>n\<close> bytes of UTF-8 text.\<close>

record ('h, 'w) disk =
  dk_exists :: "string \<Rightarrow> 'w \<Rightarrow> bool"
  dk_symlink_metadata :: "string \<Rightarrow> ('w, string, file_metadata) op"
  dk_metadata :: "string \<Rightarrow> ('w, string, file_metadata) op"
  dk_open :: "string \<Rightarrow> ('w, string, 'h) op"
  dk_handle_metadata :: "'h \<Rightarrow> ('w, string, file_metadata) op"
  dk_take :: "'h \<Rightarrow> nat \<Rightarrow> ('w, string, string) op"
  dk_read_to_string :: "string \<Rightarrow> ('w, string, string) op"
  dk_geteuid :: nat

datatype private_file_error =
    NotAbsolute
  | InspectFailed string
  | NotRegularFile
  | OpenPrivateFailed string
  | TooLarge
  | NotOwned
  | GroupAccessible
  | ReadFailed string
  | EmptyFile
  | NotOneLine

definition MAX_PRIVATE_FILE :: nat where "MAX_PRIVATE_FILE = 64 * 1024"

text \<open>\<open>metadata.mode() & 0o077 != 0\<close>\<close>

definition group_accessible :: "file_metadata \<Rightarrow> bool" where
  "group_accessible m \<longleftrightarrow> fm_mode m AND 63 \<noteq> 0"

definition check_open_file :: "nat \<Rightarrow> file_metadata \<Rightarrow> private_file_error + unit" where
  "check_open_file euid m =
     (if \<not> fm_is_file m then Inl NotRegularFile
      else if MAX_PRIVATE_FILE < fm_len m then Inl TooLarge
      else if fm_uid m \<noteq> euid then Inl NotOwned
      else if group_accessible m then Inl GroupAccessible
      else Inr ())"

definition read_private_registration_text ::
    "('h, 'w) disk \<Rightarrow> string \<Rightarrow> ('w, private_file_error, string) op" where
  "read_private_registration_text disk path =
     (if \<not> starts_with ''/'' path then op_fail NotAbsolute
      else op_bind (op_context InspectFailed (dk_symlink_metadata disk path)) (\<lambda>path_metadata.
        if fm_is_symlink path_metadata \<or> \<not> fm_is_file path_metadata then op_fail NotRegularFile
        else op_bind (op_context OpenPrivateFailed (dk_open disk path)) (\<lambda>file.
        op_bind (op_context InspectFailed (dk_handle_metadata disk file)) (\<lambda>metadata.
        op_bind (op_lift (check_open_file (dk_geteuid disk) metadata)) (\<lambda>_.
        op_bind (op_context ReadFailed (dk_take disk file (MAX_PRIVATE_FILE + 1))) (\<lambda>v.
        if MAX_PRIVATE_FILE < length v then op_fail TooLarge
        else if trim v = [] then op_fail EmptyFile
        else op_return (trim v)))))))"

definition one_line :: "string \<Rightarrow> bool" where
  "one_line s \<longleftrightarrow> CHR 0x0D \<notin> set s \<and> CHR 0x0A \<notin> set s"

definition read_private_registration_secret ::
    "('h, 'w) disk \<Rightarrow> string \<Rightarrow> ('w, private_file_error, string) op" where
  "read_private_registration_secret disk path =
     op_bind (read_private_registration_text disk path) (\<lambda>v.
       if \<not> one_line v then op_fail NotOneLine else op_return v)"

definition validate_private_file :: "('h, 'w) disk \<Rightarrow> string \<Rightarrow> ('w, private_file_error, unit) op" where
  "validate_private_file disk path =
     op_bind (op_context InspectFailed (dk_metadata disk path)) (\<lambda>metadata.
       if \<not> fm_is_file metadata then op_fail NotRegularFile
       else if group_accessible metadata then op_fail GroupAccessible
       else op_return ())"

section \<open>What was read\<close>

text \<open>
  A text that was read came from a handle on a regular file that only the current user may access; a
  handle, not a path, so that a file exchanged meanwhile is not read.
\<close>

definition private_handle :: "('h, 'w) disk \<Rightarrow> 'h \<Rightarrow> 'w \<Rightarrow> 'w \<Rightarrow> bool" where
  "private_handle disk file w w' \<longleftrightarrow>
     (\<exists>m. dk_handle_metadata disk file w = (Inr m, w') \<and> fm_is_file m \<and> fm_len m \<le> 65536
        \<and> fm_uid m = dk_geteuid disk \<and> fm_mode m AND 63 = 0)"

lemma read_private_text_ok:
  assumes "read_private_registration_text disk path w = (Inr text, w')"
  obtains m0 h v w1 w2 w3 where "dk_symlink_metadata disk path w = (Inr m0, w1)" "\<not> fm_is_symlink m0"
    "dk_open disk path w1 = (Inr h, w2)" "private_handle disk h w2 w3"
    "dk_take disk h 65537 w3 = (Inr v, w')" "text = trim v" "text \<noteq> []" "length v \<le> 65536"
proof -
  have "starts_with ''/'' path"
    using assms by (auto simp: read_private_registration_text_def op_fail_def split: if_splits)
  then obtain m0 h m v u w1 w2 w3 where steps: "dk_symlink_metadata disk path w = (Inr m0, w1)"
    "\<not> fm_is_symlink m0" "dk_open disk path w1 = (Inr h, w2)" "dk_handle_metadata disk h w2 = (Inr m, w3)"
    "check_open_file (dk_geteuid disk) m = Inr u" "dk_take disk h 65537 w3 = (Inr v, w')"
    "text = trim v" "text \<noteq> []" "length v \<le> 65536"
    using assms unfolding read_private_registration_text_def
    by (auto simp: op_context_Inr op_lift_def op_fail_def op_return_def MAX_PRIVATE_FILE_def
        split: if_splits elim!: op_bind_okE)
  then have "private_handle disk h w2 w3"
    by (auto simp: private_handle_def check_open_file_def group_accessible_def MAX_PRIVATE_FILE_def split: if_splits)
  then show thesis
    using that steps by blast
qed

end
