(* ===== verification/Mdm.thy ===== *)
theory Mdm
  imports Identity Private_File
begin

text \<open>
  \<open>mdm.rs\<close>: the settings of a Cloudflare MDM file. The \<open>quick_xml\<close> reader is a parameter, a state
  \<open>'r\<close> that yields events; what the code makes of them is here.
\<close>

record service_token_enrollment =
  ste_organization :: string
  ste_client_id :: string
  ste_client_secret :: string

datatype mdm_error =
    XmlFailed string
  | DocTypeNotAllowed
  | RootNotDict
  | KeyHasNoValue
  | ValueHasNoKey
  | NotAString string
  | Duplicated string
  | UnexpectedText
  | NestedStructure
  | UnsupportedEvent
  | IncompleteDict
  | KeyRequired string
  | KeyEmpty string
  | BadOrganization
  | LineTooLong string nat
  | NotALine string
  | NotAServiceToken

section \<open>The reader\<close>

datatype xml_event =
    Decl
  | Comment
  | DocType
  | Start string
  | Empty
  | End string
  | Text string
  | Eof
  | OtherXml

text \<open>
  \<open>xr_read_text\<close> reads to the end tag of the given name, decoded and with its entities resolved.
\<close>

record 'r xml_reader =
  xr_read_event :: "('r, string, xml_event) op"
  xr_read_text :: "string \<Rightarrow> ('r, string, string) op"
  xr_read_to_end :: "string \<Rightarrow> ('r, string, unit) op"

section \<open>Checks\<close>

definition is_required_key :: "string \<Rightarrow> bool" where
  "is_required_key key \<longleftrightarrow> key \<in> {''organization'', ''auth_client_id'', ''auth_client_secret''}"

definition set_once :: "string option \<Rightarrow> string \<Rightarrow> string \<Rightarrow> mdm_error + string option" where
  "set_once slot v key = (if slot \<noteq> None then Inl (Duplicated key) else Inr (Some v))"

definition required :: "string option \<Rightarrow> string \<Rightarrow> mdm_error + string" where
  "required v key =
     (case v of None \<Rightarrow> Inl (KeyRequired key) | Some x \<Rightarrow> if trim x = [] then Inl (KeyEmpty key) else Inr x)"

definition is_ascii_alphanumeric :: "char \<Rightarrow> bool" where
  "is_ascii_alphanumeric c \<longleftrightarrow>
     (let n = of_char c :: nat in 48 \<le> n \<and> n \<le> 57 \<or> 65 \<le> n \<and> n \<le> 90 \<or> 97 \<le> n \<and> n \<le> 122)"

definition validate_organization :: "string \<Rightarrow> mdm_error + unit" where
  "validate_organization v =
     (if 63 < length v \<or> starts_with ''-'' v \<or> ends_with ''-'' v
         \<or> \<not> list_all (\<lambda>byte. is_ascii_alphanumeric byte \<or> byte = CHR ''-'') v
      then Inl BadOrganization else Inr ())"

definition validate_line :: "string \<Rightarrow> string \<Rightarrow> nat \<Rightarrow> mdm_error + unit" where
  "validate_line name v max_len =
     (if max_len < length v then Inl (LineTooLong name max_len)
      else if \<not> one_line v then Inl (NotALine name)
      else Inr ())"

section \<open>The loop\<close>

record mdm_state =
  md_root_open :: bool
  md_root_closed :: bool
  md_pending_key :: "string option"
  md_organization :: "string option"
  md_client_id :: "string option"
  md_client_secret :: "string option"

definition start_mdm :: mdm_state where
  "start_mdm =
     \<lparr>md_root_open = False, md_root_closed = False, md_pending_key = None, md_organization = None,
      md_client_id = None, md_client_secret = None\<rparr>"

definition store_value :: "string \<Rightarrow> string \<Rightarrow> mdm_state \<Rightarrow> mdm_error + mdm_state" where
  "store_value key v st =
     (if key = ''organization'' then
        and_then (set_once (md_organization st) v key) (\<lambda>x. Inr (st\<lparr>md_organization := x\<rparr>))
      else if key = ''auth_client_id'' then
        and_then (set_once (md_client_id st) v key) (\<lambda>x. Inr (st\<lparr>md_client_id := x\<rparr>))
      else if key = ''auth_client_secret'' then
        and_then (set_once (md_client_secret st) v key) (\<lambda>x. Inr (st\<lparr>md_client_secret := x\<rparr>))
      else Inr st)"

text \<open>An element inside the \<open><dict>\<close>: a key, a string or a value that is skipped.\<close>

definition read_element :: "'r xml_reader \<Rightarrow> string \<Rightarrow> mdm_state \<Rightarrow> ('r, mdm_error, mdm_state) op" where
  "read_element xr tag st =
     (if tag = ''key'' then
        (if md_pending_key st \<noteq> None then op_fail KeyHasNoValue
         else op_bind (op_context XmlFailed (xr_read_text xr ''key'')) (\<lambda>key.
           op_return (st\<lparr>md_pending_key := Some (trim key)\<rparr>)))
      else (case md_pending_key st of
              None \<Rightarrow> op_fail ValueHasNoKey
            | Some key \<Rightarrow>
                (if tag \<noteq> ''string'' then
                   op_bind (op_context XmlFailed (xr_read_to_end xr tag)) (\<lambda>_.
                   if is_required_key key then op_fail (NotAString key)
                   else op_return (st\<lparr>md_pending_key := None\<rparr>))
                 else
                   op_bind (op_context XmlFailed (xr_read_text xr ''string'')) (\<lambda>v.
                   op_lift (store_value key v (st\<lparr>md_pending_key := None\<rparr>))))))"

text \<open>One event; \<open>None\<close> when the document ended.\<close>

definition handle_event :: "'r xml_reader \<Rightarrow> xml_event \<Rightarrow> mdm_state \<Rightarrow> ('r, mdm_error, mdm_state option) op" where
  "handle_event xr event st =
     (case event of
        Decl \<Rightarrow> op_return (Some st)
      | Comment \<Rightarrow> op_return (Some st)
      | DocType \<Rightarrow> op_fail DocTypeNotAllowed
      | Start tag \<Rightarrow>
          (if \<not> md_root_open st \<and> \<not> md_root_closed st then
             (if tag \<noteq> ''dict'' then op_fail RootNotDict else op_return (Some (st\<lparr>md_root_open := True\<rparr>)))
           else if md_root_open st then op_bind (read_element xr tag st) (\<lambda>st'. op_return (Some st'))
           else op_fail NestedStructure)
      | Empty \<Rightarrow>
          (if md_root_open st then
             (case md_pending_key st of
                None \<Rightarrow> op_fail ValueHasNoKey
              | Some key \<Rightarrow>
                  if is_required_key key then op_fail (NotAString key)
                  else op_return (Some (st\<lparr>md_pending_key := None\<rparr>)))
           else op_fail NestedStructure)
      | End tag \<Rightarrow>
          (if md_root_open st \<and> tag = ''dict'' then
             (if md_pending_key st \<noteq> None then op_fail KeyHasNoValue
              else op_return (Some (st\<lparr>md_root_open := False, md_root_closed := True\<rparr>)))
           else op_fail NestedStructure)
      | Text text \<Rightarrow>
          (if \<not> list_all (\<lambda>c. c \<in> {CHR 0x09, CHR 0x0A, CHR 0x0C, CHR 0x0D, CHR 0x20}) text
           then op_fail UnexpectedText else op_return (Some st))
      | Eof \<Rightarrow> op_return None
      | OtherXml \<Rightarrow> op_fail UnsupportedEvent)"

partial_function (option) read_events ::
    "'r xml_reader \<Rightarrow> mdm_state \<Rightarrow> 'r \<Rightarrow> ((mdm_error + mdm_state) \<times> 'r) option" where
  "read_events xr st r =
     (case xr_read_event xr r of
        (Inl e, r1) \<Rightarrow> Some (Inl (XmlFailed e), r1)
      | (Inr event, r1) \<Rightarrow>
          (case handle_event xr event st r1 of
             (Inl e, r2) \<Rightarrow> Some (Inl e, r2)
           | (Inr None, r2) \<Rightarrow> Some (Inr st, r2)
           | (Inr (Some st'), r2) \<Rightarrow> read_events xr st' r2))"

definition finish_mdm :: "mdm_state \<Rightarrow> mdm_error + service_token_enrollment" where
  "finish_mdm st =
     (if md_root_open st \<or> \<not> md_root_closed st then Inl IncompleteDict
      else and_then (required (md_organization st) ''organization'') (\<lambda>organization.
           and_then (required (md_client_id st) ''auth_client_id'') (\<lambda>client_id.
           and_then (required (md_client_secret st) ''auth_client_secret'') (\<lambda>client_secret.
           and_then (validate_organization organization) (\<lambda>_.
           and_then (validate_line ''auth_client_id'' client_id 512) (\<lambda>_.
           and_then (validate_line ''auth_client_secret'' client_secret 4096) (\<lambda>_.
           if \<not> ends_with ''.access'' client_id then Inl NotAServiceToken
           else Inr \<lparr>ste_organization = organization, ste_client_id = client_id,
                     ste_client_secret = client_secret\<rparr>)))))))"

definition from_mdm_xml :: "'r xml_reader \<Rightarrow> 'r \<Rightarrow> (mdm_error + service_token_enrollment) option" where
  "from_mdm_xml xr r =
     (case read_events xr start_mdm r of
        None \<Rightarrow> None
      | Some (res, _) \<Rightarrow> Some (and_then res finish_mdm))"

section \<open>Lemmas\<close>

text \<open>A DNS label: what an organization's name must be before it becomes part of a host name.\<close>

definition dns_label :: "string \<Rightarrow> bool" where
  "dns_label v \<longleftrightarrow> v \<noteq> [] \<and> length v \<le> 63 \<and> list_all (\<lambda>c. is_ascii_alphanumeric c \<or> c = CHR ''-'') v
     \<and> hd v \<noteq> CHR ''-'' \<and> last v \<noteq> CHR ''-''"

definition sound_settings :: "service_token_enrollment \<Rightarrow> bool" where
  "sound_settings e \<longleftrightarrow> dns_label (ste_organization e)
     \<and> ends_with ''.access'' (ste_client_id e) \<and> length (ste_client_id e) \<le> 512 \<and> one_line (ste_client_id e)
     \<and> trim (ste_client_secret e) \<noteq> [] \<and> length (ste_client_secret e) \<le> 4096 \<and> one_line (ste_client_secret e)"

lemma trim_Nil: "trim [] = []"
  using trim_graphic [of "[]"] by simp

lemma required_ok: "required v key = Inr x \<longleftrightarrow> v = Some x \<and> trim x \<noteq> []"
  by (auto simp: required_def split: option.splits)

lemma starts_with_char: "v \<noteq> [] \<Longrightarrow> starts_with [c] v \<longleftrightarrow> hd v = c"
  by (cases v) (auto simp: starts_with_def strip_prefix_def)

lemma ends_with_char: "v \<noteq> [] \<Longrightarrow> ends_with [c] v \<longleftrightarrow> last v = c"
  by (cases v rule: rev_cases) (auto simp: ends_with_def strip_suffix_Some)

lemma validate_organization_ok: "validate_organization v = Inr u \<Longrightarrow> v \<noteq> [] \<Longrightarrow> dns_label v"
  by (auto simp: validate_organization_def dns_label_def starts_with_char ends_with_char not_less split: if_splits)

lemma finish_mdm_ok:
  assumes "finish_mdm st = Inr e"
  shows "sound_settings e" "md_organization st = Some (ste_organization e)"
    "md_client_id st = Some (ste_client_id e)" "md_client_secret st = Some (ste_client_secret e)"
    "\<not> md_root_open st" "md_root_closed st"
proof -
  obtain org cid sec u v w where steps: "\<not> md_root_open st" "md_root_closed st"
    "required (md_organization st) ''organization'' = Inr org" "required (md_client_id st) ''auth_client_id'' = Inr cid"
    "required (md_client_secret st) ''auth_client_secret'' = Inr sec" "validate_organization org = Inr u"
    "validate_line ''auth_client_id'' cid 512 = Inr v" "validate_line ''auth_client_secret'' sec 4096 = Inr w"
    "ends_with ''.access'' cid" "e = \<lparr>ste_organization = org, ste_client_id = cid, ste_client_secret = sec\<rparr>"
    using assms by (auto simp: finish_mdm_def and_then_eq_Inr split: if_splits)
  moreover from steps have "org \<noteq> []"
    using trim_Nil by (auto simp: required_ok)
  ultimately show "sound_settings e" "md_organization st = Some (ste_organization e)"
    "md_client_id st = Some (ste_client_id e)" "md_client_secret st = Some (ste_client_secret e)"
    "\<not> md_root_open st" "md_root_closed st"
    using validate_organization_ok
    by (auto simp: sound_settings_def required_ok validate_line_def not_less split: if_splits)
qed

lemma from_mdm_xml_ok: "from_mdm_xml xr r = Some (Inr e) \<Longrightarrow> sound_settings e"
  by (auto simp: from_mdm_xml_def and_then_eq_Inr finish_mdm_ok(1) split: option.splits)

text \<open>A reader that gets on: every event but the last leaves less to read.\<close>

definition reader_laws :: "'r xml_reader \<Rightarrow> ('r \<Rightarrow> nat) \<Rightarrow> bool" where
  "reader_laws xr rank \<longleftrightarrow>
     (\<forall>r event r'. xr_read_event xr r = (Inr event, r') \<longrightarrow> event = Eof \<or> rank r' < rank r)
     \<and> (\<forall>tag r v r'. xr_read_text xr tag r = (v, r') \<longrightarrow> rank r' \<le> rank r)
     \<and> (\<forall>tag r v r'. xr_read_to_end xr tag r = (v, r') \<longrightarrow> rank r' \<le> rank r)"

lemma read_element_rank:
  assumes "reader_laws xr rank" "read_element xr tag st r = (res, r')"
  shows "rank r' \<le> rank r"
proof -
  have texts: "xr_read_text xr t r = (v, r1) \<Longrightarrow> rank r1 \<le> rank r" and
    skip: "xr_read_to_end xr t r = (u, r1) \<Longrightarrow> rank r1 \<le> rank r" for t v u r1
    using assms(1) unfolding reader_laws_def by blast+
  show ?thesis
    using assms(2) by (auto simp: read_element_def op_simps split: if_splits option.splits prod.splits sum.splits
        dest: texts skip)
qed

lemma handle_event_rank:
  assumes "reader_laws xr rank" "handle_event xr event st r = (res, r')"
  shows "rank r' \<le> rank r"
  using assms(2) read_element_rank [OF assms(1)]
  by (auto simp: handle_event_def op_simps split: xml_event.splits if_splits option.splits prod.splits sum.splits)

lemma handle_event_eof: "handle_event xr Eof st r = (Inr None, r)"
  by (simp add: handle_event_def op_return_def)

lemma read_events_ends:
  assumes "reader_laws xr rank"
  shows "\<exists>res r'. read_events xr st r = Some (res, r')"
proof (induction "rank r" arbitrary: st r rule: less_induct)
  case less
  obtain q r1 where event: "xr_read_event xr r = (q, r1)"
    by fastforce
  show ?case
  proof (cases q)
    case (Inl e)
    with event show ?thesis
      by (simp add: read_events.simps)
  next
    case (Inr ev)
    obtain res r2 where step: "handle_event xr ev st r1 = (res, r2)"
      by fastforce
    have "ev = Eof \<or> rank r2 < rank r"
      using assms event Inr handle_event_rank [OF assms step] unfolding reader_laws_def by fastforce
    then show ?thesis
      using event Inr step less [of r2] handle_event_eof [of xr st r1]
      by (subst read_events.simps) (auto split: sum.splits option.splits)
  qed
qed

section \<open>Properties\<close>

text \<open>
  C39. Reading an MDM file always ends, with a reader that gets on, and settings it accepts can be put
  into a request: the organization is one DNS label, the client id is one line with the suffix of a
  service token, and the secret is one line that is not blank.
\<close>

theorem mdm_settings_sound:
  assumes "reader_laws xr rank"
  shows "\<exists>res. from_mdm_xml xr r = Some res \<and> (\<forall>e. res = Inr e \<longrightarrow> sound_settings e)"
proof -
  obtain res where "from_mdm_xml xr r = Some res"
    using read_events_ends [OF assms, of start_mdm r] by (auto simp: from_mdm_xml_def)
  then show ?thesis
    using from_mdm_xml_ok by auto
qed

text \<open>A reader over a list of events, each \<open>Text\<close> being what \<open>read_text\<close> returns next.\<close>

definition sample_reader :: "xml_event list xml_reader" where
  "sample_reader =
     \<lparr>xr_read_event = \<lambda>r. (case r of [] \<Rightarrow> (Inr Eof, []) | event # rest \<Rightarrow> (Inr event, rest)),
      xr_read_text = \<lambda>_ r. (case r of Text v # rest \<Rightarrow> (Inr v, rest) | _ \<Rightarrow> (Inl ''not a text'', r)),
      xr_read_to_end = \<lambda>_ r. (Inr (), r)\<rparr>"

definition sample_mdm :: "xml_event list" where
  "sample_mdm =
     [Start ''dict'', Start ''key'', Text ''organization'', Start ''string'', Text ''example'',
      Start ''key'', Text ''auth_client_id'', Start ''string'', Text ''id.access'',
      Start ''key'', Text ''auth_client_secret'', Start ''string'', Text ''secret'', End ''dict'']"

lemma sample_reader_laws: "reader_laws sample_reader length"
  by (auto simp: reader_laws_def sample_reader_def split: list.splits xml_event.splits)

lemma sample_mdm_read:
  "from_mdm_xml sample_reader sample_mdm =
     Some (Inr \<lparr>ste_organization = ''example'', ste_client_id = ''id.access'', ste_client_secret = ''secret''\<rparr>)"
proof -
  have trims: "trim ''organization'' = ''organization''" "trim ''auth_client_id'' = ''auth_client_id''"
    "trim ''auth_client_secret'' = ''auth_client_secret''" "trim ''example'' = ''example''"
    "trim ''id.access'' = ''id.access''" "trim ''secret'' = ''secret''"
    by (rule trim_graphic; simp add: graphic_def)+
  show ?thesis
    by (simp add: from_mdm_xml_def sample_mdm_def sample_reader_def read_events.simps handle_event_def
        read_element_def start_mdm_def store_value_def set_once_def is_required_key_def op_simps trims
        finish_mdm_def required_def validate_organization_def validate_line_def one_line_def
        starts_with_def ends_with_def strip_suffix_def strip_prefix_def is_ascii_alphanumeric_def)
qed

corollary mdm_settings_sound_witness:
  "from_mdm_xml sample_reader sample_mdm =
     Some (Inr \<lparr>ste_organization = ''example'', ste_client_id = ''id.access'', ste_client_secret = ''secret''\<rparr>)
   \<and> dns_label ''example''"
  using mdm_settings_sound [OF sample_reader_laws, of sample_mdm] sample_mdm_read by (simp add: sound_settings_def)

end
