(* ===== verification/Access.thy ===== *)
theory Access
  imports Mdm
begin

text \<open>
  \<open>api/access.rs\<close>: a device-enrollment JWT from a Cloudflare Access service token. The URL parser and
  the HTTPS client are parameters.
\<close>

section \<open>Requests\<close>

definition ACCESS_CLIENT_ID_HEADER :: string where "ACCESS_CLIENT_ID_HEADER = ''CF-Access-Client-Id''"
definition ACCESS_CLIENT_SECRET_HEADER :: string where "ACCESS_CLIENT_SECRET_HEADER = ''CF-Access-Client-Secret''"

text \<open>The components of a parsed \<open>Url\<close>, and its text.\<close>

record url =
  url_text :: string
  url_scheme :: string
  url_host_str :: "string option"
  url_port :: "u16 option"
  url_username :: string
  url_password :: "string option"
  url_path :: string
  url_fragment :: "string option"
  url_query_pairs :: "(string \<times> string) list"

text \<open>The parser, \<open>HeaderValue::to_str\<close>, and a client that follows no redirect.\<close>

record 'w access_client =
  ac_parse_url :: "string \<Rightarrow> string + url"
  ac_to_str :: "bytes \<Rightarrow> string + string"
  ac_build :: "string + unit"
  ac_send :: "http_request \<Rightarrow> ('w, string, http_response) op"

datatype access_error =
    BadEnrollmentUrl string
  | ClientNotBuilt string
  | RequestFailed string
  | NotARedirect nat
  | NoLocation
  | LocationNotText string
  | BadCallbackUrl string
  | InteractiveLogin
  | WrongOrigin
  | NoTokenParameter
  | SeveralTokens
  | InvalidJwt

definition service_token_request :: "url \<Rightarrow> service_token_enrollment \<Rightarrow> http_request" where
  "service_token_request u config =
     header_field ACCESS_CLIENT_SECRET_HEADER (ste_client_secret config)
       (header_field ACCESS_CLIENT_ID_HEADER (ste_client_id config) (new_request Get (url_text u)))"

section \<open>The callback\<close>

definition valid_origin :: "string \<Rightarrow> url \<Rightarrow> bool" where
  "valid_origin expected_host callback \<longleftrightarrow>
     \<not> (url_scheme callback \<noteq> ''com.cloudflare.warp''
        \<or> url_host_str callback \<noteq> Some expected_host
        \<or> url_port callback \<noteq> None
        \<or> url_username callback \<noteq> []
        \<or> url_password callback \<noteq> None
        \<or> url_path callback \<noteq> ''/auth''
        \<or> url_fragment callback \<noteq> None)"

definition invalid_jwt :: "string \<Rightarrow> bool" where
  "invalid_jwt token \<longleftrightarrow>
     token = [] \<or> 64 * 1024 < length token \<or> \<not> one_line token \<or> length (split_on CHR ''.'' token) \<noteq> 3"

definition callback_token :: "url \<Rightarrow> access_error + string" where
  "callback_token callback =
     (case [v. (key, v) \<leftarrow> url_query_pairs callback, key = ''token''] of
        [] \<Rightarrow> Inl NoTokenParameter
      | [token] \<Rightarrow> if invalid_jwt token then Inl InvalidJwt else Inr token
      | _ \<Rightarrow> Inl SeveralTokens)"

definition parse_callback :: "'w access_client \<Rightarrow> bytes \<Rightarrow> string \<Rightarrow> access_error + string" where
  "parse_callback ac location expected_host =
     and_then (with_context LocationNotText (ac_to_str ac location)) (\<lambda>location.
     and_then (with_context BadCallbackUrl (ac_parse_url ac location)) (\<lambda>callback.
     if url_scheme callback = ''http'' \<or> url_scheme callback = ''https'' then Inl InteractiveLogin
     else if \<not> valid_origin expected_host callback then Inl WrongOrigin
     else callback_token callback))"

definition is_redirection :: "nat \<Rightarrow> bool" where
  "is_redirection status \<longleftrightarrow> 300 \<le> status \<and> status < 400"

definition access_host :: "service_token_enrollment \<Rightarrow> string" where
  "access_host config = ste_organization config @ ''.cloudflareaccess.com''"

definition acquire_service_token_jwt ::
    "'w access_client \<Rightarrow> service_token_enrollment \<Rightarrow> ('w, access_error, string) op" where
  "acquire_service_token_jwt ac config =
     op_bind (op_lift (with_context BadEnrollmentUrl (ac_parse_url ac (''https://'' @ access_host config @ ''/warp''))))
       (\<lambda>u.
     op_bind (op_lift (with_context ClientNotBuilt (ac_build ac))) (\<lambda>_.
     op_bind (op_context RequestFailed (ac_send ac (service_token_request u config))) (\<lambda>response.
     if \<not> is_redirection (rs_status response) then op_fail (NotARedirect (rs_status response))
     else op_bind (op_lift (ok_or NoLocation (rs_location response))) (\<lambda>location.
          op_lift (parse_callback ac location (access_host config))))))"

section \<open>Lemmas\<close>

lemma length_split_on: "length (split_on c s) = Suc (count_list s c)"
  by (induction c s rule: split_on.induct) (auto simp: Let_def split: list.splits)

text \<open>A compact JWT on one line.\<close>

definition jwt_shaped :: "string \<Rightarrow> bool" where
  "jwt_shaped token \<longleftrightarrow> count_list token CHR ''.'' = 2 \<and> length token \<le> 65536 \<and> one_line token"

lemma jwt_shaped_valid: "\<not> invalid_jwt token \<Longrightarrow> jwt_shaped token"
  by (simp add: invalid_jwt_def jwt_shaped_def length_split_on)

lemma callback_token_ok:
  assumes "callback_token callback = Inr token"
  shows "[v. (key, v) \<leftarrow> url_query_pairs callback, key = ''token''] = [token] \<and> jwt_shaped token"
  using assms jwt_shaped_valid unfolding callback_token_def by (auto split: list.splits if_splits)

section \<open>Properties\<close>

text \<open>
  C13. A JWT is only taken from the organization's own callback. It was asked for with one request, to
  the organization's Access host over HTTPS, that alone carries the service token; the answer was a
  redirect, which was not followed, to a URL of the client's own scheme at that very host, with no
  port, user, password or fragment; the URL has exactly one token parameter, and the JWT is its value:
  one line of three parts of at most 64 KiB.
\<close>

theorem access_jwt_from_callback:
  assumes "acquire_service_token_jwt ac config w = (Inr token, w')"
  shows "\<exists>u response location text callback.
    ac_parse_url ac (''https://'' @ ste_organization config @ ''.cloudflareaccess.com/warp'') = Inr u
    \<and> ac_send ac \<lparr>rq_method = Get, rq_url = url_text u,
        rq_headers = [(''CF-Access-Client-Id'', ste_client_id config), (''CF-Access-Client-Secret'', ste_client_secret config)],
        rq_query = [], rq_body = NoBody\<rparr> w = (Inr response, w')
    \<and> rs_status response \<in> {300..<400} \<and> rs_location response = Some location
    \<and> ac_to_str ac location = Inr text \<and> ac_parse_url ac text = Inr callback
    \<and> url_scheme callback = ''com.cloudflare.warp''
    \<and> url_host_str callback = Some (ste_organization config @ ''.cloudflareaccess.com'')
    \<and> url_port callback = None \<and> url_username callback = [] \<and> url_password callback = None
    \<and> url_path callback = ''/auth'' \<and> url_fragment callback = None
    \<and> [v. (key, v) \<leftarrow> url_query_pairs callback, key = ''token''] = [token] \<and> jwt_shaped token"
proof -
  obtain u response location where request: "ac_parse_url ac (''https://'' @ access_host config @ ''/warp'') = Inr u"
    "ac_send ac (service_token_request u config) w = (Inr response, w')" "is_redirection (rs_status response)"
    "rs_location response = Some location" "parse_callback ac location (access_host config) = Inr token"
    using assms unfolding acquire_service_token_jwt_def
    by (auto simp: op_context_Inr op_lift_def op_fail_def split: if_splits elim!: op_bind_okE)
  from request(5) obtain l callback where "ac_to_str ac location = Inr l" "ac_parse_url ac l = Inr callback"
    "valid_origin (access_host config) callback" "callback_token callback = Inr token"
    by (auto simp: parse_callback_def and_then_eq_Inr split: if_splits)
  with request(1-4) show ?thesis
    using callback_token_ok [of callback token]
    by (auto simp: valid_origin_def access_host_def is_redirection_def service_token_request_def header_field_def
        new_request_def ACCESS_CLIENT_ID_HEADER_def ACCESS_CLIENT_SECRET_HEADER_def)
qed

definition sample_url :: "string \<Rightarrow> url" where
  "sample_url text =
     (if text = ''https://example.cloudflareaccess.com/warp'' then
        \<lparr>url_text = text, url_scheme = ''https'', url_host_str = Some ''example.cloudflareaccess.com'', url_port = None,
         url_username = [], url_password = None, url_path = ''/warp'', url_fragment = None, url_query_pairs = []\<rparr>
      else
        \<lparr>url_text = text, url_scheme = ''com.cloudflare.warp'', url_host_str = Some ''example.cloudflareaccess.com'',
         url_port = None, url_username = [], url_password = None, url_path = ''/auth'', url_fragment = None,
         url_query_pairs = [(''token'', ''header.payload.signature'')]\<rparr>)"

text \<open>The world counts the requests.\<close>

definition sample_access :: "nat access_client" where
  "sample_access =
     \<lparr>ac_parse_url = \<lambda>text. Inr (sample_url text), ac_to_str = \<lambda>b. Inr (map (char_of o unat) b), ac_build = Inr (),
      ac_send = \<lambda>_ n. (Inr \<lparr>rs_status = 302, rs_location = Some [], rs_body = Inr []\<rparr>, n + 1)\<rparr>"

definition sample_settings :: service_token_enrollment where
  "sample_settings = \<lparr>ste_organization = ''example'', ste_client_id = ''id.access'', ste_client_secret = ''secret''\<rparr>"

lemma sample_access_run:
  "acquire_service_token_jwt sample_access sample_settings 0 = (Inr ''header.payload.signature'', 1)"
  by (simp add: acquire_service_token_jwt_def sample_access_def sample_settings_def sample_url_def op_simps
      is_redirection_def access_host_def parse_callback_def valid_origin_def callback_token_def invalid_jwt_def
      one_line_def length_split_on)

corollary access_jwt_from_callback_witness:
  "acquire_service_token_jwt sample_access sample_settings 0 = (Inr ''header.payload.signature'', 1)
   \<and> jwt_shaped ''header.payload.signature''"
  using access_jwt_from_callback [OF sample_access_run] sample_access_run by blast

end
