(* ===== verification/Mesh.thy ===== *)
theory Mesh
  imports Private_File
begin

text \<open>
  \<open>api/mesh.rs\<close>: the Mesh node's token, its registration and its registration's configuration. The
  four Base64 alphabets and the JSON decoder of the token are parameters.
\<close>

section \<open>The token\<close>

definition CONNECTOR_REGISTRATION_PLATFORM :: string where
  "CONNECTOR_REGISTRATION_PLATFORM = ''linux''"

record mesh_node_token =
  mt_encoded :: string
  mt_account_tag :: string
  mt_tunnel_id :: string

record token_payload =
  tp_account_tag :: string
  tp_tunnel_id :: string
  tp_tunnel_secret :: string

record token_codecs =
  tk_standard :: "string \<Rightarrow> string + bytes"
  tk_standard_no_pad :: "string \<Rightarrow> string + bytes"
  tk_url_safe :: "string \<Rightarrow> string + bytes"
  tk_url_safe_no_pad :: "string \<Rightarrow> string + bytes"
  tk_payload :: "bytes \<Rightarrow> string + token_payload"

datatype token_error =
    TokenFile private_file_error
  | TokenEmpty
  | TokenNotBase64 string
  | TokenNotJson string
  | InvalidAccountTag
  | InvalidTunnelId
  | InvalidSecret string
  | ShortSecret

text \<open>\<open>or_else\<close> on results: the last error is returned.\<close>

definition result_or_else :: "'e + 'a \<Rightarrow> 'e + 'a \<Rightarrow> 'e + 'a" where
  "result_or_else r r' = (case r of Inl _ \<Rightarrow> r' | Inr x \<Rightarrow> Inr x)"

definition decode_token :: "token_codecs \<Rightarrow> string \<Rightarrow> string + bytes" where
  "decode_token tk v =
     result_or_else (result_or_else (result_or_else (tk_standard tk v) (tk_standard_no_pad tk v))
       (tk_url_safe tk v)) (tk_url_safe_no_pad tk v)"

definition is_ascii_hexdigit :: "char \<Rightarrow> bool" where
  "is_ascii_hexdigit c \<longleftrightarrow> to_digit 16 c \<noteq> None"

definition is_uuid_like :: "string \<Rightarrow> bool" where
  "is_uuid_like v \<longleftrightarrow>
     length v = 36
     \<and> list_all (\<lambda>(index, byte). if index \<in> {8, 13, 18, 23} then byte = CHR ''-'' else is_ascii_hexdigit byte)
         (zip [0..<length v] v)"

definition parse_token :: "token_codecs \<Rightarrow> string \<Rightarrow> token_error + mesh_node_token" where
  "parse_token tk encoded =
     (if encoded = [] then Inl TokenEmpty
      else and_then (with_context TokenNotBase64 (decode_token tk encoded)) (\<lambda>decoded.
           and_then (with_context TokenNotJson (tk_payload tk decoded)) (\<lambda>payload.
           if length (tp_account_tag payload) \<noteq> 32 \<or> \<not> list_all is_ascii_hexdigit (tp_account_tag payload)
           then Inl InvalidAccountTag
           else if \<not> is_uuid_like (tp_tunnel_id payload) then Inl InvalidTunnelId
           else and_then (with_context InvalidSecret (decode_token tk (tp_tunnel_secret payload))) (\<lambda>secret.
                if length secret < 32 then Inl ShortSecret
                else Inr \<lparr>mt_encoded = encoded, mt_account_tag = tp_account_tag payload,
                          mt_tunnel_id = tp_tunnel_id payload\<rparr>))))"

definition read_token :: "('h, 'w) disk \<Rightarrow> token_codecs \<Rightarrow> string \<Rightarrow> ('w, token_error, mesh_node_token) op" where
  "read_token disk tk path =
     op_bind (op_context TokenFile (validate_private_file disk path)) (\<lambda>_.
     op_bind (op_context (\<lambda>e. TokenFile (ReadFailed e)) (dk_read_to_string disk path)) (\<lambda>encoded.
     op_lift (parse_token tk (trim encoded))))"

text \<open>\<open>Debug\<close> does not show the token itself.\<close>

definition debug_token :: "mesh_node_token \<Rightarrow> (string \<times> string) list" where
  "debug_token token =
     [(''encoded'', ''<redacted>''), (''account_tag'', mt_account_tag token), (''tunnel_id'', mt_tunnel_id token)]"

section \<open>Registration\<close>

definition mesh_registration_of ::
    "'w web \<Rightarrow> mesh_node_token \<Rightarrow> device_identity \<Rightarrow> bytes \<Rightarrow> string \<Rightarrow> mesh_registration" where
  "mesh_registration_of web token identity public_key_der tos =
     \<lparr>mr_device_type = CONNECTOR_REGISTRATION_PLATFORM, mr_model = di_model identity, mr_name = di_name identity,
      mr_key = wb_base64 web public_key_der, mr_key_type = KEY_TYPE_MASQUE, mr_tunnel_type = TUN_TYPE_MASQUE,
      mr_os_version = di_os_version identity, mr_serial_number = di_serial_number identity,
      mr_warp_connector_token = mt_encoded token, mr_tos = tos\<rparr>"

text \<open>An answer may be wrapped in an object with the field \<open>result\<close>.\<close>

definition json_field :: "string \<Rightarrow> (string \<times> json) list \<Rightarrow> json option" where
  "json_field k object = map_option snd (List.find (\<lambda>(k', _). k' = k) object)"

definition decode_account_data_response :: "'w web \<Rightarrow> bytes \<Rightarrow> string + account_data" where
  "decode_account_data_response web body =
     and_then (wb_json web body) (\<lambda>v.
       wb_account_of_json web
         (case v of
            JObj object \<Rightarrow> (case json_field ''result'' object of Some result \<Rightarrow> result | None \<Rightarrow> JObj object)
          | other \<Rightarrow> other))"

definition mesh_register_request ::
    "system \<Rightarrow> 'w web \<Rightarrow> mesh_node_token \<Rightarrow> device_identity \<Rightarrow> bytes \<Rightarrow> string \<Rightarrow> http_request" where
  "mesh_register_request sys web token identity public_key_der tos =
     (client_headers (new_request Post
        (api_url sys @ ''/v1/accounts/'' @ mt_account_tag token @ ''/warp_connector'')))
       \<lparr>rq_body := MeshBody (mesh_registration_of web token identity public_key_der tos)\<rparr>"

definition register_mesh_node ::
    "system \<Rightarrow> 'w web \<Rightarrow> mesh_node_token \<Rightarrow> device_identity \<Rightarrow> bytes \<Rightarrow> ('w, api_failure, account_data) op" where
  "register_mesh_node sys web token identity public_key_der =
     op_bind (cf_time web) (\<lambda>tos.
     op_bind (exchange web (mesh_register_request sys web token identity public_key_der tos)) (\<lambda>(status, body).
     if status \<noteq> STATUS_OK then op_fail (Refused status (api_error_of web body))
     else op_bind (op_lift (with_context BadAnswer (decode_account_data_response web body))) (\<lambda>account.
       if acc_id account = [] \<or> acc_token account = [] then op_fail OmittedCredentials
       else op_return account)))"

definition normalize_registration_id :: "string \<Rightarrow> string" where
  "normalize_registration_id v = unwrap_or (strip_prefix ''t.'' v) v"

definition get_registration_config ::
    "system \<Rightarrow> 'w web \<Rightarrow> string \<Rightarrow> string \<Rightarrow> string \<Rightarrow> ('w, api_failure, account_data) op" where
  "get_registration_config sys web account_tag registration_id access_token =
     op_bind (exchange web ((bearer_auth access_token (client_headers (new_request Get
                (api_url sys @ ''/v1/accounts/'' @ account_tag @ ''/reg/'' @ normalize_registration_id registration_id))))
                \<lparr>rq_query := [(''dex_tests_version'', ''1'')]\<rparr>)) (\<lambda>(status, body).
     if status \<noteq> STATUS_OK then op_fail (Refused status (api_error_of web body))
     else op_lift (with_context BadAnswer (decode_account_data_response web body)))"

section \<open>Lemmas\<close>

lemma hexdigit_char:
  "is_ascii_hexdigit c \<longleftrightarrow>
     (let n = of_char c :: nat in 48 \<le> n \<and> n \<le> 57 \<or> 65 \<le> n \<and> n \<le> 70 \<or> 97 \<le> n \<and> n \<le> 102)"
  by (auto simp: is_ascii_hexdigit_def to_digit_def Let_def)

lemma hexdigit_safe: "\<not> is_ascii_hexdigit CHR ''/''" "\<not> is_ascii_hexdigit CHR ''?''" "\<not> is_ascii_hexdigit CHR ''#''"
  by code_simp+

lemma parse_token_ok:
  assumes "parse_token tk encoded = Inr token"
  shows "mt_encoded token = encoded" "encoded \<noteq> []"
    "length (mt_account_tag token) = 32" "list_all is_ascii_hexdigit (mt_account_tag token)"
    "is_uuid_like (mt_tunnel_id token)"
  using assms by (auto simp: parse_token_def and_then_eq_Inr not_less split: if_splits)

lemma parse_token_secret:
  assumes "parse_token tk encoded = Inr token"
  shows "\<exists>decoded payload secret. decode_token tk encoded = Inr decoded \<and> tk_payload tk decoded = Inr payload
    \<and> mt_account_tag token = tp_account_tag payload \<and> mt_tunnel_id token = tp_tunnel_id payload
    \<and> decode_token tk (tp_tunnel_secret payload) = Inr secret \<and> 32 \<le> length secret"
  using assms by (fastforce simp: parse_token_def and_then_eq_Inr not_less split: if_splits)

text \<open>The account tag cannot leave its path segment.\<close>

lemma token_tag_in_segment:
  assumes "parse_token tk encoded = Inr token"
  shows "CHR ''/'' \<notin> set (mt_account_tag token) \<and> CHR ''?'' \<notin> set (mt_account_tag token) \<and> mt_account_tag token \<noteq> []"
proof -
  have "length (mt_account_tag token) = 32" "list_all is_ascii_hexdigit (mt_account_tag token)"
    using parse_token_ok [OF assms] by blast+
  then show ?thesis
    using hexdigit_safe by (fastforce simp: list_all_iff)
qed

lemma read_token_ok:
  assumes "read_token disk tk path w = (Inr token, w')"
  obtains m w1 raw where "dk_metadata disk path w = (Inr m, w1)" "fm_is_file m" "\<not> group_accessible m"
    "dk_read_to_string disk path w1 = (Inr raw, w')" "parse_token tk (trim raw) = Inr token"
  using assms unfolding read_token_def validate_private_file_def
  by (auto simp: op_context_Inr op_lift_def op_fail_def op_return_def split: if_splits elim!: op_bind_okE)

lemma register_mesh_node_ok:
  assumes "register_mesh_node sys web token identity key w = (Inr account, w')"
  shows "acc_id account \<noteq> [] \<and> acc_token account \<noteq> []"
  using assms unfolding register_mesh_node_def
  by (auto simp: op_lift_def op_fail_def op_return_def split: if_splits prod.splits elim!: op_bind_okE)

lemma normalize_registration_id_twice:
  "strip_prefix ''t.'' (normalize_registration_id v) = None \<Longrightarrow>
     normalize_registration_id (normalize_registration_id v) = normalize_registration_id v"
  by (simp add: normalize_registration_id_def)

end
