(* ===== verification/Http3.thy ===== *)
theory Http3
  imports Quic Rust_Str
begin

text \<open>
  The HTTP/3 side of a session in \<open>api/masque.rs\<close>: the CONNECT-IP request, the statistics
  requests of a Mesh node and the events that end the tunnel. The \<open>quiche::h3\<close> connection is a
  parameter; its state is part of the state \<open>'c\<close> of the QUIC connection it runs on. Header names
  and values are byte strings, written as strings.
\<close>

section \<open>The connection\<close>

type_synonym header = "string \<times> string"

datatype h3_error = H3Done | H3Error string

datatype h3_event =
    Headers "header list"
  | Data
  | Finished
  | Reset u64
  | OtherEvent

record 'c h3 =
  h_poll :: "'c \<Rightarrow> (h3_error + u64 \<times> h3_event) \<times> 'c"
  h_recv_body :: "u64 \<Rightarrow> nat \<Rightarrow> 'c \<Rightarrow> (h3_error + nat) \<times> 'c"
  h_send_request :: "header list \<Rightarrow> bool \<Rightarrow> 'c \<Rightarrow> (h3_error + u64) \<times> 'c"
  h_send_body :: "u64 \<Rightarrow> bytes \<Rightarrow> bool \<Rightarrow> 'c \<Rightarrow> (h3_error + nat) \<times> 'c"

section \<open>The CONNECT-IP request\<close>

datatype cloudflare_connect_profile =
    Client
  | MeshNode (client_version: string)

definition reports_h3_stats :: "cloudflare_connect_profile \<Rightarrow> bool" where
  "reports_h3_stats profile = (case profile of MeshNode _ \<Rightarrow> True | Client \<Rightarrow> False)"

definition connect_request_headers :: "cloudflare_connect_profile \<Rightarrow> string \<Rightarrow> bool \<Rightarrow> header list" where
  "connect_request_headers profile user_agent pq_enabled =
     (let scheme = (case profile of Client \<Rightarrow> ''https'' | MeshNode _ \<Rightarrow> ''http'');
          headers = [('':method'', ''CONNECT''), ('':protocol'', ''cf-connect-ip''), ('':scheme'', scheme),
                     ('':authority'', ''cloudflareaccess.com''), ('':path'', ''/'')]
      in (case profile of
            Client \<Rightarrow> headers @ [(''capsule-protocol'', ''?1''), (''user-agent'', user_agent)]
          | MeshNode version \<Rightarrow>
              headers @ [(''pq-enabled'', if pq_enabled then ''true'' else ''false''),
                         (''cf-client-version'', ''l-'' @ version)]))"

section \<open>Statistics requests\<close>

record path_stats =
  ps_active :: bool
  ps_rtt :: duration
  ps_min_rtt :: "duration option"
  ps_rttvar :: duration
  ps_sent :: nat
  ps_recv :: nat
  ps_lost :: nat
  ps_retrans :: nat
  ps_sent_bytes :: u64
  ps_recv_bytes :: u64
  ps_lost_bytes :: u64
  ps_stream_retrans_bytes :: u64

record h3_stats_fields =
  rtt_us :: nat
  min_rtt_us :: nat
  rtt_var_us :: nat
  packets_sent :: nat
  packets_recvd :: nat
  packets_lost :: nat
  packets_retrans :: nat
  bytes_sent :: u64
  bytes_recvd :: u64
  bytes_lost :: u64
  bytes_retrans :: u64

record h3_stats_request =
  schema_version :: string
  stats_fields :: h3_stats_fields

record pending_h3_stats_report =
  rep_stream_id :: u64
  rep_body :: bytes
  rep_written :: nat

definition h3_stats_request_headers :: "header list" where
  "h3_stats_request_headers =
     [('':method'', ''POST''), ('':scheme'', ''http''), ('':authority'', ''cloudflareaccess.com''),
      ('':path'', ''/h3-stats'')]"

text \<open>\<open>duration.as_micros().min(u64::MAX) as u64\<close>\<close>

definition micros :: "duration \<Rightarrow> nat" where
  "micros d = min (d div 1000) u64_max"

definition h3_stats_request_of :: "path_stats list \<Rightarrow> h3_stats_request option" where
  "h3_stats_request_of paths =
     do {
       path \<leftarrow> List.find ps_active paths;
       Some \<lparr>schema_version = ''0'',
             stats_fields =
               \<lparr>rtt_us = micros (ps_rtt path),
                min_rtt_us = micros (case ps_min_rtt path of Some r \<Rightarrow> r | None \<Rightarrow> ps_rtt path),
                rtt_var_us = micros (ps_rttvar path),
                packets_sent = ps_sent path, packets_recvd = ps_recv path,
                packets_lost = ps_lost path, packets_retrans = ps_retrans path,
                bytes_sent = ps_sent_bytes path, bytes_recvd = ps_recv_bytes path,
                bytes_lost = ps_lost_bytes path, bytes_retrans = ps_stream_retrans_bytes path\<rparr>\<rparr>
     }"

datatype h3_session_error =
    SerializeStats string
  | SendStatsRequest h3_error
  | SendStatsBody h3_error
  | PollFailed h3_error
  | TunnelClosed string

text \<open>\<open>to_json\<close> is \<open>serde_json::to_vec\<close>, \<open>paths\<close> is \<open>conn.path_stats()\<close>.\<close>

definition start_h3_stats_report ::
    "'c h3 \<Rightarrow> ('c \<Rightarrow> path_stats list) \<Rightarrow> (h3_stats_request \<Rightarrow> string + bytes)
      \<Rightarrow> ('c, h3_session_error, pending_h3_stats_report option) op" where
  "start_h3_stats_report h paths to_json conn =
     (case h3_stats_request_of (paths conn) of
        None \<Rightarrow> (Inr None, conn)
      | Some request \<Rightarrow>
          (case to_json request of
             Inl err \<Rightarrow> (Inl (SerializeStats err), conn)
           | Inr body \<Rightarrow>
               (case h_send_request h h3_stats_request_headers False conn of
                  (Inl err, c) \<Rightarrow> (Inl (SendStatsRequest err), c)
                | (Inr stream_id, c) \<Rightarrow>
                    (Inr (Some \<lparr>rep_stream_id = stream_id, rep_body = body, rep_written = 0\<rparr>), c))))"

text \<open>The outer option is the panic of a slice that starts behind the body.\<close>

definition flush_h3_stats_report ::
    "'c h3 \<Rightarrow> pending_h3_stats_report \<Rightarrow> 'c
      \<Rightarrow> ((h3_session_error + bool) \<times> pending_h3_stats_report \<times> 'c) option" where
  "flush_h3_stats_report h report conn =
     do {
       rest \<leftarrow> slice (rep_written report) (length (rep_body report)) (rep_body report);
       (case h_send_body h (rep_stream_id report) rest True conn of
          (Inr written, c) \<Rightarrow>
            (let report = report\<lparr>rep_written := rep_written report + written\<rparr>
             in Some (Inr (rep_written report = length (rep_body report)), report, c))
        | (Inl err, c) \<Rightarrow>
            if err = H3Done then Some (Inr False, report, c) else Some (Inl (SendStatsBody err), report, c))
     }"

section \<open>The end of the tunnel\<close>

datatype h3_stream_termination = StreamFinished | StreamReset u64

text \<open>\<open>{code:x}\<close>\<close>

definition hex_digit :: "nat \<Rightarrow> char" where
  "hex_digit n = (if n < 10 then char_of (n + 48) else char_of (n + 87))"

fun hex :: "nat \<Rightarrow> string" where
  "hex n = (if n < 16 then [hex_digit n] else hex (n div 16) @ [hex_digit (n mod 16)])"

declare hex.simps [simp del]

definition connect_ip_termination_reason ::
    "u64 \<Rightarrow> u64 \<Rightarrow> h3_stream_termination \<Rightarrow> string option" where
  "connect_ip_termination_reason connect_stream_id stream_id termination =
     (if stream_id \<noteq> connect_stream_id then None
      else Some (case termination of
          StreamFinished \<Rightarrow>
            ''CONNECT-IP request stream '' @ dec (unat stream_id)
            @ '' finished; the associated RFC 9484 tunnel is closed''
        | StreamReset code \<Rightarrow>
            ''CONNECT-IP request stream '' @ dec (unat stream_id)
            @ '' was reset by the peer with HTTP/3 error code '' @ dec (unat code)
            @ '' (0x'' @ hex (unat code) @ ''); the associated RFC 9484 tunnel is closed''))"

partial_function (option) drain_body :: "'c h3 \<Rightarrow> u64 \<Rightarrow> 'c \<Rightarrow> 'c option" where
  "drain_body h stream_id conn =
     (case h_recv_body h stream_id 4096 conn of
        (Inr n, c) \<Rightarrow> if n = 0 then Some c else drain_body h stream_id c
      | (Inl _, c) \<Rightarrow> Some c)"

definition event_termination :: "h3_event \<Rightarrow> h3_stream_termination option" where
  "event_termination e =
     (case e of Finished \<Rightarrow> Some StreamFinished | Reset code \<Rightarrow> Some (StreamReset code) | _ \<Rightarrow> None)"

partial_function (option) poll_h3 ::
    "'c h3 \<Rightarrow> u64 \<Rightarrow> 'c \<Rightarrow> ((h3_session_error + unit) \<times> 'c) option" where
  "poll_h3 h connect_stream_id conn =
     (case h_poll h conn of
        (Inl err, c) \<Rightarrow> if err = H3Done then Some (Inr (), c) else Some (Inl (PollFailed err), c)
      | (Inr (stream_id, event), c) \<Rightarrow>
          (if event = Data then
             (case drain_body h stream_id c of
                None \<Rightarrow> None | Some c' \<Rightarrow> poll_h3 h connect_stream_id c')
           else
             (case (case event_termination event of
                      None \<Rightarrow> None
                    | Some t \<Rightarrow> connect_ip_termination_reason connect_stream_id stream_id t) of
                Some reason \<Rightarrow> Some (Inl (TunnelClosed reason), c)
              | None \<Rightarrow> poll_h3 h connect_stream_id c)))"

section \<open>Which event ends the tunnel\<close>

text \<open>
  \<open>h3_events\<close> lists the events the connection has ready; \<open>h_recv_body\<close> takes from the bodies
  (\<open>body_left\<close> bytes) and leaves the events alone.
\<close>

definition h3_laws :: "'c h3 \<Rightarrow> ('c \<Rightarrow> (u64 \<times> h3_event) list) \<Rightarrow> ('c \<Rightarrow> nat) \<Rightarrow> bool" where
  "h3_laws h h3_events body_left \<longleftrightarrow>
     (\<forall>c r c'. h_poll h c = (r, c') \<longrightarrow>
        (case r of Inr e \<Rightarrow> h3_events c = e # h3_events c'
         | Inl err \<Rightarrow> h3_events c' = h3_events c \<and> (err = H3Done \<longrightarrow> h3_events c = [])))
     \<and> (\<forall>sid n c r c'. h_recv_body h sid n c = (r, c') \<longrightarrow>
        h3_events c' = h3_events c
        \<and> (case r of Inr m \<Rightarrow> m = 0 \<or> body_left c' < body_left c | Inl _ \<Rightarrow> True))"

definition terminating :: "u64 \<Rightarrow> u64 \<times> h3_event \<Rightarrow> string option" where
  "terminating connect_stream_id e =
     (case event_termination (snd e) of
        None \<Rightarrow> None | Some t \<Rightarrow> connect_ip_termination_reason connect_stream_id (fst e) t)"

lemma terminating_iff:
  "terminating sid e \<noteq> None \<longleftrightarrow> fst e = sid \<and> (snd e = Finished \<or> (\<exists>code. snd e = Reset code))"
  by (cases "snd e") (auto simp: terminating_def event_termination_def connect_ip_termination_reason_def)

lemma poll_h3_event:
  assumes "h_poll h c = (Inr (stream_id, event), c1)" "event \<noteq> Data"
  shows "poll_h3 h sid c =
    (case terminating sid (stream_id, event) of
       Some reason \<Rightarrow> Some (Inl (TunnelClosed reason), c1) | None \<Rightarrow> poll_h3 h sid c1)"
proof -
  have "terminating sid (stream_id, event) =
      (case event_termination event of None \<Rightarrow> None | Some t \<Rightarrow> connect_ip_termination_reason sid stream_id t)"
    unfolding terminating_def fst_conv snd_conv ..
  then show ?thesis
    using assms by (subst poll_h3.simps) simp
qed

lemma drain_body_ends:
  assumes "h3_laws h h3_events body_left"
  shows "\<exists>c'. drain_body h sid c = Some c' \<and> h3_events c' = h3_events c"
proof (induction "body_left c" arbitrary: c rule: less_induct)
  case less
  obtain r c1 where call: "h_recv_body h sid 4096 c = (r, c1)"
    by fastforce
  have law: "h3_events c1 = h3_events c"
    "case r of Inr m \<Rightarrow> m = 0 \<or> body_left c1 < body_left c | Inl _ \<Rightarrow> True"
    using assms call unfolding h3_laws_def by blast+
  show ?case
  proof (cases "\<exists>m. r = Inr m \<and> m \<noteq> 0")
    case True
    then obtain m where m: "r = Inr m" "m \<noteq> 0"
      by blast
    then show ?thesis
      using less.hyps [of c1] law call by (subst drain_body.simps) simp
  next
    case False
    then show ?thesis
      using law call by (subst drain_body.simps) (auto split: sum.split)
  qed
qed

text \<open>
  The last poll, on \<open>c0\<close>, decides: no event before it was the end of the CONNECT stream, and its own
  answer is nothing more to do, an error, or that end.
\<close>

definition poll_outcome ::
    "'c h3 \<Rightarrow> ('c \<Rightarrow> (u64 \<times> h3_event) list) \<Rightarrow> u64 \<Rightarrow> 'c \<Rightarrow> h3_session_error + unit \<Rightarrow> 'c \<Rightarrow> bool" where
  "poll_outcome h h3_events sid c r c' \<longleftrightarrow>
     (\<exists>before c0. h3_events c = before @ h3_events c0 \<and> (\<forall>e\<in>set before. terminating sid e = None)
        \<and> (h_poll h c0 = (Inl H3Done, c') \<and> r = Inr ()
           \<or> (\<exists>err. h_poll h c0 = (Inl err, c') \<and> err \<noteq> H3Done \<and> r = Inl (PollFailed err))
           \<or> (\<exists>e reason. h_poll h c0 = (Inr e, c') \<and> terminating sid e = Some reason \<and> r = Inl (TunnelClosed reason))))"

lemma poll_outcome_Cons:
  assumes "poll_outcome h h3_events sid c1 r c'" "terminating sid e = None" "h3_events c = e # h3_events c1"
  shows "poll_outcome h h3_events sid c r c'"
proof -
  obtain before c0 where "h3_events c1 = before @ h3_events c0" "\<forall>e\<in>set before. terminating sid e = None"
    and last: "h_poll h c0 = (Inl H3Done, c') \<and> r = Inr ()
      \<or> (\<exists>err. h_poll h c0 = (Inl err, c') \<and> err \<noteq> H3Done \<and> r = Inl (PollFailed err))
      \<or> (\<exists>e reason. h_poll h c0 = (Inr e, c') \<and> terminating sid e = Some reason \<and> r = Inl (TunnelClosed reason))"
    using assms(1) unfolding poll_outcome_def by blast
  then have "h3_events c = (e # before) @ h3_events c0" "\<forall>e\<in>set (e # before). terminating sid e = None"
    using assms(2,3) by simp_all
  with last show ?thesis
    unfolding poll_outcome_def by blast
qed

lemma poll_h3_outcome:
  assumes laws: "h3_laws h h3_events body_left"
  shows "\<exists>r c'. poll_h3 h sid c = Some (r, c') \<and> poll_outcome h h3_events sid c r c'"
proof (induction "length (h3_events c)" arbitrary: c rule: less_induct)
  case less
  obtain a c1 where poll: "h_poll h c = (a, c1)"
    by fastforce
  have law: "case a of Inr e \<Rightarrow> h3_events c = e # h3_events c1
      | Inl err \<Rightarrow> h3_events c1 = h3_events c \<and> (err = H3Done \<longrightarrow> h3_events c = [])"
    using laws poll unfolding h3_laws_def by blast
  show ?case
  proof (cases a)
    case (Inl err)
    then have "poll_h3 h sid c = Some (if err = H3Done then Inr () else Inl (PollFailed err), c1)"
      using poll by (subst poll_h3.simps) simp
    moreover have "poll_outcome h h3_events sid c (if err = H3Done then Inr () else Inl (PollFailed err)) c1"
      unfolding poll_outcome_def using poll Inl by (intro exI [of _ "[]"] exI [of _ c]) simp
    ultimately show ?thesis
      by blast
  next
    case (Inr e)
    then have events: "h3_events c = e # h3_events c1"
      using law by simp
    obtain stream_id event where e: "e = (stream_id, event)"
      by fastforce
    have passes: ?thesis
      if same: "poll_h3 h sid c = poll_h3 h sid c2" "h3_events c2 = h3_events c1" and quiet: "terminating sid e = None" for c2
    proof -
      obtain r c' where "poll_h3 h sid c2 = Some (r, c')" "poll_outcome h h3_events sid c2 r c'"
        using less.hyps [of c2] events same(2) by auto
      then show ?thesis
        using poll_outcome_Cons [OF _ quiet] events same by metis
    qed
    show ?thesis
    proof (cases "event = Data")
      case True
      obtain c2 where c2: "drain_body h stream_id c1 = Some c2" "h3_events c2 = h3_events c1"
        using drain_body_ends [OF laws] by blast
      have "poll_h3 h sid c = poll_h3 h sid c2"
        using poll Inr e True c2(1) by (subst poll_h3.simps) simp
      then show ?thesis
        by (rule passes) (simp_all add: c2 e True terminating_def event_termination_def)
    next
      case False
      note step = poll_h3_event [OF poll [unfolded Inr e] False, of sid, folded e]
      show ?thesis
      proof (cases "terminating sid e")
        case None
        then show ?thesis
          using step by (intro passes) simp_all
      next
        case (Some reason)
        then have "poll_outcome h h3_events sid c (Inl (TunnelClosed reason)) c1"
          unfolding poll_outcome_def using poll Inr by (intro exI [of _ "[]"] exI [of _ c]) simp
        then show ?thesis
          using step Some by simp
      qed
    qed
  qed
qed

section \<open>A statistics report is written out\<close>

text \<open>
  \<open>body_sent sid\<close> reads the body bytes the connection has accepted on a stream; it accepts a
  front part of what it is offered.
\<close>

definition h3_body_laws :: "'c h3 \<Rightarrow> (u64 \<Rightarrow> 'c \<Rightarrow> bytes) \<Rightarrow> bool" where
  "h3_body_laws h body_sent \<longleftrightarrow>
     (\<forall>sid b fin c r c'. h_send_body h sid b fin c = (r, c') \<longrightarrow>
        (case r of Inr n \<Rightarrow> n \<le> length b \<and> body_sent sid c' = body_sent sid c @ take n b
         | Inl _ \<Rightarrow> body_sent sid c' = body_sent sid c))"

text \<open>The report's own record: its first \<open>rep_written\<close> bytes, and no others, are on the stream.\<close>

definition report_inv :: "(u64 \<Rightarrow> 'c \<Rightarrow> bytes) \<Rightarrow> pending_h3_stats_report \<Rightarrow> 'c \<Rightarrow> bool" where
  "report_inv body_sent report c \<longleftrightarrow>
     rep_written report \<le> length (rep_body report)
     \<and> body_sent (rep_stream_id report) c = take (rep_written report) (rep_body report)"

lemma flush_h3_stats_report_step:
  assumes laws: "h3_body_laws h body_sent" and inv: "report_inv body_sent report c"
  shows "\<exists>r report' c'. flush_h3_stats_report h report c = Some (r, report', c')
    \<and> report_inv body_sent report' c' \<and> rep_body report' = rep_body report
    \<and> rep_stream_id report' = rep_stream_id report \<and> rep_written report \<le> rep_written report'
    \<and> (r = Inr True \<longrightarrow> body_sent (rep_stream_id report) c' = rep_body report)"
proof -
  let ?rest = "drop (rep_written report) (rep_body report)"
  have rest: "slice (rep_written report) (length (rep_body report)) (rep_body report) = Some ?rest"
    using inv by (simp add: slice_in report_inv_def)
  obtain r c1 where call: "h_send_body h (rep_stream_id report) ?rest True c = (r, c1)"
    by fastforce
  have law: "case r of Inr n \<Rightarrow> n \<le> length ?rest
      \<and> body_sent (rep_stream_id report) c1 = body_sent (rep_stream_id report) c @ take n ?rest
    | Inl _ \<Rightarrow> body_sent (rep_stream_id report) c1 = body_sent (rep_stream_id report) c"
    using laws call unfolding h3_body_laws_def by blast
  show ?thesis
  proof (cases r)
    case (Inl err)
    then show ?thesis
      using law inv call by (simp add: flush_h3_stats_report_def rest report_inv_def)
  next
    case (Inr n)
    have "take (rep_written report) (rep_body report) @ take n ?rest = take (rep_written report + n) (rep_body report)"
      by (simp add: take_add)
    moreover have "rep_written report + n \<le> length (rep_body report)"
      using law Inr inv by (auto simp: report_inv_def)
    ultimately show ?thesis
      using law inv call Inr by (simp add: flush_h3_stats_report_def rest report_inv_def Let_def)
  qed
qed

section \<open>Samples\<close>

record sample_h3_conn =
  se_events :: "(u64 \<times> h3_event) list"
  se_sent :: bytes

definition sample_h3 :: "sample_h3_conn h3" where
  "sample_h3 =
     \<lparr>h_poll = (\<lambda>c. case se_events c of [] \<Rightarrow> (Inl H3Done, c) | e # es \<Rightarrow> (Inr e, c\<lparr>se_events := es\<rparr>)),
      h_recv_body = (\<lambda>sid n c. (Inr 0, c)),
      h_send_request = (\<lambda>hs fin c. (Inr 4, c)),
      h_send_body = (\<lambda>sid b fin c. (Inr (min 3 (length b)), c\<lparr>se_sent := se_sent c @ take 3 b\<rparr>))\<rparr>"

lemma sample_h3_laws:
  "h3_laws sample_h3 se_events (\<lambda>_. 0)" "h3_body_laws sample_h3 (\<lambda>_. se_sent)"
  by (auto simp: h3_laws_def h3_body_laws_def sample_h3_def split: list.splits)

section \<open>Properties\<close>



text \<open>
  C36. A statistics report reaches its stream byte for byte: every call of
  \<open>flush_h3_stats_report\<close>, however little the connection accepts and whatever error it gives,
  keeps exactly the written front part of the body on the stream, never panics, and says that the
  report is finished only when the whole body is there.
\<close>

theorem flush_h3_stats_report_exact:
  assumes "h3_body_laws h body_sent" "report_inv body_sent report c"
  shows "\<exists>r report' c'. flush_h3_stats_report h report c = Some (r, report', c')
    \<and> report_inv body_sent report' c' \<and> rep_body report' = rep_body report
    \<and> rep_written report \<le> rep_written report'
    \<and> (r = Inr True \<longrightarrow> body_sent (rep_stream_id report) c' = rep_body report)"
  using flush_h3_stats_report_step [OF assms] by blast

corollary flush_h3_stats_report_exact_witness:
  "\<exists>r report' c'. flush_h3_stats_report sample_h3
      \<lparr>rep_stream_id = 4, rep_body = [1, 2, 3, 4, 5], rep_written = 0\<rparr> \<lparr>se_events = [], se_sent = []\<rparr>
     = Some (r, report', c') \<and> rep_body report' = [1, 2, 3, 4, 5]"
proof -
  have "report_inv (\<lambda>_. se_sent) \<lparr>rep_stream_id = 4, rep_body = [1, 2, 3, 4, 5], rep_written = 0\<rparr>
      \<lparr>se_events = [], se_sent = []\<rparr>"
    by (simp add: report_inv_def)
  from flush_h3_stats_report_exact [OF sample_h3_laws(2) this] show ?thesis
    by auto
qed

text \<open>
  The CONNECT-IP request is well formed for either profile: the five pseudo-header fields come
  first, no field occurs twice, and the Mesh profile, and only it, carries the connector's fields
  and never the client's.
\<close>

theorem connect_request_headers_wf:
  "map fst (take 5 (connect_request_headers profile user_agent pq))
     = ['':method'', '':protocol'', '':scheme'', '':authority'', '':path'']
   \<and> distinct (map fst (connect_request_headers profile user_agent pq))
   \<and> list_all (\<lambda>(n, v). hd n \<noteq> CHR '':'') (drop 5 (connect_request_headers profile user_agent pq))
   \<and> (reports_h3_stats profile \<longleftrightarrow> ''cf-client-version'' \<in> fst ` set (connect_request_headers profile user_agent pq))
   \<and> (reports_h3_stats profile \<longleftrightarrow> ''user-agent'' \<notin> fst ` set (connect_request_headers profile user_agent pq))"
  by (cases profile) (simp_all add: connect_request_headers_def Let_def reports_h3_stats_def)

end
