(* ===== verification/Handshake.thy ===== *)
theory Handshake
  imports Udp_Batch Http3
begin

text \<open>
  \<open>api/masque/handshake.rs\<close>: the QUIC handshake, the pinning of the endpoint's public key and the
  wait for the answer to the CONNECT request. \<open>tokio::select!\<close> between a receive and a sleep, and
  the X.509 parser, are parameters.
\<close>

section \<open>UTF-8\<close>

text \<open>\<open>std::str::from_utf8\<close>, the characters being the bytes.\<close>

definition byte_in :: "nat \<Rightarrow> nat \<Rightarrow> char \<Rightarrow> bool" where
  "byte_in lo hi c \<longleftrightarrow> lo \<le> (of_char c :: nat) \<and> (of_char c :: nat) \<le> hi"

fun valid_utf8 :: "string \<Rightarrow> bool" where
  "valid_utf8 [] = True"
| "valid_utf8 (a # s) =
     (if byte_in 0x00 0x7F a then valid_utf8 s
      else if byte_in 0xC2 0xDF a then
        (case s of b # s' \<Rightarrow> byte_in 0x80 0xBF b \<and> valid_utf8 s' | _ \<Rightarrow> False)
      else if byte_in 0xE0 0xEF a then
        (case s of
           b # c # s' \<Rightarrow>
             byte_in (if byte_in 0xE0 0xE0 a then 0xA0 else 0x80) (if byte_in 0xED 0xED a then 0x9F else 0xBF) b
             \<and> byte_in 0x80 0xBF c \<and> valid_utf8 s'
         | _ \<Rightarrow> False)
      else if byte_in 0xF0 0xF4 a then
        (case s of
           b # c # d # s' \<Rightarrow>
             byte_in (if byte_in 0xF0 0xF0 a then 0x90 else 0x80) (if byte_in 0xF4 0xF4 a then 0x8F else 0xBF) b
             \<and> byte_in 0x80 0xBF c \<and> byte_in 0x80 0xBF d \<and> valid_utf8 s'
         | _ \<Rightarrow> False)
      else False)"

section \<open>Key pinning\<close>

text \<open>\<open>subject_spki\<close> is the raw SubjectPublicKeyInfo that \<open>x509_parser\<close> finds in a certificate.\<close>

definition verify_endpoint_key :: "(bytes \<Rightarrow> bytes option) \<Rightarrow> bytes \<Rightarrow> bytes \<Rightarrow> bool" where
  "verify_endpoint_key subject_spki peer_cert_der expected_spki_der =
     (case subject_spki peer_cert_der of None \<Rightarrow> False | Some raw \<Rightarrow> raw = expected_spki_der)"

section \<open>The two waiting loops\<close>

datatype handshake_error =
    SocketRecvFailed io_error
  | FlushFailed udp_error
  | ClosedDuringHandshake
  | ConnectTimedOut
  | H3PollFailed h3_error
  | ClosedBeforeResponse
  | LoginFailed
  | ConnectRejected string

text \<open>
  \<open>tokio::select!\<close>: a datagram (or a socket error) before the timeout, or \<open>None\<close> when the sleep
  ends first. The connection is then shown the datagram, or told that its timer fired.
\<close>

type_synonym 'w select = "nat \<Rightarrow> duration \<Rightarrow> 'w \<Rightarrow> (io_error + bytes) option \<times> 'w"

definition wait_for_quic ::
    "'w select \<Rightarrow> 'c quic \<Rightarrow> nat \<Rightarrow> 'w \<Rightarrow> 'c \<Rightarrow> (handshake_error + unit) \<times> 'w \<times> 'c" where
  "wait_for_quic select q buf_len w c =
     (let timeout = unwrap_or (q_timeout q c) (100 * 10 ^ 6)
      in (case select buf_len timeout w of
            (Some (Inr d), w') \<Rightarrow> (Inr (), w', snd (q_recv q d c))
          | (Some (Inl e), w') \<Rightarrow> (Inl (SocketRecvFailed e), w', c)
          | (None, w') \<Rightarrow> (Inr (), w', q_on_timeout q c)))"

partial_function (option) complete_quic_handshake ::
    "bool \<Rightarrow> 'w net \<Rightarrow> 'w select \<Rightarrow> 'c quic \<Rightarrow> nat \<Rightarrow> udp_batch \<Rightarrow> 'w \<Rightarrow> 'c
      \<Rightarrow> ((handshake_error + unit) \<times> udp_batch \<times> 'w \<times> 'c) option" where
  "complete_quic_handshake freebsd net select q buf_len io w c =
     (if q_is_established q c then Some (Inr (), io, w, c)
      else (case wait_for_quic select q buf_len w c of
              (Inl e, w1, c1) \<Rightarrow> Some (Inl e, io, w1, c1)
            | (Inr _, w1, c1) \<Rightarrow>
                (case flush_quic freebsd net q io w1 c1 of
                   None \<Rightarrow> None
                 | Some (Inl e, io', w2, c2) \<Rightarrow> Some (Inl (FlushFailed e), io', w2, c2)
                 | Some (Inr _, io', w2, c2) \<Rightarrow>
                     if q_is_closed q c2 then Some (Inl ClosedDuringHandshake, io', w2, c2)
                     else complete_quic_handshake freebsd net select q buf_len io' w2 c2)))"

definition validate_connect_status :: "string \<Rightarrow> handshake_error + unit" where
  "validate_connect_status status =
     (if starts_with ''2'' status then Inr ()
      else if status = ''403'' then Inl LoginFailed
      else Inl (ConnectRejected status))"

text \<open>The first \<open>:status\<close> field of a header list, as text.\<close>

definition status_text :: "header list \<Rightarrow> string option" where
  "status_text list =
     map_option (\<lambda>(_, v). if valid_utf8 v then v else ''?'') (List.find (\<lambda>(n, _). n = '':status'') list)"

text \<open>The inner loop: \<open>True\<close> when the answer was accepted, \<open>False\<close> when no event was left.\<close>

partial_function (option) poll_connect_response ::
    "'c h3 \<Rightarrow> u64 \<Rightarrow> 'c \<Rightarrow> ((handshake_error + bool) \<times> 'c) option" where
  "poll_connect_response h stream_id c =
     (case h_poll h c of
        (Inr (sid, Headers list), c') \<Rightarrow>
          (case (if sid = stream_id then status_text list else None) of
             Some status \<Rightarrow> Some (and_then (validate_connect_status status) (\<lambda>_. Inr True), c')
           | None \<Rightarrow> poll_connect_response h stream_id c')
      | (Inr _, c') \<Rightarrow> poll_connect_response h stream_id c'
      | (Inl err, c') \<Rightarrow> if err = H3Done then Some (Inr False, c') else Some (Inl (H3PollFailed err), c'))"

partial_function (option) await_connect ::
    "bool \<Rightarrow> 'w net \<Rightarrow> 'w select \<Rightarrow> 'c quic \<Rightarrow> 'c h3 \<Rightarrow> instant \<Rightarrow> u64 \<Rightarrow> nat \<Rightarrow> udp_batch \<Rightarrow> 'w \<Rightarrow> 'c
      \<Rightarrow> ((handshake_error + unit) \<times> udp_batch \<times> 'w \<times> 'c) option" where
  "await_connect freebsd net select q h deadline stream_id buf_len io w c =
     (case n_now net w of (now, w0) \<Rightarrow>
        (if deadline \<le> now then Some (Inl ConnectTimedOut, io, w0, c)
         else (case wait_for_quic select q buf_len w0 c of
                 (Inl e, w1, c1) \<Rightarrow> Some (Inl e, io, w1, c1)
               | (Inr _, w1, c1) \<Rightarrow>
                   (case poll_connect_response h stream_id c1 of
                      None \<Rightarrow> None
                    | Some (Inl e, c2) \<Rightarrow> Some (Inl e, io, w1, c2)
                    | Some (Inr accepted, c2) \<Rightarrow>
                        (if accepted then Some (Inr (), io, w1, c2)
                         else (case flush_quic freebsd net q io w1 c2 of
                                 None \<Rightarrow> None
                               | Some (Inl e, io', w2, c3) \<Rightarrow> Some (Inl (FlushFailed e), io', w2, c3)
                               | Some (Inr _, io', w2, c3) \<Rightarrow>
                                   if q_is_closed q c3 then Some (Inl ClosedBeforeResponse, io', w2, c3)
                                   else await_connect freebsd net select q h deadline stream_id buf_len io' w2 c3))))))"

definition wait_connect_response ::
    "bool \<Rightarrow> 'w net \<Rightarrow> 'w select \<Rightarrow> 'c quic \<Rightarrow> 'c h3 \<Rightarrow> u64 \<Rightarrow> nat \<Rightarrow> udp_batch \<Rightarrow> 'w \<Rightarrow> 'c
      \<Rightarrow> ((handshake_error + unit) \<times> udp_batch \<times> 'w \<times> 'c) option" where
  "wait_connect_response freebsd net select q h stream_id buf_len io w c =
     (case n_now net w of (now, w') \<Rightarrow>
        await_connect freebsd net select q h (now + 10 * 10 ^ 9) stream_id buf_len io w' c)"

section \<open>Time does not go back in a flush\<close>

lemma clock_of_calls:
  assumes "net_send_laws net wire clock stall"
  shows
    "n_now net w = (t, w') \<Longrightarrow> clock w \<le> t \<and> t \<le> clock w'"
    "clock w + d \<le> clock (n_sleep net d w)"
    "n_sendmmsg net ds w = (r, w') \<Longrightarrow> clock w \<le> clock w'"
    "n_send net b w = (u, w') \<Longrightarrow> clock w \<le> clock w'"
    "n_writable net w = (v, w') \<Longrightarrow> clock w \<le> clock w'"
proof -
  note law = net_send_call [OF assms]
  show "n_now net w = (t, w') \<Longrightarrow> clock w \<le> t \<and> t \<le> clock w'" "clock w + d \<le> clock (n_sleep net d w)"
    using law(1,2) by blast+
  show "n_sendmmsg net ds w = (r, w') \<Longrightarrow> clock w \<le> clock w'"
    using law(3,4) by (cases r) (auto simp: took_def)
  show "n_send net b w = (u, w') \<Longrightarrow> clock w \<le> clock w'"
    using law(5,6) by (cases u) (auto simp: took_def)
  show "n_writable net w = (v, w') \<Longrightarrow> clock w \<le> clock w'"
    using law(7) by (auto simp: took_def)
qed

lemma send_batch_mmsg_clock:
  assumes "send_batch_mmsg net io sent final w = Some y"
  shows "net_send_laws net wire clock stall \<longrightarrow> clock w \<le> clock (snd y)"
proof (rule send_batch_mmsg.raw_induct [OF _ assms], intro impI)
  fix f net io sent final w y
  assume IH: "\<And>io sent final w b y. f io sent final w b = Some y \<Longrightarrow>
      net_send_laws io wire clock stall \<longrightarrow> clock b \<le> clock (snd y)"
    and run: "(if sent < final then
        (case sendmmsg_nonblocking net (between sent final (tx_buffers io)) (between sent final (tx_lens io)) w of
           (Inl err, w1) \<Rightarrow>
             if err = WouldBlock then
               (case n_writable net w1 of
                  (Inl e, w2) \<Rightarrow> Some (Inl (UdpFailed e), w2)
                | (Inr x, w2) \<Rightarrow> f net io sent final w2)
             else Some (Inl (SendmmsgFailed err), w1)
         | (Inr n, w1) \<Rightarrow>
             if n = 0 then
               (case n_writable net w1 of
                  (Inl e, w2) \<Rightarrow> Some (Inl (UdpFailed e), w2)
                | (Inr x, w2) \<Rightarrow> f net io sent final w2)
             else f net io (sent + n) final w1)
      else Some (Inr (), w)) = Some y"
    and net: "net_send_laws net wire clock stall"
  note calls = clock_of_calls [OF net]
  obtain s w1 where s: "sendmmsg_nonblocking net (between sent final (tx_buffers io))
      (between sent final (tx_lens io)) w = (s, w1)"
    by fastforce
  obtain v w2 where v: "n_writable net w1 = (v, w2)"
    by fastforce
  have "clock w \<le> clock w1" "clock w1 \<le> clock w2"
    using calls(3) s calls(5) v unfolding sendmmsg_nonblocking_def by blast+
  moreover have "clock b \<le> clock (snd y)" if "f net io k final b = Some y" for k b
    using IH [OF that] net by blast
  ultimately show "clock w \<le> clock (snd y)"
    using run s v by (cases "sent < final"; cases s; cases v) (auto split: if_splits intro: order_trans)
qed

lemma send_batch_each_clock:
  "net_send_laws net wire clock stall \<Longrightarrow> clock w \<le> clock (snd (send_batch_each net ds w))"
proof (induction ds arbitrary: w)
  case (Cons d ds)
  obtain r w1 where r: "n_send net d w = (r, w1)"
    by fastforce
  then have "clock w \<le> clock w1"
    by (rule clock_of_calls(4) [OF Cons.prems])
  then show ?case
    using Cons.IH [OF Cons.prems, of w1] r by (cases r) auto
qed simp

lemma pace_clock:
  assumes net: "net_send_laws net wire clock stall" and p: "pace net start io w = (now, io', w1)"
  shows "clock w \<le> clock w1"
proof -
  note calls = clock_of_calls [OF net]
  obtain t1 v1 where v1: "n_now net w = (t1, v1)"
    by fastforce
  have steps: "clock w \<le> clock v1" "n_now net v = (t, v') \<Longrightarrow> clock v \<le> clock v'"
    "clock v \<le> clock (n_sleep net d v)" for v v' t d
    using calls(1) v1 order_trans [OF _ calls(2) [of v d]] by (blast intro: order_trans, blast intro: order_trans, simp)
  show ?thesis
  proof (cases "tx_at io ! start - t1 = 0")
    case True
    then show ?thesis
      using p v1 steps(1) steps(2) [of v1 now w1] by (auto simp: pace_def Let_def split: prod.splits)
  next
    case False
    then have "n_now net (n_sleep net (tx_at io ! start - t1) v1) = (now, w1)"
      using p v1 by (auto simp: pace_def Let_def split: prod.splits)
    from steps(2) [OF this] steps(3) [of v1 "tx_at io ! start - t1"] steps(1) show ?thesis
      by linarith
  qed
qed

lemma send_batch_clock:
  assumes "net_send_laws net wire clock stall" "send_batch freebsd net io a b v = Some (r, v')"
  shows "clock v \<le> clock v'"
  using assms send_batch_mmsg_clock [of net io a b v "(r, v')" wire clock stall] send_batch_each_clock [OF assms(1), of v]
  by (auto simp: send_batch_def split: if_splits) (metis snd_conv)

lemma send_paced_batches_clock:
  assumes "send_paced_batches freebsd net count start io w = Some y"
  shows "net_send_laws net wire clock stall \<longrightarrow> clock w \<le> clock (snd (snd y))"
proof (rule send_paced_batches.raw_induct [OF _ assms], intro impI)
  fix f freebsd net count start io w y
  assume IH: "\<And>net count start io w b y. f net count start io w b = Some y \<Longrightarrow>
      net_send_laws count wire clock stall \<longrightarrow> clock b \<le> clock (snd (snd y))"
    and run: "(if start < count then
        (case pace net start io w of
           (now, io', w1) \<Rightarrow>
             (let final = ready_end (tx_at io') count now (start + 1)
              in (case send_batch freebsd net io' start final w1 of
                    None \<Rightarrow> None
                  | Some (Inl e, w2) \<Rightarrow> Some (Inl e, io', w2)
                  | Some (Inr x, w2) \<Rightarrow> f freebsd net count final io' w2)))
      else Some (Inr (), io, w)) = Some y"
    and net: "net_send_laws net wire clock stall"
  obtain now io' w1 where p: "pace net start io w = (now, io', w1)"
    by (metis surj_pair)
  show "clock w \<le> clock (snd (snd y))"
  proof (cases "start < count")
    case True
    let ?final = "ready_end (tx_at io') count now (start + 1)"
    obtain r w2 where sent: "send_batch freebsd net io' start ?final w1 = Some (r, w2)"
      using run True p by (cases "send_batch freebsd net io' start ?final w1") (auto simp: Let_def)
    then show ?thesis
      using run True p send_batch_clock [OF net sent] pace_clock [OF net p] IH [of freebsd net count ?final io' w2 y] net
      by (cases r) (auto simp: Let_def)
  qed (use run in auto)
qed

lemma flush_quic_clock:
  assumes "flush_quic freebsd net q io w c = Some y"
  shows "net_send_laws net wire clock stall \<longrightarrow> clock w \<le> clock (fst (snd (snd y)))"
proof (rule flush_quic.raw_induct [OF _ assms], intro impI)
  fix f freebsd net q io w c y
  assume IH: "\<And>net q io w c b y. f net q io w c b = Some y \<Longrightarrow>
      net_send_laws q wire clock stall \<longrightarrow> clock c \<le> clock (fst (snd (snd y)))"
    and run: "(case fill_batch q 0 io c of
        (Inl e, io1, c1) \<Rightarrow> Some (Inl e, io1, w, c1)
      | (Inr (count, drained), io1, c1) \<Rightarrow>
          (case (if 0 < count then send_paced_batches freebsd net count 0 io1 w else Some (Inr (), io1, w)) of
             None \<Rightarrow> None
           | Some (Inl e, io2, w2) \<Rightarrow> Some (Inl e, io2, w2, c1)
           | Some (Inr x, io2, w2) \<Rightarrow>
               if drained then Some (Inr (), io2, w2, c1) else f freebsd net q io2 w2 c1)) = Some y"
    and net: "net_send_laws net wire clock stall"
  obtain r io1 c1 where fill: "fill_batch q 0 io c = (r, io1, c1)"
    by (metis surj_pair)
  show "clock w \<le> clock (fst (snd (snd y)))"
  proof (cases r)
    case (Inr p)
    obtain n drained where p: "p = (n, drained)"
      by fastforce
    let ?sent = "if 0 < n then send_paced_batches freebsd net n 0 io1 w else Some (Inr (), io1, w)"
    obtain s io2 w2 where sent: "?sent = Some (s, io2, w2)"
      using run fill Inr p by (cases ?sent) auto
    have "clock w \<le> clock w2"
      using sent send_paced_batches_clock [of freebsd net n 0 io1 w _ wire clock stall] net
      by (fastforce split: if_splits)
    then show ?thesis
      using run fill Inr p sent IH [of freebsd net q io2 w2 c1 y] net
      by (cases s) (auto split: if_splits)
  qed (use run fill in auto)
qed

text \<open>What sending leaves alone, a flush leaves alone.\<close>

lemma fill_batch_conn:
  assumes keep: "\<And>cap c. g (snd (q_send q cap c)) = g c"
  shows "g (snd (snd (fill_batch q count io c))) = g c"
  using keep
proof (induction q count io c rule: fill_batch.induct)
  case (1 q count io c)
  show ?case
  proof (cases "count < batch_size io")
    case True
    obtain r c' where call: "q_send q (length (tx_buffers io ! count)) c = (r, c')"
      by fastforce
    then have "g c' = g c"
      using "1.prems" by (metis snd_conv)
    then show ?thesis
    proof (cases r)
      case (Inl e)
      then show ?thesis
        using \<open>g c' = g c\<close> call True by (subst fill_batch.simps) (cases e; simp)
    next
      case (Inr p)
      obtain d t where "p = (d, t)"
        by fastforce
      then show ?thesis
        using \<open>g c' = g c\<close> call True Inr "1.IH" [OF True call [symmetric] Inr, of d t] "1.prems"
        by (subst fill_batch.simps) simp
    qed
  qed (subst fill_batch.simps, simp)
qed

lemma flush_quic_conn:
  assumes "flush_quic freebsd net q io w c = Some y"
  shows "(\<forall>cap c. g (snd (q_send q cap c)) = g c) \<longrightarrow> g (snd (snd (snd y))) = g c"
proof (rule flush_quic.raw_induct [OF _ assms], intro impI)
  fix f freebsd net q io w c y
  assume IH: "\<And>net q io w c b y. f net q io w c b = Some y \<Longrightarrow>
      (\<forall>cap c. g (snd (q_send io cap c)) = g c) \<longrightarrow> g (snd (snd (snd y))) = g b"
    and run: "(case fill_batch q 0 io c of
        (Inl e, io1, c1) \<Rightarrow> Some (Inl e, io1, w, c1)
      | (Inr (count, drained), io1, c1) \<Rightarrow>
          (case (if 0 < count then send_paced_batches freebsd net count 0 io1 w else Some (Inr (), io1, w)) of
             None \<Rightarrow> None
           | Some (Inl e, io2, w2) \<Rightarrow> Some (Inl e, io2, w2, c1)
           | Some (Inr x, io2, w2) \<Rightarrow>
               if drained then Some (Inr (), io2, w2, c1) else f freebsd net q io2 w2 c1)) = Some y"
    and keep: "\<forall>cap c. g (snd (q_send q cap c)) = g c"
  obtain r io1 c1 where fill: "fill_batch q 0 io c = (r, io1, c1)"
    by (metis surj_pair)
  have c1: "g c1 = g c"
    using fill_batch_conn [of g q 0 io c] keep fill by simp
  show "g (snd (snd (snd y))) = g c"
  proof (cases r)
    case (Inr p)
    obtain n drained where p: "p = (n, drained)"
      by fastforce
    let ?sent = "if 0 < n then send_paced_batches freebsd net n 0 io1 w else Some (Inr (), io1, w)"
    obtain s io2 w2 where sent: "?sent = Some (s, io2, w2)"
      using run fill Inr p by (cases ?sent) auto
    then show ?thesis
      using run fill Inr p IH [of freebsd net q io2 w2 c1 y] keep c1
      by (cases s) (auto split: if_splits)
  qed (use run fill c1 in auto)
qed

section \<open>What the waits rely on\<close>

text \<open>
  A wait takes time, all of the timeout when it ends without a datagram. \<open>h3_events\<close> are the events
  ready to be polled and \<open>polled\<close> those handed out so far; only \<open>h_poll\<close> hands one out.
\<close>

definition select_laws :: "'w select \<Rightarrow> ('w \<Rightarrow> instant) \<Rightarrow> bool" where
  "select_laws select clock \<longleftrightarrow>
     (\<forall>cap d w r w'. select cap d w = (r, w') \<longrightarrow>
        clock w < clock w' \<and> (r = None \<longrightarrow> clock w + d \<le> clock w'))"

definition h3_poll_laws ::
    "'c quic \<Rightarrow> 'c h3 \<Rightarrow> ('c \<Rightarrow> (u64 \<times> h3_event) list) \<Rightarrow> ('c \<Rightarrow> (u64 \<times> h3_event) list) \<Rightarrow> bool" where
  "h3_poll_laws q h h3_events polled \<longleftrightarrow>
     (\<forall>c r c'. h_poll h c = (r, c') \<longrightarrow>
        (case r of Inr e \<Rightarrow> h3_events c = e # h3_events c' \<and> polled c' = polled c @ [e]
         | Inl _ \<Rightarrow> polled c' = polled c))
     \<and> (\<forall>d c. polled (snd (q_recv q d c)) = polled c)
     \<and> (\<forall>c. polled (q_on_timeout q c) = polled c)
     \<and> (\<forall>cap c. polled (snd (q_send q cap c)) = polled c)"

section \<open>The answer to the CONNECT request\<close>

text \<open>
  The answer among the events polled: the first \<open>:status\<close> of a header list on the request stream.
\<close>

definition event_status :: "u64 \<Rightarrow> u64 \<times> h3_event \<Rightarrow> string option" where
  "event_status stream_id e =
     (case e of
        (sid, Headers list) \<Rightarrow> if sid = stream_id then status_text list else None
      | _ \<Rightarrow> None)"

fun connect_answer :: "u64 \<Rightarrow> (u64 \<times> h3_event) list \<Rightarrow> string option" where
  "connect_answer stream_id [] = None"
| "connect_answer stream_id (e # es) =
     (case event_status stream_id e of Some status \<Rightarrow> Some status | None \<Rightarrow> connect_answer stream_id es)"

lemma connect_answer_append:
  "connect_answer stream_id (es @ fs) =
     (case connect_answer stream_id es of Some status \<Rightarrow> Some status | None \<Rightarrow> connect_answer stream_id fs)"
  by (induction es) (auto split: option.split)

text \<open>The verdict \<open>r\<close> on a run of events: that of the answer, which is the last of them, if there is one.\<close>

definition answered :: "u64 \<Rightarrow> (u64 \<times> h3_event) list \<Rightarrow> handshake_error + unit \<Rightarrow> bool" where
  "answered stream_id es r \<longleftrightarrow>
     (case connect_answer stream_id es of
        Some status \<Rightarrow> r = validate_connect_status status \<and> connect_answer stream_id (butlast es) = None
      | None \<Rightarrow> r \<noteq> Inr () \<and> r \<noteq> Inl LoginFailed \<and> (\<forall>s. r \<noteq> Inl (ConnectRejected s)))"

lemma answered_later:
  "connect_answer stream_id es = None \<Longrightarrow> answered stream_id fs r \<Longrightarrow> answered stream_id (es @ fs) r"
  by (cases "fs = []") (auto simp: answered_def connect_answer_append butlast_append split: option.splits)

lemma poll_connect_response_step:
  assumes "h_poll h c = (Inr e, c1)"
  shows "poll_connect_response h stream_id c =
    (case event_status stream_id e of
       Some status \<Rightarrow> Some (and_then (validate_connect_status status) (\<lambda>_. Inr True), c1)
     | None \<Rightarrow> poll_connect_response h stream_id c1)"
proof -
  obtain sid ev where "e = (sid, ev)"
    by fastforce
  then show ?thesis
    using assms
    by (subst poll_connect_response.simps) (cases ev; simp add: event_status_def)
qed

lemma poll_connect_response_outcome:
  assumes laws: "h3_poll_laws q h h3_events polled"
  shows "\<exists>r c' es. poll_connect_response h stream_id c = Some (r, c') \<and> polled c' = polled c @ es
    \<and> (case connect_answer stream_id es of
         Some status \<Rightarrow> r = and_then (validate_connect_status status) (\<lambda>_. Inr True)
           \<and> connect_answer stream_id (butlast es) = None
       | None \<Rightarrow> r = Inr False \<or> (\<exists>e. r = Inl (H3PollFailed e)))"
proof (induction "length (h3_events c)" arbitrary: c rule: less_induct)
  case less
  obtain a c1 where poll: "h_poll h c = (a, c1)"
    by fastforce
  have law: "case a of Inr e \<Rightarrow> h3_events c = e # h3_events c1 \<and> polled c1 = polled c @ [e]
      | Inl _ \<Rightarrow> polled c1 = polled c"
    using laws poll unfolding h3_poll_laws_def by blast
  show ?case
  proof (cases a)
    case (Inl err)
    then show ?thesis
      using poll law by (subst poll_connect_response.simps) (auto intro!: exI [of _ "[]"])
  next
    case (Inr e)
    note step = poll_connect_response_step [OF poll [unfolded Inr]]
    show ?thesis
    proof (cases "event_status stream_id e")
      case (Some status)
      then show ?thesis
        using law Inr step by (intro exI [of _ "and_then (validate_connect_status status) (\<lambda>_. Inr True)"]
            exI [of _ c1] exI [of _ "[e]"]) simp
    next
      case None
      from less.hyps [of c1] law Inr obtain r c' es where
        "poll_connect_response h stream_id c1 = Some (r, c')" "polled c' = polled c1 @ es"
        "case connect_answer stream_id es of
           Some status \<Rightarrow> r = and_then (validate_connect_status status) (\<lambda>_. Inr True)
             \<and> connect_answer stream_id (butlast es) = None
         | None \<Rightarrow> r = Inr False \<or> (\<exists>e. r = Inl (H3PollFailed e))"
        by auto
      then show ?thesis
        using law Inr step None
        by (intro exI [of _ r] exI [of _ c'] exI [of _ "e # es"]) (auto split: option.splits)
    qed
  qed
qed

lemma wait_for_quic_frame:
  assumes "select_laws select clock" "h3_poll_laws q h h3_events polled"
    and "wait_for_quic select q buf_len w c = (r, w', c')"
  shows "clock w < clock w'" "polled c' = polled c" "r \<noteq> Inr () \<Longrightarrow> \<exists>e. r = Inl (SocketRecvFailed e)"
proof -
  obtain s w1 where s: "select buf_len (unwrap_or (q_timeout q c) (100 * 10 ^ 6)) w = (s, w1)"
    by fastforce
  have "clock w < clock w1"
    using assms(1) s unfolding select_laws_def by blast
  moreover have "w' = w1"
    using s assms(3) by (auto simp: wait_for_quic_def Let_def split: option.splits sum.splits)
  moreover have "c' = c \<or> (\<exists>d. c' = snd (q_recv q d c)) \<or> c' = q_on_timeout q c"
    using s assms(3) by (auto simp: wait_for_quic_def Let_def split: option.splits sum.splits)
  ultimately show "clock w < clock w'" "polled c' = polled c"
    using assms(2) unfolding h3_poll_laws_def by auto
  show "r \<noteq> Inr () \<Longrightarrow> \<exists>e. r = Inl (SocketRecvFailed e)"
    using s assms(3) by (auto simp: wait_for_quic_def Let_def split: option.splits sum.splits)
qed

text \<open>What polling found: the verdict of the answer, or none yet.\<close>

definition poll_verdict :: "u64 \<Rightarrow> (u64 \<times> h3_event) list \<Rightarrow> handshake_error + bool \<Rightarrow> bool" where
  "poll_verdict stream_id es r \<longleftrightarrow>
     (case connect_answer stream_id es of
        Some status \<Rightarrow> r = and_then (validate_connect_status status) (\<lambda>_. Inr True)
          \<and> connect_answer stream_id (butlast es) = None
      | None \<Rightarrow> r = Inr False \<or> (\<exists>e. r = Inl (H3PollFailed e)))"

lemma poll_verdict_stops: "poll_verdict stream_id es r \<Longrightarrow> r \<noteq> Inr False \<Longrightarrow> answered stream_id es (and_then r (\<lambda>_. Inr ()))"
  by (auto simp: poll_verdict_def answered_def and_then_def validate_connect_status_def split: option.splits)

lemma poll_verdict_none: "poll_verdict stream_id es (Inr False) \<Longrightarrow> connect_answer stream_id es = None"
  by (cases "connect_answer stream_id es") (auto simp: poll_verdict_def validate_connect_status_def split: if_splits)

text \<open>A turn that found no answer flushes, and ends when that fails or the connection is closed.\<close>

lemma await_connect_flush:
  assumes net: "net_send_laws net wire clock stall" and send: "quic_send_laws q pending"
    and h3: "h3_poll_laws q h h3_events polled" and wf: "batch_wf D io"
    and now: "n_now net w = (now, w0)" "now < deadline"
    and wait: "wait_for_quic select q buf_len w0 c = (Inr (), w1, c1)"
    and poll: "poll_connect_response h stream_id c1 = Some (Inr False, c2)" "connect_answer stream_id es = None"
  obtains (stops) e io' w' c' where
      "await_connect freebsd net select q h deadline stream_id buf_len io w c = Some (Inl e, io', w', c')"
      "batch_wf D io'" "polled c' = polled c2" "answered stream_id es (Inl e)" "clock w1 \<le> clock w'"
  | (goes_on) io' w' c' where
      "await_connect freebsd net select q h deadline stream_id buf_len io w c
        = await_connect freebsd net select q h deadline stream_id buf_len io' w' c'"
      "batch_wf D io'" "polled c' = polled c2" "clock w1 \<le> clock w'"
proof -
  obtain r3 io' w2 c3 where flush: "flush_quic freebsd net q io w1 c2 = Some (r3, io', w2, c3)" "batch_wf D io'"
    using flush_quic_delivers [OF net send wf, of freebsd w1 c2] by blast
  have clock: "clock w1 \<le> clock w2"
    using flush_quic_clock [OF flush(1), of wire clock stall] net by simp
  have polled: "polled c3 = polled c2"
    using flush_quic_conn [OF flush(1), of polled] h3 unfolding h3_poll_laws_def by simp
  have run: "await_connect freebsd net select q h deadline stream_id buf_len io w c =
      (case r3 of
         Inl e \<Rightarrow> Some (Inl (FlushFailed e), io', w2, c3)
       | Inr _ \<Rightarrow> if q_is_closed q c3 then Some (Inl ClosedBeforeResponse, io', w2, c3)
           else await_connect freebsd net select q h deadline stream_id buf_len io' w2 c3)"
    using now wait poll(1) flush(1)
    by (subst await_connect.simps) (simp split: sum.split)
  have failed: "answered stream_id es (Inl (FlushFailed e))" "answered stream_id es (Inl ClosedBeforeResponse)" for e
    using poll(2) by (simp_all add: answered_def)
  show thesis
  proof (cases "is_ok r3 \<and> \<not> q_is_closed q c3")
    case True
    with run have "await_connect freebsd net select q h deadline stream_id buf_len io w c
        = await_connect freebsd net select q h deadline stream_id buf_len io' w2 c3"
      by (auto simp: is_ok_iff)
    then show thesis
      using flush(2) polled clock by (rule goes_on)
  next
    case False
    with run obtain e where "await_connect freebsd net select q h deadline stream_id buf_len io w c = Some (Inl e, io', w2, c3)"
      "answered stream_id es (Inl e)"
      using failed by (cases r3) auto
    then show thesis
      using flush(2) polled clock by (auto intro: stops)
  qed
qed

lemma await_connect_turn:
  assumes net: "net_send_laws net wire clock stall" and send: "quic_send_laws q pending"
    and sel: "select_laws select clock" and h3: "h3_poll_laws q h h3_events polled" and wf: "batch_wf D io"
    and now: "n_now net w = (now, w0)" "now < deadline"
    and wait: "wait_for_quic select q buf_len w0 c = (r1, w1, c1)"
  obtains (stops) r io' w' c' es where
      "await_connect freebsd net select q h deadline stream_id buf_len io w c = Some (r, io', w', c')"
      "batch_wf D io'" "polled c' = polled c @ es" "answered stream_id es r" "clock w1 \<le> clock w'"
  | (goes_on) io' w' c' es where
      "await_connect freebsd net select q h deadline stream_id buf_len io w c
        = await_connect freebsd net select q h deadline stream_id buf_len io' w' c'"
      "batch_wf D io'" "polled c' = polled c @ es" "connect_answer stream_id es = None" "clock w1 \<le> clock w'"
proof -
  note waited = wait_for_quic_frame [OF sel h3 wait]
  obtain r2 c2 es where poll: "poll_connect_response h stream_id c1 = Some (r2, c2)" "polled c2 = polled c1 @ es"
    and verdict: "poll_verdict stream_id es r2"
    using poll_connect_response_outcome [OF h3] unfolding poll_verdict_def by blast
  show thesis
  proof (cases "r1 = Inr ()")
    case False
    then have "await_connect freebsd net select q h deadline stream_id buf_len io w c = Some (r1, io, w1, c1)"
      using now wait by (subst await_connect.simps) (cases r1; simp)
    moreover have "answered stream_id [] r1"
      using waited(3) [OF False] by (auto simp: answered_def)
    ultimately show thesis
      using wf waited(2) stops [where es = "[]"] by simp
  next
    case ok: True
    show thesis
    proof (cases "r2 = Inr False")
      case False
      then have "await_connect freebsd net select q h deadline stream_id buf_len io w c
          = Some (and_then r2 (\<lambda>_. Inr ()), io, w1, c2)"
        using now wait ok poll(1) by (subst await_connect.simps) (cases r2; auto)
      then show thesis
        using poll_verdict_stops [OF verdict False] wf waited(2) poll(2) stops by simp
    next
      case True
      with verdict have no_answer: "connect_answer stream_id es = None"
        by (simp add: poll_verdict_none)
      have "polled c2 = polled c @ es"
        using poll(2) waited(2) by simp
      then show thesis
        using await_connect_flush [OF net send h3 wf now wait [unfolded ok] poll(1) [unfolded True] no_answer]
          stops goes_on no_answer by metis
    qed
  qed
qed

lemma await_connect_outcome:
  assumes net: "net_send_laws net wire clock stall" and send: "quic_send_laws q pending"
    and sel: "select_laws select clock" and h3: "h3_poll_laws q h h3_events polled"
  shows "batch_wf D io \<Longrightarrow>
    \<exists>r io' w' c' es. await_connect freebsd net select q h deadline stream_id buf_len io w c = Some (r, io', w', c')
      \<and> batch_wf D io' \<and> polled c' = polled c @ es \<and> answered stream_id es r
      \<and> clock w \<le> clock w'
      \<and> (\<forall>now w0. n_now net w = (now, w0) \<and> now < deadline
           \<longrightarrow> clock (fst (snd (wait_for_quic select q buf_len w0 c))) \<le> clock w')"
proof (induction "deadline - clock w" arbitrary: io w c rule: less_induct)
  case less
  obtain now w0 where now: "n_now net w = (now, w0)"
    by fastforce
  have w0: "clock w \<le> now" "now \<le> clock w0"
    using clock_of_calls(1) [OF net now] by simp_all
  show ?case
  proof (cases "deadline \<le> now")
    case True
    then have "await_connect freebsd net select q h deadline stream_id buf_len io w c = Some (Inl ConnectTimedOut, io, w0, c)"
      using now by (subst await_connect.simps) simp
    then show ?thesis
      using True less.prems now w0 by (auto simp: answered_def intro!: exI [of _ "[]"])
  next
    case False
    obtain r1 w1 c1 where wait: "wait_for_quic select q buf_len w0 c = (r1, w1, c1)"
      by (metis surj_pair)
    have waited: "clock w0 < clock w1"
      using wait_for_quic_frame(1) [OF sel h3 wait] .
    show ?thesis
    proof (rule await_connect_turn [OF net send sel h3 less.prems now _ wait])
      show "now < deadline"
        using False by simp
    next
      fix r io' w' c' es
      assume "await_connect freebsd net select q h deadline stream_id buf_len io w c = Some (r, io', w', c')"
        "batch_wf D io'" "polled c' = polled c @ es" "answered stream_id es r" "clock w1 \<le> clock w'"
      then show ?thesis
        using w0 waited now wait by auto
    next
      fix io' w' c' es
      assume turn: "await_connect freebsd net select q h deadline stream_id buf_len io w c
          = await_connect freebsd net select q h deadline stream_id buf_len io' w' c'"
        "batch_wf D io'" "polled c' = polled c @ es" "connect_answer stream_id es = None" "clock w1 \<le> clock w'"
      have "deadline - clock w' < deadline - clock w"
        using False w0 waited turn(5) by simp
      from less.hyps [OF this turn(2), of c'] show ?thesis
        using turn w0 waited now wait answered_later [OF turn(4)] by fastforce
    qed
  qed
qed

lemma wait_connect_response_outcome:
  assumes net: "net_send_laws net wire clock stall" and laws: "quic_send_laws q pending"
    "select_laws select clock" "h3_poll_laws q h h3_events polled" "batch_wf D io"
  shows "\<exists>r io' w' c' es. wait_connect_response freebsd net select q h stream_id buf_len io w c = Some (r, io', w', c')
    \<and> batch_wf D io' \<and> polled c' = polled c @ es \<and> answered stream_id es r
    \<and> (\<forall>T. q_timeout q c = Some T \<and> (\<forall>w. \<exists>w'. select buf_len T w = (None, w'))
           \<and> (\<forall>w. clock (snd (n_now net w)) = clock w) \<longrightarrow> clock w + T \<le> clock w')"
proof -
  obtain t w1 where t: "n_now net w = (t, w1)"
    by fastforce
  obtain now w0 where now: "n_now net w1 = (now, w0)"
    by fastforce
  let ?run = "await_connect freebsd net select q h (t + 10 * 10 ^ 9) stream_id buf_len io w1 c"
  obtain r io' w' c' es where run: "?run = Some (r, io', w', c')" "batch_wf D io'" "polled c' = polled c @ es"
    "answered stream_id es r"
    and waited: "\<forall>now w0. n_now net w1 = (now, w0) \<and> now < t + 10 * 10 ^ 9
           \<longrightarrow> clock (fst (snd (wait_for_quic select q buf_len w0 c))) \<le> clock w'"
    using await_connect_outcome [OF net laws] by blast
  have "clock w + T \<le> clock w'" if T: "q_timeout q c = Some T" "\<forall>w. \<exists>w'. select buf_len T w = (None, w')"
    "\<forall>w. clock (snd (n_now net w)) = clock w" for T
  proof -
    obtain w2 where w2: "select buf_len T w0 = (None, w2)"
      using T(2) by blast
    have "clock w0 + T \<le> clock w2"
      using laws(2) w2 unfolding select_laws_def by blast
    moreover have "wait_for_quic select q buf_len w0 c = (Inr (), w2, q_on_timeout q c)"
      using T(1) w2 by (simp add: wait_for_quic_def)
    moreover have "clock w1 = clock w" "clock w0 = clock w1"
      using T(3) t now by (metis snd_conv)+
    moreover note clock_of_calls(1) [OF net t] clock_of_calls(1) [OF net now]
    ultimately show ?thesis
      using waited now by fastforce
  qed
  then show ?thesis
    using t run by (auto simp: wait_connect_response_def)
qed

section \<open>The handshake\<close>

text \<open>A turn waits and flushes; it ends the handshake or leaves the connection open, some time later.\<close>

lemma complete_quic_handshake_turn:
  assumes net: "net_send_laws net wire clock stall" and send: "quic_send_laws q pending"
    and sel: "select_laws select clock" and wf: "batch_wf D io" and new: "\<not> q_is_established q c"
  obtains (stops) e io' w' c' where
      "complete_quic_handshake freebsd net select q buf_len io w c = Some (Inl e, io', w', c')" "batch_wf D io'"
  | (goes_on) w1 c1 io' w' c' where
      "complete_quic_handshake freebsd net select q buf_len io w c
        = complete_quic_handshake freebsd net select q buf_len io' w' c'"
      "batch_wf D io'" "\<not> q_is_closed q c'" "clock w < clock w'"
      "wait_for_quic select q buf_len w c = (Inr (), w1, c1)"
      "flush_quic freebsd net q io w1 c1 = Some (Inr (), io', w', c')"
proof -
  obtain r1 w1 c1 where wait: "wait_for_quic select q buf_len w c = (r1, w1, c1)"
    by (metis surj_pair)
  obtain s w2 where s: "select buf_len (unwrap_or (q_timeout q c) (100 * 10 ^ 6)) w = (s, w2)"
    by fastforce
  then have "w1 = w2"
    using wait by (auto simp: wait_for_quic_def Let_def split: option.splits sum.splits)
  then have waited: "clock w < clock w1"
    using sel s unfolding select_laws_def by blast
  obtain r2 io' w' c' where flush: "flush_quic freebsd net q io w1 c1 = Some (r2, io', w', c')" "batch_wf D io'"
    using flush_quic_delivers [OF net send wf, of freebsd w1 c1] by blast
  have clock: "clock w1 \<le> clock w'"
    using flush_quic_clock [OF flush(1), of wire clock stall] net by simp
  have run: "complete_quic_handshake freebsd net select q buf_len io w c =
      (case r1 of
         Inl e \<Rightarrow> Some (Inl e, io, w1, c1)
       | Inr _ \<Rightarrow>
           (case r2 of
              Inl e \<Rightarrow> Some (Inl (FlushFailed e), io', w', c')
            | Inr _ \<Rightarrow> if q_is_closed q c' then Some (Inl ClosedDuringHandshake, io', w', c')
                else complete_quic_handshake freebsd net select q buf_len io' w' c'))"
    using new wait flush(1) by (subst complete_quic_handshake.simps) (simp split: sum.split)
  show thesis
  proof (cases "r1 = Inr () \<and> r2 = Inr () \<and> \<not> q_is_closed q c'")
    case True
    then show thesis
      using goes_on [OF _ flush(2)] run wait flush(1) waited clock by simp
  next
    case False
    then show thesis
      using run stops flush(2) wf by (cases r1; cases r2) auto
  qed
qed

text \<open>
  The loop has no deadline of its own: what ends it is that QUIC gives a handshake up, so that past
  some time a connection is established or closed.
\<close>

lemma complete_quic_handshake_outcome:
  assumes net: "net_send_laws net wire clock stall" and send: "quic_send_laws q pending"
    and sel: "select_laws select clock"
    and gives_up: "\<And>w c. limit \<le> clock w \<Longrightarrow> reaches w c \<Longrightarrow> q_is_established q c \<or> q_is_closed q c"
    and reaches: "\<And>io w c io' w' c' r u. reaches w c \<Longrightarrow> wait_for_quic select q buf_len w c = (Inr (), w', c') \<Longrightarrow>
      flush_quic freebsd net q io w' c' = Some (r, io', u) \<Longrightarrow> reaches (fst u) (snd u)"
  shows "batch_wf D io \<Longrightarrow> reaches w c \<Longrightarrow>
    \<exists>r io' w' c'. complete_quic_handshake freebsd net select q buf_len io w c = Some (r, io', w', c')
      \<and> batch_wf D io' \<and> (r = Inr () \<longrightarrow> q_is_established q c')"
proof (induction "limit - clock w" arbitrary: io w c rule: less_induct)
  case less
  have done_at_once: ?case if "q_is_established q c"
    using that less.prems by (subst complete_quic_handshake.simps) auto
  show ?case
  proof (cases "q_is_established q c")
    case False
    then show ?thesis
    proof (rule complete_quic_handshake_turn [OF net send sel less.prems(1), of c freebsd buf_len w])
      fix w1 c1 io' w' c'
      assume turn: "complete_quic_handshake freebsd net select q buf_len io w c
          = complete_quic_handshake freebsd net select q buf_len io' w' c'" "batch_wf D io'"
        and open_conn: "\<not> q_is_closed q c'" and later: "clock w < clock w'"
        and step: "wait_for_quic select q buf_len w c = (Inr (), w1, c1)"
          "flush_quic freebsd net q io w1 c1 = Some (Inr (), io', w', c')"
      have there: "reaches w' c'"
        using reaches [OF less.prems(2) step] by simp
      show ?thesis
      proof (cases "q_is_established q c'")
        case True
        then show ?thesis
          unfolding turn(1) using turn(2) by (subst complete_quic_handshake.simps) simp
      next
        case False
        then have "clock w' < limit"
          using gives_up [OF _ there] open_conn by (cases "limit \<le> clock w'") auto
        then have "limit - clock w' < limit - clock w"
          using later by simp
        from less.hyps [OF this turn(2) there] show ?thesis
          unfolding turn(1) .
      qed
    qed auto
  qed (rule done_at_once)
qed

section \<open>Samples\<close>

text \<open>A connection that has events ready, times out after a minute of silence and then is closed.\<close>

record sample_hs =
  hs_events :: "(u64 \<times> h3_event) list"
  hs_polled :: "(u64 \<times> h3_event) list"
  hs_closed :: bool

definition sample_hs_quic :: "sample_hs quic" where
  "sample_hs_quic =
     \<lparr>q_send = (\<lambda>cap c. (Inl QuicDone, c)), q_recv = (\<lambda>d c. (Inr (length d), c)),
      q_timeout = (\<lambda>c. Some (60 * 10 ^ 9)), q_on_timeout = (\<lambda>c. c\<lparr>hs_closed := True\<rparr>),
      q_is_established = (\<lambda>c. True), q_is_closed = hs_closed, q_pmtu = (\<lambda>c. None),
      q_revalidate_pmtu = (\<lambda>c. c), q_send_ack_eliciting = (\<lambda>c. (Inr (), c)),
      q_dgram_max_writable_len = (\<lambda>c. None), q_is_dgram_send_queue_full = (\<lambda>c. False),
      q_dgram_send = (\<lambda>d c. (Inr (), c)), q_dgram_recv = (\<lambda>c. (Inl QuicDone, c))\<rparr>"

definition sample_hs_h3 :: "sample_hs h3" where
  "sample_hs_h3 =
     \<lparr>h_poll = (\<lambda>c. case hs_events c of
          [] \<Rightarrow> (Inl H3Done, c)
        | e # es \<Rightarrow> (Inr e, c\<lparr>hs_events := es, hs_polled := hs_polled c @ [e]\<rparr>)),
      h_recv_body = (\<lambda>sid n c. (Inr 0, c)), h_send_request = (\<lambda>hs fin c. (Inr 0, c)),
      h_send_body = (\<lambda>sid b fin c. (Inr (length b), c))\<rparr>"

definition silent_select :: "sample_world select" where
  "silent_select cap d w = (None, w\<lparr>sw_clock := sw_clock w + max 1 d\<rparr>)"

lemma sample_hs_laws:
  "quic_send_laws sample_hs_quic (\<lambda>_. 0)"
  "h3_poll_laws sample_hs_quic sample_hs_h3 hs_events hs_polled"
  "select_laws silent_select sw_clock"
  by (auto simp: quic_send_laws_def h3_poll_laws_def select_laws_def sample_hs_quic_def sample_hs_h3_def
      silent_select_def split: list.splits)

section \<open>Properties\<close>

text \<open>
  C20. \<open>wait_connect_response\<close> returns, and its verdict is that of the peer's answer: it accepts
  exactly when the first \<open>:status\<close> of a header list on the request's own stream starts with \<open>2\<close>,
  reports a 403 as a failed login and any other status as that rejection, and polls nothing after
  the answer; without an answer it fails with none of these.
\<close>

theorem wait_connect_response_verdict:
  assumes "net_send_laws net wire clock stall" "quic_send_laws q pending"
    "select_laws select clock" "h3_poll_laws q h h3_events polled" "batch_wf D io"
  shows "\<exists>r io' w' c' es. wait_connect_response freebsd net select q h stream_id buf_len io w c = Some (r, io', w', c')
    \<and> polled c' = polled c @ es
    \<and> (case connect_answer stream_id es of
         Some status \<Rightarrow>
           r = (if starts_with ''2'' status then Inr () else if status = ''403'' then Inl LoginFailed
                else Inl (ConnectRejected status))
           \<and> connect_answer stream_id (butlast es) = None
       | None \<Rightarrow> r \<noteq> Inr () \<and> r \<noteq> Inl LoginFailed \<and> (\<forall>s. r \<noteq> Inl (ConnectRejected s)))"
  using wait_connect_response_outcome [OF assms]
  unfolding answered_def validate_connect_status_def by blast

corollary wait_connect_response_verdict_witness:
  "\<exists>r io' w' c'. wait_connect_response True sample_net silent_select sample_hs_quic sample_hs_h3 0 65535
      (new_udp_batch 1500 2 0) \<lparr>sw_clock = 5, sw_wire = [], sw_blocked = 0, sw_inbox = []\<rparr>
      \<lparr>hs_events = [(4, Headers [('':status'', ''200'')]), (0, Headers [('':status'', ''403'')])],
       hs_polled = [], hs_closed = False\<rparr> = Some (r, io', w', c')"
proof -
  have "batch_wf 1500 (new_udp_batch 1500 2 0)"
    using new_udp_batch_wf [of 1500 2 0] by simp
  then show ?thesis
    using wait_connect_response_verdict [OF sample_laws(2) sample_hs_laws(1,3,2)] by blast
qed

text \<open>
  C37. The ten seconds are not a bound on the wait: the clock is only read between two waits, and a
  wait lasts as long as the connection's own timer. Whatever that timer is, a silent peer holds
  \<open>wait_connect_response\<close> for all of it (the clock reads themselves taken as instantaneous).
\<close>

theorem connect_wait_overruns:
  assumes "net_send_laws net wire clock stall" "quic_send_laws q pending"
    "select_laws select clock" "h3_poll_laws q h h3_events polled" "batch_wf D io"
    and "q_timeout q c = Some T" "\<And>w. \<exists>w'. select buf_len T w = (None, w')"
    and "\<And>w. clock (snd (n_now net w)) = clock w"
  shows "\<exists>r io' w' c'. wait_connect_response freebsd net select q h stream_id buf_len io w c = Some (r, io', w', c')
    \<and> clock w + T \<le> clock w'"
  using wait_connect_response_outcome [OF assms(1-5)] assms(6-8) by blast

corollary connect_wait_overruns_witness:
  "\<exists>r io' w' c'. wait_connect_response True sample_net silent_select sample_hs_quic sample_hs_h3 0 65535
      (new_udp_batch 1500 2 0) \<lparr>sw_clock = 5, sw_wire = [], sw_blocked = 0, sw_inbox = []\<rparr>
      \<lparr>hs_events = [], hs_polled = [], hs_closed = False\<rparr> = Some (r, io', w', c')
    \<and> 60 * 10 ^ 9 \<le> sw_clock w'"
proof -
  have wf: "batch_wf 1500 (new_udp_batch 1500 2 0)"
    using new_udp_batch_wf [of 1500 2 0] by simp
  have T: "q_timeout sample_hs_quic c = Some (60 * 10 ^ 9)" for c
    by (simp add: sample_hs_quic_def)
  have silent: "\<exists>w'. silent_select n d w = (None, w')" for n d w
    by (simp add: silent_select_def)
  have now: "sw_clock (snd (n_now sample_net w)) = sw_clock w" for w
    by (simp add: sample_net_def)
  obtain r io' w' c' where "wait_connect_response True sample_net silent_select sample_hs_quic sample_hs_h3 0 65535
      (new_udp_batch 1500 2 0) \<lparr>sw_clock = 5, sw_wire = [], sw_blocked = 0, sw_inbox = []\<rparr>
      \<lparr>hs_events = [], hs_polled = [], hs_closed = False\<rparr> = Some (r, io', w', c')"
    "sw_clock \<lparr>sw_clock = 5, sw_wire = [], sw_blocked = 0, sw_inbox = []\<rparr> + 60 * 10 ^ 9 \<le> sw_clock w'"
    using connect_wait_overruns [OF sample_laws(2) sample_hs_laws(1,3,2) wf T silent now] by blast
  then show ?thesis
    by fastforce
qed

end
