(* ===== verification/Send_One.thy ===== *)
theory Send_One
  imports Tx_Path Handshake
begin

text \<open>
  \<open>send_packet_datagram\<close> of \<open>api/masque.rs\<close>: one packet, the Mesh activation probe or the packet
  that woke an idle tunnel up, through a connection whose DATAGRAM queue may be full. The mutable
  objects it is handed are the fields of \<open>link\<close>.
\<close>

record ('w, 'c, 'd) link =
  lk_net :: 'w
  lk_conn :: 'c
  lk_io :: udp_batch
  lk_stats :: stats
  lk_tun :: "'d tun_device"

datatype session_error =
    HandshakeError handshake_error
  | UdpError udp_error
  | SocketError io_error
  | ClosedWhileQueueing

definition session_wait ::
    "'w select \<Rightarrow> nat \<Rightarrow> duration \<Rightarrow> 'c quic \<Rightarrow> 'w \<Rightarrow> 'c \<Rightarrow> (session_error + unit) \<times> 'w \<times> 'c" where
  "session_wait select buf_len wait q w c =
     (case select buf_len wait w of
        (Some (Inr d), w') \<Rightarrow> (Inr (), w', snd (q_recv q d c))
      | (Some (Inl e), w') \<Rightarrow> (Inl (SocketError e), w', c)
      | (None, w') \<Rightarrow> (Inr (), w', q_on_timeout q c))"

text \<open>\<open>for attempt in 0..512\<close>, with the attempts left as the first number.\<close>

fun offer_datagram ::
    "bool \<Rightarrow> 'w net \<Rightarrow> 'w select \<Rightarrow> 'c quic \<Rightarrow> nat \<Rightarrow> nat \<Rightarrow> bytes \<Rightarrow> nat \<Rightarrow> ('w, 'c, 'd) link
      \<Rightarrow> ((session_error + bool) \<times> ('w, 'c, 'd) link) option" where
  "offer_datagram freebsd net select q buf_len 0 dgram pkt_len st =
     Some (Inr False, st\<lparr>lk_stats := count_dropped (lk_stats st)\<rparr>)"
| "offer_datagram freebsd net select q buf_len (Suc left) dgram pkt_len st =
     (if \<not> q_is_dgram_send_queue_full q (lk_conn st) then
        (case q_dgram_send q dgram (lk_conn st) of
           (Inr _, c) \<Rightarrow> Some (Inr True, st\<lparr>lk_conn := c, lk_stats := count_sent pkt_len (lk_stats st)\<rparr>)
         | (Inl e, c) \<Rightarrow> Some (Inr False, st\<lparr>lk_conn := c, lk_stats := count_dropped (lk_stats st)\<rparr>))
      else
        (case flush_quic freebsd net q (lk_io st) (lk_net st) (lk_conn st) of
           None \<Rightarrow> None
         | Some (Inl e, io, w, c) \<Rightarrow> Some (Inl (UdpError e), st\<lparr>lk_net := w, lk_conn := c, lk_io := io\<rparr>)
         | Some (Inr _, io, w, c) \<Rightarrow>
             (case drain_quic freebsd net q 0 io w c of
                None \<Rightarrow> None
              | Some (Inl e, io, w, c) \<Rightarrow> Some (Inl (UdpError e), st\<lparr>lk_net := w, lk_conn := c, lk_io := io\<rparr>)
              | Some (Inr _, io, w, c) \<Rightarrow>
                  (if q_is_closed q c then
                     Some (Inl ClosedWhileQueueing, st\<lparr>lk_net := w, lk_conn := c, lk_io := io\<rparr>)
                   else
                     (let wait = min (unwrap_or (q_timeout q c) (10 ^ 6)) (2 * 10 ^ 6)
                      in (case session_wait select buf_len wait q w c of
                            (Inl e, w, c) \<Rightarrow> Some (Inl e, st\<lparr>lk_net := w, lk_conn := c, lk_io := io\<rparr>)
                          | (Inr _, w, c) \<Rightarrow>
                              offer_datagram freebsd net select q buf_len left dgram pkt_len
                                (st\<lparr>lk_net := w, lk_conn := c, lk_io := io\<rparr>)))))))"

text \<open>
  The packet is prepared in place (the caller drops it afterwards); \<^term>\<open>None\<close> is a panic or a
  flush that does not end.
\<close>

definition send_packet_datagram ::
    "bool \<Rightarrow> 'w net \<Rightarrow> 'w select \<Rightarrow> 'c quic \<Rightarrow> 'd tun_rs \<Rightarrow> nat \<Rightarrow> bytes \<Rightarrow> bytes \<Rightarrow> ('w, 'c, 'd) link
      \<Rightarrow> ((session_error + bool) \<times> ('w, 'c, 'd) link) option" where
  "send_packet_datagram freebsd net select q rs buf_len flow_prefix pkt st =
     do {
       (verdict, pkt) \<leftarrow> prepare_outgoing pkt;
       (case verdict of
          Inl e \<Rightarrow> Some (Inr False, st\<lparr>lk_stats := count_dropped (lk_stats st)\<rparr>)
        | Inr _ \<Rightarrow>
            (let dgram = flow_prefix @ pkt in
             if (case q_dgram_max_writable_len q (lk_conn st) of
                   Some max_len \<Rightarrow> max_len < length dgram | None \<Rightarrow> False) then
               do {
                 reply \<leftarrow> compose_icmp_too_large pkt (mtu (lk_tun st));
                 Some (Inr False,
                   st\<lparr>lk_stats := count_dropped (lk_stats st),
                      lk_tun := (case reply of
                          None \<Rightarrow> lk_tun st | Some icmp_pkt \<Rightarrow> snd (send_packet rs icmp_pkt (lk_tun st)))\<rparr>)
               }
             else offer_datagram freebsd net select q buf_len 512 dgram (length pkt) st))
     }"

section \<open>What receiving leaves alone\<close>

lemma feed_quic_conn:
  assumes "\<And>d c. g (snd (q_recv q d c)) = g c"
  shows "g (feed_quic q io is c) = g c"
  by (induction "is" arbitrary: c) (simp_all add: assms)

lemma drain_quic_conn:
  assumes "drain_quic freebsd net q sofar io w c = Some y"
  shows "(\<forall>d c. g (snd (q_recv q d c)) = g c) \<longrightarrow> g (snd (snd (snd y))) = g c"
proof (rule drain_quic.raw_induct [OF _ assms], intro impI)
  fix f freebsd net q sofar io w c y
  assume IH: "\<And>net q sofar io w c b y. f net q sofar io w c b = Some y \<Longrightarrow>
      (\<forall>d c. g (snd (q_recv sofar d c)) = g c) \<longrightarrow> g (snd (snd (snd y))) = g b"
    and run: "(case try_recv_batch freebsd net io w of
        (Inl e, io1, w1) \<Rightarrow> Some (Inl (UdpFailed e), io1, w1, c)
      | (Inr count, io1, w1) \<Rightarrow>
          if count = 0 then Some (Inr sofar, io1, w1, c)
          else
            (let c1 = feed_quic q io1 [0..<count] c in
             if count < batch_size io1 then Some (Inr (sofar + count), io1, w1, c1)
             else f freebsd net q (sofar + count) io1 w1 c1)) = Some y"
    and keep: "\<forall>d c. g (snd (q_recv q d c)) = g c"
  obtain r io1 w1 where recv: "try_recv_batch freebsd net io w = (r, io1, w1)"
    by (metis surj_pair)
  have fed: "g (feed_quic q io1 is c) = g c" for "is"
    using feed_quic_conn [of g q io1 "is" c] keep by blast
  show "g (snd (snd (snd y))) = g c"
  proof (cases r)
    case (Inr n)
    have "g (snd (snd (snd y))) = g (feed_quic q io1 [0..<n] c)"
      if "f freebsd net q (sofar + n) io1 w1 (feed_quic q io1 [0..<n] c) = Some y"
      using IH [OF that] keep by blast
    then show ?thesis
      using run recv Inr fed [of "[0..<n]"] by (auto simp: Let_def split: if_splits)
  qed (use run recv in auto)
qed

section \<open>The packet is sent, counted as dropped, or the session fails\<close>

definition outbox_kept :: "'c quic \<Rightarrow> ('c \<Rightarrow> bytes list) \<Rightarrow> bool" where
  "outbox_kept q outbox \<longleftrightarrow>
     (\<forall>d c. outbox (snd (q_recv q d c)) = outbox c) \<and> (\<forall>c. outbox (q_on_timeout q c) = outbox c)
     \<and> (\<forall>cap c. outbox (snd (q_send q cap c)) = outbox c)"

definition offered ::
    "('c \<Rightarrow> bytes list) \<Rightarrow> bytes \<Rightarrow> nat \<Rightarrow> ('w, 'c, 'd) link \<Rightarrow> session_error + bool \<Rightarrow> ('w, 'c, 'd) link \<Rightarrow> bool" where
  "offered outbox dgram pkt_len st r st' \<longleftrightarrow>
     (case r of
        Inl e \<Rightarrow> outbox (lk_conn st') = outbox (lk_conn st) \<and> lk_stats st' = lk_stats st
      | Inr sent \<Rightarrow>
          if sent then outbox (lk_conn st') = outbox (lk_conn st) @ [dgram]
            \<and> lk_stats st' = count_sent pkt_len (lk_stats st)
          else outbox (lk_conn st') = outbox (lk_conn st) \<and> lk_stats st' = count_dropped (lk_stats st))"

lemma session_wait_conn:
  assumes "outbox_kept q outbox" "session_wait select buf_len wait q w c = (r, w', c')"
  shows "outbox c' = outbox c"
  using assms by (auto simp: session_wait_def outbox_kept_def split: prod.splits option.splits sum.splits)

definition untouched :: "('c \<Rightarrow> bytes list) \<Rightarrow> ('w, 'c, 'd) link \<Rightarrow> ('w, 'c, 'd) link \<Rightarrow> bool" where
  "untouched outbox st st' \<longleftrightarrow>
     lk_tun st' = lk_tun st \<and> outbox (lk_conn st') = outbox (lk_conn st) \<and> lk_stats st' = lk_stats st"

lemma untouched_offered:
  "untouched outbox st st' \<Longrightarrow> offered outbox dgram pkt_len st (Inl e) st'"
  "untouched outbox st st1 \<Longrightarrow> offered outbox dgram pkt_len st1 r st' \<Longrightarrow> offered outbox dgram pkt_len st r st'"
  by (auto simp: untouched_def offered_def split: sum.splits if_splits)

text \<open>With the queue full, an attempt flushes, drains and waits, and neither hands over nor counts.\<close>

lemma offer_datagram_waits:
  fixes st :: "('w, 'c, 'd) link"
  assumes net: "net_send_laws net wire clock stall" "net_recv_laws net inbox" and send: "quic_send_laws q pending"
    and D: "0 < D" and kept: "outbox_kept q outbox" and wf: "batch_wf D (lk_io st)"
    and full: "q_is_dgram_send_queue_full q (lk_conn st)"
  obtains (fails) e and st' :: "('w, 'c, 'd) link" where
      "offer_datagram freebsd net select q buf_len (Suc left) dgram pkt_len st = Some (Inl e, st')"
      "untouched outbox st st'"
  | (again) st' :: "('w, 'c, 'd) link" where
      "offer_datagram freebsd net select q buf_len (Suc left) dgram pkt_len st
        = offer_datagram freebsd net select q buf_len left dgram pkt_len st'"
      "batch_wf D (lk_io st')" "untouched outbox st st'"
proof -
  obtain r1 io1 w1 c1 where flush: "flush_quic freebsd net q (lk_io st) (lk_net st) (lk_conn st) = Some (r1, io1, w1, c1)"
    "batch_wf D io1"
    using flush_quic_delivers [OF net(1) send wf] by blast
  obtain r2 io2 w2 c2 where drain: "drain_quic freebsd net q 0 io1 w1 c1 = Some (r2, io2, w2, c2)"
    and wf2: "\<forall>n. r2 = Inr n \<longrightarrow> batch_wf D io2"
    using drain_quic_feeds [OF net(2) D flush(2), of freebsd q 0 w1 c1] by blast
  obtain r3 w3 c3 where wait: "session_wait select buf_len
      (min (unwrap_or (q_timeout q c2) (10 ^ 6)) (2 * 10 ^ 6)) q w2 c2 = (r3, w3, c3)"
    by (metis surj_pair)
  have c1: "outbox c1 = outbox (lk_conn st)"
    using flush_quic_conn [OF flush(1), of outbox] kept unfolding outbox_kept_def by simp
  have c2: "outbox c2 = outbox (lk_conn st)"
    using drain_quic_conn [OF drain, of outbox] kept c1 unfolding outbox_kept_def by simp
  have c3: "outbox c3 = outbox (lk_conn st)"
    using session_wait_conn [OF kept wait] c2 by simp
  let ?at = "\<lambda>w c io. st\<lparr>lk_net := w, lk_conn := c, lk_io := io\<rparr>"
  have run: "offer_datagram freebsd net select q buf_len (Suc left) dgram pkt_len st =
      (if \<not> is_ok r1 then Some (Inl (UdpError (projl r1)), ?at w1 c1 io1)
       else if \<not> is_ok r2 then Some (Inl (UdpError (projl r2)), ?at w2 c2 io2)
       else if q_is_closed q c2 then Some (Inl ClosedWhileQueueing, ?at w2 c2 io2)
       else if \<not> is_ok r3 then Some (Inl (projl r3), ?at w3 c3 io2)
       else offer_datagram freebsd net select q buf_len left dgram pkt_len (?at w3 c3 io2))"
    using full flush(1) drain wait by (cases r1; cases r2; cases r3) (simp_all add: Let_def)
  have same: "untouched outbox st (?at w1 c1 io1)" "untouched outbox st (?at w2 c2 io2)" "untouched outbox st (?at w3 c3 io2)"
    using c1 c2 c3 by (simp_all add: untouched_def)
  show thesis
  proof (cases "is_ok r1 \<and> is_ok r2 \<and> \<not> q_is_closed q c2 \<and> is_ok r3")
    case True
    then have "offer_datagram freebsd net select q buf_len (Suc left) dgram pkt_len st
        = offer_datagram freebsd net select q buf_len left dgram pkt_len (?at w3 c3 io2)" "batch_wf D io2"
      using run wf2 by (auto simp: is_ok_iff)
    then show thesis
      using same(3) again by simp
  next
    case False
    then show thesis
      using run same fails by (auto split: if_splits)
  qed
qed

lemma offer_datagram_outcome:
  fixes st :: "('w, 'c, 'd) link"
  assumes net: "net_send_laws net wire clock stall" "net_recv_laws net inbox" and send: "quic_send_laws q pending"
    and D: "0 < D" and out: "dgram_send_laws q outbox" and kept: "outbox_kept q outbox"
  shows "batch_wf D (lk_io st) \<Longrightarrow>
    \<exists>r st'. offer_datagram freebsd net select q buf_len left dgram pkt_len st = Some (r, st')
      \<and> lk_tun st' = lk_tun st \<and> offered outbox dgram pkt_len st r st'"
proof (induction left arbitrary: st)
  case 0
  then show ?case
    by (simp add: offered_def)
next
  case (Suc left)
  show ?case
  proof (cases "q_is_dgram_send_queue_full q (lk_conn st)")
    case False
    obtain r c where call: "q_dgram_send q dgram (lk_conn st) = (r, c)"
      by fastforce
    then have "outbox c = (if is_ok r then outbox (lk_conn st) @ [dgram] else outbox (lk_conn st))"
      using out unfolding dgram_send_laws_def by blast
    then show ?thesis
      using False call by (cases r) (simp_all add: offered_def)
  next
    case True
    show ?thesis
    proof (rule offer_datagram_waits [OF net send D kept Suc.prems True])
      fix e and st' :: "('w, 'c, 'd) link"
      assume run: "offer_datagram freebsd net select q buf_len (Suc left) dgram pkt_len st = Some (Inl e, st')"
        and same: "untouched outbox st st'"
      have "lk_tun st' = lk_tun st"
        using same by (simp add: untouched_def)
      then show ?thesis
        unfolding run using untouched_offered(1) [OF same] by simp
    next
      fix st' :: "('w, 'c, 'd) link"
      assume run: "offer_datagram freebsd net select q buf_len (Suc left) dgram pkt_len st
          = offer_datagram freebsd net select q buf_len left dgram pkt_len st'"
        and wf: "batch_wf D (lk_io st')" and same: "untouched outbox st st'"
      have "lk_tun st' = lk_tun st"
        using same by (simp add: untouched_def)
      then show ?thesis
        unfolding run using Suc.IH [OF wf] untouched_offered(2) [OF same] by fastforce
    qed
  qed
qed

section \<open>Properties\<close>

text \<open>
  C27. \<open>send_packet_datagram\<close> returns, whatever the queue does, and accounts for its packet exactly
  once: it is handed to the connection behind the flow prefix, as \<open>prepare_outgoing\<close> forwards it,
  and counted as sent; or it is not handed over and counted as dropped; or the session fails and
  neither the datagrams handed over nor the counters change.
\<close>

theorem send_packet_datagram_accounts:
  assumes "net_send_laws net wire clock stall" "net_recv_laws net inbox" "quic_send_laws q pending"
    "0 < D" "dgram_send_laws q outbox" "outbox_kept q outbox" "batch_wf D (lk_io st)"
  shows "\<exists>r st'. send_packet_datagram freebsd net select q rs buf_len flow_prefix pkt st = Some (r, st')
    \<and> (case r of
         Inr True \<Rightarrow>
           (\<exists>v out. prepare_outgoing pkt = Some (Inr v, out)
              \<and> outbox (lk_conn st') = outbox (lk_conn st) @ [flow_prefix @ out]
              \<and> lk_stats st' = count_sent (length pkt) (lk_stats st))
       | Inr False \<Rightarrow> outbox (lk_conn st') = outbox (lk_conn st) \<and> lk_stats st' = count_dropped (lk_stats st)
       | Inl e \<Rightarrow> outbox (lk_conn st') = outbox (lk_conn st) \<and> lk_stats st' = lk_stats st)"
proof -
  obtain v out where prep: "prepare_outgoing pkt = Some (v, out)"
    by (metis prepare_outgoing_eq surj_pair)
  have len: "length out = length pkt" if "v = Inr x" for x
    using prep that length_forwarded by (metis prepare_outgoing_okE)
  show ?thesis
  proof (cases v)
    case (Inl e)
    then show ?thesis
      using prep by (simp add: send_packet_datagram_def)
  next
    case (Inr x)
    obtain reply where reply: "compose_icmp_too_large out (mtu (lk_tun st)) = Some reply"
      using compose_icmp_no_panic by blast
    let ?large = "case q_dgram_max_writable_len q (lk_conn st) of
        Some max_len \<Rightarrow> max_len < length (flow_prefix @ out) | None \<Rightarrow> False"
    show ?thesis
    proof (cases ?large)
      case True
      then show ?thesis
        using prep Inr reply by (simp add: send_packet_datagram_def Let_def)
    next
      case False
      obtain r st' where offer: "offer_datagram freebsd net select q buf_len 512 (flow_prefix @ out) (length out) st = Some (r, st')"
        "offered outbox (flow_prefix @ out) (length out) st r st'"
        using offer_datagram_outcome [OF assms(1-7)] by blast
      moreover have "send_packet_datagram freebsd net select q rs buf_len flow_prefix pkt st = Some (r, st')"
        using prep Inr False offer(1) by (simp add: send_packet_datagram_def Let_def)
      ultimately show ?thesis
        using len [OF Inr] prep Inr by (cases r) (auto simp: offered_def split: bool.splits)
    qed
  qed
qed

definition sample_link :: "(sample_world, sample_dgrams, bytes list) link" where
  "sample_link =
     \<lparr>lk_net = \<lparr>sw_clock = 5, sw_wire = [], sw_blocked = 0, sw_inbox = []\<rparr>,
      lk_conn = \<lparr>sd_out = [[1], [2]], sd_in = []\<rparr>, lk_io = new_udp_batch 1500 2 0, lk_stats = new_stats,
      lk_tun = sample_device []\<rparr>"

corollary send_packet_datagram_accounts_witness:
  "\<exists>r st'. send_packet_datagram True sample_net silent_select sample_dgram_quic sample_tun_rs 65535 [0, 0]
      sample_ipv4 sample_link = Some (r, st')"
proof -
  have "quic_send_laws sample_dgram_quic (\<lambda>_. 0)" "outbox_kept sample_dgram_quic sd_out"
    by (simp_all add: quic_send_laws_def outbox_kept_def sample_dgram_quic_def)
  moreover have "batch_wf 1500 (lk_io sample_link)"
    using new_udp_batch_wf [of 1500 2 0] by (simp add: sample_link_def)
  ultimately show ?thesis
    using send_packet_datagram_accounts [OF sample_laws(2,3) _ _ sample_dgram_laws(1), of "\<lambda>_. 0" 1500 sample_link]
    by fastforce
qed

end
