(* ===== verification/Reporter.thy ===== *)
theory Reporter
  imports Http3 Net_Addr
begin

text \<open>
  The handle of \<open>api/device_state.rs\<close> that the tunnel holds: the connection state it publishes and
  the last metrics of the active path. The reporter task and its payload are in the theory
  \<open>Device_State\<close>.
\<close>

datatype connection_state = Disconnected | Connected (handshake_latency_ms: nat)

record tunnel_metrics =
  tm_local_ip :: ip_addr
  tm_rtt_us :: nat
  tm_min_rtt_us :: "nat option"
  tm_rtt_var_us :: nat
  tm_packets_sent_upstream :: nat
  tm_packets_received_downstream :: nat
  tm_packets_lost_upstream :: nat
  tm_packets_retransmitted_upstream :: nat
  tm_bytes_sent_upstream :: u64
  tm_bytes_received_downstream :: u64
  tm_bytes_lost_upstream :: u64
  tm_bytes_retransmitted_upstream :: u64

text \<open>The watch channel's value and the metrics behind their lock, neither of which fails.\<close>

record reporter =
  rp_state :: "connection_state option"
  rp_metrics :: "tunnel_metrics option"

definition connected :: "duration \<Rightarrow> reporter \<Rightarrow> reporter" where
  "connected handshake_latency rp =
     rp\<lparr>rp_state := Some (Connected (min (handshake_latency div 10 ^ 6) u64_max))\<rparr>"

definition disconnected :: "reporter \<Rightarrow> reporter" where
  "disconnected rp = rp\<lparr>rp_state := Some Disconnected, rp_metrics := None\<rparr>"

definition update_tunnel_metrics :: "tunnel_metrics \<Rightarrow> reporter \<Rightarrow> reporter" where
  "update_tunnel_metrics sample rp = rp\<lparr>rp_metrics := Some sample\<rparr>"

text \<open>
  \<open>publish_tunnel_metrics\<close> of \<open>api/masque.rs\<close>; \<open>local_ip\<close> is that of the active path, and a count
  that is a \<open>usize\<close> always fits a \<open>u64\<close>.
\<close>

definition publish_tunnel_metrics ::
    "path_stats list \<Rightarrow> (path_stats \<Rightarrow> ip_addr) \<Rightarrow> reporter option \<Rightarrow> reporter option" where
  "publish_tunnel_metrics paths local_ip reporter =
     (case reporter of
        None \<Rightarrow> None
      | Some rp \<Rightarrow>
          (case List.find ps_active paths of
             None \<Rightarrow> Some rp
           | Some path \<Rightarrow>
               Some (update_tunnel_metrics
                 \<lparr>tm_local_ip = local_ip path,
                  tm_rtt_us = micros (ps_rtt path),
                  tm_min_rtt_us = map_option micros (ps_min_rtt path),
                  tm_rtt_var_us = micros (ps_rttvar path),
                  tm_packets_sent_upstream = min (ps_sent path) u64_max,
                  tm_packets_received_downstream = min (ps_recv path) u64_max,
                  tm_packets_lost_upstream = min (ps_lost path) u64_max,
                  tm_packets_retransmitted_upstream = min (ps_retrans path) u64_max,
                  tm_bytes_sent_upstream = ps_sent_bytes path,
                  tm_bytes_received_downstream = ps_recv_bytes path,
                  tm_bytes_lost_upstream = ps_lost_bytes path,
                  tm_bytes_retransmitted_upstream = ps_stream_retrans_bytes path\<rparr> rp)))"

text \<open>Metrics are only kept while a session may be running.\<close>

lemma disconnected_clears: "rp_metrics (disconnected rp) = None \<and> rp_state (disconnected rp) = Some Disconnected"
  by (simp add: disconnected_def)

end
