(* ===== verification/Data_Loop.thy ===== *)
theory Data_Loop
  imports Send_One Timing Buffer_Pool Reporter Runs
begin

text \<open>
  The packet pump, \<open>data_loop\<close> of \<open>api/masque.rs\<close>. Its TUN reader task is in the theory
  \<open>Buffer_Pool\<close>; here it is the other end of the datagram channel, whose answers, like those of the
  socket and the clock, come from the environment.
\<close>

definition MESH_H3_STATS_INTERVAL :: duration where "MESH_H3_STATS_INTERVAL = 15 * 10 ^ 9"
definition QUIC_DIAGNOSTICS_INTERVAL :: duration where "QUIC_DIAGNOSTICS_INTERVAL = 60 * 10 ^ 9"

section \<open>State\<close>

record pump_config =
  pf_flow_prefix :: bytes
  pf_flow_id :: u64
  pf_connect_stream_id :: u64
  pf_report_h3_stats :: bool
  pf_keepalive_period :: duration
  pf_enable_pmtud :: bool
  pf_pmtud_revalidate_period :: duration
  pf_max_tun_mtu :: u16
  pf_tx_queue_len :: nat
  pf_tx_burst_packets :: nat

text \<open>
  \<open>Instant\<close>s may lie before the clock's zero: the three stamps that start in the past are integers.
\<close>

record ('w, 'c, 'd) pump =
  pu_link :: "('w, 'c, 'd) link"
  pu_recycle :: "bytes channel"
  pu_queue :: "tx_datagram list"
  pu_reader_closed :: bool
  pu_last_telemetry :: int
  pu_last_diagnostics :: int
  pu_last_h3_stats :: int
  pu_pending_h3 :: "pending_h3_stats_report option"
  pu_last_keepalive :: int
  pu_last_pmtud :: int
  pu_applied_pmtu :: "nat option"
  pu_reporter :: "reporter option"

text \<open>
  The environment: what \<open>try_recv\<close> finds in the datagram channel, and which branch of the
  \<open>select!\<close> comes first. The second argument of \<open>pe_select\<close> says whether the channel is polled.
\<close>

datatype received = Received tx_datagram | ChannelEmpty | ChannelDisconnected

datatype wake =
    Readable "io_error + unit"
  | FromReader "tx_datagram option"
  | Slept

record ('w, 'c) pump_env =
  pe_try_recv :: "'w \<Rightarrow> received \<times> 'w"
  pe_select :: "duration \<Rightarrow> bool \<Rightarrow> 'w \<Rightarrow> wake \<times> 'w"
  pe_paths :: "'c \<Rightarrow> path_stats list"
  pe_local_ip :: "path_stats \<Rightarrow> ip_addr"
  pe_to_json :: "h3_stats_request \<Rightarrow> string + bytes"
  pe_get_varint :: "bytes \<Rightarrow> (u64 \<times> nat) option"
  pe_lost_retrans :: "'c \<Rightarrow> nat \<times> nat"

datatype pump_error =
    PumpUdp udp_error
  | PumpH3 h3_session_error
  | PumpTun tun_error
  | PumpSocket io_error
  | PumpKeepalive quic_error
  | PumpClosed
  | PumpReaderEnded

type_synonym ('w, 'c, 'd, 'a) pump_op = "(('w, 'c, 'd) pump, pump_error, 'a) run"

section \<open>One call on the pump's objects\<close>

definition pump_flush ::
    "bool \<Rightarrow> 'w net \<Rightarrow> 'c quic \<Rightarrow> ('w, 'c, 'd, unit) pump_op" where
  "pump_flush freebsd net q pu =
     (let l = pu_link pu in
      (case flush_quic freebsd net q (lk_io l) (lk_net l) (lk_conn l) of
         None \<Rightarrow> None
       | Some (r, io, w, c) \<Rightarrow>
           Some ((case r of Inl e \<Rightarrow> Inl (PumpUdp e) | Inr _ \<Rightarrow> Inr ()),
                 pu\<lparr>pu_link := l\<lparr>lk_net := w, lk_conn := c, lk_io := io\<rparr>\<rparr>)))"

definition pump_drain ::
    "bool \<Rightarrow> 'w net \<Rightarrow> 'c quic \<Rightarrow> ('w, 'c, 'd, unit) pump_op" where
  "pump_drain freebsd net q pu =
     (let l = pu_link pu in
      (case drain_quic freebsd net q 0 (lk_io l) (lk_net l) (lk_conn l) of
         None \<Rightarrow> None
       | Some (r, io, w, c) \<Rightarrow>
           Some ((case r of Inl e \<Rightarrow> Inl (PumpUdp e) | Inr _ \<Rightarrow> Inr ()),
                 pu\<lparr>pu_link := l\<lparr>lk_net := w, lk_conn := c, lk_io := io\<rparr>\<rparr>)))"

definition pump_now :: "'w net \<Rightarrow> ('w, 'c, 'd, int) pump_op" where
  "pump_now net pu =
     (case n_now net (lk_net (pu_link pu)) of
        (t, w) \<Rightarrow> Some (Inr (int t), pu\<lparr>pu_link := (pu_link pu)\<lparr>lk_net := w\<rparr>\<rparr>))"

text \<open>\<open>stamp.elapsed()\<close>\<close>

definition pump_elapsed :: "'w net \<Rightarrow> (('w, 'c, 'd) pump \<Rightarrow> int) \<Rightarrow> ('w, 'c, 'd, duration) pump_op" where
  "pump_elapsed net stamp =
     run_bind (pump_now net) (\<lambda>now. run_bind (run_get stamp) (\<lambda>t. run_return (nat (now - t))))"

definition pump_conn :: "('c \<Rightarrow> 'c) \<Rightarrow> ('w, 'c, 'd, unit) pump_op" where
  "pump_conn f = run_modify (\<lambda>pu. pu\<lparr>pu_link := (pu_link pu)\<lparr>lk_conn := f (lk_conn (pu_link pu))\<rparr>\<rparr>)"

definition get_conn :: "('w, 'c, 'd, 'c) pump_op" where
  "get_conn = run_get (\<lambda>pu. lk_conn (pu_link pu))"

section \<open>One turn of the loop\<close>

text \<open>Receiving: the datagrams of the socket, the events of HTTP/3, the packets for the TUN device.\<close>

definition pump_poll_h3 :: "'c h3 \<Rightarrow> pump_config \<Rightarrow> ('w, 'c, 'd, unit) pump_op" where
  "pump_poll_h3 h cfg pu =
     (case poll_h3 h (pf_connect_stream_id cfg) (lk_conn (pu_link pu)) of
        None \<Rightarrow> None
      | Some (r, c) \<Rightarrow>
          Some ((case r of Inl e \<Rightarrow> Inl (PumpH3 e) | Inr _ \<Rightarrow> Inr ()),
                pu\<lparr>pu_link := (pu_link pu)\<lparr>lk_conn := c\<rparr>\<rparr>))"

definition pump_deliver ::
    "'c quic \<Rightarrow> 'd tun_rs \<Rightarrow> ('w, 'c) pump_env \<Rightarrow> pump_config \<Rightarrow> ('w, 'c, 'd, bool) pump_op" where
  "pump_deliver q rs env cfg pu =
     (let l = pu_link pu in
      (case drain_incoming_datagrams q (pe_get_varint env) rs (lk_conn l) (pf_flow_id cfg) (lk_stats l) (lk_tun l) of
         None \<Rightarrow> None
       | Some (exhausted, c, stats, tun) \<Rightarrow>
           Some (Inr exhausted, pu\<lparr>pu_link := l\<lparr>lk_conn := c, lk_stats := stats, lk_tun := tun\<rparr>\<rparr>)))"

definition turn_receive ::
    "bool \<Rightarrow> 'w net \<Rightarrow> 'c quic \<Rightarrow> 'c h3 \<Rightarrow> 'd tun_rs \<Rightarrow> ('w, 'c) pump_env \<Rightarrow> pump_config
      \<Rightarrow> ('w, 'c, 'd, bool) pump_op" where
  "turn_receive freebsd net q h rs env cfg =
     run_bind (pump_drain freebsd net q) (\<lambda>_.
     run_bind (pump_flush freebsd net q) (\<lambda>_.
     run_bind (pump_poll_h3 h cfg) (\<lambda>_. pump_deliver q rs env cfg)))"

text \<open>The Mesh node's statistics: one report at a time, started every fifteen seconds.\<close>

definition pump_start_report :: "'c h3 \<Rightarrow> ('w, 'c) pump_env \<Rightarrow> int \<Rightarrow> ('w, 'c, 'd, unit) pump_op" where
  "pump_start_report h env now pu =
     (case start_h3_stats_report h (pe_paths env) (pe_to_json env) (lk_conn (pu_link pu)) of
        (r, c) \<Rightarrow>
          Some (Inr (), pu\<lparr>pu_last_h3_stats := now, pu_link := (pu_link pu)\<lparr>lk_conn := c\<rparr>,
            pu_pending_h3 := (case r of Inr (Some report) \<Rightarrow> Some report | _ \<Rightarrow> pu_pending_h3 pu)\<rparr>))"

definition start_report_if_due ::
    "'w net \<Rightarrow> 'c h3 \<Rightarrow> ('w, 'c) pump_env \<Rightarrow> pump_config \<Rightarrow> ('w, 'c, 'd, unit) pump_op" where
  "start_report_if_due net h env cfg =
     run_bind (run_get pu_pending_h3) (\<lambda>pending.
     if \<not> (pf_report_h3_stats cfg \<and> pending = None) then run_return ()
     else run_bind (pump_elapsed net pu_last_h3_stats) (\<lambda>elapsed.
       if \<not> MESH_H3_STATS_INTERVAL \<le> elapsed then run_return ()
       else run_bind (pump_now net) (pump_start_report h env)))"

definition flush_pending_report :: "'c h3 \<Rightarrow> ('w, 'c, 'd, bool) pump_op" where
  "flush_pending_report h pu =
     (case pu_pending_h3 pu of
        None \<Rightarrow> Some (Inr False, pu)
      | Some report \<Rightarrow>
          (case flush_h3_stats_report h report (lk_conn (pu_link pu)) of
             None \<Rightarrow> None
           | Some (r, report', c) \<Rightarrow>
               Some (Inr True, pu\<lparr>pu_link := (pu_link pu)\<lparr>lk_conn := c\<rparr>,
                 pu_pending_h3 := (if r = Inr False then Some report' else None)\<rparr>)))"

definition turn_h3_stats ::
    "bool \<Rightarrow> 'w net \<Rightarrow> 'c quic \<Rightarrow> 'c h3 \<Rightarrow> ('w, 'c) pump_env \<Rightarrow> pump_config \<Rightarrow> ('w, 'c, 'd, unit) pump_op" where
  "turn_h3_stats freebsd net q h env cfg =
     run_bind (start_report_if_due net h env cfg) (\<lambda>_.
     run_bind (flush_pending_report h) (\<lambda>output_queued.
     if output_queued then pump_flush freebsd net q else run_return ()))"

text \<open>A newly validated path MTU is applied to the TUN device.\<close>

definition turn_pmtu ::
    "'c quic \<Rightarrow> 'd tun_rs \<Rightarrow> pump_config \<Rightarrow> ('w, 'c, 'd, unit) pump_op" where
  "turn_pmtu q rs cfg pu =
     (let l = pu_link pu in
      if \<not> pf_enable_pmtud cfg then Some (Inr (), pu)
      else (case q_pmtu q (lk_conn l) of
              None \<Rightarrow> Some (Inr (), pu)
            | Some path_pmtu \<Rightarrow>
                if pu_applied_pmtu pu = Some path_pmtu then Some (Inr (), pu)
                else (case discovered_tun_mtu (q_pmtu q) (q_dgram_max_writable_len q) (lk_conn l)
                             (length (pf_flow_prefix cfg)) (pf_max_tun_mtu cfg) of
                        None \<Rightarrow> Some (Inr (), pu)
                      | Some tun_mtu \<Rightarrow>
                          (case read_mtu rs (lk_tun l) of
                             Inl e \<Rightarrow> Some (Inl (PumpTun e), pu)
                           | Inr _ \<Rightarrow>
                               (case apply_path_mtu rs tun_mtu True (lk_tun l) of
                                  (Inl e, tun) \<Rightarrow> Some (Inl (PumpTun e), pu\<lparr>pu_link := l\<lparr>lk_tun := tun\<rparr>\<rparr>)
                                | (Inr _, tun) \<Rightarrow>
                                    Some (Inr (), pu\<lparr>pu_link := l\<lparr>lk_tun := tun\<rparr>,
                                                   pu_applied_pmtu := Some path_pmtu\<rparr>))))))"

text \<open>\<open>for _ in 0..TX_CHANNEL_DRAIN_BURST\<close>, with the iterations left.\<close>

fun fill_tx_queue :: "('w, 'c) pump_env \<Rightarrow> pump_config \<Rightarrow> nat \<Rightarrow> ('w, 'c, 'd) pump \<Rightarrow> ('w, 'c, 'd) pump" where
  "fill_tx_queue env cfg 0 pu = pu"
| "fill_tx_queue env cfg (Suc left) pu =
     (if pf_tx_queue_len cfg \<le> length (pu_queue pu) then pu
      else (case pe_try_recv env (lk_net (pu_link pu)) of
              (Received d, w) \<Rightarrow>
                fill_tx_queue env cfg left
                  (pu\<lparr>pu_link := (pu_link pu)\<lparr>lk_net := w\<rparr>, pu_queue := pu_queue pu @ [d]\<rparr>)
            | (ChannelEmpty, w) \<Rightarrow> pu\<lparr>pu_link := (pu_link pu)\<lparr>lk_net := w\<rparr>\<rparr>
            | (ChannelDisconnected, w) \<Rightarrow>
                pu\<lparr>pu_link := (pu_link pu)\<lparr>lk_net := w\<rparr>, pu_reader_closed := True\<rparr>))"

text \<open>Sending what the queue holds; the ICMP replies go back to the TUN device, errors only logged.\<close>

definition pump_queue_datagrams ::
    "'c quic \<Rightarrow> 'd tun_rs \<Rightarrow> pump_config \<Rightarrow> ('w, 'c, 'd, tx_progress) pump_op" where
  "pump_queue_datagrams q rs cfg pu =
     (let l = pu_link pu in
      (case queue_tx_datagrams q (lk_conn l) (pu_queue pu) (lk_stats l) (pf_tx_burst_packets cfg) (pu_recycle pu)
              (length (pf_flow_prefix cfg)) (mtu (lk_tun l)) of
         None \<Rightarrow> None
       | Some (st, queue) \<Rightarrow>
           Some (Inr (tx_progress st),
             pu\<lparr>pu_queue := queue, pu_recycle := tx_recycle st,
                pu_link := l\<lparr>lk_conn := tx_conn st, lk_stats := tx_stats st,
                  lk_tun := fold (\<lambda>packet tun. snd (send_packet rs packet tun))
                    (tp_icmp_packets (tx_progress st)) (lk_tun l)\<rparr>\<rparr>)))"

definition turn_transmit ::
    "bool \<Rightarrow> 'w net \<Rightarrow> 'c quic \<Rightarrow> 'd tun_rs \<Rightarrow> pump_config \<Rightarrow> ('w, 'c, 'd, tx_progress) pump_op" where
  "turn_transmit freebsd net q rs cfg =
     run_bind (pump_queue_datagrams q rs cfg) (\<lambda>progress.
     run_bind (if 0 < tp_queued progress \<or> tp_backpressure progress then pump_flush freebsd net q
               else run_return ()) (\<lambda>_.
     run_return progress))"

definition store_gauges :: "('w, 'c) pump_env \<Rightarrow> ('w, 'c, 'd) pump \<Rightarrow> ('w, 'c, 'd) pump" where
  "store_gauges env pu =
     (let l = pu_link pu
      in (case pe_lost_retrans env (lk_conn l) of
            (lost, retrans) \<Rightarrow>
              pu\<lparr>pu_link := l\<lparr>lk_stats := (lk_stats l)
                 \<lparr>st_tx_queue_len := word_of_nat (length (pu_queue pu)),
                  st_quic_lost := word_of_nat lost, st_quic_retrans := word_of_nat retrans\<rparr>\<rparr>\<rparr>))"

text \<open>\<open>log_quic_path_diagnostics\<close> takes the pacing diagnostics when there is an active path.\<close>

definition log_quic_path_diagnostics ::
    "('w, 'c) pump_env \<Rightarrow> ('w, 'c, 'd) pump \<Rightarrow> ('w, 'c, 'd) pump" where
  "log_quic_path_diagnostics env pu =
     (let l = pu_link pu in
      if List.find ps_active (pe_paths env (lk_conn l)) = None then pu
      else pu\<lparr>pu_link := l\<lparr>lk_io := snd (take_pacing_diagnostics (lk_io l))\<rparr>\<rparr>)"

definition turn_diagnostics :: "'w net \<Rightarrow> ('w, 'c) pump_env \<Rightarrow> ('w, 'c, 'd, unit) pump_op" where
  "turn_diagnostics net env =
     run_bind (run_modify (store_gauges env)) (\<lambda>_.
     run_bind (pump_elapsed net pu_last_diagnostics) (\<lambda>elapsed.
     if \<not> QUIC_DIAGNOSTICS_INTERVAL \<le> elapsed then run_return ()
     else run_bind (run_modify (log_quic_path_diagnostics env)) (\<lambda>_.
       run_bind (pump_now net) (\<lambda>now. run_modify (\<lambda>pu. pu\<lparr>pu_last_diagnostics := now\<rparr>)))))"

definition turn_checks :: "'c quic \<Rightarrow> ('w, 'c, 'd, unit) pump_op" where
  "turn_checks q pu =
     Some (if q_is_closed q (lk_conn (pu_link pu)) then Inl PumpClosed
           else if pu_reader_closed pu \<and> pu_queue pu = [] then Inl PumpReaderEnded
           else Inr (), pu)"

definition turn_telemetry :: "'w net \<Rightarrow> ('w, 'c) pump_env \<Rightarrow> ('w, 'c, 'd, unit) pump_op" where
  "turn_telemetry net env =
     run_bind (pump_elapsed net pu_last_telemetry) (\<lambda>elapsed.
     if \<not> 10 ^ 9 \<le> elapsed then run_return ()
     else run_bind (run_modify (\<lambda>pu. pu\<lparr>pu_reporter :=
              publish_tunnel_metrics (pe_paths env (lk_conn (pu_link pu))) (pe_local_ip env) (pu_reporter pu)\<rparr>)) (\<lambda>_.
       run_bind (pump_now net) (\<lambda>now. run_modify (\<lambda>pu. pu\<lparr>pu_last_telemetry := now\<rparr>))))"

section \<open>The wait at the end of a turn\<close>

text \<open>\<open>[..].into_iter().flatten().min().unwrap_or(one hour)\<close>\<close>

fun least :: "duration option list \<Rightarrow> duration option" where
  "least [] = None"
| "least (x # xs) =
     (case (x, least xs) of
        (None, m) \<Rightarrow> m
      | (Some d, None) \<Rightarrow> Some d
      | (Some d, Some m) \<Rightarrow> Some (min d m))"

definition pump_timeout ::
    "duration option \<Rightarrow> duration option \<Rightarrow> duration option \<Rightarrow> duration option \<Rightarrow> duration" where
  "pump_timeout quic_timeout keepalive_wait pmtud_wait h3_stats_wait =
     unwrap_or (least [quic_timeout, keepalive_wait, pmtud_wait, h3_stats_wait]) (60 * 60 * 10 ^ 9)"

definition wait_times ::
    "'w net \<Rightarrow> 'c quic \<Rightarrow> pump_config
      \<Rightarrow> ('w, 'c, 'd, duration option \<times> duration option \<times> duration option \<times> duration option) pump_op" where
  "wait_times net q cfg =
     run_bind get_conn (\<lambda>conn.
     run_bind (pump_elapsed net pu_last_keepalive) (\<lambda>since_keepalive.
     run_bind (pump_elapsed net pu_last_pmtud) (\<lambda>since_pmtud.
     run_bind (run_get pu_pending_h3) (\<lambda>pending.
     run_bind (if pf_report_h3_stats cfg \<and> pending = None
               then run_bind (pump_elapsed net pu_last_h3_stats) (\<lambda>e. run_return (Some (MESH_H3_STATS_INTERVAL - e)))
               else run_return None) (\<lambda>h3_stats_wait.
     run_return (q_timeout q conn, keepalive_remaining (pf_keepalive_period cfg) since_keepalive,
       pmtud_remaining (pf_enable_pmtud cfg) (pf_pmtud_revalidate_period cfg) since_pmtud, h3_stats_wait))))))"

text \<open>The branch of the sleep: whatever is due happens, and is flushed.\<close>

definition pump_ping :: "'c quic \<Rightarrow> ('w, 'c, 'd, unit) pump_op" where
  "pump_ping q pu =
     (case q_send_ack_eliciting q (lk_conn (pu_link pu)) of
        (r, c) \<Rightarrow> Some ((case r of Inl e \<Rightarrow> Inl (PumpKeepalive e) | Inr _ \<Rightarrow> Inr ()),
                        pu\<lparr>pu_link := (pu_link pu)\<lparr>lk_conn := c\<rparr>\<rparr>))"

definition keepalive_if_due ::
    "'w net \<Rightarrow> 'c quic \<Rightarrow> pump_config \<Rightarrow> ('w, 'c, 'd, bool) pump_op" where
  "keepalive_if_due net q cfg =
     run_bind (pump_elapsed net pu_last_keepalive) (\<lambda>since.
     if keepalive_remaining (pf_keepalive_period cfg) since \<noteq> Some 0 then run_return False
     else run_bind (pump_ping q) (\<lambda>_.
          run_bind (pump_now net) (\<lambda>now.
          run_bind (run_modify (\<lambda>pu. pu\<lparr>pu_last_keepalive := now\<rparr>)) (\<lambda>_. run_return True))))"

definition pmtud_if_due ::
    "'w net \<Rightarrow> 'c quic \<Rightarrow> pump_config \<Rightarrow> ('w, 'c, 'd, bool) pump_op" where
  "pmtud_if_due net q cfg =
     run_bind (pump_elapsed net pu_last_pmtud) (\<lambda>since.
     if pmtud_remaining (pf_enable_pmtud cfg) (pf_pmtud_revalidate_period cfg) since \<noteq> Some 0 then run_return False
     else run_bind (pump_conn (q_revalidate_pmtu q)) (\<lambda>_.
          run_bind (pump_now net) (\<lambda>now.
          run_bind (run_modify (\<lambda>pu. pu\<lparr>pu_last_pmtud := now, pu_applied_pmtu := None\<rparr>)) (\<lambda>_.
          run_return True))))"

definition timers_fire ::
    "bool \<Rightarrow> 'w net \<Rightarrow> 'c quic \<Rightarrow> pump_config \<Rightarrow> bool \<Rightarrow> ('w, 'c, 'd, unit) pump_op" where
  "timers_fire freebsd net q cfg quic_timeout_due =
     run_bind (if quic_timeout_due then pump_conn (q_on_timeout q) else run_return ()) (\<lambda>_.
     run_bind (keepalive_if_due net q cfg) (\<lambda>pinged.
     run_bind (pmtud_if_due net q cfg) (\<lambda>revalidated.
     if quic_timeout_due \<or> pinged \<or> revalidated then pump_flush freebsd net q else run_return ())))"

definition pump_select ::
    "('w, 'c) pump_env \<Rightarrow> pump_config \<Rightarrow> duration \<Rightarrow> ('w, 'c, 'd, wake) pump_op" where
  "pump_select env cfg timeout pu =
     (case pe_select env timeout (\<not> pu_reader_closed pu \<and> length (pu_queue pu) < pf_tx_queue_len cfg)
             (lk_net (pu_link pu)) of
        (FromReader (Some d), w) \<Rightarrow>
          Some (Inr (FromReader (Some d)),
                pu\<lparr>pu_link := (pu_link pu)\<lparr>lk_net := w\<rparr>, pu_queue := pu_queue pu @ [d]\<rparr>)
      | (FromReader None, w) \<Rightarrow>
          Some (Inr (FromReader None), pu\<lparr>pu_link := (pu_link pu)\<lparr>lk_net := w\<rparr>, pu_reader_closed := True\<rparr>)
      | (wake, w) \<Rightarrow> Some (Inr wake, pu\<lparr>pu_link := (pu_link pu)\<lparr>lk_net := w\<rparr>\<rparr>))"

definition turn_wait ::
    "bool \<Rightarrow> 'w net \<Rightarrow> 'c quic \<Rightarrow> ('w, 'c) pump_env \<Rightarrow> pump_config \<Rightarrow> ('w, 'c, 'd, unit) pump_op" where
  "turn_wait freebsd net q env cfg =
     run_bind (wait_times net q cfg) (\<lambda>(quic_timeout, keepalive_wait, pmtud_wait, h3_stats_wait).
     let timeout = pump_timeout quic_timeout keepalive_wait pmtud_wait h3_stats_wait;
         quic_timeout_due = (case quic_timeout of None \<Rightarrow> False | Some t \<Rightarrow> t \<le> timeout)
     in run_bind (pump_select env cfg timeout) (\<lambda>wake.
        (case wake of
           Readable (Inl e) \<Rightarrow> run_fail (PumpSocket e)
         | Readable (Inr _) \<Rightarrow> pump_drain freebsd net q
         | FromReader _ \<Rightarrow> run_return ()
         | Slept \<Rightarrow> timers_fire freebsd net q cfg quic_timeout_due)))"

section \<open>The loop\<close>

definition data_loop_turn ::
    "bool \<Rightarrow> 'w net \<Rightarrow> 'c quic \<Rightarrow> 'c h3 \<Rightarrow> 'd tun_rs \<Rightarrow> ('w, 'c) pump_env \<Rightarrow> pump_config
      \<Rightarrow> ('w, 'c, 'd, unit) pump_op" where
  "data_loop_turn freebsd net q h rs env cfg =
     run_bind (turn_receive freebsd net q h rs env cfg) (\<lambda>rx_drain_budget_exhausted.
     run_bind (turn_h3_stats freebsd net q h env cfg) (\<lambda>_.
     run_bind (turn_pmtu q rs cfg) (\<lambda>_.
     run_bind (run_modify (fill_tx_queue env cfg TX_CHANNEL_DRAIN_BURST)) (\<lambda>_.
     run_bind (turn_transmit freebsd net q rs cfg) (\<lambda>progress.
     run_bind (turn_diagnostics net env) (\<lambda>_.
     run_bind (turn_checks q) (\<lambda>_.
     run_bind (turn_telemetry net env) (\<lambda>_.
     run_bind (run_get pu_queue) (\<lambda>queue.
     if rx_drain_budget_exhausted
        \<or> (queue \<noteq> [] \<and> pf_tx_burst_packets cfg \<le> tp_queued progress \<and> \<not> tp_backpressure progress)
     then run_return ()
     else turn_wait freebsd net q env cfg)))))))))"

partial_function (option) data_loop ::
    "bool \<Rightarrow> 'w net \<Rightarrow> 'c quic \<Rightarrow> 'c h3 \<Rightarrow> 'd tun_rs \<Rightarrow> ('w, 'c) pump_env \<Rightarrow> pump_config
      \<Rightarrow> ('w, 'c, 'd) pump \<Rightarrow> ((pump_error + unit) \<times> ('w, 'c, 'd) pump) option" where
  "data_loop freebsd net q h rs env cfg pu =
     (case data_loop_turn freebsd net q h rs env cfg pu of
        None \<Rightarrow> None
      | Some (Inl e, pu') \<Rightarrow> Some (Inl e, pu')
      | Some (Inr _, pu') \<Rightarrow> data_loop freebsd net q h rs env cfg pu')"

text \<open>The stamps are set when the loop starts; \<open>l\<close> and \<open>recycle_tx\<close> come from the session.\<close>

definition start_pump ::
    "'w net \<Rightarrow> bytes channel \<Rightarrow> reporter option \<Rightarrow> ('w, 'c, 'd) link \<Rightarrow> ('w, 'c, 'd) pump" where
  "start_pump net recycle_tx reporter l =
     (case n_now net (lk_net l) of (t1, w1) \<Rightarrow>
     (case n_now net w1 of (t2, w2) \<Rightarrow>
     (case n_now net w2 of (t3, w3) \<Rightarrow>
     (case n_now net w3 of (t4, w4) \<Rightarrow>
     (case n_now net w4 of (t5, w5) \<Rightarrow>
        \<lparr>pu_link = l\<lparr>lk_net := w5\<rparr>, pu_recycle = recycle_tx, pu_queue = [], pu_reader_closed = False,
         pu_last_telemetry = int t1 - 10 ^ 9, pu_last_diagnostics = int t2 - int QUIC_DIAGNOSTICS_INTERVAL,
         pu_last_h3_stats = int t3 - int MESH_H3_STATS_INTERVAL, pu_pending_h3 = None,
         pu_last_keepalive = int t4, pu_last_pmtud = int t5, pu_applied_pmtu = None,
         pu_reporter = reporter\<rparr>)))))"

section \<open>What the pump relies on\<close>

text \<open>
  The laws of the crates, together; the reader only hands over datagrams that lie in their buffer
  behind the flow prefix, which \<open>Buffer_Pool\<close> proves of the reader's task.
\<close>

definition pump_laws ::
    "nat \<Rightarrow> 'w net \<Rightarrow> 'c quic \<Rightarrow> 'c h3 \<Rightarrow> 'd tun_rs \<Rightarrow> ('w, 'c) pump_env \<Rightarrow> pump_config \<Rightarrow> bool" where
  "pump_laws D net q h rs env cfg \<longleftrightarrow>
     0 < D
     \<and> (\<exists>wire clock stall. net_send_laws net wire clock stall)
     \<and> (\<exists>inbox. net_recv_laws net inbox)
     \<and> (\<exists>pending. quic_send_laws q pending)
     \<and> (\<exists>outbox. dgram_send_laws q outbox)
     \<and> (\<exists>h3_events body_left. h3_laws h h3_events body_left)
     \<and> (\<exists>body_sent. h3_body_laws h body_sent)
     \<and> (\<forall>w d w'. pe_try_recv env w = (Received d, w') \<longrightarrow> item_ok (length (pf_flow_prefix cfg)) d)
     \<and> (\<forall>t b w d w'. pe_select env t b w = (FromReader (Some d), w') \<longrightarrow>
          b \<and> item_ok (length (pf_flow_prefix cfg)) d)"

definition pump_inv :: "nat \<Rightarrow> pump_config \<Rightarrow> ('w, 'c, 'd) pump \<Rightarrow> bool" where
  "pump_inv D cfg pu \<longleftrightarrow>
     batch_wf D (lk_io (pu_link pu))
     \<and> list_all (item_ok (length (pf_flow_prefix cfg))) (pu_queue pu)
     \<and> length (pu_queue pu) \<le> pf_tx_queue_len cfg
     \<and> (case pu_pending_h3 pu of None \<Rightarrow> True | Some r \<Rightarrow> rep_written r \<le> length (rep_body r))"

lemma pump_inv_frame:
  "pump_inv D cfg (pu\<lparr>pu_link := l\<rparr>) \<longleftrightarrow>
     batch_wf D (lk_io l) \<and> list_all (item_ok (length (pf_flow_prefix cfg))) (pu_queue pu)
     \<and> length (pu_queue pu) \<le> pf_tx_queue_len cfg
     \<and> (case pu_pending_h3 pu of None \<Rightarrow> True | Some r \<Rightarrow> rep_written r \<le> length (rep_body r))"
  by (simp add: pump_inv_def)

lemma pump_inv_stamps [simp]:
  "pump_inv D cfg (pu\<lparr>pu_last_telemetry := a\<rparr>) = pump_inv D cfg pu"
  "pump_inv D cfg (pu\<lparr>pu_last_diagnostics := a\<rparr>) = pump_inv D cfg pu"
  "pump_inv D cfg (pu\<lparr>pu_last_h3_stats := a\<rparr>) = pump_inv D cfg pu"
  "pump_inv D cfg (pu\<lparr>pu_last_keepalive := a\<rparr>) = pump_inv D cfg pu"
  "pump_inv D cfg (pu\<lparr>pu_last_pmtud := a\<rparr>) = pump_inv D cfg pu"
  "pump_inv D cfg (pu\<lparr>pu_applied_pmtu := b\<rparr>) = pump_inv D cfg pu"
  "pump_inv D cfg (pu\<lparr>pu_reporter := x\<rparr>) = pump_inv D cfg pu"
  "pump_inv D cfg (pu\<lparr>pu_reader_closed := c\<rparr>) = pump_inv D cfg pu"
  by (simp_all add: pump_inv_def)

section \<open>Every turn returns\<close>

lemma pump_flush_returns:
  fixes net :: "'w net" and q :: "'c quic"
  assumes "pump_laws D net q h rs env cfg"
  shows "returns (pump_inv D cfg) (pump_flush freebsd net q :: ('w, 'c, 'd, unit) pump_op)"
proof (rule returnsI)
  fix pu :: "('w, 'c, 'd) pump"
  assume inv: "pump_inv D cfg pu"
  obtain wire clock stall pending where laws: "net_send_laws net wire clock stall" "quic_send_laws q pending"
    using assms unfolding pump_laws_def by blast
  have wf: "batch_wf D (lk_io (pu_link pu))"
    using inv by (simp add: pump_inv_def)
  obtain r io w c where
    "flush_quic freebsd net q (lk_io (pu_link pu)) (lk_net (pu_link pu)) (lk_conn (pu_link pu)) = Some (r, io, w, c)"
    "batch_wf D io"
    using flush_quic_delivers [OF laws wf] by blast
  then show "\<exists>r pu'. pump_flush freebsd net q pu = Some (r, pu') \<and> (is_ok r \<longrightarrow> pump_inv D cfg pu')"
    using inv by (simp add: pump_flush_def pump_inv_frame) (simp add: pump_inv_def)
qed

lemma pump_drain_returns:
  fixes net :: "'w net" and q :: "'c quic"
  assumes "pump_laws D net q h rs env cfg"
  shows "returns (pump_inv D cfg) (pump_drain freebsd net q :: ('w, 'c, 'd, unit) pump_op)"
proof (rule returnsI)
  fix pu :: "('w, 'c, 'd) pump"
  assume inv: "pump_inv D cfg pu"
  obtain inbox where laws: "net_recv_laws net inbox" "0 < D"
    using assms unfolding pump_laws_def by blast
  have wf: "batch_wf D (lk_io (pu_link pu))"
    using inv by (simp add: pump_inv_def)
  obtain r io w c where
    "drain_quic freebsd net q 0 (lk_io (pu_link pu)) (lk_net (pu_link pu)) (lk_conn (pu_link pu)) = Some (r, io, w, c)"
    "\<forall>n. r = Inr n \<longrightarrow> batch_wf D io"
    using drain_quic_feeds [OF laws wf, of freebsd q 0 "lk_net (pu_link pu)" "lk_conn (pu_link pu)"] by blast
  then show "\<exists>r pu'. pump_drain freebsd net q pu = Some (r, pu') \<and> (is_ok r \<longrightarrow> pump_inv D cfg pu')"
    using inv by (cases r) (simp_all add: pump_drain_def pump_inv_frame, simp add: pump_inv_def)
qed

lemma pump_now_returns: "returns (pump_inv D cfg) (pump_now net)"
  by (rule returnsI) (auto simp: pump_now_def pump_inv_def split: prod.split)

lemma pump_elapsed_returns: "returns (pump_inv D cfg) (pump_elapsed net stamp)"
  unfolding pump_elapsed_def by (intro returns_bind pump_now_returns returns_get returns_return)

lemma pump_conn_returns: "returns (pump_inv D cfg) (pump_conn f)"
  unfolding pump_conn_def by (rule returns_modify) (simp add: pump_inv_def)

lemmas pump_returns = pump_now_returns pump_elapsed_returns pump_conn_returns

lemma pump_poll_h3_returns:
  fixes net :: "'w net"
  assumes "pump_laws D net q h rs env cfg"
  shows "returns (pump_inv D cfg) (pump_poll_h3 h cfg' :: ('w, 'c, 'd, unit) pump_op)"
proof (rule returnsI)
  fix pu :: "('w, 'c, 'd) pump"
  assume inv: "pump_inv D cfg pu"
  obtain h3_events body_left where h3: "h3_laws h h3_events body_left"
    using assms unfolding pump_laws_def by blast
  obtain r c where "poll_h3 h (pf_connect_stream_id cfg') (lk_conn (pu_link pu)) = Some (r, c)"
    using poll_h3_outcome [OF h3] by blast
  then show "\<exists>r pu'. pump_poll_h3 h cfg' pu = Some (r, pu') \<and> (is_ok r \<longrightarrow> pump_inv D cfg pu')"
    using inv by (simp add: pump_poll_h3_def pump_inv_def)
qed

lemma drain_loop_returns:
  "\<exists>hit c' stats' tun'. drain_loop q get_varint rs flow_id left c stats tun = Some (hit, c', stats', tun')"
proof (induction left arbitrary: c stats tun)
  case (Suc left)
  obtain r c1 where "q_dgram_recv q c = (r, c1)"
    by fastforce
  then show ?case
    using Suc by (cases r) (auto simp: validate_incoming_eq split: option.split)
qed auto

lemma pump_deliver_returns: "returns (pump_inv D cfg) (pump_deliver q rs env cfg :: ('w, 'c, 'd, bool) pump_op)"
proof (rule returnsI)
  fix pu :: "('w, 'c, 'd) pump"
  assume inv: "pump_inv D cfg pu"
  obtain x c stats tun where
    "drain_incoming_datagrams q (pe_get_varint env) rs (lk_conn (pu_link pu)) (pf_flow_id cfg)
       (lk_stats (pu_link pu)) (lk_tun (pu_link pu)) = Some (x, c, stats, tun)"
    using drain_loop_returns unfolding drain_incoming_datagrams_def by metis
  then show "\<exists>r pu'. pump_deliver q rs env cfg pu = Some (r, pu') \<and> (is_ok r \<longrightarrow> pump_inv D cfg pu')"
    using inv by (simp add: pump_deliver_def pump_inv_def)
qed

lemma pump_start_report_returns:
  fixes env :: "('w, 'c) pump_env"
  shows "returns (pump_inv D cfg) (pump_start_report h env now :: ('w, 'c, 'd, unit) pump_op)"
proof (rule returnsI)
  fix pu :: "('w, 'c, 'd) pump"
  assume inv: "pump_inv D cfg pu"
  obtain r c where start: "start_h3_stats_report h (pe_paths env) (pe_to_json env) (lk_conn (pu_link pu)) = (r, c)"
    by fastforce
  then have "rep_written report = 0" if "r = Inr (Some report)" for report
    using that by (auto simp: start_h3_stats_report_def split: option.splits sum.splits prod.splits)
  then show "\<exists>r pu'. pump_start_report h env now pu = Some (r, pu') \<and> (is_ok r \<longrightarrow> pump_inv D cfg pu')"
    using inv start
    by (cases r) (auto simp: pump_start_report_def pump_inv_def split: option.splits)
qed

lemma flush_pending_report_returns:
  fixes net :: "'w net"
  assumes "pump_laws D net q h rs env cfg"
  shows "returns (pump_inv D cfg) (flush_pending_report h :: ('w, 'c, 'd, bool) pump_op)"
proof (rule returnsI)
  fix pu :: "('w, 'c, 'd) pump"
  assume inv: "pump_inv D cfg pu"
  obtain body_sent where laws: "h3_body_laws h body_sent"
    using assms unfolding pump_laws_def by blast
  show "\<exists>r pu'. flush_pending_report h pu = Some (r, pu') \<and> (is_ok r \<longrightarrow> pump_inv D cfg pu')"
  proof (cases "pu_pending_h3 pu")
    case None
    then show ?thesis
      using inv by (simp add: flush_pending_report_def)
  next
    case (Some report)
    then have le: "rep_written report \<le> length (rep_body report)"
      using inv by (simp add: pump_inv_def)
    obtain r c where call: "h_send_body h (rep_stream_id report)
        (drop (rep_written report) (rep_body report)) True (lk_conn (pu_link pu)) = (r, c)"
      by fastforce
    have "n \<le> length (rep_body report) - rep_written report" if "r = Inr n" for n
      using laws call that unfolding h3_body_laws_def by fastforce
    then show ?thesis
      using inv Some le call
      by (cases r) (auto simp: flush_pending_report_def flush_h3_stats_report_def slice_in pump_inv_def Let_def)
  qed
qed

lemma turn_pmtu_returns: "returns (pump_inv D cfg) (turn_pmtu q rs cfg :: ('w, 'c, 'd, unit) pump_op)"
proof (rule returnsI)
  fix pu :: "('w, 'c, 'd) pump"
  assume inv: "pump_inv D cfg pu"
  then have "pump_inv D cfg (pu\<lparr>pu_link := (pu_link pu)\<lparr>lk_tun := tun\<rparr>, pu_applied_pmtu := a\<rparr>)" for tun a
    by (simp add: pump_inv_def)
  then show "\<exists>r pu'. turn_pmtu q rs cfg pu = Some (r, pu') \<and> (is_ok r \<longrightarrow> pump_inv D cfg pu')"
    using inv by (auto simp: turn_pmtu_def Let_def split: option.split sum.split prod.split)
qed

lemma fill_tx_queue_inv:
  assumes laws: "pump_laws D net q h rs env cfg"
  shows "pump_inv D cfg pu \<Longrightarrow> pump_inv D cfg (fill_tx_queue env cfg left pu)"
proof (induction left arbitrary: pu)
  case (Suc left)
  obtain got w where got: "pe_try_recv env (lk_net (pu_link pu)) = (got, w)"
    by fastforce
  have "item_ok (length (pf_flow_prefix cfg)) d" if "got = Received d" for d
    using laws got that unfolding pump_laws_def by blast
  then show ?case
    using Suc got by (cases got) (auto simp: pump_inv_def)
qed simp

lemma pump_queue_datagrams_returns:
  fixes net :: "'w net" and rs :: "'d tun_rs" and q :: "'c quic"
  assumes "pump_laws D net q h rs env cfg"
  shows "returns (pump_inv D cfg) (pump_queue_datagrams q rs cfg :: ('w, 'c, 'd, tx_progress) pump_op)"
proof (rule returnsI)
  fix pu :: "('w, 'c, 'd) pump"
  assume inv: "pump_inv D cfg pu"
  let ?n = "length (pf_flow_prefix cfg)" and ?l = "pu_link pu"
  obtain outbox where send: "dgram_send_laws q outbox"
    using assms unfolding pump_laws_def by blast
  have items: "list_all (item_ok ?n) (pu_queue pu)"
    using inv by (simp add: pump_inv_def)
  obtain st rest where run: "queue_tx_datagrams q (lk_conn ?l) (pu_queue pu) (lk_stats ?l) (pf_tx_burst_packets cfg)
      (pu_recycle pu) ?n (mtu (lk_tun ?l)) = Some (st, rest)"
    and result: "tx_result q outbox (max (pf_tx_burst_packets cfg) 1) ?n (mtu (lk_tun ?l)) (pu_queue pu)
      (tx_start (lk_conn ?l) (lk_stats ?l) (pu_recycle pu)) st rest"
    using queue_tx_result [OF send items] by blast
  obtain gone where "pu_queue pu = gone @ rest"
    using result unfolding tx_result_def by blast
  then have "list_all (item_ok ?n) rest" "length rest \<le> length (pu_queue pu)"
    using items by simp_all
  then show "\<exists>r pu'. pump_queue_datagrams q rs cfg pu = Some (r, pu') \<and> (is_ok r \<longrightarrow> pump_inv D cfg pu')"
    using inv run by (simp add: pump_queue_datagrams_def pump_inv_def Let_def)
qed

lemma pump_select_returns:
  fixes env :: "('w, 'c) pump_env"
  assumes "pump_laws D net q h rs env cfg"
  shows "returns (pump_inv D cfg) (pump_select env cfg timeout :: ('w, 'c, 'd, wake) pump_op)"
proof (rule returnsI)
  fix pu :: "('w, 'c, 'd) pump"
  assume inv: "pump_inv D cfg pu"
  let ?open = "\<not> pu_reader_closed pu \<and> length (pu_queue pu) < pf_tx_queue_len cfg"
  obtain wake w where sel: "pe_select env timeout ?open (lk_net (pu_link pu)) = (wake, w)"
    by fastforce
  have "?open \<and> item_ok (length (pf_flow_prefix cfg)) d" if "wake = FromReader (Some d)" for d
    using assms sel that unfolding pump_laws_def by blast
  then show "\<exists>r pu'. pump_select env cfg timeout pu = Some (r, pu') \<and> (is_ok r \<longrightarrow> pump_inv D cfg pu')"
    using inv sel by (cases wake) (auto simp: pump_select_def pump_inv_def split: option.split)
qed

lemma pump_ping_returns: "returns (pump_inv D cfg) (pump_ping q)"
  by (rule returnsI) (auto simp: pump_ping_def pump_inv_def split: prod.split sum.split)

lemma turn_diagnostics_returns: "returns (pump_inv D cfg) (turn_diagnostics net env)"
  unfolding turn_diagnostics_def
  by (intro returns_bind returns_if returns_modify returns_return pump_now_returns pump_elapsed_returns)
    (auto simp: store_gauges_def log_quic_path_diagnostics_def pump_inv_def Let_def take_pacing_diagnostics_def
      batch_wf_def split: prod.split)

lemma turn_checks_returns: "returns (pump_inv D cfg) (turn_checks q)"
  by (rule returnsI) (simp add: turn_checks_def)

lemma turn_telemetry_returns: "returns (pump_inv D cfg) (turn_telemetry net env)"
  unfolding turn_telemetry_def
  by (intro returns_bind returns_if returns_modify returns_return pump_now_returns pump_elapsed_returns) simp_all

lemma timers_fire_returns:
  assumes "pump_laws D net q h rs env cfg"
  shows "returns (pump_inv D cfg) (timers_fire freebsd net q cfg due)"
  unfolding timers_fire_def keepalive_if_due_def pmtud_if_due_def
  by (intro returns_bind returns_if returns_return returns_get returns_modify pump_flush_returns [OF assms]
      pump_returns pump_ping_returns) simp_all

lemma wait_times_returns: "returns (pump_inv D cfg) (wait_times net q cfg)"
  unfolding wait_times_def get_conn_def
  by (intro returns_bind returns_if returns_return returns_get pump_elapsed_returns)

lemma turn_wait_returns:
  assumes "pump_laws D net q h rs env cfg"
  shows "returns (pump_inv D cfg) (turn_wait freebsd net q env cfg)"
proof -
  have fired: "returns (pump_inv D cfg) (case wake of
           Readable (Inl e) \<Rightarrow> run_fail (PumpSocket e)
         | Readable (Inr _) \<Rightarrow> pump_drain freebsd net q
         | FromReader _ \<Rightarrow> run_return ()
         | Slept \<Rightarrow> timers_fire freebsd net q cfg due)" for wake due
    using pump_drain_returns [OF assms] timers_fire_returns [OF assms]
    by (auto split: wake.split sum.split)
  show ?thesis
    unfolding turn_wait_def Let_def
    by (rule returns_bind [OF wait_times_returns])
      (auto intro!: returns_bind pump_select_returns [OF assms] fired split: prod.split)
qed

lemma data_loop_turn_returns:
  assumes "pump_laws D net q h rs env cfg"
  shows "returns (pump_inv D cfg) (data_loop_turn freebsd net q h rs env cfg)"
  unfolding data_loop_turn_def turn_receive_def turn_h3_stats_def turn_transmit_def start_report_if_due_def
  by (intro returns_bind returns_if returns_return returns_get returns_modify pump_drain_returns [OF assms]
      pump_flush_returns [OF assms] pump_now_returns pump_elapsed_returns pump_poll_h3_returns [OF assms]
      pump_deliver_returns pump_start_report_returns flush_pending_report_returns [OF assms]
      turn_pmtu_returns fill_tx_queue_inv [OF assms] pump_queue_datagrams_returns [OF assms]
      turn_diagnostics_returns turn_checks_returns turn_telemetry_returns turn_wait_returns [OF assms])

section \<open>The TUN device under the pump\<close>

text \<open>
  All the pump does to the device is to write packets and to apply path MTUs: what both keep, every
  turn keeps, whether it succeeds or not.
\<close>

definition tun_closed :: "'d tun_rs \<Rightarrow> ('d tun_device \<Rightarrow> bool) \<Rightarrow> bool" where
  "tun_closed rs T \<longleftrightarrow>
     (\<forall>p t. T t \<longrightarrow> T (snd (send_packet rs p t)))
     \<and> (\<forall>m b t. T t \<longrightarrow> T (snd (apply_path_mtu rs m b t)))"

definition on_tun :: "('d tun_device \<Rightarrow> bool) \<Rightarrow> ('w, 'c, 'd) pump \<Rightarrow> bool" where
  "on_tun T pu \<longleftrightarrow> T (lk_tun (pu_link pu))"

lemma drain_loop_tun:
  assumes T: "tun_closed rs T"
  shows "drain_loop q get_varint rs flow_id left c stats tun = Some (hit, c', stats', tun') \<Longrightarrow> T tun \<Longrightarrow> T tun'"
proof (induction left arbitrary: c stats tun)
  case (Suc left)
  obtain r c1 where recv: "q_dgram_recv q c = (r, c1)"
    by fastforce
  have sent: "T (snd (send_packet rs p tun))" for p
    using T Suc.prems(2) unfolding tun_closed_def by blast
  show ?case
  proof (cases r)
    case (Inl e)
    then show ?thesis
      using Suc.prems recv by simp
  next
    case (Inr d)
    show ?thesis
    proof (cases "parse_datagram get_varint d flow_id")
      case None
      then show ?thesis
        using Suc.prems recv Inr Suc.IH by simp
    next
      case (Some p)
      then show ?thesis
        using Suc.prems recv Inr Suc.IH sent
        by (cases "is_ok (verdict p)") (auto simp: validate_incoming_eq)
    qed
  qed
qed simp

lemma fold_send_tun:
  assumes "tun_closed rs T"
  shows "T tun \<Longrightarrow> T (fold (\<lambda>packet tun. snd (send_packet rs packet tun)) ps tun)"
proof (induction ps arbitrary: tun)
  case (Cons p ps)
  then show ?case
    using assms unfolding tun_closed_def by simp
qed simp

lemma keeps_on_tun:
  "keeps (on_tun T) (pump_flush freebsd net q)"
  "keeps (on_tun T) (pump_drain freebsd net q)"
  "keeps (on_tun T) (pump_now net)"
  "keeps (on_tun T) (pump_conn f)"
  "keeps (on_tun T) (pump_poll_h3 h cfg)"
  "keeps (on_tun T) (pump_start_report h env now)"
  "keeps (on_tun T) (flush_pending_report h)"
  "keeps (on_tun T) (pump_ping q)"
  "keeps (on_tun T) (turn_checks q)"
  by (rule keepsI, force simp: on_tun_def pump_flush_def pump_drain_def pump_now_def pump_conn_def pump_poll_h3_def
      pump_start_report_def flush_pending_report_def pump_ping_def turn_checks_def run_simps Let_def
      split: option.splits prod.splits)+

lemma keeps_on_tun_elapsed: "keeps (on_tun T) (pump_elapsed net stamp)"
  unfolding pump_elapsed_def by (intro keeps_bind keeps_on_tun keeps_get keeps_return)

lemma keeps_on_tun_select: "keeps (on_tun T) (pump_select env cfg timeout)"
  by (rule keepsI) (auto simp: on_tun_def pump_select_def split: prod.splits wake.splits option.splits)

lemma fill_tx_queue_tun: "lk_tun (pu_link (fill_tx_queue env cfg left pu)) = lk_tun (pu_link pu)"
proof (induction left arbitrary: pu)
  case (Suc left)
  obtain got w where "pe_try_recv env (lk_net (pu_link pu)) = (got, w)"
    by fastforce
  then show ?case
    using Suc by (cases got) auto
qed simp

lemma keeps_on_tun_deliver:
  assumes "tun_closed rs T"
  shows "keeps (on_tun T) (pump_deliver q rs env cfg)"
  by (rule keepsI)
    (use drain_loop_tun [OF assms] in \<open>fastforce simp: on_tun_def pump_deliver_def drain_incoming_datagrams_def Let_def
      split: option.splits prod.splits\<close>)

lemma keeps_on_tun_queue:
  assumes "tun_closed rs T"
  shows "keeps (on_tun T) (pump_queue_datagrams q rs cfg)"
  by (rule keepsI)
    (use fold_send_tun [OF assms] in \<open>auto simp: on_tun_def pump_queue_datagrams_def Let_def
      split: option.splits prod.splits\<close>)

lemma keeps_on_tun_pmtu:
  assumes "tun_closed rs T"
  shows "keeps (on_tun T) (turn_pmtu q rs cfg)"
proof (rule keepsI)
  fix pu r pu'
  assume T: "on_tun T pu" and run: "turn_pmtu q rs cfg pu = Some (r, pu')"
  have "T tun" if "apply_path_mtu rs m True (lk_tun (pu_link pu)) = (x, tun)" for m x tun
    using assms T that unfolding tun_closed_def on_tun_def by (metis snd_conv)
  then show "on_tun T pu'"
    using run T by (auto simp: on_tun_def turn_pmtu_def Let_def split: if_splits option.splits sum.splits prod.splits)
qed

lemma keeps_on_tun_timers: "keeps (on_tun T) (timers_fire freebsd net q cfg due)"
  unfolding timers_fire_def keepalive_if_due_def pmtud_if_due_def
  by (intro keeps_bind keeps_if keeps_return keeps_modify keeps_on_tun keeps_on_tun_elapsed) (simp_all add: on_tun_def)

lemma data_loop_turn_tun:
  assumes "tun_closed rs T"
  shows "keeps (on_tun T) (data_loop_turn freebsd net q h rs env cfg)"
proof -
  have fired: "keeps (on_tun T) (case wake of
           Readable (Inl e) \<Rightarrow> run_fail (PumpSocket e)
         | Readable (Inr _) \<Rightarrow> pump_drain freebsd net q
         | FromReader _ \<Rightarrow> run_return ()
         | Slept \<Rightarrow> timers_fire freebsd net q cfg due)" for wake due
    using keeps_on_tun(2) keeps_on_tun_timers by (auto split: wake.split sum.split)
  have times: "keeps (on_tun T) (wait_times net q cfg)"
    unfolding wait_times_def get_conn_def
    by (intro keeps_bind keeps_if keeps_return keeps_get keeps_on_tun_elapsed)
  have wait: "keeps (on_tun T) (turn_wait freebsd net q env cfg)"
    unfolding turn_wait_def Let_def
    by (rule keeps_bind [OF times]) (auto intro!: keeps_bind keeps_on_tun_select fired split: prod.split)
  show ?thesis
    unfolding data_loop_turn_def turn_receive_def turn_h3_stats_def turn_transmit_def start_report_if_due_def
      turn_diagnostics_def turn_telemetry_def
    by (intro keeps_bind keeps_if keeps_return keeps_get keeps_modify keeps_on_tun keeps_on_tun_elapsed
        keeps_on_tun_deliver [OF assms] keeps_on_tun_queue [OF assms] keeps_on_tun_pmtu [OF assms] wait)
      (auto simp: on_tun_def fill_tx_queue_tun store_gauges_def log_quic_path_diagnostics_def Let_def
        split: prod.split)
qed

lemma tun_safe_closed:
  assumes "link_laws rs link_mtu link_v6" "packet_io_laws rs link_mtu link_v6"
  shows "tun_closed rs (tun_safe link_mtu link_v6)"
  unfolding tun_closed_def
proof (intro conjI allI impI)
  fix m b t
  assume "tun_safe link_mtu link_v6 t"
  then show "tun_safe link_mtu link_v6 (snd (apply_path_mtu rs m b t))"
    using apply_path_mtu_result [OF assms(1)] by (metis prod.collapse)
qed (use packet_io_safe [OF assms(2)] in blast)

section \<open>The whole loop\<close>

lemma data_loop_ends:
  assumes "data_loop freebsd net q h rs env cfg pu = Some y"
  shows "(\<exists>e. fst y = Inl e)
    \<and> (\<forall>T. tun_closed rs T \<longrightarrow> on_tun T pu \<longrightarrow> on_tun T (snd y))"
proof (rule data_loop.raw_induct [OF _ assms])
  fix f freebsd net q h rs env cfg pu y
  assume IH: "\<And>net q h rs env cfg pu b y. f net q h rs env cfg pu b = Some y \<Longrightarrow>
      (\<exists>e. fst y = Inl e) \<and> (\<forall>T. tun_closed env T \<longrightarrow> on_tun T b \<longrightarrow> on_tun T (snd y))"
    and run: "(case data_loop_turn freebsd net q h rs env cfg pu of
        None \<Rightarrow> None
      | Some (Inl e, pu') \<Rightarrow> Some (Inl e, pu')
      | Some (Inr _, pu') \<Rightarrow> f freebsd net q h rs env cfg pu') = Some y"
  obtain r pu' where turn: "data_loop_turn freebsd net q h rs env cfg pu = Some (r, pu')"
    using run by (cases "data_loop_turn freebsd net q h rs env cfg pu") auto
  have kept: "on_tun T pu'" if "tun_closed rs T" "on_tun T pu" for T
    using keepsD [OF data_loop_turn_tun [OF that(1)] that(2) turn] .
  show "(\<exists>e. fst y = Inl e) \<and> (\<forall>T. tun_closed rs T \<longrightarrow> on_tun T pu \<longrightarrow> on_tun T (snd y))"
  proof (cases r)
    case (Inl e)
    then show ?thesis
      using run turn kept by auto
  next
    case (Inr u)
    then have "f freebsd net q h rs env cfg pu' = Some y"
      using run turn by simp
    from IH [OF this] show ?thesis
      using kept by blast
  qed
qed

section \<open>Timers\<close>

lemma least_le: "Some d \<in> set xs \<Longrightarrow> \<exists>m. least xs = Some m \<and> m \<le> d"
  by (induction xs) (auto split: option.splits)

lemma least_in: "least xs = Some m \<Longrightarrow> Some m \<in> set xs"
proof (induction xs arbitrary: m)
  case (Cons x xs)
  then show ?case
    by (cases x; cases "least xs") (auto simp: min_def split: if_splits)
qed simp

lemma pump_timeout_least:
  assumes "keepalive = Some r" "\<forall>d \<in> {d. Some d \<in> {quic, pmtud, h3}}. r \<le> d"
  shows "pump_timeout quic keepalive pmtud h3 = r"
proof -
  obtain m where m: "least [quic, keepalive, pmtud, h3] = Some m" "m \<le> r"
    using least_le [of r "[quic, keepalive, pmtud, h3]"] assms(1) by auto
  then have "m = r"
    using least_in [OF m(1)] assms by auto
  then show ?thesis
    using m(1) by (simp add: pump_timeout_def)
qed

text \<open>A clock that is read in no time.\<close>

definition free_clock :: "'w net \<Rightarrow> ('w \<Rightarrow> instant) \<Rightarrow> bool" where
  "free_clock net clock \<longleftrightarrow> (\<forall>w. n_now net w = (clock w, w))"

definition pump_clock :: "('w \<Rightarrow> instant) \<Rightarrow> ('w, 'c, 'd) pump \<Rightarrow> int" where
  "pump_clock clock pu = int (clock (lk_net (pu_link pu)))"

lemma pump_reads:
  assumes "free_clock net clock"
  shows "pump_now net pu = Some (Inr (pump_clock clock pu), pu)"
    and "pump_elapsed net stamp pu = Some (Inr (nat (pump_clock clock pu - stamp pu)), pu)"
proof -
  show now: "pump_now net pu = Some (Inr (pump_clock clock pu), pu)"
    using assms by (simp add: pump_now_def free_clock_def pump_clock_def)
  show "pump_elapsed net stamp pu = Some (Inr (nat (pump_clock clock pu - stamp pu)), pu)"
    by (simp add: pump_elapsed_def run_bind_def now run_simps)
qed

definition h3_stats_wait :: "pump_config \<Rightarrow> ('w \<Rightarrow> instant) \<Rightarrow> ('w, 'c, 'd) pump \<Rightarrow> duration option" where
  "h3_stats_wait cfg clock pu =
     (if pf_report_h3_stats cfg \<and> pu_pending_h3 pu = None
      then Some (MESH_H3_STATS_INTERVAL - nat (pump_clock clock pu - pu_last_h3_stats pu)) else None)"

lemma wait_times_read:
  assumes "free_clock net clock"
  shows "wait_times net q cfg pu =
    Some (Inr (q_timeout q (lk_conn (pu_link pu)),
      keepalive_remaining (pf_keepalive_period cfg) (nat (pump_clock clock pu - pu_last_keepalive pu)),
      pmtud_remaining (pf_enable_pmtud cfg) (pf_pmtud_revalidate_period cfg) (nat (pump_clock clock pu - pu_last_pmtud pu)),
      h3_stats_wait cfg clock pu), pu)"
  by (simp add: wait_times_def get_conn_def run_bind_def run_simps pump_reads [OF assms] h3_stats_wait_def)

text \<open>\<open>pings\<close> counts the PINGs a connection was asked for, and only \<open>send_ack_eliciting\<close> adds one.\<close>

definition ping_laws :: "'c quic \<Rightarrow> ('c \<Rightarrow> nat) \<Rightarrow> bool" where
  "ping_laws q pings \<longleftrightarrow>
     (\<forall>c r c'. q_send_ack_eliciting q c = (r, c') \<longrightarrow> is_ok r \<longrightarrow> pings c' = Suc (pings c))
     \<and> (\<forall>c. pings (q_on_timeout q c) = pings c) \<and> (\<forall>c. pings (q_revalidate_pmtu q c) = pings c)
     \<and> (\<forall>cap c. pings (snd (q_send q cap c)) = pings c)"

text \<open>What a flush puts on the wire, in the words of \<open>Udp_Batch\<close>.\<close>

definition puts_out ::
    "'c quic \<Rightarrow> ('w \<Rightarrow> (instant \<times> bytes) list) \<Rightarrow> nat \<Rightarrow> 'w \<Rightarrow> 'c \<Rightarrow> bool \<Rightarrow> 'w \<Rightarrow> 'c \<Rightarrow> bool" where
  "puts_out q wire D w c ok w' c' \<longleftrightarrow>
     (\<exists>ds c1 sent p. produces q D c ds c1 \<and> wire w' = wire w @ sent \<and> prefix p ds
        \<and> list_all2 (\<lambda>(t, b) (d, at). b = d \<and> at \<le> t) sent p
        \<and> (ok \<longrightarrow> p = ds \<and> q_send q D c1 = (Inl QuicDone, c')))"

lemma pump_flush_puts_out:
  assumes "net_send_laws net wire clock stall" "quic_send_laws q pending" "batch_wf D (lk_io (pu_link pu))"
  obtains r pu' where "pump_flush freebsd net q pu = Some (r, pu')" "r = Inr () \<or> (\<exists>e. r = Inl (PumpUdp e))"
    "puts_out q wire D (lk_net (pu_link pu)) (lk_conn (pu_link pu)) (is_ok r) (lk_net (pu_link pu')) (lk_conn (pu_link pu'))"
    "pu_last_keepalive pu' = pu_last_keepalive pu"
proof -
  let ?l = "pu_link pu"
  obtain r io w c ds c1 where flush: "flush_quic freebsd net q (lk_io ?l) (lk_net ?l) (lk_conn ?l) = Some (r, io, w, c)"
    and out: "produces q D (lk_conn ?l) ds c1" "delivered wire (lk_net ?l) ds (is_ok r) w"
      "is_ok r \<longrightarrow> q_send q D c1 = (Inl QuicDone, c)"
    using flush_quic_delivers [OF assms(1,2), where io = "lk_io ?l" and D = D] assms(3) by blast
  have "puts_out q wire D (lk_net ?l) (lk_conn ?l) (is_ok r) w c"
    using out unfolding puts_out_def delivered_def on_time_def by blast
  then show thesis
    by (intro that [of "case r of Inl e \<Rightarrow> Inl (PumpUdp e) | Inr _ \<Rightarrow> Inr ()"
          "pu\<lparr>pu_link := ?l\<lparr>lk_net := w, lk_conn := c, lk_io := io\<rparr>\<rparr>"])
      (use flush in \<open>auto simp: pump_flush_def Let_def split: sum.splits\<close>)
qed

lemma pump_flush_frame:
  assumes "pump_flush freebsd net q pu = Some (r, pu')" "ping_laws q pings"
  shows "pings (lk_conn (pu_link pu')) = pings (lk_conn (pu_link pu)) \<and> pu_last_keepalive pu' = pu_last_keepalive pu"
proof -
  let ?l = "pu_link pu"
  obtain s io w c where flush: "flush_quic freebsd net q (lk_io ?l) (lk_net ?l) (lk_conn ?l) = Some (s, io, w, c)"
    using assms(1) by (auto simp: pump_flush_def Let_def split: option.splits)
  then have "pings c = pings (lk_conn ?l)"
    using flush_quic_conn [OF flush, of pings] assms(2) by (simp add: ping_laws_def)
  then show ?thesis
    using assms(1) flush by (auto simp: pump_flush_def)
qed

text \<open>When the keepalive is due the sleep's branch schedules a PING and then flushes.\<close>

lemma timers_fire_flushes:
  assumes clock: "free_clock net clock"
    and due: "keepalive_remaining (pf_keepalive_period cfg) (nat (pump_clock clock pu - pu_last_keepalive pu)) = Some 0"
    and ping: "q_send_ack_eliciting q
      (if quic_due then q_on_timeout q (lk_conn (pu_link pu)) else lk_conn (pu_link pu)) = (r, c)"
  obtains (failed) e pu' where "r = Inl e" "timers_fire freebsd net q cfg quic_due pu = Some (Inl (PumpKeepalive e), pu')"
      "lk_net (pu_link pu') = lk_net (pu_link pu)"
    | (scheduled) pu1 where "r = Inr ()" "timers_fire freebsd net q cfg quic_due pu = pump_flush freebsd net q pu1"
      "lk_conn (pu_link pu1) = c \<or> lk_conn (pu_link pu1) = q_revalidate_pmtu q c"
      "pu_last_keepalive pu1 = pump_clock clock pu" "lk_net (pu_link pu1) = lk_net (pu_link pu)"
      "lk_io (pu_link pu1) = lk_io (pu_link pu)"
proof -
  define pu0 where "pu0 = (if quic_due then pu\<lparr>pu_link := (pu_link pu)\<lparr>lk_conn := q_on_timeout q (lk_conn (pu_link pu))\<rparr>\<rparr> else pu)"
  have 0: "pump_clock clock pu0 = pump_clock clock pu" "pu_last_keepalive pu0 = pu_last_keepalive pu"
    "lk_net (pu_link pu0) = lk_net (pu_link pu)" "lk_io (pu_link pu0) = lk_io (pu_link pu)"
    "q_send_ack_eliciting q (lk_conn (pu_link pu0)) = (r, c)"
    using ping by (simp_all add: pu0_def pump_clock_def split: if_splits)
  have start: "(if quic_due then pump_conn (q_on_timeout q) else run_return ()) pu = Some (Inr (), pu0)"
    by (simp add: pu0_def pump_conn_def run_simps)
  define pu1 where "pu1 = pu0\<lparr>pu_link := (pu_link pu0)\<lparr>lk_conn := c\<rparr>\<rparr>"
  have ping0: "pump_ping q pu0 = Some ((case r of Inl e \<Rightarrow> Inl (PumpKeepalive e) | Inr _ \<Rightarrow> Inr ()), pu1)"
    using 0 by (simp add: pump_ping_def pu1_def)
  show thesis
  proof (cases r)
    case (Inl e)
    have "timers_fire freebsd net q cfg quic_due pu = Some (Inl (PumpKeepalive e), pu1)"
      using due 0 Inl ping0
      by (simp add: timers_fire_def run_bind_def start keepalive_if_due_def pump_reads [OF clock])
    then show thesis
      using failed [OF Inl] 0 by (simp add: pu1_def)
  next
    case (Inr u)
    define pu2 where "pu2 = pu1\<lparr>pu_last_keepalive := pump_clock clock pu\<rparr>"
    have 2: "lk_conn (pu_link pu2) = c" "pu_last_keepalive pu2 = pump_clock clock pu"
      "lk_net (pu_link pu2) = lk_net (pu_link pu)" "lk_io (pu_link pu2) = lk_io (pu_link pu)"
      "pump_clock clock pu1 = pump_clock clock pu"
      using 0 by (simp_all add: pu2_def pu1_def pump_clock_def)
    have pinged: "keepalive_if_due net q cfg pu0 = Some (Inr True, pu2)"
      using due 0 Inr ping0 2(5)
      by (simp add: keepalive_if_due_def run_bind_def pump_reads [OF clock] run_simps pu2_def)
    obtain revalidated pu3 where pmtud: "pmtud_if_due net q cfg pu2 = Some (Inr revalidated, pu3)"
      and 3: "lk_conn (pu_link pu3) = c \<or> lk_conn (pu_link pu3) = q_revalidate_pmtu q c"
        "pu_last_keepalive pu3 = pump_clock clock pu" "lk_net (pu_link pu3) = lk_net (pu_link pu)"
        "lk_io (pu_link pu3) = lk_io (pu_link pu)"
    proof (cases "pmtud_remaining (pf_enable_pmtud cfg) (pf_pmtud_revalidate_period cfg)
        (nat (pump_clock clock pu2 - pu_last_pmtud pu2)) = Some 0")
      case True
      show thesis
        by (rule that [of True "pu2\<lparr>pu_link := (pu_link pu2)\<lparr>lk_conn := q_revalidate_pmtu q c\<rparr>,
            pu_last_pmtud := pump_clock clock pu2, pu_applied_pmtu := None\<rparr>"])
          (use True 2 in \<open>simp_all add: pmtud_if_due_def run_bind_def pump_reads [OF clock] pump_conn_def run_simps
            pump_clock_def\<close>)
    next
      case False
      then show thesis
        using 2 by (intro that [of False pu2])
          (simp_all add: pmtud_if_due_def run_bind_def pump_reads [OF clock] run_simps)
    qed
    have "timers_fire freebsd net q cfg quic_due pu = pump_flush freebsd net q pu3"
      by (simp add: timers_fire_def run_bind_def start pinged pmtud)
    then show thesis
      using scheduled 3 Inr by simp
  qed
qed

section \<open>Samples\<close>

text \<open>A connection that counts its PINGs and has nothing else to do, and a quiet environment.\<close>

definition sample_pump_quic :: "nat quic" where
  "sample_pump_quic =
     \<lparr>q_send = (\<lambda>cap c. (Inl QuicDone, c)), q_recv = (\<lambda>d c. (Inr (length d), c)),
      q_timeout = (\<lambda>c. Some (60 * 10 ^ 9)), q_on_timeout = (\<lambda>c. c), q_is_established = (\<lambda>c. True),
      q_is_closed = (\<lambda>c. False), q_pmtu = (\<lambda>c. Some 1400), q_revalidate_pmtu = (\<lambda>c. c),
      q_send_ack_eliciting = (\<lambda>c. (Inr (), Suc c)), q_dgram_max_writable_len = (\<lambda>c. Some 1350),
      q_is_dgram_send_queue_full = (\<lambda>c. False), q_dgram_send = (\<lambda>d c. (Inl QuicDone, c)),
      q_dgram_recv = (\<lambda>c. (Inl QuicDone, c))\<rparr>"

definition sample_pump_h3 :: "nat h3" where
  "sample_pump_h3 =
     \<lparr>h_poll = (\<lambda>c. (Inl H3Done, c)), h_recv_body = (\<lambda>sid n c. (Inr 0, c)),
      h_send_request = (\<lambda>hs fin c. (Inr 4, c)), h_send_body = (\<lambda>sid b fin c. (Inl H3Done, c))\<rparr>"

definition sample_pump_env :: "(sample_world, nat) pump_env" where
  "sample_pump_env =
     \<lparr>pe_try_recv = (\<lambda>w. (ChannelEmpty, w)),
      pe_select = (\<lambda>d b w. (Slept, w\<lparr>sw_clock := sw_clock w + d\<rparr>)),
      pe_paths = (\<lambda>c. []), pe_local_ip = (\<lambda>p. V4 0), pe_to_json = (\<lambda>r. Inr []),
      pe_get_varint = rfc9000_get, pe_lost_retrans = (\<lambda>c. (0, 0))\<rparr>"

definition sample_pump_config :: pump_config where
  "sample_pump_config =
     \<lparr>pf_flow_prefix = [0, 0], pf_flow_id = 0, pf_connect_stream_id = 0, pf_report_h3_stats = False,
      pf_keepalive_period = 25 * 10 ^ 9, pf_enable_pmtud = True, pf_pmtud_revalidate_period = 600 * 10 ^ 9,
      pf_max_tun_mtu = 1500, pf_tx_queue_len = 16, pf_tx_burst_packets = 4\<rparr>"

definition sample_pump :: "(sample_world, nat, u16 \<times> 128 word option) pump" where
  "sample_pump =
     start_pump sample_net (new_channel 16) None
       \<lparr>lk_net = \<lparr>sw_clock = 0, sw_wire = [], sw_blocked = 0, sw_inbox = []\<rparr>, lk_conn = 0,
        lk_io = new_udp_batch 1500 2 0, lk_stats = new_stats, lk_tun = sample_device (1420, Some 1)\<rparr>"

lemma sample_pump_laws: "pump_laws 1500 sample_net sample_pump_quic sample_pump_h3 sample_rs sample_pump_env sample_pump_config"
proof -
  have "quic_send_laws sample_pump_quic (\<lambda>_. 0)" "dgram_send_laws sample_pump_quic (\<lambda>_. [])"
    "h3_laws sample_pump_h3 (\<lambda>_. []) (\<lambda>_. 0)" "h3_body_laws sample_pump_h3 (\<lambda>_ _. [])"
    by (auto simp: quic_send_laws_def dgram_send_laws_def h3_laws_def h3_body_laws_def sample_pump_quic_def
        sample_pump_h3_def)
  then show ?thesis
    using sample_laws(2,3) unfolding pump_laws_def sample_pump_env_def by fastforce
qed

lemma sample_pump_ready:
  "pump_inv 1500 sample_pump_config sample_pump" "tun_safe fst snd (lk_tun (pu_link sample_pump))"
  "free_clock sample_net sw_clock" "ping_laws sample_pump_quic id" "packet_io_laws sample_rs fst snd"
  using new_udp_batch_wf [of 1500 2 0] sample_device_safe(1)
  by (simp_all add: pump_inv_def sample_pump_def start_pump_def sample_net_def free_clock_def ping_laws_def
      sample_pump_quic_def packet_io_laws_def sample_rs_def)

section \<open>Properties\<close>

text \<open>
  C3. A turn of the pump always returns, without a panic and without spinning, and keeps the pump
  well formed: the queue holds at most \<open>tx_queue_len\<close> datagrams, each inside its buffer, the batch
  and the pending report stay consistent, and whatever the turn does to the TUN device, failed calls
  included, IPv6 is never on a link below 1280.
\<close>

theorem data_loop_turn_invariant:
  assumes "pump_laws D net q h rs env cfg" "link_laws rs link_mtu link_v6" "packet_io_laws rs link_mtu link_v6"
    and "pump_inv D cfg pu" "tun_safe link_mtu link_v6 (lk_tun (pu_link pu))"
  shows "\<exists>r pu'. data_loop_turn freebsd net q h rs env cfg pu = Some (r, pu')
    \<and> (r = Inr () \<longrightarrow> pump_inv D cfg pu') \<and> tun_safe link_mtu link_v6 (lk_tun (pu_link pu'))"
proof -
  obtain r pu' where turn: "data_loop_turn freebsd net q h rs env cfg pu = Some (r, pu')"
    "is_ok r \<longrightarrow> pump_inv D cfg pu'"
    using returnsD [OF data_loop_turn_returns [OF assms(1)] assms(4)] by blast
  moreover have "on_tun (tun_safe link_mtu link_v6) pu'"
    using keepsD [OF data_loop_turn_tun [OF tun_safe_closed [OF assms(2,3)]] _ turn(1)] assms(5)
    by (simp add: on_tun_def)
  ultimately show ?thesis
    by (auto simp: on_tun_def is_ok_iff)
qed

corollary data_loop_turn_invariant_witness:
  "\<exists>r pu'. data_loop_turn True sample_net sample_pump_quic sample_pump_h3 sample_rs sample_pump_env
      sample_pump_config sample_pump = Some (r, pu') \<and> tun_safe fst snd (lk_tun (pu_link pu'))"
  using data_loop_turn_invariant [OF sample_pump_laws link_laws_sample sample_pump_ready(5,1,2)] by blast

text \<open>
  C26. The keepalive is on time: when the next keepalive is due before every other timer and the
  socket and the reader stay quiet, the pump sleeps exactly until then, has the connection schedule one
  PING, and flushes it in the same turn. On success the connection with the PING in it has nothing left
  to send and everything it produced is on the wire, and the next keepalive counts from there. The turn
  fails only if \<open>send_ack_eliciting\<close> does, and then nothing is sent, or on the socket in the flush, and
  then a front part is on the wire. The deadline counts from the last PING alone.
\<close>

theorem keepalive_ping_on_time:
  assumes "pump_laws D net q h rs env cfg" "pump_inv D cfg pu" "free_clock net clock" "ping_laws q pings"
    and laws: "net_send_laws net wire clock stall"
    and due: "keepalive_remaining (pf_keepalive_period cfg) (nat (pump_clock clock pu - pu_last_keepalive pu)) = Some r"
    and first: "\<forall>d. q_timeout q (lk_conn (pu_link pu)) = Some d
        \<or> pmtud_remaining (pf_enable_pmtud cfg) (pf_pmtud_revalidate_period cfg)
            (nat (pump_clock clock pu - pu_last_pmtud pu)) = Some d
        \<or> h3_stats_wait cfg clock pu = Some d \<longrightarrow> r \<le> d"
    and past: "pu_last_keepalive pu \<le> pump_clock clock pu"
    and quiet: "\<And>b w. \<exists>w'. pe_select env r b w = (Slept, w') \<and> clock w' = clock w + r \<and> wire w' = wire w"
  shows "\<exists>res pu'. turn_wait freebsd net q env cfg pu = Some (res, pu')
    \<and> (case q_send_ack_eliciting q (if q_timeout q (lk_conn (pu_link pu)) = Some r
              then q_on_timeout q (lk_conn (pu_link pu)) else lk_conn (pu_link pu)) of
         (Inl e, _) \<Rightarrow> res = Inl (PumpKeepalive e)
           \<and> wire (lk_net (pu_link pu')) = wire (lk_net (pu_link pu))
       | (Inr _, c) \<Rightarrow> (res = Inr () \<or> (\<exists>e. res = Inl (PumpUdp e)))
           \<and> pings (lk_conn (pu_link pu')) = Suc (pings (lk_conn (pu_link pu)))
           \<and> pu_last_keepalive pu' = pump_clock clock pu + int r
           \<and> (\<exists>c1 ds c2 sent p. (c1 = c \<or> c1 = q_revalidate_pmtu q c) \<and> produces q D c1 ds c2
                \<and> wire (lk_net (pu_link pu')) = wire (lk_net (pu_link pu)) @ sent \<and> prefix p ds
                \<and> list_all2 (\<lambda>(t, b) (d, at). b = d \<and> at \<le> t) sent p
                \<and> (res = Inr () \<longrightarrow> p = ds \<and> q_send q D c2 = (Inl QuicDone, lk_conn (pu_link pu')))))"
proof -
  let ?conn = "lk_conn (pu_link pu)"
  have timeout: "pump_timeout (q_timeout q ?conn) (Some r)
      (pmtud_remaining (pf_enable_pmtud cfg) (pf_pmtud_revalidate_period cfg)
         (nat (pump_clock clock pu - pu_last_pmtud pu))) (h3_stats_wait cfg clock pu) = r"
    by (rule pump_timeout_least) (use first in auto)
  obtain w' where select: "pe_select env r (\<not> pu_reader_closed pu \<and> length (pu_queue pu) < pf_tx_queue_len cfg)
      (lk_net (pu_link pu)) = (Slept, w')" and w': "clock w' = clock (lk_net (pu_link pu)) + r"
      "wire w' = wire (lk_net (pu_link pu))"
    using quiet by blast
  define pu1 where "pu1 = pu\<lparr>pu_link := (pu_link pu)\<lparr>lk_net := w'\<rparr>\<rparr>"
  have slept: "pump_select env cfg r pu = Some (Inr Slept, pu1)"
    by (simp add: pump_select_def select pu1_def)
  have now: "pump_clock clock pu1 = pump_clock clock pu + int r" "pu_last_keepalive pu1 = pu_last_keepalive pu"
    "lk_conn (pu_link pu1) = ?conn" "lk_net (pu_link pu1) = w'" "batch_wf D (lk_io (pu_link pu1))"
    using w' assms(2) by (simp_all add: pu1_def pump_clock_def pump_inv_def)
  have "nat (pump_clock clock pu1 - pu_last_keepalive pu1) = nat (pump_clock clock pu - pu_last_keepalive pu) + r"
    using now(1,2) past by linarith
  then have zero: "keepalive_remaining (pf_keepalive_period cfg) (nat (pump_clock clock pu1 - pu_last_keepalive pu1)) = Some 0"
    using keepalive_due_after_remaining [OF due] by simp
  have "(case q_timeout q ?conn of None \<Rightarrow> False | Some t \<Rightarrow> t \<le> r) \<longleftrightarrow> q_timeout q ?conn = Some r"
    using first by (force split: option.split)
  then have step: "turn_wait freebsd net q env cfg pu = timers_fire freebsd net q cfg (q_timeout q ?conn = Some r) pu1"
    unfolding turn_wait_def run_bind_def [of "wait_times net q cfg"] wait_times_read [OF assms(3)] due
      option.case sum.case prod.case Let_def timeout
    by (simp add: run_bind_def slept)
  obtain pending where sending: "quic_send_laws q pending"
    using assms(1) unfolding pump_laws_def by blast
  obtain s c where ping: "q_send_ack_eliciting q (if q_timeout q ?conn = Some r then q_on_timeout q ?conn else ?conn) = (s, c)"
    by fastforce
  have ping1: "q_send_ack_eliciting q
      (if q_timeout q ?conn = Some r then q_on_timeout q (lk_conn (pu_link pu1)) else lk_conn (pu_link pu1)) = (s, c)"
    using ping unfolding now(3) .
  show ?thesis
  proof (rule timers_fire_flushes [OF assms(3) zero ping1, of freebsd])
    fix e pu'
    assume "s = Inl e" "timers_fire freebsd net q cfg (q_timeout q ?conn = Some r) pu1 = Some (Inl (PumpKeepalive e), pu')"
      "lk_net (pu_link pu') = lk_net (pu_link pu1)"
    then show ?thesis
      unfolding step ping using w' now(4) by simp
  next
    fix pu2
    assume scheduled: "s = Inr ()" "timers_fire freebsd net q cfg (q_timeout q ?conn = Some r) pu1 = pump_flush freebsd net q pu2"
      "lk_conn (pu_link pu2) = c \<or> lk_conn (pu_link pu2) = q_revalidate_pmtu q c"
      "pu_last_keepalive pu2 = pump_clock clock pu1" "lk_net (pu_link pu2) = lk_net (pu_link pu1)"
      "lk_io (pu_link pu2) = lk_io (pu_link pu1)"
    obtain res pu' where flush: "pump_flush freebsd net q pu2 = Some (res, pu')"
      and out: "res = Inr () \<or> (\<exists>e. res = Inl (PumpUdp e))"
        "puts_out q wire D (lk_net (pu_link pu2)) (lk_conn (pu_link pu2)) (is_ok res) (lk_net (pu_link pu')) (lk_conn (pu_link pu'))"
        "pu_last_keepalive pu' = pu_last_keepalive pu2"
      using pump_flush_puts_out [OF laws sending, of D pu2 freebsd] scheduled(6) now(5) by metis
    have "pings (lk_conn (pu_link pu2)) = Suc (pings ?conn)"
      using assms(4) ping scheduled(1,3) unfolding ping_laws_def by (auto split: if_splits)
    then have "pings (lk_conn (pu_link pu')) = Suc (pings ?conn)" "pu_last_keepalive pu' = pump_clock clock pu + int r"
      using pump_flush_frame [OF flush assms(4)] out(3) scheduled(4) now(1) by simp_all
    moreover obtain ds c2 sent p where "produces q D (lk_conn (pu_link pu2)) ds c2"
      "wire (lk_net (pu_link pu')) = wire (lk_net (pu_link pu)) @ sent" "prefix p ds"
      "list_all2 (\<lambda>(t, b) (d, at). b = d \<and> at \<le> t) sent p"
      "res = Inr () \<longrightarrow> p = ds \<and> q_send q D c2 = (Inl QuicDone, lk_conn (pu_link pu'))"
      using out(2) scheduled(5) now(4) w'(2) unfolding puts_out_def by (auto simp: is_ok_iff)
    ultimately show ?thesis
      unfolding step ping scheduled(1,2) flush prod.case sum.case using out(1) scheduled(3) by blast
  qed
qed

corollary keepalive_ping_on_time_witness:
  "\<exists>res pu'. turn_wait True sample_net sample_pump_quic sample_pump_env sample_pump_config sample_pump = Some (res, pu')
    \<and> lk_conn (pu_link pu') = 1 \<and> pu_last_keepalive pu' = 25 * 10 ^ 9"
proof -
  have clock0: "pump_clock sw_clock sample_pump = 0" "pu_last_keepalive sample_pump = 0" "pu_last_pmtud sample_pump = 0"
    "lk_conn (pu_link sample_pump) = 0"
    by (simp_all add: pump_clock_def sample_pump_def start_pump_def sample_net_def)
  have ping: "q_send_ack_eliciting sample_pump_quic c = (Inr (), Suc c)" "q_timeout sample_pump_quic c = Some (60 * 10 ^ 9)" for c
    by (simp_all add: sample_pump_quic_def)
  obtain res pu' where "turn_wait True sample_net sample_pump_quic sample_pump_env sample_pump_config sample_pump = Some (res, pu')"
    and sent: "case q_send_ack_eliciting sample_pump_quic
          (if q_timeout sample_pump_quic (lk_conn (pu_link sample_pump)) = Some (25 * 10 ^ 9)
           then q_on_timeout sample_pump_quic (lk_conn (pu_link sample_pump)) else lk_conn (pu_link sample_pump)) of
        (Inl e, _) \<Rightarrow> res = Inl (PumpKeepalive e) \<and> sw_wire (lk_net (pu_link pu')) = sw_wire (lk_net (pu_link sample_pump))
      | (Inr _, c) \<Rightarrow> (res = Inr () \<or> (\<exists>e. res = Inl (PumpUdp e)))
          \<and> id (lk_conn (pu_link pu')) = Suc (id (lk_conn (pu_link sample_pump)))
          \<and> pu_last_keepalive pu' = pump_clock sw_clock sample_pump + int (25 * 10 ^ 9)
          \<and> (\<exists>c1 ds c2 sent p. (c1 = c \<or> c1 = q_revalidate_pmtu sample_pump_quic c) \<and> produces sample_pump_quic 1500 c1 ds c2
               \<and> sw_wire (lk_net (pu_link pu')) = sw_wire (lk_net (pu_link sample_pump)) @ sent \<and> prefix p ds
               \<and> list_all2 (\<lambda>(t, b) (d, at). b = d \<and> at \<le> t) sent p
               \<and> (res = Inr () \<longrightarrow> p = ds \<and> q_send sample_pump_quic 1500 c2 = (Inl QuicDone, lk_conn (pu_link pu'))))"
    using keepalive_ping_on_time [OF sample_pump_laws sample_pump_ready(1,3,4) sample_laws(2), where r = "25 * 10 ^ 9" and freebsd = True]
    by (fastforce simp: clock0 keepalive_remaining_def pmtud_remaining_def sample_pump_config_def sample_pump_quic_def
        h3_stats_wait_def sample_pump_env_def)
  then show ?thesis
    by (auto simp: clock0 ping)
qed

text \<open>
  The pump has no successful end: when \<open>data_loop\<close> returns it is with an error (so the
  supervisor's "session ended" branch is never taken), and the TUN device it leaves behind is safe.
\<close>

theorem data_loop_only_fails:
  assumes "link_laws rs link_mtu link_v6" "packet_io_laws rs link_mtu link_v6"
    and "tun_safe link_mtu link_v6 (lk_tun (pu_link pu))"
    and "data_loop freebsd net q h rs env cfg pu = Some (r, pu')"
  shows "(\<exists>e. r = Inl e) \<and> link_safe link_mtu link_v6 (dev (lk_tun (pu_link pu')))"
  using data_loop_ends [OF assms(4)] tun_safe_closed [OF assms(1,2)] assms(3)
  by (auto simp: on_tun_def intro: tun_safe_link)

definition failing_net :: "sample_world net" where
  "failing_net = sample_net\<lparr>n_recvmmsg := \<lambda>caps w. (Inl (IoError ''ECONNREFUSED''), w)\<rparr>"

corollary data_loop_only_fails_witness:
  "\<exists>r pu'. data_loop True failing_net sample_pump_quic sample_pump_h3 sample_rs sample_pump_env
      sample_pump_config sample_pump = Some (r, pu') \<and> link_safe fst snd (dev (lk_tun (pu_link pu')))"
proof -
  have "try_recv_batch True failing_net io w = (Inl (IoError ''ECONNREFUSED''), io, w)" for io w
    by (simp add: try_recv_batch_def recvmmsg_nonblocking_def failing_net_def)
  then have "\<exists>r pu'. data_loop True failing_net sample_pump_quic sample_pump_h3 sample_rs sample_pump_env
      sample_pump_config sample_pump = Some (r, pu')"
    by (subst data_loop.simps)
      (simp add: data_loop_turn_def turn_receive_def run_bind_def pump_drain_def drain_quic.simps Let_def)
  then show ?thesis
    using data_loop_only_fails [OF link_laws_sample sample_pump_ready(5,2)] by blast
qed

end
