(* ===== verification/Config.thy ===== *)
theory Config
  imports Models "HOL-Library.Multiset"
begin

text \<open>
  \<open>config.rs\<close>: the ordered list of MASQUE endpoints, the account's endpoint values, and loading and
  saving the configuration file. The PEM decoder, \<open>serde_json\<close> and the file system are parameters.
\<close>

section \<open>Endpoints\<close>

record masque_endpoint =
  me_addr :: socket_addr
  me_host :: string
  me_pub_key :: bytes

datatype config_error =
    InvalidEndpointIp string
  | BadPublicKey string
  | NoUsableEndpoint

definition parse_socket :: "string \<Rightarrow> u16 \<Rightarrow> config_error + socket_addr" where
  "parse_socket ip_text p =
     (let normalized = unwrap_or
        (Option.bind (strip_prefix ''['' (trim ip_text)) (strip_suffix '']'')) (trim ip_text)
      in (case parse_ip normalized of
            None \<Rightarrow> Inl (InvalidEndpointIp ip_text)
          | Some addr \<Rightarrow> Inr (SocketAddr addr p)))"

definition decode_endpoint_public_key :: "(string \<Rightarrow> string + bytes) \<Rightarrow> string \<Rightarrow> config_error + bytes" where
  "decode_endpoint_public_key pem v = (case pem v of Inl e \<Rightarrow> Inl (BadPublicKey e) | Inr b \<Rightarrow> Inr b)"

definition peer_ports :: "u16 \<Rightarrow> masque_peer_config \<Rightarrow> u16 list" where
  "peer_ports port_override p =
     (if port_override \<noteq> 0 then [port_override]
      else (let api_ports = filter (\<lambda>port. port \<noteq> 0) (mp_ports p)
            in if api_ports = [] then [443] else api_ports))"

definition peer_families :: "bool \<Rightarrow> masque_peer_config \<Rightarrow> string list" where
  "peer_families prefer_ipv6 p =
     (if prefer_ipv6 then [mp_endpoint_v6 p, mp_endpoint_v4 p] else [mp_endpoint_v4 p, mp_endpoint_v6 p])"

text \<open>The endpoints so far and the pairs seen.\<close>

type_synonym selection = "masque_endpoint list \<times> (socket_addr \<times> bytes) set"

definition push_endpoint :: "masque_endpoint \<Rightarrow> selection \<Rightarrow> selection" where
  "push_endpoint e sel =
     (case sel of (endpoints, seen) \<Rightarrow>
        if (me_addr e, me_pub_key e) \<in> seen then (endpoints, seen)
        else (endpoints @ [e], insert (me_addr e, me_pub_key e) seen))"

fun for_ports ::
    "bytes \<Rightarrow> string \<Rightarrow> string \<Rightarrow> u16 list \<Rightarrow> selection \<Rightarrow> config_error + selection" where
  "for_ports key host address [] sel = Inr sel"
| "for_ports key host address (p # ports) sel =
     and_then (parse_socket address p) (\<lambda>socket.
       for_ports key host address ports
         (push_endpoint \<lparr>me_addr = socket, me_host = host, me_pub_key = key\<rparr> sel))"

fun for_families ::
    "bytes \<Rightarrow> string \<Rightarrow> u16 list \<Rightarrow> string list \<Rightarrow> selection \<Rightarrow> config_error + selection" where
  "for_families key host ports [] sel = Inr sel"
| "for_families key host ports (address # families) sel =
     (if trim address = [] then for_families key host ports families sel
      else and_then (for_ports key host address ports sel) (for_families key host ports families))"

fun for_peers ::
    "(string \<Rightarrow> string + bytes) \<Rightarrow> bool \<Rightarrow> u16 \<Rightarrow> masque_peer_config list \<Rightarrow> selection \<Rightarrow> config_error + selection" where
  "for_peers pem prefer_ipv6 port_override [] sel = Inr sel"
| "for_peers pem prefer_ipv6 port_override (p # peers) sel =
     and_then (decode_endpoint_public_key pem (mp_endpoint_pub_key p)) (\<lambda>key.
     and_then (for_families key (mp_endpoint_host p) (peer_ports port_override p) (peer_families prefer_ipv6 p) sel)
       (for_peers pem prefer_ipv6 port_override peers))"

definition port_rank :: "u16 \<Rightarrow> nat" where
  "port_rank p = (if p = 443 then 0 else if p = 1701 then 2 else 1)"

definition endpoint_rank :: "masque_endpoint \<Rightarrow> nat" where
  "endpoint_rank e = port_rank (port (me_addr e))"

definition config_peers :: "app_config \<Rightarrow> masque_peer_config list" where
  "config_peers cfg =
     (if cf_masque_peers cfg = []
      then [\<lparr>mp_endpoint_v4 = cf_endpoint_v4 cfg, mp_endpoint_v6 = cf_endpoint_v6 cfg, mp_endpoint_host = [],
             mp_ports = [], mp_endpoint_pub_key = cf_endpoint_pub_key cfg\<rparr>]
      else cf_masque_peers cfg)"

definition select_endpoints_from_config ::
    "(string \<Rightarrow> string + bytes) \<Rightarrow> app_config \<Rightarrow> bool \<Rightarrow> u16 \<Rightarrow> config_error + masque_endpoint list" where
  "select_endpoints_from_config pem cfg prefer_ipv6 port_override =
     and_then (for_peers pem prefer_ipv6 port_override (config_peers cfg) ([], {})) (\<lambda>(endpoints, seen).
       if endpoints = [] then Inl NoUsableEndpoint else Inr (sort_key endpoint_rank endpoints))"

section \<open>Account values\<close>

definition endpoint_v4_from_account_value :: "string \<Rightarrow> string" where
  "endpoint_v4_from_account_value input = unwrap_or (strip_suffix '':0'' input) input"

definition endpoint_v6_from_account_value :: "string \<Rightarrow> string" where
  "endpoint_v6_from_account_value input =
     unwrap_or (Option.bind (strip_prefix ''['' input) (strip_suffix '']:0'')) input"

section \<open>The file\<close>

text \<open>
  A file system: reading and writing a whole file and setting its mode; each may fail with a text.
\<close>

record 'f files =
  fs_exists :: "string \<Rightarrow> 'f \<Rightarrow> bool"
  fs_read :: "string \<Rightarrow> 'f \<Rightarrow> string + string"
  fs_write :: "string \<Rightarrow> string \<Rightarrow> 'f \<Rightarrow> (string + unit) \<times> 'f"
  fs_set_mode :: "string \<Rightarrow> nat \<Rightarrow> 'f \<Rightarrow> (string + unit) \<times> 'f"

record config_json =
  json_from_str :: "string \<Rightarrow> string + app_config"
  json_pretty :: "app_config \<Rightarrow> string + string"

datatype file_error =
    OpenFailed string string
  | DecodeFailed string string
  | EncodeFailed string
  | WriteFailed string string
  | RestrictFailed string string

definition load :: "'f files \<Rightarrow> config_json \<Rightarrow> string \<Rightarrow> 'f \<Rightarrow> file_error + app_config" where
  "load fs json path f =
     (case fs_read fs path f of
        Inl e \<Rightarrow> Inl (OpenFailed path e)
      | Inr raw \<Rightarrow> (case json_from_str json raw of Inl e \<Rightarrow> Inl (DecodeFailed path e) | Inr cfg \<Rightarrow> Inr cfg))"

definition save :: "'f files \<Rightarrow> config_json \<Rightarrow> string \<Rightarrow> app_config \<Rightarrow> ('f, file_error, unit) op" where
  "save fs json path cfg f =
     (case json_pretty json cfg of
        Inl e \<Rightarrow> (Inl (EncodeFailed e), f)
      | Inr raw \<Rightarrow>
          (case fs_write fs path raw f of
             (Inl e, f') \<Rightarrow> (Inl (WriteFailed path e), f')
           | (Inr _, f') \<Rightarrow> (Inr (), f')))"

text \<open>\<open>save_sensitive\<close> on Unix: \<open>384\<close> after the file was written.\<close>

definition save_sensitive :: "'f files \<Rightarrow> config_json \<Rightarrow> string \<Rightarrow> app_config \<Rightarrow> ('f, file_error, unit) op" where
  "save_sensitive fs json path cfg =
     op_bind (save fs json path cfg) (\<lambda>_ f.
       (case fs_set_mode fs path 384 f of
          (Inl e, f') \<Rightarrow> (Inl (RestrictFailed path e), f')
        | (Inr _, f') \<Rightarrow> (Inr (), f')))"

definition get_ec_private_key ::
    "(string \<Rightarrow> string + bytes) \<Rightarrow> (bytes \<Rightarrow> string + 'k) \<Rightarrow> app_config \<Rightarrow> string + 'k" where
  "get_ec_private_key base64 from_sec1_der cfg = and_then (base64 (cf_private_key cfg)) from_sec1_der"

section \<open>A reference for the selection\<close>

text \<open>
  Every candidate in the order peers, families, ports; of those with the same address and key the
  first; and then port 443 first, port 1701 last.
\<close>

fun traverse :: "('a \<Rightarrow> 'e + 'b) \<Rightarrow> 'a list \<Rightarrow> 'e + 'b list" where
  "traverse f [] = Inr []"
| "traverse f (x # xs) = and_then (f x) (\<lambda>y. and_then (traverse f xs) (\<lambda>ys. Inr (y # ys)))"

definition candidate :: "bytes \<Rightarrow> string \<Rightarrow> string \<times> u16 \<Rightarrow> config_error + masque_endpoint" where
  "candidate key host ap =
     and_then (parse_socket (fst ap) (snd ap))
       (\<lambda>socket. Inr \<lparr>me_addr = socket, me_host = host, me_pub_key = key\<rparr>)"

definition peer_addresses :: "bool \<Rightarrow> u16 \<Rightarrow> masque_peer_config \<Rightarrow> (string \<times> u16) list" where
  "peer_addresses prefer_ipv6 port_override p =
     [(address, q). address \<leftarrow> peer_families prefer_ipv6 p, trim address \<noteq> [], q \<leftarrow> peer_ports port_override p]"

definition peer_candidates ::
    "(string \<Rightarrow> string + bytes) \<Rightarrow> bool \<Rightarrow> u16 \<Rightarrow> masque_peer_config \<Rightarrow> config_error + masque_endpoint list" where
  "peer_candidates pem prefer_ipv6 port_override p =
     and_then (decode_endpoint_public_key pem (mp_endpoint_pub_key p)) (\<lambda>key.
       traverse (candidate key (mp_endpoint_host p)) (peer_addresses prefer_ipv6 port_override p))"

definition candidates ::
    "(string \<Rightarrow> string + bytes) \<Rightarrow> bool \<Rightarrow> u16 \<Rightarrow> app_config \<Rightarrow> config_error + masque_endpoint list list" where
  "candidates pem prefer_ipv6 port_override cfg =
     traverse (peer_candidates pem prefer_ipv6 port_override) (config_peers cfg)"

fun first_by :: "('a \<Rightarrow> 'b) \<Rightarrow> 'b set \<Rightarrow> 'a list \<Rightarrow> 'a list" where
  "first_by k S [] = []"
| "first_by k S (x # xs) = (if k x \<in> S then first_by k S xs else x # first_by k (insert (k x) S) xs)"

definition endpoint_key :: "masque_endpoint \<Rightarrow> socket_addr \<times> bytes" where
  "endpoint_key e = (me_addr e, me_pub_key e)"

section \<open>The loops compute the reference\<close>

lemma and_then_assoc: "and_then (and_then r f) g = and_then r (\<lambda>x. and_then (f x) g)"
  by (cases r) simp_all

lemma traverse_append:
  "traverse f (xs @ ys) = and_then (traverse f xs) (\<lambda>as. and_then (traverse f ys) (\<lambda>bs. Inr (as @ bs)))"
proof (induction xs)
  case Nil
  then show ?case
    by (cases "traverse f ys") simp_all
next
  case (Cons x xs)
  then show ?case
    by (cases "f x"; cases "traverse f xs"; cases "traverse f ys") simp_all
qed

lemma traverse_Inr: "traverse f xs = Inr ys \<longleftrightarrow> list_all2 (\<lambda>x y. f x = Inr y) xs ys"
proof (induction xs arbitrary: ys)
  case Nil
  then show ?case
    by auto
next
  case (Cons x xs)
  then show ?case
    by (cases ys) (auto simp: and_then_eq_Inr)
qed

lemma traverse_ok: "is_ok (traverse f xs) \<longleftrightarrow> (\<forall>x\<in>set xs. is_ok (f x))"
proof (induction xs)
  case (Cons x xs)
  then show ?case
    by (cases "f x"; cases "traverse f xs") simp_all
qed simp

lemma for_ports_eq:
  "for_ports key host address ports sel =
     and_then (traverse (candidate key host) (map (Pair address) ports)) (\<lambda>cs. Inr (fold push_endpoint cs sel))"
proof (induction ports arbitrary: sel)
  case (Cons p ports)
  have "candidate key host (address, p) =
      and_then (parse_socket address p) (\<lambda>socket. Inr \<lparr>me_addr = socket, me_host = host, me_pub_key = key\<rparr>)"
    by (simp add: candidate_def)
  with Cons show ?case
    by (cases "parse_socket address p"; cases "traverse (candidate key host) (map (Pair address) ports)") simp_all
qed simp

lemma for_families_eq:
  "for_families key host ports families sel =
     and_then (traverse (candidate key host) [(address, q). address \<leftarrow> families, trim address \<noteq> [], q \<leftarrow> ports])
       (\<lambda>cs. Inr (fold push_endpoint cs sel))"
proof (induction families arbitrary: sel)
  case (Cons address families)
  let ?here = "traverse (candidate key host) (map (Pair address) ports)"
    and ?rest = "traverse (candidate key host) [(address, q). address \<leftarrow> families, trim address \<noteq> [], q \<leftarrow> ports]"
  show ?case
    using Cons by (cases ?here; cases ?rest) (simp_all add: for_ports_eq traverse_append)
qed simp

lemma for_peers_eq:
  "for_peers pem prefer_ipv6 port_override peers sel =
     and_then (traverse (peer_candidates pem prefer_ipv6 port_override) peers)
       (\<lambda>css. Inr (fold push_endpoint (concat css) sel))"
proof (induction peers arbitrary: sel)
  case (Cons p peers)
  show ?case
  proof (cases "decode_endpoint_public_key pem (mp_endpoint_pub_key p)")
    case (Inl e)
    then show ?thesis
      by (simp add: peer_candidates_def)
  next
    case (Inr key)
    let ?here = "traverse (candidate key (mp_endpoint_host p)) (peer_addresses prefer_ipv6 port_override p)"
      and ?rest = "traverse (peer_candidates pem prefer_ipv6 port_override) peers"
    have "for_families key (mp_endpoint_host p) (peer_ports port_override p) (peer_families prefer_ipv6 p) sel =
        and_then ?here (\<lambda>cs. Inr (fold push_endpoint cs sel))"
      unfolding for_families_eq peer_addresses_def ..
    moreover have "peer_candidates pem prefer_ipv6 port_override p = ?here"
      using Inr by (simp add: peer_candidates_def)
    ultimately show ?thesis
      using Cons Inr by (cases ?here; cases ?rest) simp_all
  qed
qed simp

lemma fold_push:
  "fold push_endpoint cs (es, S) = (es @ first_by endpoint_key S cs, S \<union> endpoint_key ` set cs)"
  by (induction cs arbitrary: es S) (auto simp: push_endpoint_def endpoint_key_def)

lemma first_by_Nil: "first_by k {} xs = [] \<longleftrightarrow> xs = []"
  by (cases xs) simp_all

section \<open>The order\<close>

lemma insort_key_skip:
  "\<forall>y\<in>set xs. \<not> f x \<le> f y \<Longrightarrow> insort_key f x (xs @ ys) = xs @ insort_key f x ys"
  by (induction xs) simp_all

lemma insort_key_front: "\<forall>y\<in>set ys. f x \<le> f y \<Longrightarrow> insort_key f x ys = x # ys"
  by (cases ys) simp_all

lemma endpoint_rank_le: "endpoint_rank e = 0 \<or> endpoint_rank e = 1 \<or> endpoint_rank e = 2"
  by (simp add: endpoint_rank_def port_rank_def)

lemma sort_by_rank:
  "sort_key endpoint_rank es =
     filter (\<lambda>e. endpoint_rank e = 0) es @ filter (\<lambda>e. endpoint_rank e = 1) es @ filter (\<lambda>e. endpoint_rank e = 2) es"
proof (induction es)
  case (Cons e es)
  let ?r = "\<lambda>k. filter (\<lambda>e. endpoint_rank e = k) es"
  have "sort_key endpoint_rank (e # es) = insort_key endpoint_rank e (?r 0 @ ?r 1 @ ?r 2)"
    by (simp only: sort_key_simps Cons)
  moreover consider "endpoint_rank e = 0" | "endpoint_rank e = 1" | "endpoint_rank e = 2"
    using endpoint_rank_le [of e] by (elim disjE)
  then have "insort_key endpoint_rank e (?r 0 @ ?r 1 @ ?r 2)
      = filter (\<lambda>e. endpoint_rank e = 0) (e # es) @ filter (\<lambda>e. endpoint_rank e = 1) (e # es)
        @ filter (\<lambda>e. endpoint_rank e = 2) (e # es)"
  proof cases
    case 1
    then show ?thesis
      using insort_key_front [of "?r 0 @ ?r 1 @ ?r 2" endpoint_rank e] by simp
  next
    case 2
    then have "\<forall>y\<in>set (?r 1 @ ?r 2). endpoint_rank e \<le> endpoint_rank y"
      by auto
    then show ?thesis
      using 2 insort_key_skip [of "?r 0" endpoint_rank e "?r 1 @ ?r 2"]
        insort_key_front [of "?r 1 @ ?r 2" endpoint_rank e] by simp
  next
    case 3
    then have "\<forall>y\<in>set (?r 0 @ ?r 1). \<not> endpoint_rank e \<le> endpoint_rank y"
      by auto
    then show ?thesis
      using 3 insort_key_skip [of "?r 0 @ ?r 1" endpoint_rank e "?r 2"]
        insort_key_front [of "?r 2" endpoint_rank e] by simp
  qed
  ultimately show ?case
    by simp
qed simp

lemma select_eq:
  "select_endpoints_from_config pem cfg prefer_ipv6 port_override =
     and_then (candidates pem prefer_ipv6 port_override cfg) (\<lambda>css.
       if concat css = [] then Inl NoUsableEndpoint
       else Inr (sort_key endpoint_rank (first_by endpoint_key {} (concat css))))"
  unfolding select_endpoints_from_config_def for_peers_eq candidates_def and_then_assoc
  by (cases "traverse (peer_candidates pem prefer_ipv6 port_override) (config_peers cfg)")
    (simp_all add: fold_push first_by_Nil)

section \<open>The family preference\<close>

lemma first_by_append: "first_by k S (xs @ ys) = first_by k S xs @ first_by k (S \<union> k ` set xs) ys"
  by (induction xs arbitrary: S) (simp_all add: insert_absorb)

lemma set_first_by: "inj_on k (set xs) \<Longrightarrow> set (first_by k S xs) = {x \<in> set xs. k x \<notin> S}"
proof (induction xs arbitrary: S)
  case (Cons x xs)
  then show ?case
    by (auto simp: inj_on_def)
qed simp

lemma set_first_by_concat:
  "list_all2 (\<lambda>xs ys. set xs = set ys \<and> inj_on k (set xs)) xss yss \<Longrightarrow>
     set (first_by k S (concat xss)) = set (first_by k S (concat yss))"
proof (induction xss yss arbitrary: S rule: list_all2_induct)
  case (Cons xs xss ys yss)
  then have same: "set ys = set xs" and inj: "inj_on k (set xs)"
    by (blast, blast)
  have "inj_on k (set ys)"
    using same inj by (rule ssubst)
  with inj have "set (first_by k S ys) = set (first_by k S xs)"
    by (simp only: set_first_by same)
  then show ?case
    using Cons.IH same by (simp add: first_by_append)
qed simp

lemma peer_addresses_set:
  "set (peer_addresses True port_override p) = set (peer_addresses False port_override p)"
  by (auto simp: peer_addresses_def peer_families_def)

lemma traverse_same_set:
  assumes "set xs = set ys" "traverse f xs = Inr as"
  shows "\<exists>bs. traverse f ys = Inr bs \<and> set bs = set as"
proof -
  have "is_ok (traverse f ys)"
    using assms traverse_ok [of f xs] traverse_ok [of f ys] by simp
  then obtain bs where bs: "traverse f ys = Inr bs"
    by (auto simp: is_ok_iff)
  have sets: "set zs = {z. \<exists>x\<in>set us. f x = Inr z}" if "traverse f us = Inr zs" for us zs
    using that unfolding traverse_Inr
    by (induction rule: list_all2_induct) auto
  have "set bs = set as"
    using sets [OF assms(2)] sets [OF bs] assms(1) by simp
  then show ?thesis
    using bs by blast
qed

lemma peer_candidates_inj:
  assumes "peer_candidates pem prefer_ipv6 port_override p = Inr cs"
  shows "inj_on endpoint_key (set cs)"
proof -
  obtain key where "traverse (candidate key (mp_endpoint_host p)) (peer_addresses prefer_ipv6 port_override p) = Inr cs"
    using assms by (auto simp: peer_candidates_def and_then_eq_Inr)
  then have "\<forall>c\<in>set cs. me_host c = mp_endpoint_host p"
    unfolding traverse_Inr
    by (induction rule: list_all2_induct) (auto simp: candidate_def and_then_eq_Inr)
  then show ?thesis
    by (auto simp: inj_on_def endpoint_key_def)
qed

lemma peer_candidates_prefer:
  assumes "peer_candidates pem a port_override p = Inr cs"
  shows "\<exists>ds. peer_candidates pem b port_override p = Inr ds \<and> set ds = set cs"
proof -
  have "set (peer_addresses a port_override p) = set (peer_addresses b port_override p)"
    using peer_addresses_set by (cases a; cases b) simp_all
  then show ?thesis
    using assms traverse_same_set [of "peer_addresses a port_override p" "peer_addresses b port_override p"]
    by (fastforce simp: peer_candidates_def and_then_eq_Inr)
qed

lemma candidates_prefer:
  assumes "candidates pem a port_override cfg = Inr css"
  shows "\<exists>dss. candidates pem b port_override cfg = Inr dss
    \<and> list_all2 (\<lambda>xs ys. set xs = set ys \<and> inj_on endpoint_key (set xs)) css dss"
  using assms unfolding candidates_def traverse_Inr
proof (induction rule: list_all2_induct)
  case (Cons p peers cs css)
  obtain ds where "peer_candidates pem b port_override p = Inr ds" "set ds = set cs"
    using peer_candidates_prefer [OF Cons.hyps(1)] by blast
  then show ?case
    using Cons.IH peer_candidates_inj [OF Cons.hyps(1)] by fastforce
qed simp

section \<open>Account values\<close>

lemma endpoint_values_samples:
  "endpoint_v4_from_account_value ''162.159.198.1:0'' = ''162.159.198.1''"
  "endpoint_v6_from_account_value ''[2606:4700:103::1]:0'' = ''2606:4700:103::1''"
  "endpoint_v4_from_account_value ''162.159.198.1'' = ''162.159.198.1''"
  by code_simp+

section \<open>Files\<close>

text \<open>
  A file that was set to a mode has it, whatever happens to others; only \<open>fs_write\<close> changes contents.
\<close>

definition file_laws :: "'f files \<Rightarrow> (string \<Rightarrow> 'f \<Rightarrow> nat) \<Rightarrow> bool" where
  "file_laws fs mode \<longleftrightarrow>
     (\<forall>path text f f'. fs_write fs path text f = (Inr (), f') \<longrightarrow> fs_read fs path f' = Inr text)
     \<and> (\<forall>path m f f'. fs_set_mode fs path m f = (Inr (), f') \<longrightarrow> mode path f' = m \<and> fs_read fs path f' = fs_read fs path f)"

lemma save_sensitive_done:
  assumes "file_laws fs mode" "save_sensitive fs json path cfg f = (Inr (), f')"
  shows "mode path f' = 384 \<and> (\<exists>raw. json_pretty json cfg = Inr raw \<and> fs_read fs path f' = Inr raw)"
proof -
  obtain f1 where saved: "save fs json path cfg f = (Inr (), f1)"
    and restrict: "fs_set_mode fs path 384 f1 = (Inr (), f')"
  proof -
    obtain f1 where "save fs json path cfg f = (Inr (), f1)"
      "(case fs_set_mode fs path 384 f1 of
          (Inl e, f') \<Rightarrow> (Inl (RestrictFailed path e), f') | (Inr _, f') \<Rightarrow> (Inr (), f')) = (Inr (), f')"
      using assms(2) unfolding save_sensitive_def op_bind_eq_Inr by auto
    moreover from this(2) have "fs_set_mode fs path 384 f1 = (Inr (), f')"
      by (cases "fs_set_mode fs path 384 f1"; cases "fst (fs_set_mode fs path 384 f1)") auto
    ultimately show thesis
      using that by blast
  qed
  obtain raw where "json_pretty json cfg = Inr raw" "fs_write fs path raw f = (Inr (), f1)"
    using saved by (auto simp: save_def split: prod.splits sum.splits)
  then show ?thesis
    using assms(1) restrict unfolding file_laws_def by metis
qed

section \<open>Properties\<close>

text \<open>
  C15. \<open>select_endpoints_from_config\<close> computes the reference: every candidate (peer by peer, family
  by family, port by port), of those with the same socket address and key the first, and then those
  on port 443, those on other ports and those on port 1701, each in that order; an unusable value is
  an error, and so is an empty list.
\<close>

theorem select_endpoints_reference:
  "select_endpoints_from_config pem cfg prefer_ipv6 port_override =
     (case candidates pem prefer_ipv6 port_override cfg of
        Inl e \<Rightarrow> Inl e
      | Inr css \<Rightarrow>
          (let es = first_by endpoint_key {} (concat css)
           in if es = [] then Inl NoUsableEndpoint
              else Inr (filter (\<lambda>e. port (me_addr e) = 443) es
                        @ filter (\<lambda>e. port (me_addr e) \<notin> {443, 1701}) es
                        @ filter (\<lambda>e. port (me_addr e) = 1701) es)))"
proof -
  have "filter (\<lambda>e. endpoint_rank e = 0) es = filter (\<lambda>e. port (me_addr e) = 443) es"
    "filter (\<lambda>e. endpoint_rank e = 1) es = filter (\<lambda>e. port (me_addr e) \<notin> {443, 1701}) es"
    "filter (\<lambda>e. endpoint_rank e = 2) es = filter (\<lambda>e. port (me_addr e) = 1701) es" for es
    by (auto simp: endpoint_rank_def port_rank_def intro: filter_cong)
  then show ?thesis
    unfolding select_eq sort_by_rank
    by (cases "candidates pem prefer_ipv6 port_override cfg") (simp_all add: first_by_Nil Let_def)
qed

text \<open>
  \<open>prefer_ipv6\<close> changes the order only: with and without it the selection succeeds alike, and
  yields the same endpoints.
\<close>

theorem prefer_ipv6_orders_only:
  assumes "select_endpoints_from_config pem cfg prefer port_override = Inr es"
  shows "\<exists>fs. select_endpoints_from_config pem cfg (\<not> prefer) port_override = Inr fs \<and> set fs = set es"
proof -
  obtain css where css: "candidates pem prefer port_override cfg = Inr css" "concat css \<noteq> []"
    and es: "es = sort_key endpoint_rank (first_by endpoint_key {} (concat css))"
    using assms unfolding select_eq by (auto simp: and_then_eq_Inr split: if_splits)
  obtain dss where dss: "candidates pem (\<not> prefer) port_override cfg = Inr dss"
    and same: "list_all2 (\<lambda>xs ys. set xs = set ys \<and> inj_on endpoint_key (set xs)) css dss"
    using candidates_prefer [OF css(1)] by blast
  have sets: "set (first_by endpoint_key {} (concat css)) = set (first_by endpoint_key {} (concat dss))"
    using set_first_by_concat [OF same] .
  then have "concat dss \<noteq> []"
    using css(2) first_by_Nil by (metis empty_set set_empty2)
  then show ?thesis
    using dss es sets by (simp add: select_eq)
qed

definition sample_config :: app_config where
  "sample_config =
     \<lparr>cf_role = RoleClient, cf_mesh_node = None, cf_private_key = [], cf_endpoint_v4 = ''192.0.2.20'',
      cf_endpoint_v6 = ''::1'', cf_endpoint_pub_key = ''key'', cf_license = [], cf_id = [],
      cf_access_token = [], cf_ipv4 = ''100.96.0.1/32'', cf_ipv6 = [], cf_device_identity = default_identity,
      cf_masque_peers = []\<rparr>"

lemma sample_v4: "parse_ip ''192.0.2.20'' = Some (V4 0xC0000214)"
proof -
  have "show_ipv4 0xC0000214 = ''192.0.2.20''"
    by (simp add: show_ipv4_def dec.simps char_of_def bit_Suc_0_iff)
  then show ?thesis
    using parse_ip_show_ipv4 [of "0xC0000214"] by simp
qed

lemma sample_v6: "parse_ip ''::1'' = Some (V6 1)"
proof -
  have "read_ipv4 ''::1'' = None" "read_ipv4 ''1'' = None"
    by code_simp+
  moreover have "foldl (\<lambda>acc. (+) (acc * 65536)) (0 :: nat) (replicate n 0) = 0" for n
    by (induction n) simp_all
  ultimately show ?thesis
    by (simp add: parse_ip_def parse_ipv6_def read_ipv6_def read_groups.simps read_separator_def
        read_char_def read_number_def to_digit_def ipv6_of_groups_def)
qed

lemma sample_texts:
  "trim ''192.0.2.20'' = ''192.0.2.20''" "trim ''::1'' = ''::1''"
  "strip_prefix ''['' ''192.0.2.20'' = None" "strip_prefix ''['' ''::1'' = None"
  by code_simp+

lemma sample_selection:
  "select_endpoints_from_config (\<lambda>_. Inr [1]) sample_config False 4443 =
     Inr [\<lparr>me_addr = SocketAddr (V4 0xC0000214) 4443, me_host = [], me_pub_key = [1]\<rparr>,
          \<lparr>me_addr = SocketAddr (V6 1) 4443, me_host = [], me_pub_key = [1]\<rparr>]"
  by (simp add: select_endpoints_from_config_def config_peers_def sample_config_def peer_ports_def
      peer_families_def decode_endpoint_public_key_def parse_socket_def push_endpoint_def
      sample_texts sample_v4 sample_v6 endpoint_rank_def port_rank_def)

corollary prefer_ipv6_orders_only_witness:
  "\<exists>fs. select_endpoints_from_config (\<lambda>_. Inr [1]) sample_config True 4443 = Inr fs \<and> length fs \<noteq> 0"
  using prefer_ipv6_orders_only [OF sample_selection] by fastforce

text \<open>
  Credentials: when \<open>save_sensitive\<close> succeeds the file holds the encoded configuration and its
  mode is 0600, whatever it was before.
\<close>

theorem save_sensitive_restricts:
  assumes "file_laws fs mode" "save_sensitive fs json path cfg f = (Inr (), f')"
  shows "mode path f' = 6 * 8 * 8 \<and> (\<exists>raw. json_pretty json cfg = Inr raw \<and> fs_read fs path f' = Inr raw)"
  using save_sensitive_done [OF assms] by simp

text \<open>A file system with one entry per path: its text and its mode.\<close>

definition memory_files :: "(string \<Rightarrow> (string \<times> nat) option) files" where
  "memory_files =
     \<lparr>fs_exists = (\<lambda>path f. f path \<noteq> None),
      fs_read = (\<lambda>path f. ok_or ''no such file'' (map_option fst (f path))),
      fs_write = (\<lambda>path text f.
        (Inr (), f(path \<mapsto> (text, (case f path of None \<Rightarrow> 420 | Some (_, m) \<Rightarrow> m))))),
      fs_set_mode = (\<lambda>path m f.
        (case f path of
           None \<Rightarrow> (Inl ''no such file'', f)
         | Some (text, _) \<Rightarrow> (Inr (), f(path \<mapsto> (text, m)))))\<rparr>"

definition memory_mode :: "string \<Rightarrow> (string \<Rightarrow> (string \<times> nat) option) \<Rightarrow> nat" where
  "memory_mode path f = (case f path of None \<Rightarrow> 0 | Some (_, m) \<Rightarrow> m)"

lemma memory_file_laws: "file_laws memory_files memory_mode"
  by (auto simp: file_laws_def memory_files_def memory_mode_def ok_or_def split: option.splits)

corollary save_sensitive_restricts_witness:
  "memory_mode ''config.json'' [''config.json'' \<mapsto> (''{}'', 384)] = 384"
proof -
  have "save_sensitive memory_files \<lparr>json_from_str = \<lambda>_. Inl [], json_pretty = \<lambda>_. Inr ''{}''\<rparr> ''config.json''
      sample_config (\<lambda>_. None) = (Inr (), [''config.json'' \<mapsto> (''{}'', 384)])"
    by (simp add: save_sensitive_def save_def op_bind_def memory_files_def)
  then show ?thesis
    using save_sensitive_restricts [OF memory_file_laws] by fastforce
qed

end
