(* ===== verification/Session_Setup.thy ===== *)
theory Session_Setup
  imports Data_Loop Config Socket_Buffer Complex_Main
begin

text \<open>
  What a tunnel session is set up from: the settings of a \<open>MasqueConfig\<close> (\<open>api/masque.rs\<close>), the
  calls they make on the \<open>quiche\<close> configuration, the client's TLS material
  (\<open>api/masque/handshake.rs\<close>) and the UDP socket (\<open>api/masque/udp.rs\<close>).
\<close>

section \<open>Operations as runs\<close>

text \<open>A call whose error gets a context, and one whose result is only logged.\<close>

definition run_of :: "('e \<Rightarrow> 'f) \<Rightarrow> ('s, 'e, 'a) op \<Rightarrow> ('s, 'f, 'a) run" where
  "run_of err m s = (case m s of (Inl e, s') \<Rightarrow> Some (Inl (err e), s') | (Inr x, s') \<Rightarrow> Some (Inr x, s'))"

definition run_ignore :: "('s \<Rightarrow> ('r \<times> 's) option) \<Rightarrow> ('s, 'f, unit) run" where
  "run_ignore m s = (case m s of None \<Rightarrow> None | Some (_, s') \<Rightarrow> Some (Inr (), s'))"

section \<open>Settings\<close>

text \<open>A double: a rational number, an infinity or not a number.\<close>

datatype f64 = F64 rat | F64PosInf | F64NegInf | F64NaN

definition f64_epsilon :: rat where "f64_epsilon = 1 / 2 ^ 52"

text \<open>\<open>x > 0.0\<close>\<close>

definition f64_positive :: "f64 \<Rightarrow> bool" where
  "f64_positive x = (case x of F64 r \<Rightarrow> 0 < r | F64PosInf \<Rightarrow> True | F64NegInf \<Rightarrow> False | F64NaN \<Rightarrow> False)"

text \<open>
  \<open>(x - 1.0).abs() > f64::EPSILON\<close>: the subtraction is exact from 1/2 to 2 and, rounded, larger
  than the bound elsewhere.
\<close>

definition f64_not_one :: "f64 \<Rightarrow> bool" where
  "f64_not_one x =
     (case x of F64 r \<Rightarrow> f64_epsilon < \<bar>r - 1\<bar> | F64PosInf \<Rightarrow> True | F64NegInf \<Rightarrow> True | F64NaN \<Rightarrow> False)"

record quic_transport_config =
  qt_keepalive_period :: duration
  qt_max_idle_timeout :: duration
  qt_initial_packet_size :: u16
  qt_cc_algorithm :: string
  qt_initial_cwnd_packets :: nat
  qt_disable_pacing :: bool
  qt_relaxed_loss :: bool
  qt_send_capacity_factor :: f64
  qt_max_pacing_rate_bps :: nat

record path_mtu_config =
  pm_enabled :: bool
  pm_max_probes :: nat
  pm_revalidate_period :: duration
  pm_initial_tun_mtu :: u16
  pm_max_tun_mtu :: u16
  pm_tunnel_ipv6 :: bool

record datagram_io_config =
  di_udp_socket_buffer :: nat
  di_tx_queue_len :: nat
  di_tx_burst_packets :: nat
  di_packet_buffer_pool_size :: nat
  di_udp_batch_size :: nat

record reconnect_policy =
  rc_delay :: duration
  rc_always :: bool

type_synonym environment = "string \<rightharpoonup> string"

record lifecycle_hooks =
  lh_on_connect :: "string option"
  lh_on_disconnect :: "string option"
  lh_env :: environment

record 'k masque_config =
  mc_private_key :: 'k
  mc_sni :: string
  mc_insecure :: bool
  mc_endpoints :: "masque_endpoint list"
  mc_user_agent :: string
  mc_connect_profile :: cloudflare_connect_profile
  mc_quic :: quic_transport_config
  mc_path_mtu :: path_mtu_config
  mc_io :: datagram_io_config
  mc_reconnect :: reconnect_policy
  mc_hooks :: lifecycle_hooks
  mc_activation_probe :: "bytes option"

text \<open>\<open>device_state\<close>, a handle on a shared reporter, is part of the state: \<open>ho_reporter\<close> in the theory \<open>Session\<close>.\<close>

section \<open>The client's TLS material\<close>

datatype tls_error =
    EncodeKeyFailed string
  | LoadKeyPairFailed string
  | CertificateParamsFailed string
  | SelfSignFailed string
  | TempFileFailed string
  | TempWriteFailed string
  | TempFlushFailed string

text \<open>
  The crates \<open>p256\<close>, \<open>rcgen\<close>, \<open>time\<close> and \<open>tempfile\<close>: \<open>tc_self_signed not_before not_after\<close> is
  the PEM text of the certificate; a temporary file is named by its path.
\<close>

record ('k, 'p, 'w) tls_crates =
  tc_pkcs8_pem :: "'k \<Rightarrow> string + string"
  tc_key_pair :: "string \<Rightarrow> string + 'p"
  tc_certificate_params :: "string + unit"
  tc_now_utc :: "'w \<Rightarrow> nat \<times> 'w"
  tc_self_signed :: "nat \<Rightarrow> nat \<Rightarrow> 'p \<Rightarrow> string + string"
  tc_temp_file :: "('w, string, string) op"
  tc_write_all :: "string \<Rightarrow> string \<Rightarrow> ('w, string, unit) op"
  tc_flush :: "string \<Rightarrow> ('w, string, unit) op"

record tls_material =
  tls_cert_pem_file :: string
  tls_key_pem_file :: string
  tls_endpoint_pub_key :: bytes

definition write_temp_file :: "('k, 'p, 'w) tls_crates \<Rightarrow> string \<Rightarrow> ('w, tls_error, string) run" where
  "write_temp_file tls text =
     run_bind (run_of TempFileFailed (tc_temp_file tls)) (\<lambda>path.
     run_bind (run_of TempWriteFailed (tc_write_all tls path text)) (\<lambda>_.
     run_bind (run_of TempFlushFailed (tc_flush tls path)) (\<lambda>_.
     run_return path)))"

definition lift_error :: "('e \<Rightarrow> 'f) \<Rightarrow> 'e + 'a \<Rightarrow> 'f + 'a" where
  "lift_error err r = (case r of Inl e \<Rightarrow> Inl (err e) | Inr x \<Rightarrow> Inr x)"

definition now_utc :: "('k, 'p, 'w) tls_crates \<Rightarrow> ('w, 'e, nat) run" where
  "now_utc tls w = (case tc_now_utc tls w of (t, w') \<Rightarrow> Some (Inr t, w'))"

definition prepare_tls_material ::
    "('k, 'p, 'w) tls_crates \<Rightarrow> 'k masque_config \<Rightarrow> masque_endpoint \<Rightarrow> ('w, tls_error, tls_material) run" where
  "prepare_tls_material tls cfg endpoint =
     run_bind (run_lift (lift_error EncodeKeyFailed (tc_pkcs8_pem tls (mc_private_key cfg)))) (\<lambda>key_pem.
     run_bind (run_lift (lift_error LoadKeyPairFailed (tc_key_pair tls key_pem))) (\<lambda>key_pair.
     run_bind (run_lift (lift_error CertificateParamsFailed (tc_certificate_params tls))) (\<lambda>_.
     run_bind (now_utc tls) (\<lambda>not_before.
     run_bind (now_utc tls) (\<lambda>now.
     run_bind (run_lift (lift_error SelfSignFailed
                (tc_self_signed tls not_before (now + 24 * 60 * 60 * 10 ^ 9) key_pair))) (\<lambda>cert.
     run_bind (write_temp_file tls cert) (\<lambda>cert_pem_file.
     run_bind (write_temp_file tls key_pem) (\<lambda>key_pem_file.
     run_return \<lparr>tls_cert_pem_file = cert_pem_file, tls_key_pem_file = key_pem_file,
                 tls_endpoint_pub_key = me_pub_key endpoint\<rparr>))))))))"

section \<open>The QUIC configuration\<close>

definition DGRAM_QUEUE_LEN :: nat where "DGRAM_QUEUE_LEN = 16384"

definition duration_millis :: "duration \<Rightarrow> nat" where
  "duration_millis d = (if d = 0 then 0 else clamp_nat 1 u64_max (d div 10 ^ 6))"

text \<open>One call on \<open>quiche::Config\<close>.\<close>

datatype quic_setting =
    VerifyPeer bool
  | ApplicationProtos
  | CertChainFile string
  | PrivKeyFile string
  | MaxIdleTimeout nat
  | MaxRecvUdpPayload nat
  | MaxSendUdpPayload nat
  | DiscoverPmtu bool
  | PmtudMaxProbes nat
  | InitialMaxData nat
  | InitialMaxStreamDataBidiLocal nat
  | InitialMaxStreamDataBidiRemote nat
  | InitialMaxStreamDataUni nat
  | InitialMaxStreamsBidi nat
  | InitialMaxStreamsUni nat
  | CcAlgorithm string
  | InitialCwndPackets nat
  | EnablePacing bool
  | RelaxedLossThreshold bool
  | SendCapacityFactor f64
  | MaxPacingRate nat
  | DisableActiveMigration bool
  | EnableDgram bool nat nat

definition udp_payload :: "'k masque_config \<Rightarrow> nat" where
  "udp_payload cfg =
     (if 0 < qt_initial_packet_size (mc_quic cfg) then unat (qt_initial_packet_size (mc_quic cfg))
      else MAX_DATAGRAM_SIZE)"

definition session_settings :: "'k masque_config \<Rightarrow> tls_material \<Rightarrow> quic_setting list" where
  "session_settings cfg material =
     (let qt = mc_quic cfg; pm = mc_path_mtu cfg
      in [VerifyPeer False, ApplicationProtos, CertChainFile (tls_cert_pem_file material),
          PrivKeyFile (tls_key_pem_file material), MaxIdleTimeout (duration_millis (qt_max_idle_timeout qt)),
          MaxRecvUdpPayload (udp_payload cfg), MaxSendUdpPayload (udp_payload cfg), DiscoverPmtu (pm_enabled pm)]
         @ (if pm_enabled pm then [PmtudMaxProbes (pm_max_probes pm)] else [])
         @ [InitialMaxData 64000000, InitialMaxStreamDataBidiLocal 8000000,
            InitialMaxStreamDataBidiRemote 8000000, InitialMaxStreamDataUni 8000000,
            InitialMaxStreamsBidi 100, InitialMaxStreamsUni 100]
         @ (if trim (qt_cc_algorithm qt) \<noteq> [] then [CcAlgorithm (trim (qt_cc_algorithm qt))] else [])
         @ [InitialCwndPackets (qt_initial_cwnd_packets qt)]
         @ (if qt_disable_pacing qt then [EnablePacing False] else [])
         @ (if qt_relaxed_loss qt then [RelaxedLossThreshold True] else [])
         @ (if f64_positive (qt_send_capacity_factor qt) \<and> f64_not_one (qt_send_capacity_factor qt)
            then [SendCapacityFactor (qt_send_capacity_factor qt)] else [])
         @ (if 0 < qt_max_pacing_rate_bps qt
            then [MaxPacingRate (max (qt_max_pacing_rate_bps qt div 1000000) 1)] else [])
         @ [DisableActiveMigration True, EnableDgram True DGRAM_QUEUE_LEN DGRAM_QUEUE_LEN])"

text \<open>The calls in order; one that fails ends the session.\<close>

fun apply_settings :: "(quic_setting \<Rightarrow> 'q \<Rightarrow> string + 'q) \<Rightarrow> quic_setting list \<Rightarrow> 'q \<Rightarrow> string + 'q" where
  "apply_settings call [] q = Inr q"
| "apply_settings call (s # settings) q = and_then (call s q) (apply_settings call settings)"

section \<open>The socket\<close>

datatype socket_error =
    CreateSocketFailed io_error
  | BindFailed io_error
  | ConnectFailed io_error
  | NonblockingFailed io_error
  | TokioFailed io_error

record 'w sockets =
  so_new :: "bool \<Rightarrow> ('w, io_error, unit) op"
  so_recv_buffer_size :: "('w, io_error, nat) op"
  so_set_recv_buffer_size :: "nat \<Rightarrow> ('w, io_error, unit) op"
  so_send_buffer_size :: "('w, io_error, nat) op"
  so_set_send_buffer_size :: "nat \<Rightarrow> ('w, io_error, unit) op"
  so_bind :: "socket_addr \<Rightarrow> ('w, io_error, unit) op"
  so_connect :: "socket_addr \<Rightarrow> ('w, io_error, unit) op"
  so_set_nonblocking :: "('w, io_error, unit) op"
  so_from_std :: "('w, io_error, unit) op"
  so_local_addr :: "('w, io_error, socket_addr) op"

text \<open>\<open>so_new True\<close> is an IPv4 socket.\<close>

definition create_connected_udp_socket ::
    "'w sockets \<Rightarrow> socket_addr \<Rightarrow> nat \<Rightarrow> ('w, socket_error, unit) run" where
  "create_connected_udp_socket so endpoint socket_buffer_size =
     (let v4 = is_ipv4 (ip endpoint);
          bind_addr = SocketAddr (if v4 then V4 0 else V6 0) 0
      in run_bind (run_of CreateSocketFailed (so_new so v4)) (\<lambda>_.
         run_bind (run_ignore (tune_socket_buffer (so_recv_buffer_size so) (so_set_recv_buffer_size so)
                     socket_buffer_size)) (\<lambda>_.
         run_bind (run_ignore (tune_socket_buffer (so_send_buffer_size so) (so_set_send_buffer_size so)
                     socket_buffer_size)) (\<lambda>_.
         run_bind (run_of BindFailed (so_bind so bind_addr)) (\<lambda>_.
         run_bind (run_of ConnectFailed (so_connect so endpoint)) (\<lambda>_.
         run_bind (run_of NonblockingFailed (so_set_nonblocking so)) (\<lambda>_.
         run_of TokioFailed (so_from_std so))))))))"

section \<open>Properties of the setup\<close>

lemma run_of_eq [run_simps]:
  "run_of err m s = (case m s of (r, s') \<Rightarrow> Some (lift_error err r, s'))"
  by (simp add: run_of_def lift_error_def split: prod.splits sum.splits)

lemma returns_run_of [intro]: "returns (\<lambda>_. True) (run_of err m)"
  by (rule returnsI) (auto simp: run_of_eq split: prod.splits)

text \<open>The socket is set up or refused, whatever the kernel answers.\<close>

lemma create_connected_udp_socket_returns:
  assumes "socket_buffer_size \<le> usize_max"
  shows "returns (\<lambda>_. True) (create_connected_udp_socket so endpoint socket_buffer_size)"
proof -
  have "returns (\<lambda>_. True) (run_ignore (tune_socket_buffer getter setter socket_buffer_size))"
    for getter :: "('w, io_error, nat) op" and setter
  proof (rule returnsI)
    fix w
    obtain r where "tune_socket_buffer getter setter socket_buffer_size w = Some r"
      using tune_total [OF assms, of getter setter w] by (elim exE)
    then show "\<exists>r w'. run_ignore (tune_socket_buffer getter setter socket_buffer_size) w = Some (r, w')
        \<and> (is_ok r \<longrightarrow> True)"
      by (cases r) (simp add: run_ignore_def)
  qed
  then show ?thesis
    unfolding create_connected_udp_socket_def Let_def
    by (intro returns_bind returns_run_of) simp_all
qed

text \<open>A rate given to \<open>quiche\<close> never exceeds the ceiling, unless that is below its smallest rate.\<close>

lemma pacing_rate_rounded_down:
  "MaxPacingRate r \<in> set (session_settings cfg material) \<longleftrightarrow>
     0 < qt_max_pacing_rate_bps (mc_quic cfg) \<and> r = max (qt_max_pacing_rate_bps (mc_quic cfg) div 1000000) 1"
  by (auto simp: session_settings_def Let_def)

lemma session_never_verifies_chain: "VerifyPeer True \<notin> set (session_settings cfg material)"
  by (auto simp: session_settings_def Let_def)

end
