(* ===== verification/Net_Show.thy ===== *)
theory Net_Show
  imports Net_Addr Http3
begin

text \<open>
  The standard library's \<open>Display\<close> of IP and socket addresses, as the code prints them for hooks,
  requests and reports; an IPv6 address is compressed at its longest run of zero groups.
\<close>

definition v6_segments :: "128 word \<Rightarrow> nat list" where
  "v6_segments a = map (\<lambda>i. unat a div 2 ^ (112 - 16 * i) mod 65536) [0..<8]"

text \<open>The first longest run of zeros as its start and length: the run so far, and the longest.\<close>

fun zero_run :: "nat list \<Rightarrow> nat \<Rightarrow> nat \<times> nat \<Rightarrow> nat \<times> nat \<Rightarrow> nat \<times> nat" where
  "zero_run [] i current longest = longest"
| "zero_run (s # ss) i (start, len) longest =
     (if s = 0 then
        (let current = (if len = 0 then i else start, len + 1)
         in zero_run ss (i + 1) current (if snd longest < snd current then current else longest))
      else zero_run ss (i + 1) (0, 0) longest)"

fun show_segments :: "nat list \<Rightarrow> string" where
  "show_segments [] = []"
| "show_segments [s] = hex s"
| "show_segments (s # ss) = hex s @ '':'' @ show_segments ss"

definition show_ipv6 :: "128 word \<Rightarrow> string" where
  "show_ipv6 a =
     (let segments = v6_segments a
      in if take 6 segments = [0, 0, 0, 0, 0, 65535]
         then ''::ffff:'' @ show_ipv4 (word_of_nat (unat a mod 2 ^ 32))
         else (case zero_run segments 0 (0, 0) (0, 0) of
                 (start, len) \<Rightarrow>
                   if 1 < len then
                     show_segments (take start segments) @ ''::'' @ show_segments (drop (start + len) segments)
                   else show_segments segments))"

fun show_ip :: "ip_addr \<Rightarrow> string" where
  "show_ip (V4 a) = show_ipv4 a"
| "show_ip (V6 a) = show_ipv6 a"

fun show_socket_addr :: "socket_addr \<Rightarrow> string" where
  "show_socket_addr (SocketAddr (V4 a) p) = show_ipv4 a @ '':'' @ dec (unat p)"
| "show_socket_addr (SocketAddr (V6 a) p) = ''['' @ show_ipv6 a @ '']:'' @ dec (unat p)"

lemma length_v6_segments [simp]: "length (v6_segments a) = 8"
  by (simp add: v6_segments_def)

text \<open>Samples of the compression.\<close>

lemma show_ipv6_samples:
  "show_ipv6 1 = ''::1''"
  "show_ipv6 0 = ''::''"
  "show_ipv6 0x20010db8000000000001000000000001 = ''2001:db8::1:0:0:1''"
  by (simp_all add: show_ipv6_def v6_segments_def upt_rec hex.simps hex_digit_def char_of_def bit_Suc_0_iff
      Let_def)

end
