(* ===== verification/Session.thy ===== *)
theory Session
  imports Session_Setup Net_Show
begin

text \<open>
  One tunnel session, \<open>run_tunnel_session\<close> of \<open>api/masque.rs\<close>: from the client's certificate to the
  end of the packet pump, with the hooks of \<open>api/hooks.rs\<close>. The parts it runs through are in the
  theories \<open>Session_Setup\<close>, \<open>Handshake\<close>, \<open>Send_One\<close> and \<open>Data_Loop\<close>.
\<close>

section \<open>State\<close>

text \<open>
  What outlives a session: the world of the socket and the clock, the TUN device, the packet that
  woke the tunnel up, whether this session was established, the reporter's handle, the hooks started
  so far and the number of statistics tasks that are running.
\<close>

record ('w, 'd) host =
  ho_net :: 'w
  ho_tun :: "'d tun_device"
  ho_pending :: "bytes option"
  ho_established :: bool
  ho_reporter :: "reporter option"
  ho_hooks :: "(string \<times> environment) list"
  ho_stats_tasks :: nat

record ('w, 'c, 'd) session =
  ss_host :: "('w, 'd) host"
  ss_conn :: 'c
  ss_io :: udp_batch
  ss_stats :: stats

text \<open>The crates and the operating system, as one parameter.\<close>

record ('k, 'p, 'q, 'w, 'c, 'd) platform =
  pl_freebsd :: bool
  pl_net :: "'w net"
  pl_select :: "'w select"
  pl_quic :: "'c quic"
  pl_h3 :: "'c h3"
  pl_tun :: "'d tun_rs"
  pl_env :: "('w, 'c) pump_env"
  pl_tls :: "('k, 'p, 'w) tls_crates"
  pl_config_new :: "string + 'q"
  pl_config_set :: "quic_setting \<Rightarrow> 'q \<Rightarrow> string + 'q"
  pl_sockets :: "'w sockets"
  pl_random :: "('w, unit, bytes) op"
  pl_connect :: "string \<Rightarrow> bytes \<Rightarrow> socket_addr \<Rightarrow> socket_addr \<Rightarrow> 'q \<Rightarrow> string + 'c"
  pl_peer_cert :: "'c \<Rightarrow> bytes option"
  pl_spki :: "bytes \<Rightarrow> bytes option"
  pl_h3_config :: "string + unit"
  pl_h3_open :: "('c, string, unit) op"
  pl_put_varint :: "u64 \<Rightarrow> bytes option"
  pl_spawn :: "string \<Rightarrow> environment \<Rightarrow> ('w, string, unit) op"

datatype session_failure =
    TlsFailed tls_error
  | QuicConfigFailed string
  | SocketFailed socket_error
  | LocalAddrFailed io_error
  | RngFailed
  | QuicConnectFailed string
  | InitialSendFailed quic_error
  | InitialWriteFailed io_error
  | HandshakeFailed handshake_error
  | KeyMismatch
  | NoPeerCertificate
  | H3ConfigFailed string
  | H3OpenFailed string
  | RequestFailed h3_error
  | SessionFlushFailed udp_error
  | FlowPrefixFailed string
  | PendingFailed session_error
  | BufferPoolFailed
  | PumpFailed pump_error

section \<open>Before there is a connection\<close>

definition map_error :: "('e \<Rightarrow> 'f) \<Rightarrow> ('s, 'e, 'a) run \<Rightarrow> ('s, 'f, 'a) run" where
  "map_error err m s = map_option (\<lambda>(r, s'). (lift_error err r, s')) (m s)"

definition on_world :: "('w, 'e, 'a) run \<Rightarrow> (('w, 'd) host, 'e, 'a) run" where
  "on_world m ho = map_option (\<lambda>(r, w). (r, ho\<lparr>ho_net := w\<rparr>)) (m (ho_net ho))"

definition read_clock :: "'w net \<Rightarrow> ('w, 'e, instant) run" where
  "read_clock net w = (case n_now net w of (t, w') \<Rightarrow> Some (Inr t, w'))"

definition open_connection ::
    "('k, 'p, 'q, 'w, 'c, 'd) platform \<Rightarrow> 'k masque_config \<Rightarrow> masque_endpoint
      \<Rightarrow> (('w, 'd) host, session_failure, 'c \<times> udp_batch \<times> tls_material) run" where
  "open_connection pl cfg endpoint =
     run_bind (on_world (map_error TlsFailed (prepare_tls_material (pl_tls pl) cfg endpoint))) (\<lambda>material.
     run_bind (run_lift (lift_error QuicConfigFailed
                (and_then (pl_config_new pl) (apply_settings (pl_config_set pl) (session_settings cfg material)))))
       (\<lambda>quic_config.
     run_bind (on_world (map_error SocketFailed
                (create_connected_udp_socket (pl_sockets pl) (me_addr endpoint) (di_udp_socket_buffer (mc_io cfg)))))
       (\<lambda>_.
     run_bind (on_world (run_of LocalAddrFailed (so_local_addr (pl_sockets pl)))) (\<lambda>local_addr.
     run_bind (on_world (run_of (\<lambda>_. RngFailed) (pl_random pl))) (\<lambda>scid.
     run_bind (run_lift (lift_error QuicConnectFailed
                (pl_connect pl (mc_sni cfg) scid local_addr (me_addr endpoint) quic_config))) (\<lambda>conn.
     run_bind (on_world (read_clock (pl_net pl))) (\<lambda>now.
     run_return (conn, new_udp_batch (max MAX_DATAGRAM_SIZE (udp_payload cfg)) (di_udp_batch_size (mc_io cfg)) now,
       material))))))))"

section \<open>The handshake and the request\<close>

type_synonym ('w, 'c, 'd, 'a) session_op = "(('w, 'c, 'd) session, session_failure, 'a) run"

definition put_net :: "'w \<Rightarrow> ('w, 'c, 'd) session \<Rightarrow> ('w, 'c, 'd) session" where
  "put_net w ss = ss\<lparr>ss_host := (ss_host ss)\<lparr>ho_net := w\<rparr>\<rparr>"

definition put_io ::
    "udp_batch \<times> 'w \<times> 'c \<Rightarrow> ('w, 'c, 'd) session \<Rightarrow> ('w, 'c, 'd) session" where
  "put_io x ss = (case x of (io, w, c) \<Rightarrow> put_net w (ss\<lparr>ss_conn := c, ss_io := io\<rparr>))"

definition session_initial_send ::
    "('k, 'p, 'q, 'w, 'c, 'd) platform \<Rightarrow> 'k masque_config \<Rightarrow> ('w, 'c, 'd, unit) session_op" where
  "session_initial_send pl cfg ss =
     (case q_send (pl_quic pl) (max MAX_DATAGRAM_SIZE (udp_payload cfg)) (ss_conn ss) of
        (Inl e, c) \<Rightarrow> Some (Inl (InitialSendFailed e), ss\<lparr>ss_conn := c\<rparr>)
      | (Inr (d, _), c) \<Rightarrow>
          (case n_send (pl_net pl) d (ho_net (ss_host ss)) of
             (r, w) \<Rightarrow> Some (lift_error InitialWriteFailed r, put_net w (ss\<lparr>ss_conn := c\<rparr>))))"

definition session_handshake ::
    "('k, 'p, 'q, 'w, 'c, 'd) platform \<Rightarrow> ('w, 'c, 'd, unit) session_op" where
  "session_handshake pl ss =
     (case complete_quic_handshake (pl_freebsd pl) (pl_net pl) (pl_select pl) (pl_quic pl) 65535
             (ss_io ss) (ho_net (ss_host ss)) (ss_conn ss) of
        None \<Rightarrow> None
      | Some (r, x) \<Rightarrow> Some (lift_error HandshakeFailed r, put_io x ss))"

definition pin_endpoint_key ::
    "('k, 'p, 'q, 'w, 'c, 'd) platform \<Rightarrow> 'k masque_config \<Rightarrow> tls_material \<Rightarrow> ('w, 'c, 'd, unit) session_op" where
  "pin_endpoint_key pl cfg material ss =
     Some (if mc_insecure cfg then Inr ()
           else (case pl_peer_cert pl (ss_conn ss) of
                   None \<Rightarrow> Inl NoPeerCertificate
                 | Some cert \<Rightarrow>
                     if verify_endpoint_key (pl_spki pl) cert (tls_endpoint_pub_key material) then Inr ()
                     else Inl KeyMismatch), ss)"

definition on_conn :: "('e \<Rightarrow> session_failure) \<Rightarrow> ('c, 'e, 'a) op \<Rightarrow> ('w, 'c, 'd, 'a) session_op" where
  "on_conn err m ss = (case m (ss_conn ss) of (r, c) \<Rightarrow> Some (lift_error err r, ss\<lparr>ss_conn := c\<rparr>))"

definition session_flush :: "('k, 'p, 'q, 'w, 'c, 'd) platform \<Rightarrow> ('w, 'c, 'd, unit) session_op" where
  "session_flush pl ss =
     (case flush_quic (pl_freebsd pl) (pl_net pl) (pl_quic pl) (ss_io ss) (ho_net (ss_host ss)) (ss_conn ss) of
        None \<Rightarrow> None
      | Some (r, x) \<Rightarrow> Some (lift_error SessionFlushFailed r, put_io x ss))"

definition session_await ::
    "('k, 'p, 'q, 'w, 'c, 'd) platform \<Rightarrow> u64 \<Rightarrow> ('w, 'c, 'd, unit) session_op" where
  "session_await pl stream_id ss =
     (case wait_connect_response (pl_freebsd pl) (pl_net pl) (pl_select pl) (pl_quic pl) (pl_h3 pl) stream_id 65535
             (ss_io ss) (ho_net (ss_host ss)) (ss_conn ss) of
        None \<Rightarrow> None
      | Some (r, x) \<Rightarrow> Some (lift_error HandshakeFailed r, put_io x ss))"

text \<open>\<open>pq_enabled\<close> is \<open>false\<close>; the request's stream id is returned.\<close>

definition session_request ::
    "('k, 'p, 'q, 'w, 'c, 'd) platform \<Rightarrow> 'k masque_config \<Rightarrow> ('w, 'c, 'd, u64) session_op" where
  "session_request pl cfg =
     run_bind (run_lift (lift_error H3ConfigFailed (pl_h3_config pl))) (\<lambda>_.
     run_bind (on_conn H3OpenFailed (pl_h3_open pl)) (\<lambda>_.
     run_bind (on_conn RequestFailed
                (h_send_request (pl_h3 pl)
                  (connect_request_headers (mc_connect_profile cfg) (mc_user_agent cfg) False) False)) (\<lambda>stream_id.
     run_bind (session_flush pl) (\<lambda>_.
     run_bind (session_await pl stream_id) (\<lambda>_.
     run_return stream_id)))))"

section \<open>The hooks\<close>

definition run_hook ::
    "('k, 'p, 'q, 'w, 'c, 'd) platform \<Rightarrow> string \<Rightarrow> environment \<Rightarrow> ('w, 'd) host \<Rightarrow> ('w, 'd) host" where
  "run_hook pl path extra_env ho =
     (if path = [] then ho
      else (case pl_spawn pl path extra_env (ho_net ho) of
              (_, w) \<Rightarrow> ho\<lparr>ho_net := w, ho_hooks := ho_hooks ho @ [(path, extra_env)]\<rparr>))"

definition lifecycle_hook ::
    "('k, 'p, 'q, 'w, 'c, 'd) platform \<Rightarrow> 'k masque_config \<Rightarrow> masque_endpoint \<Rightarrow> string option \<Rightarrow> string
      \<Rightarrow> ('w, 'd) host \<Rightarrow> ('w, 'd) host" where
  "lifecycle_hook pl cfg endpoint hook event ho =
     (case hook of
        None \<Rightarrow> ho
      | Some path \<Rightarrow>
          run_hook pl path
            ((lh_env (mc_hooks cfg))(''USQUE_EVENT'' \<mapsto> event, ''USQUE_ENDPOINT'' \<mapsto> show_socket_addr (me_addr endpoint)))
            ho)"

text \<open>
  The session is up: the reporter is told, with the time the connection took, and the hook runs;
  then the statistics task starts.
\<close>

definition report_connected ::
    "('k, 'p, 'q, 'w, 'c, 'd) platform \<Rightarrow> instant \<Rightarrow> ('w, 'd) host \<Rightarrow> ('w, 'd) host" where
  "report_connected pl started ho =
     (case ho_reporter ho of
        None \<Rightarrow> ho
      | Some rp \<Rightarrow>
          (case n_now (pl_net pl) (ho_net ho) of
             (now, w) \<Rightarrow> ho\<lparr>ho_net := w, ho_reporter := Some (Reporter.connected (now - started) rp)\<rparr>))"

definition announce ::
    "('k, 'p, 'q, 'w, 'c, 'd) platform \<Rightarrow> 'k masque_config \<Rightarrow> masque_endpoint \<Rightarrow> instant
      \<Rightarrow> ('w, 'd) host \<Rightarrow> ('w, 'd) host" where
  "announce pl cfg endpoint started ho =
     (let ho1 = lifecycle_hook pl cfg endpoint (lh_on_connect (mc_hooks cfg)) ''connect''
                  (report_connected pl started (ho\<lparr>ho_established := True\<rparr>))
      in ho1\<lparr>ho_net := snd (n_now (pl_net pl) (ho_net ho1)), ho_stats_tasks := ho_stats_tasks ho1 + 1\<rparr>)"

definition farewell ::
    "('k, 'p, 'q, 'w, 'c, 'd) platform \<Rightarrow> 'k masque_config \<Rightarrow> masque_endpoint
      \<Rightarrow> ('w, 'd) host \<Rightarrow> ('w, 'd) host" where
  "farewell pl cfg endpoint ho =
     lifecycle_hook pl cfg endpoint (lh_on_disconnect (mc_hooks cfg)) ''disconnect''
       (ho\<lparr>ho_stats_tasks := ho_stats_tasks ho - 1, ho_reporter := map_option disconnected (ho_reporter ho)\<rparr>)"

section \<open>The tunnel\<close>

definition session_link :: "('w, 'c, 'd) session \<Rightarrow> ('w, 'c, 'd) link" where
  "session_link ss =
     \<lparr>lk_net = ho_net (ss_host ss), lk_conn = ss_conn ss, lk_io = ss_io ss, lk_stats = ss_stats ss,
      lk_tun = ho_tun (ss_host ss)\<rparr>"

definition put_link :: "('w, 'c, 'd) link \<Rightarrow> ('w, 'c, 'd) session \<Rightarrow> ('w, 'c, 'd) session" where
  "put_link l ss =
     ss\<lparr>ss_host := (ss_host ss)\<lparr>ho_net := lk_net l, ho_tun := lk_tun l\<rparr>, ss_conn := lk_conn l,
        ss_io := lk_io l, ss_stats := lk_stats l\<rparr>"

definition session_send_one ::
    "('k, 'p, 'q, 'w, 'c, 'd) platform \<Rightarrow> bytes \<Rightarrow> bytes \<Rightarrow> ('w, 'c, 'd, bool) session_op" where
  "session_send_one pl flow_prefix packet ss =
     (case send_packet_datagram (pl_freebsd pl) (pl_net pl) (pl_select pl) (pl_quic pl) (pl_tun pl) 65535
             flow_prefix packet (session_link ss) of
        None \<Rightarrow> None
      | Some (r, l) \<Rightarrow> Some (lift_error PendingFailed r, put_link l ss))"

text \<open>The activation probe's failure is only logged; the pending packet's ends the session.\<close>

definition session_probe ::
    "('k, 'p, 'q, 'w, 'c, 'd) platform \<Rightarrow> 'k masque_config \<Rightarrow> bytes \<Rightarrow> ('w, 'c, 'd, unit) session_op" where
  "session_probe pl cfg flow_prefix =
     (case mc_activation_probe cfg of
        None \<Rightarrow> run_return ()
      | Some packet \<Rightarrow>
          run_ignore (run_bind (session_send_one pl flow_prefix packet) (\<lambda>sent.
            if sent then session_flush pl else run_return ())))"

definition take_pending :: "('w, 'c, 'd, bytes option) session_op" where
  "take_pending ss = Some (Inr (ho_pending (ss_host ss)), ss\<lparr>ss_host := (ss_host ss)\<lparr>ho_pending := None\<rparr>\<rparr>)"

definition session_pending ::
    "('k, 'p, 'q, 'w, 'c, 'd) platform \<Rightarrow> bytes \<Rightarrow> ('w, 'c, 'd, unit) session_op" where
  "session_pending pl flow_prefix =
     run_bind take_pending (\<lambda>pending.
     (case pending of
        None \<Rightarrow> run_return ()
      | Some packet \<Rightarrow> run_bind (session_send_one pl flow_prefix packet) (\<lambda>_. session_flush pl)))"

definition session_pool_size :: "'k masque_config \<Rightarrow> nat" where
  "session_pool_size cfg = clamp_nat 1 MAX_PACKET_BUFFER_POOL_SIZE (di_packet_buffer_pool_size (mc_io cfg))"

definition session_tx_queue_len :: "'k masque_config \<Rightarrow> nat" where
  "session_tx_queue_len cfg = min (max (di_tx_queue_len (mc_io cfg)) 1) (session_pool_size cfg)"

definition pump_config_of :: "'k masque_config \<Rightarrow> bytes \<Rightarrow> u64 \<Rightarrow> pump_config" where
  "pump_config_of cfg flow_prefix stream_id =
     \<lparr>pf_flow_prefix = flow_prefix, pf_flow_id = stream_id div 4, pf_connect_stream_id = stream_id,
      pf_report_h3_stats = reports_h3_stats (mc_connect_profile cfg),
      pf_keepalive_period = qt_keepalive_period (mc_quic cfg),
      pf_enable_pmtud = pm_enabled (mc_path_mtu cfg),
      pf_pmtud_revalidate_period = pm_revalidate_period (mc_path_mtu cfg),
      pf_max_tun_mtu = pm_max_tun_mtu (mc_path_mtu cfg),
      pf_tx_queue_len = session_tx_queue_len cfg,
      pf_tx_burst_packets = max (di_tx_burst_packets (mc_io cfg)) 1\<rparr>"

definition pool_config_of :: "'k masque_config \<Rightarrow> bytes \<Rightarrow> nat \<Rightarrow> pool_config" where
  "pool_config_of cfg flow_prefix tun_mtu =
     \<lparr>pc_prefix = flow_prefix, pc_mtu = tun_mtu, pc_pool_size = session_pool_size cfg,
      pc_queue_len = session_tx_queue_len cfg\<rparr>"

definition session_pump ::
    "('k, 'p, 'q, 'w, 'c, 'd) platform \<Rightarrow> 'k masque_config \<Rightarrow> nat \<Rightarrow> bytes \<Rightarrow> u64 \<Rightarrow> ('w, 'c, 'd, unit) session_op" where
  "session_pump pl cfg tun_mtu flow_prefix stream_id ss =
     (case start_pool (pool_config_of cfg flow_prefix tun_mtu) of
        None \<Rightarrow> Some (Inl BufferPoolFailed, ss)
      | Some pool \<Rightarrow>
          (case data_loop (pl_freebsd pl) (pl_net pl) (pl_quic pl) (pl_h3 pl) (pl_tun pl) (pl_env pl)
                  (pump_config_of cfg flow_prefix stream_id)
                  (start_pump (pl_net pl) (free pool) (ho_reporter (ss_host ss)) (session_link ss)) of
             None \<Rightarrow> None
           | Some (r, pu) \<Rightarrow>
               (let ss' = put_link (pu_link pu) ss
                in Some (lift_error PumpFailed r, ss'\<lparr>ss_host := (ss_host ss')\<lparr>ho_reporter := pu_reporter pu\<rparr>\<rparr>))))"

definition on_host :: "(('w, 'd) host \<Rightarrow> ('w, 'd) host) \<Rightarrow> ('w, 'c, 'd) session \<Rightarrow> ('w, 'c, 'd) session" where
  "on_host f ss = ss\<lparr>ss_host := f (ss_host ss)\<rparr>"

text \<open>The pump's result is returned after the farewell; an earlier \<open>?\<close> returns without it.\<close>

definition run_then :: "('s, 'e, 'a) run \<Rightarrow> ('s \<Rightarrow> 's) \<Rightarrow> ('s, 'e, 'a) run" where
  "run_then m f s = map_option (\<lambda>(r, s'). (r, f s')) (m s)"

definition serve_tunnel ::
    "('k, 'p, 'q, 'w, 'c, 'd) platform \<Rightarrow> 'k masque_config \<Rightarrow> masque_endpoint \<Rightarrow> nat \<Rightarrow> u64
      \<Rightarrow> ('w, 'c, 'd, unit) session_op" where
  "serve_tunnel pl cfg endpoint tun_mtu stream_id =
     run_bind (run_lift (lift_error FlowPrefixFailed (build_flow_prefix (pl_put_varint pl) (stream_id div 4))))
       (\<lambda>flow_prefix.
     run_bind (session_probe pl cfg flow_prefix) (\<lambda>_.
     run_bind (session_pending pl flow_prefix) (\<lambda>_.
     run_then (session_pump pl cfg tun_mtu flow_prefix stream_id) (on_host (farewell pl cfg endpoint)))))"

definition session_body ::
    "('k, 'p, 'q, 'w, 'c, 'd) platform \<Rightarrow> 'k masque_config \<Rightarrow> masque_endpoint \<Rightarrow> nat \<Rightarrow> instant \<Rightarrow> tls_material
      \<Rightarrow> ('w, 'c, 'd, unit) session_op" where
  "session_body pl cfg endpoint tun_mtu started material =
     run_bind (session_initial_send pl cfg) (\<lambda>_.
     run_bind (session_handshake pl) (\<lambda>_.
     run_bind (pin_endpoint_key pl cfg material) (\<lambda>_.
     run_bind (session_request pl cfg) (\<lambda>stream_id.
     run_bind (run_modify (on_host (announce pl cfg endpoint started))) (\<lambda>_.
     serve_tunnel pl cfg endpoint tun_mtu stream_id)))))"

definition in_session ::
    "'c \<Rightarrow> udp_batch \<Rightarrow> ('w, 'c, 'd, 'a) session_op \<Rightarrow> (('w, 'd) host, session_failure, 'a) run" where
  "in_session conn io m ho =
     map_option (\<lambda>(r, ss). (r, ss_host ss))
       (m \<lparr>ss_host = ho, ss_conn = conn, ss_io = io, ss_stats = new_stats\<rparr>)"

definition run_tunnel_session ::
    "('k, 'p, 'q, 'w, 'c, 'd) platform \<Rightarrow> 'k masque_config \<Rightarrow> masque_endpoint \<Rightarrow> nat
      \<Rightarrow> (('w, 'd) host, session_failure, unit) run" where
  "run_tunnel_session pl cfg endpoint tun_mtu =
     run_bind (on_world (read_clock (pl_net pl))) (\<lambda>started.
     run_bind (open_connection pl cfg endpoint) (\<lambda>(conn, io, material).
     in_session conn io (session_body pl cfg endpoint tun_mtu started material)))"

section \<open>What the phases leave alone\<close>

text \<open>Everything of the host but the world; and what only a session that is up changes.\<close>

definition settled where
  "settled ho = (ho_tun ho, ho_pending ho, ho_established ho, ho_reporter ho, ho_hooks ho, ho_stats_tasks ho)"

definition lasting where
  "lasting ho = (ho_established ho, ho_reporter ho, ho_hooks ho, ho_stats_tasks ho)"

lemma settled_net [simp]: "settled (ho\<lparr>ho_net := w\<rparr>) = settled ho"
  by (simp add: settled_def)

lemma lasting_updates [simp]:
  "lasting (ho\<lparr>ho_net := w\<rparr>) = lasting ho" "lasting (ho\<lparr>ho_tun := t\<rparr>) = lasting ho"
  "lasting (ho\<lparr>ho_pending := p\<rparr>) = lasting ho"
  by (simp_all add: lasting_def)

lemma put_session [simp]:
  "ss_host (put_io x ss) = (ss_host ss)\<lparr>ho_net := fst (snd x)\<rparr>" "ss_host (put_net w ss) = (ss_host ss)\<lparr>ho_net := w\<rparr>"
  "ss_host (put_link l ss) = (ss_host ss)\<lparr>ho_net := lk_net l, ho_tun := lk_tun l\<rparr>"
  "ss_host (on_host f ss) = f (ss_host ss)"
  by (simp_all add: put_io_def put_net_def put_link_def on_host_def split: prod.split)

lemma keeps_ignore: "(\<And>s r s'. I s \<Longrightarrow> m s = Some (r, s') \<Longrightarrow> I s') \<Longrightarrow> keeps I (run_ignore m)"
  by (rule keepsI) (auto simp: run_ignore_def split: option.splits)

lemma keeps_ignored: "keeps I m \<Longrightarrow> keeps I (run_ignore m)"
  by (rule keeps_ignore) (rule keepsD)

lemma keeps_on_world: "(\<And>ho w. I (ho\<lparr>ho_net := w\<rparr>) = I ho) \<Longrightarrow> keeps I (on_world m)"
  by (rule keepsI) (auto simp: on_world_def)

lemma keeps_map_error: "keeps I m \<Longrightarrow> keeps I (map_error err m)"
  by (rule keepsI) (auto simp: map_error_def dest: keepsD)

lemma open_connection_settled:
  "keeps (\<lambda>ho. settled ho = x) (open_connection pl cfg endpoint)"
  unfolding open_connection_def
  by (intro keeps_bind keeps_lift keeps_return keeps_on_world) simp_all

definition session_settled where "session_settled x ss \<longleftrightarrow> settled (ss_host ss) = x"

lemma keeps_settled:
  "keeps (session_settled x) (session_initial_send pl cfg)"
  "keeps (session_settled x) (session_handshake pl)"
  "keeps (session_settled x) (pin_endpoint_key pl cfg material)"
  "keeps (session_settled x) (on_conn err m)"
  "keeps (session_settled x) (session_flush pl)"
  "keeps (session_settled x) (session_await pl stream_id)"
  by (rule keepsI, force simp: session_settled_def session_initial_send_def session_handshake_def
      pin_endpoint_key_def on_conn_def session_flush_def session_await_def split: prod.splits sum.splits option.splits)+

lemma session_request_settled: "keeps (session_settled x) (session_request pl cfg)"
  unfolding session_request_def by (intro keeps_bind keeps_lift keeps_return keeps_settled)

text \<open>The packets of a session that is up: only the device, the pending packet and the world change.\<close>

definition session_lasting where "session_lasting x ss \<longleftrightarrow> lasting (ss_host ss) = x"

lemma keeps_lasting:
  "keeps (session_lasting x) (session_send_one pl flow_prefix packet)"
  "keeps (session_lasting x) (session_flush pl)"
  "keeps (session_lasting x) take_pending"
  by (rule keepsI, force simp: session_lasting_def session_send_one_def session_flush_def take_pending_def
      split: prod.splits option.splits)+

lemma session_probe_lasting: "keeps (session_lasting x) (session_probe pl cfg flow_prefix)"
  unfolding session_probe_def
  by (auto split: option.split intro!: keeps_return keeps_ignored keeps_bind keeps_if keeps_lasting)

lemma session_pending_lasting: "keeps (session_lasting x) (session_pending pl flow_prefix)"
  unfolding session_pending_def
  by (rule keeps_bind [OF keeps_lasting(3)])
    (auto split: option.split intro!: keeps_return keeps_bind keeps_lasting)

section \<open>How a session goes\<close>

lemma run_bind_cases:
  assumes "run_bind m k s = Some (r, s'')"
  obtains (stopped) e where "r = Inl e" "m s = Some (Inl e, s'')"
    | (went) x s' where "m s = Some (Inr x, s')" "k x s' = Some (r, s'')"
  using assms unfolding run_bind_Some by blast

lemma run_bind_okE:
  assumes "run_bind m k s = Some (Inr y, s'')"
  obtains x s' where "m s = Some (Inr x, s')" "k x s' = Some (Inr y, s'')"
  using assms unfolding run_bind_Some by blast

text \<open>The endpoint a connection is trusted to be: its certificate holds the configured key.\<close>

definition trusted ::
    "('k, 'p, 'q, 'w, 'c, 'd) platform \<Rightarrow> 'k masque_config \<Rightarrow> bytes \<Rightarrow> 'c \<Rightarrow> bool" where
  "trusted pl cfg key c \<longleftrightarrow>
     mc_insecure cfg \<or> (\<exists>cert. pl_peer_cert pl c = Some cert \<and> pl_spki pl cert = Some key)"

lemma pin_endpoint_key_ok:
  "pin_endpoint_key pl cfg material ss = Some (Inr u, ss') \<Longrightarrow>
     ss' = ss \<and> trusted pl cfg (tls_endpoint_pub_key material) (ss_conn ss)"
  by (auto simp: pin_endpoint_key_def trusted_def verify_endpoint_key_def split: if_splits option.splits)

lemma prepare_tls_material_key:
  assumes "prepare_tls_material tls cfg endpoint w = Some (Inr material, w')"
  shows "tls_endpoint_pub_key material = me_pub_key endpoint"
  using assms unfolding prepare_tls_material_def
  by (elim run_bind_cases) (auto simp: run_simps)

lemma on_world_mapped:
  assumes "on_world (map_error err m) ho = Some (Inr x, ho')"
  shows "\<exists>w. m (ho_net ho) = Some (Inr x, w) \<and> ho' = ho\<lparr>ho_net := w\<rparr>"
proof -
  obtain r w where m: "m (ho_net ho) = Some (r, w)"
    using assms by (cases "m (ho_net ho)") (auto simp: on_world_def map_error_def)
  then show ?thesis
    using assms by (cases r) (simp_all add: on_world_def map_error_def lift_error_def)
qed

lemma open_connection_key:
  assumes "open_connection pl cfg endpoint ho = Some (Inr (conn, io, material), ho')"
  shows "tls_endpoint_pub_key material = me_pub_key endpoint"
proof -
  obtain m ho1 where prep: "on_world (map_error TlsFailed (prepare_tls_material (pl_tls pl) cfg endpoint)) ho
      = Some (Inr m, ho1)"
    and same: "m = material"
    using assms unfolding open_connection_def
    by (elim run_bind_cases) (auto simp: run_return_def)
  obtain w where "prepare_tls_material (pl_tls pl) cfg endpoint (ho_net ho) = Some (Inr m, w)"
    using on_world_mapped [OF prep] by blast
  from prepare_tls_material_key [OF this] show ?thesis
    using same by simp
qed

lemma session_body_cases:
  assumes "session_body pl cfg endpoint tun_mtu started material ss = Some (r, ss')"
  obtains (refused) e where "r = Inl e" "settled (ss_host ss') = settled (ss_host ss)"
    | (up) c stream_id ss1 where "trusted pl cfg (tls_endpoint_pub_key material) c"
        "settled (ss_host ss1) = settled (ss_host ss)"
        "serve_tunnel pl cfg endpoint tun_mtu stream_id (on_host (announce pl cfg endpoint started) ss1) = Some (r, ss')"
proof -
  let ?S = "session_settled (settled (ss_host ss))"
  have refuse: thesis if "r = Inl e" "?S ss'" for e
    using that refused by (simp add: session_settled_def)
  have "?S ss"
    by (simp add: session_settled_def)
  with assms [unfolded session_body_def] keeps_settled(1) show thesis
  proof (cases rule: run_bind_kept)
    case sent: (went _ s1)
    from sent(3) keeps_settled(2) sent(2) show ?thesis
    proof (cases rule: run_bind_kept)
      case shaken: (went _ s2)
      from shaken(3) keeps_settled(3) shaken(2) show ?thesis
      proof (cases rule: run_bind_kept)
        case pinned: (went _ s3)
        note trust = pin_endpoint_key_ok [OF pinned(1)]
        from pinned(3) session_request_settled pinned(2) show ?thesis
        proof (cases rule: run_bind_kept)
          case (went stream_id s4)
          then show ?thesis
            using up [OF conjunct2 [OF trust], of s4 stream_id]
            by (simp add: run_bind_def run_modify_def session_settled_def)
        qed (rule refuse)
      qed (rule refuse)
    qed (rule refuse)
  qed (rule refuse)
qed

section \<open>Announcements\<close>

definition hook_started ::
    "'k masque_config \<Rightarrow> masque_endpoint \<Rightarrow> string option \<Rightarrow> string \<Rightarrow> (string \<times> environment) list" where
  "hook_started cfg endpoint hook event =
     (case hook of
        None \<Rightarrow> []
      | Some path \<Rightarrow>
          if path = [] then []
          else [(path, (lh_env (mc_hooks cfg))(''USQUE_EVENT'' \<mapsto> event,
                         ''USQUE_ENDPOINT'' \<mapsto> show_socket_addr (me_addr endpoint)))])"

definition on_connect_started where
  "on_connect_started cfg endpoint = hook_started cfg endpoint (lh_on_connect (mc_hooks cfg)) ''connect''"

definition on_disconnect_started where
  "on_disconnect_started cfg endpoint = hook_started cfg endpoint (lh_on_disconnect (mc_hooks cfg)) ''disconnect''"

lemma lifecycle_hook_host:
  "\<exists>w. lifecycle_hook pl cfg endpoint hook event ho =
     ho\<lparr>ho_net := w, ho_hooks := ho_hooks ho @ hook_started cfg endpoint hook event\<rparr>"
proof (cases hook)
  case None
  then have "lifecycle_hook pl cfg endpoint hook event ho =
      ho\<lparr>ho_net := ho_net ho, ho_hooks := ho_hooks ho @ hook_started cfg endpoint hook event\<rparr>"
    by (simp add: lifecycle_hook_def hook_started_def)
  then show ?thesis ..
next
  case (Some path)
  show ?thesis
  proof (cases "path = []")
    case True
    then have "lifecycle_hook pl cfg endpoint hook event ho =
        ho\<lparr>ho_net := ho_net ho, ho_hooks := ho_hooks ho @ hook_started cfg endpoint hook event\<rparr>"
      using Some by (simp add: lifecycle_hook_def hook_started_def run_hook_def)
    then show ?thesis ..
  next
    case False
    then show ?thesis
      using Some by (auto simp: lifecycle_hook_def hook_started_def run_hook_def split: prod.split)
  qed
qed

lemma report_connected_host:
  "\<exists>w rp. report_connected pl started ho = ho\<lparr>ho_net := w, ho_reporter := rp\<rparr> \<and> (rp = None \<longleftrightarrow> ho_reporter ho = None)"
proof (cases "ho_reporter ho")
  case None
  then have "report_connected pl started ho = ho\<lparr>ho_net := ho_net ho, ho_reporter := None\<rparr>"
    by (simp add: report_connected_def)
  then show ?thesis
    using None by blast
qed (auto simp: report_connected_def split: prod.split)

lemma announce_host:
  "ho_established (announce pl cfg endpoint started ho)"
  "ho_hooks (announce pl cfg endpoint started ho) = ho_hooks ho @ on_connect_started cfg endpoint"
  "ho_stats_tasks (announce pl cfg endpoint started ho) = ho_stats_tasks ho + 1"
  "ho_pending (announce pl cfg endpoint started ho) = ho_pending ho"
  "ho_tun (announce pl cfg endpoint started ho) = ho_tun ho"
proof -
  let ?ho = "ho\<lparr>ho_established := True\<rparr>"
  obtain w rp where r: "report_connected pl started ?ho = ?ho\<lparr>ho_net := w, ho_reporter := rp\<rparr>"
    using report_connected_host [of pl started ?ho] by blast
  obtain v where h: "lifecycle_hook pl cfg endpoint (lh_on_connect (mc_hooks cfg)) ''connect'' (report_connected pl started ?ho)
      = (report_connected pl started ?ho)\<lparr>ho_net := v, ho_hooks := ho_hooks (report_connected pl started ?ho)
          @ on_connect_started cfg endpoint\<rparr>"
    using lifecycle_hook_host [of pl cfg endpoint _ _ "report_connected pl started ?ho"]
    unfolding on_connect_started_def by blast
  note facts = announce_def Let_def h [unfolded r] r
  show "ho_established (announce pl cfg endpoint started ho)"
    "ho_hooks (announce pl cfg endpoint started ho) = ho_hooks ho @ on_connect_started cfg endpoint"
    "ho_stats_tasks (announce pl cfg endpoint started ho) = ho_stats_tasks ho + 1"
    "ho_pending (announce pl cfg endpoint started ho) = ho_pending ho"
    "ho_tun (announce pl cfg endpoint started ho) = ho_tun ho"
    by (simp_all add: facts)
qed

lemma farewell_host:
  "ho_established (farewell pl cfg endpoint ho) = ho_established ho"
  "ho_hooks (farewell pl cfg endpoint ho) = ho_hooks ho @ on_disconnect_started cfg endpoint"
  "ho_stats_tasks (farewell pl cfg endpoint ho) = ho_stats_tasks ho - 1"
  "ho_reporter (farewell pl cfg endpoint ho) = map_option disconnected (ho_reporter ho)"
  "ho_pending (farewell pl cfg endpoint ho) = ho_pending ho"
  "ho_tun (farewell pl cfg endpoint ho) = ho_tun ho"
proof -
  let ?ho = "ho\<lparr>ho_stats_tasks := ho_stats_tasks ho - 1, ho_reporter := map_option disconnected (ho_reporter ho)\<rparr>"
  obtain w where h: "farewell pl cfg endpoint ho =
      ?ho\<lparr>ho_net := w, ho_hooks := ho_hooks ?ho @ on_disconnect_started cfg endpoint\<rparr>"
    using lifecycle_hook_host [of pl cfg endpoint _ _ ?ho] unfolding farewell_def on_disconnect_started_def by blast
  show "ho_established (farewell pl cfg endpoint ho) = ho_established ho"
    "ho_hooks (farewell pl cfg endpoint ho) = ho_hooks ho @ on_disconnect_started cfg endpoint"
    "ho_stats_tasks (farewell pl cfg endpoint ho) = ho_stats_tasks ho - 1"
    "ho_reporter (farewell pl cfg endpoint ho) = map_option disconnected (ho_reporter ho)"
    "ho_pending (farewell pl cfg endpoint ho) = ho_pending ho"
    "ho_tun (farewell pl cfg endpoint ho) = ho_tun ho"
    unfolding h by simp_all
qed

lemma announce_reporter:
  assumes "ho_reporter (announce pl cfg endpoint started ho) = Some rp"
  shows "\<exists>ms. rp_state rp = Some (Connected ms)"
proof -
  let ?ho = "report_connected pl started (ho\<lparr>ho_established := True\<rparr>)"
  obtain v where "lifecycle_hook pl cfg endpoint (lh_on_connect (mc_hooks cfg)) ''connect'' ?ho
      = ?ho\<lparr>ho_net := v, ho_hooks := ho_hooks ?ho @ on_connect_started cfg endpoint\<rparr>"
    using lifecycle_hook_host [of pl cfg endpoint _ _ ?ho] unfolding on_connect_started_def by blast
  then have "ho_reporter ?ho = Some rp"
    using assms by (simp add: announce_def Let_def)
  then show ?thesis
    by (auto simp: report_connected_def Reporter.connected_def split: option.splits prod.splits)
qed

section \<open>How a tunnel ends\<close>

lemma session_pump_host:
  assumes "session_pump pl cfg tun_mtu flow_prefix stream_id ss = Some (r, ss')"
  shows "ho_established (ss_host ss') = ho_established (ss_host ss) \<and> ho_hooks (ss_host ss') = ho_hooks (ss_host ss)
    \<and> ho_stats_tasks (ss_host ss') = ho_stats_tasks (ss_host ss) \<and> ho_pending (ss_host ss') = ho_pending (ss_host ss)"
  using assms unfolding session_pump_def
  by (cases "start_pool (pool_config_of cfg flow_prefix tun_mtu)") (auto simp: Let_def split: option.splits prod.splits)

lemma session_pump_fails:
  assumes "session_pump pl cfg tun_mtu flow_prefix stream_id ss = Some (r, ss')"
  shows "\<exists>x. r = Inl (PumpFailed x)"
proof -
  obtain pool where "start_pool (pool_config_of cfg flow_prefix tun_mtu) = Some pool"
    using start_pool_inv by blast
  then show ?thesis
    using assms unfolding session_pump_def
    by (auto simp: Let_def lift_error_def split: option.splits prod.splits dest!: data_loop_ends)
qed

lemma session_pending_none:
  assumes "ho_pending (ss_host ss) = None"
  shows "session_pending pl flow_prefix ss = Some (Inr (), ss\<lparr>ss_host := (ss_host ss)\<lparr>ho_pending := None\<rparr>\<rparr>)"
  using assms by (simp add: session_pending_def take_pending_def run_bind_def run_return_def)

lemma session_pending_fails:
  assumes "session_pending pl flow_prefix ss = Some (Inl e, ss')"
  shows "ho_pending (ss_host ss) \<noteq> None \<and> ((\<exists>x. e = PendingFailed x) \<or> (\<exists>x. e = SessionFlushFailed x))"
  using assms
  by (auto simp: session_pending_def take_pending_def run_bind_def run_return_def session_send_one_def session_flush_def
      lift_error_def split: option.splits prod.splits sum.splits)

definition session_waiting where "session_waiting p ss \<longleftrightarrow> ho_pending (ss_host ss) = p"

lemma session_probe_waiting: "keeps (session_waiting p) (session_probe pl cfg flow_prefix)"
proof -
  have "keeps (session_waiting p) (session_send_one pl flow_prefix packet)" for packet
    by (rule keepsI) (auto simp: session_waiting_def session_send_one_def split: prod.splits option.splits)
  moreover have "keeps (session_waiting p) (session_flush pl)"
    by (rule keepsI) (auto simp: session_waiting_def session_flush_def split: prod.splits option.splits)
  ultimately show ?thesis
    unfolding session_probe_def
    by (auto split: option.split intro!: keeps_return keeps_ignored keeps_bind keeps_if)
qed

lemma session_probe_ok: "session_probe pl cfg flow_prefix ss = Some (r, ss') \<Longrightarrow> r = Inr ()"
  by (auto simp: session_probe_def run_return_def run_ignore_def split: option.splits)

lemma pumped_farewell:
  assumes "run_then (session_pump pl cfg tun_mtu flow_prefix stream_id) (on_host (farewell pl cfg endpoint)) ss = Some (r, ss')"
  obtains x ss1 where "r = Inl (PumpFailed x)" "ss' = on_host (farewell pl cfg endpoint) ss1"
    "ho_established (ss_host ss1) = ho_established (ss_host ss)" "ho_hooks (ss_host ss1) = ho_hooks (ss_host ss)"
    "ho_stats_tasks (ss_host ss1) = ho_stats_tasks (ss_host ss)"
proof -
  obtain ss1 where pump: "session_pump pl cfg tun_mtu flow_prefix stream_id ss = Some (r, ss1)"
    and ss': "ss' = on_host (farewell pl cfg endpoint) ss1"
    using assms by (auto simp: run_then_def)
  obtain x where "r = Inl (PumpFailed x)"
    using session_pump_fails [OF pump] by blast
  then show thesis
    using that [OF _ ss'] session_pump_host [OF pump] by simp
qed

definition stopped_before_pump where
  "stopped_before_pump pl stream_id waiting e \<longleftrightarrow>
     (\<exists>x. e = FlowPrefixFailed x \<and> build_flow_prefix (pl_put_varint pl) (stream_id div 4) = Inl x)
   \<or> waiting \<noteq> None \<and> ((\<exists>x. e = PendingFailed x) \<or> (\<exists>x. e = SessionFlushFailed x))"

lemma serve_tunnel_cases:
  assumes "serve_tunnel pl cfg endpoint tun_mtu stream_id ss = Some (r, ss')"
  obtains (early) e where "r = Inl e" "lasting (ss_host ss') = lasting (ss_host ss)"
      "stopped_before_pump pl stream_id (ho_pending (ss_host ss)) e"
    | (pumped) x ss1 where "r = Inl (PumpFailed x)" "ss' = on_host (farewell pl cfg endpoint) ss1"
      "ho_established (ss_host ss1) = ho_established (ss_host ss)" "ho_hooks (ss_host ss1) = ho_hooks (ss_host ss)"
      "ho_stats_tasks (ss_host ss1) = ho_stats_tasks (ss_host ss)"
proof -
  let ?L = "session_lasting (lasting (ss_host ss))"
  have start: "?L ss"
    by (simp add: session_lasting_def)
  have lasts: "lasting (ss_host s) = lasting (ss_host ss)" if "?L s" for s
    using that by (simp add: session_lasting_def)
  from assms [unfolded serve_tunnel_def] show thesis
  proof (cases rule: run_bind_cases)
    case (stopped e)
    then show ?thesis
      using early [of e] by (auto simp: stopped_before_pump_def run_lift_def lift_error_def split: sum.splits)
  next
    case (went flow_prefix s1)
    have s1: "s1 = ss"
      using went(1) by (simp add: run_lift_def)
    from went(2) show ?thesis
    proof (cases rule: run_bind_cases)
      case (stopped e)
      then show ?thesis
        using session_probe_ok by fastforce
    next
      case (went u s2)
      have s2: "?L s2"
        using keepsD [OF session_probe_lasting start] went(1) s1 by blast
      have waiting: "ho_pending (ss_host s2) = ho_pending (ss_host ss)"
        using keepsD [OF session_probe_waiting [of "ho_pending (ss_host ss)"], of ss] went(1) s1
        by (simp add: session_waiting_def)
      from went(2) show ?thesis
      proof (cases rule: run_bind_cases)
        case (stopped e)
        have "stopped_before_pump pl stream_id (ho_pending (ss_host ss)) e"
          using session_pending_fails [OF stopped(2)] waiting by (simp add: stopped_before_pump_def)
        then show ?thesis
          using early [OF stopped(1) lasts] keepsD [OF session_pending_lasting s2 stopped(2)] by blast
      next
        case (went u s3)
        note s3 = lasts [OF keepsD [OF session_pending_lasting s2 went(1)]]
        from went(2) show ?thesis
        proof (cases rule: pumped_farewell)
          case (1 x s4)
          then show ?thesis
            using pumped [OF 1(1,2)] s3 by (simp add: lasting_def)
        qed
      qed
    qed
  qed
qed

text \<open>A session is refused and leaves everything as it was, or serves a tunnel to a trusted peer.\<close>

lemma run_tunnel_session_phases:
  assumes "run_tunnel_session pl cfg endpoint tun_mtu ho = Some (r, ho')"
  obtains (refused) e where "r = Inl e" "settled ho' = settled ho"
    | (up) stream_id started ss1 ss' c where "trusted pl cfg (me_pub_key endpoint) c"
      "settled (ss_host ss1) = settled ho"
      "serve_tunnel pl cfg endpoint tun_mtu stream_id (on_host (announce pl cfg endpoint started) ss1) = Some (r, ss')"
      "ho' = ss_host ss'"
proof -
  have clocked: "settled ho1 = settled ho" if "on_world (read_clock (pl_net pl)) ho = Some (x, ho1)" for x ho1
    using that by (auto simp: on_world_def)
  have opened: "settled ho2 = settled ho" if "settled ho1 = settled ho"
    "open_connection pl cfg endpoint ho1 = Some (x, ho2)" for x ho1 ho2
    using keepsD [OF open_connection_settled that(1,2)] .
  from assms [unfolded run_tunnel_session_def] show thesis
  proof (cases rule: run_bind_cases)
    case (stopped e)
    then show ?thesis
      using refused clocked by blast
  next
    case (went started ho1)
    note ho1 = clocked [OF went(1)]
    from went(2) show ?thesis
    proof (cases rule: run_bind_cases)
      case (stopped e)
      then show ?thesis
        using refused opened [OF ho1] by blast
    next
      case (went x ho2)
      obtain conn io material where x: "x = (conn, io, material)"
        by (metis surj_pair)
      note ho2 = opened [OF ho1 went(1)]
      have key: "tls_endpoint_pub_key material = me_pub_key endpoint"
        using open_connection_key went(1) x by simp
      let ?ss = "\<lparr>ss_host = ho2, ss_conn = conn, ss_io = io, ss_stats = new_stats\<rparr>"
      obtain ss' where body: "session_body pl cfg endpoint tun_mtu started material ?ss = Some (r, ss')"
        and ho': "ho' = ss_host ss'"
        using went(2) x by (auto simp: in_session_def)
      from body show ?thesis
      proof (cases rule: session_body_cases)
        case (refused e)
        then show ?thesis
          using that(1) ho' ho2 by simp
      next
        case (up c stream_id ss1)
        then show ?thesis
          using that(2) [OF up(1) [unfolded key]] ho2 ho' by simp
      qed
    qed
  qed
qed

text \<open>The three ways a session ends.\<close>

lemma run_tunnel_session_cases:
  assumes "run_tunnel_session pl cfg endpoint tun_mtu ho = Some (r, ho')"
  obtains (refused) e where "r = Inl e" "settled ho' = settled ho"
    | (up) e c stream_id where "r = Inl e" "trusted pl cfg (me_pub_key endpoint) c"
      "ho_established ho'"
      "ho_hooks ho' = ho_hooks ho @ on_connect_started cfg endpoint @ on_disconnect_started cfg endpoint
         \<and> ho_stats_tasks ho' = ho_stats_tasks ho
         \<and> (\<forall>rp. ho_reporter ho' = Some rp \<longrightarrow> rp_state rp = Some Disconnected \<and> rp_metrics rp = None)
         \<and> (\<exists>x. e = PumpFailed x)
       \<or> ho_hooks ho' = ho_hooks ho @ on_connect_started cfg endpoint
         \<and> ho_stats_tasks ho' = ho_stats_tasks ho + 1
         \<and> (\<forall>rp. ho_reporter ho' = Some rp \<longrightarrow> (\<exists>ms. rp_state rp = Some (Connected ms)))
         \<and> stopped_before_pump pl stream_id (ho_pending ho) e"
  using assms
proof (cases rule: run_tunnel_session_phases)
  case (refused e)
  then show ?thesis
    using that(1) by blast
next
  case (up stream_id started ss1 ss' c)
  note ss1 = up(2) and ho' = up(4)
  from up(3) show ?thesis
  proof (cases rule: serve_tunnel_cases)
    case (early e)
    then show ?thesis
      using that(2) [OF early(1) up(1), of stream_id] ho' ss1
      by (auto simp: lasting_def settled_def announce_host dest: announce_reporter)
  next
    case (pumped x ss2)
    have "rp_state rp = Some Disconnected \<and> rp_metrics rp = None" if "ho_reporter ho' = Some rp" for rp
      using that ho' pumped(2) disconnected_clears by (auto simp: farewell_host)
    moreover have "ho_established ho'" "ho_stats_tasks ho' = ho_stats_tasks ho"
      "ho_hooks ho' = ho_hooks ho @ on_connect_started cfg endpoint @ on_disconnect_started cfg endpoint"
      using ho' ss1 pumped by (simp_all add: settled_def announce_host farewell_host)
    ultimately show ?thesis
      using that(2) [OF pumped(1) up(1), of stream_id] by blast
  qed
qed

section \<open>The TUN device under a session\<close>

definition session_device where "session_device T ss \<longleftrightarrow> T (ho_tun (ss_host ss))"

lemma settled_device:
  assumes "\<And>x. keeps (session_settled x) m"
  shows "keeps (session_device T) m"
  using assms unfolding keeps_def session_settled_def session_device_def settled_def
  by (metis prod.inject)

lemma offer_datagram_tun:
  "offer_datagram freebsd net select q buf_len left dgram pkt_len st = Some (r, st') \<Longrightarrow> lk_tun st' = lk_tun st"
proof (induction left arbitrary: st)
  case (Suc left)
  then show ?case
    by (fastforce simp: Let_def split: if_splits option.splits sum.splits prod.splits)
qed auto

lemma send_packet_datagram_tun:
  assumes "tun_closed rs T" "T (lk_tun st)"
    and "send_packet_datagram freebsd net select q rs buf_len flow_prefix pkt st = Some (r, st')"
  shows "T (lk_tun st')"
proof -
  have "T (snd (send_packet rs p (lk_tun st)))" for p
    using assms(1,2) unfolding tun_closed_def by blast
  moreover obtain v out where prep: "prepare_outgoing pkt = Some (v, out)"
    using assms(3) by (cases "prepare_outgoing pkt") (auto simp: send_packet_datagram_def)
  ultimately show ?thesis
    using assms(2,3) unfolding send_packet_datagram_def
    by (cases v) (auto simp: prep Let_def bind_eq_Some_conv dest!: offer_datagram_tun split: if_splits option.splits)
qed

lemma session_send_one_device:
  assumes "tun_closed (pl_tun pl) T"
  shows "keeps (session_device T) (session_send_one pl flow_prefix packet)"
proof (rule keepsI)
  fix ss r ss'
  assume "session_device T ss" and sent: "session_send_one pl flow_prefix packet ss = Some (r, ss')"
  then have T: "T (lk_tun (session_link ss))"
    by (simp add: session_device_def session_link_def)
  show "session_device T ss'"
    using sent send_packet_datagram_tun [OF assms T]
    by (auto simp: session_send_one_def session_device_def split: option.splits)
qed

lemma session_pump_device:
  assumes "tun_closed (pl_tun pl) T"
  shows "keeps (session_device T) (session_pump pl cfg tun_mtu flow_prefix stream_id)"
proof (rule keepsI)
  fix ss r ss'
  assume D: "session_device T ss" and pumped: "session_pump pl cfg tun_mtu flow_prefix stream_id ss = Some (r, ss')"
  show "session_device T ss'"
  proof (cases "start_pool (pool_config_of cfg flow_prefix tun_mtu)")
    case None
    then show ?thesis
      using D pumped by (simp add: session_pump_def)
  next
    case (Some pool)
    let ?pu = "start_pump (pl_net pl) (free pool) (ho_reporter (ss_host ss)) (session_link ss)"
    obtain x pu where ended: "data_loop (pl_freebsd pl) (pl_net pl) (pl_quic pl) (pl_h3 pl) (pl_tun pl) (pl_env pl)
        (pump_config_of cfg flow_prefix stream_id) ?pu = Some (x, pu)"
      and ss': "ho_tun (ss_host ss') = lk_tun (pu_link pu)"
      using pumped Some by (auto simp: session_pump_def Let_def split: option.splits)
    have "on_tun T ?pu"
      using D by (simp add: on_tun_def start_pump_def session_link_def session_device_def split: prod.split)
    then have "on_tun T pu"
      using data_loop_ends [OF ended] assms by auto
    then show ?thesis
      using ss' by (simp add: session_device_def on_tun_def)
  qed
qed

lemma serve_tunnel_device:
  assumes closed: "tun_closed (pl_tun pl) T"
  shows "keeps (session_device T) (serve_tunnel pl cfg endpoint tun_mtu stream_id)"
proof -
  let ?D = "session_device T"
  have flush: "keeps ?D (session_flush pl)"
    by (intro settled_device keeps_settled)
  have probe: "keeps ?D (session_probe pl cfg flow_prefix)" for flow_prefix
    unfolding session_probe_def
    by (auto split: option.split
        intro!: keeps_return keeps_ignored keeps_bind keeps_if session_send_one_device [OF closed] flush)
  have "keeps ?D take_pending"
    by (rule keepsI) (auto simp: take_pending_def session_device_def)
  then have pending: "keeps ?D (session_pending pl flow_prefix)" for flow_prefix
    unfolding session_pending_def
    by (rule keeps_bind)
      (auto split: option.split intro!: keeps_return keeps_bind session_send_one_device [OF closed] flush)
  show ?thesis
    unfolding serve_tunnel_def
  proof (intro keeps_bind keeps_lift probe pending keepsI)
    fix flow_prefix ss r ss'
    assume "?D ss" "run_then (session_pump pl cfg tun_mtu flow_prefix stream_id) (on_host (farewell pl cfg endpoint)) ss
      = Some (r, ss')"
    then show "?D ss'"
      using keepsD [OF session_pump_device [OF closed]] by (auto simp: run_then_def session_device_def farewell_host)
  qed
qed

lemma run_tunnel_session_device:
  assumes closed: "tun_closed (pl_tun pl) T"
    and run: "run_tunnel_session pl cfg endpoint tun_mtu ho = Some (r, ho')" and "T (ho_tun ho)"
  shows "T (ho_tun ho')"
  using run
proof (cases rule: run_tunnel_session_phases)
  case refused
  then show ?thesis
    using assms(3) by (simp add: settled_def)
next
  case (up stream_id started ss1 ss')
  have "session_device T (on_host (announce pl cfg endpoint started) ss1)"
    using up(2) assms(3) by (simp add: session_device_def settled_def announce_host)
  from keepsD [OF serve_tunnel_device [OF closed] this up(3)] show ?thesis
    using up(4) by (simp add: session_device_def)
qed

section \<open>A sample platform\<close>

text \<open>
  Everything succeeds: the peer's certificate is \<open>[1]\<close> and holds the key \<open>[7]\<close>, the request goes out
  on stream 4 and is answered with 200; the socket then fails, so that the pump ends.
\<close>

definition sample_session_quic :: "bool \<Rightarrow> nat quic" where
  "sample_session_quic full =
     sample_pump_quic\<lparr>q_send := \<lambda>cap c. if c = 0 then (Inr ([1], 0), 1) else (Inl QuicDone, c),
       q_is_dgram_send_queue_full := \<lambda>c. full\<rparr>"

definition sample_session_h3 :: "nat h3" where
  "sample_session_h3 =
     sample_pump_h3\<lparr>h_poll := \<lambda>c. if c = 1 then (Inr (4, Headers [('':status'', ''200'')]), 2) else (Inl H3Done, c)\<rparr>"

definition sample_tls :: "(unit, unit, sample_world) tls_crates" where
  "sample_tls =
     \<lparr>tc_pkcs8_pem = \<lambda>_. Inr ''key'', tc_key_pair = \<lambda>_. Inr (), tc_certificate_params = Inr (),
      tc_now_utc = \<lambda>w. (0, w), tc_self_signed = \<lambda>_ _ _. Inr ''cert'', tc_temp_file = op_return ''/tmp/f'',
      tc_write_all = \<lambda>_ _. op_return (), tc_flush = \<lambda>_. op_return ()\<rparr>"

definition sample_sockets :: "sample_world sockets" where
  "sample_sockets =
     \<lparr>so_new = \<lambda>_. op_return (), so_recv_buffer_size = op_return 8388608,
      so_set_recv_buffer_size = \<lambda>_. op_return (), so_send_buffer_size = op_return 8388608,
      so_set_send_buffer_size = \<lambda>_. op_return (), so_bind = \<lambda>_. op_return (), so_connect = \<lambda>_. op_return (),
      so_set_nonblocking = op_return (), so_from_std = op_return (),
      so_local_addr = op_return (SocketAddr (V4 1) 1)\<rparr>"

definition sample_platform ::
    "bool \<Rightarrow> (unit, unit, unit, sample_world, nat, u16 \<times> 128 word option) platform" where
  "sample_platform full =
     \<lparr>pl_freebsd = True, pl_net = failing_net, pl_select = silent_select, pl_quic = sample_session_quic full,
      pl_h3 = sample_session_h3, pl_tun = sample_rs, pl_env = sample_pump_env, pl_tls = sample_tls,
      pl_config_new = Inr (), pl_config_set = \<lambda>_ q. Inr q, pl_sockets = sample_sockets,
      pl_random = op_return [], pl_connect = \<lambda>_ _ _ _ _. Inr 0, pl_peer_cert = \<lambda>_. Some [1],
      pl_spki = \<lambda>_. Some [7], pl_h3_config = Inr (), pl_h3_open = op_return (), pl_put_varint = rfc9000_put,
      pl_spawn = \<lambda>_ _. op_return ()\<rparr>"

definition sample_masque :: "unit masque_config" where
  "sample_masque =
     \<lparr>mc_private_key = (), mc_sni = ''consumer-masque.cloudflareclient.com'', mc_insecure = False, mc_endpoints = [],
      mc_user_agent = [], mc_connect_profile = Client,
      mc_quic = \<lparr>qt_keepalive_period = 25 * 10 ^ 9, qt_max_idle_timeout = 0, qt_initial_packet_size = 1242,
        qt_cc_algorithm = ''bbr'', qt_initial_cwnd_packets = 32, qt_disable_pacing = False, qt_relaxed_loss = False,
        qt_send_capacity_factor = F64 1, qt_max_pacing_rate_bps = 0\<rparr>,
      mc_path_mtu = \<lparr>pm_enabled = False, pm_max_probes = 3, pm_revalidate_period = 0, pm_initial_tun_mtu = 1280,
        pm_max_tun_mtu = 1280, pm_tunnel_ipv6 = True\<rparr>,
      mc_io = \<lparr>di_udp_socket_buffer = 4194304, di_tx_queue_len = 1, di_tx_burst_packets = 1,
        di_packet_buffer_pool_size = 1, di_udp_batch_size = 1\<rparr>,
      mc_reconnect = \<lparr>rc_delay = 10 ^ 9, rc_always = True\<rparr>,
      mc_hooks = \<lparr>lh_on_connect = Some ''up'', lh_on_disconnect = Some ''down'', lh_env = (\<lambda>_. None)\<rparr>,
      mc_activation_probe = None\<rparr>"

definition sample_host :: "bytes option \<Rightarrow> (sample_world, u16 \<times> 128 word option) host" where
  "sample_host pending =
     \<lparr>ho_net = \<lparr>sw_clock = 0, sw_wire = [], sw_blocked = 0, sw_inbox = []\<rparr>, ho_tun = sample_device (1280, Some 1),
      ho_pending = pending, ho_established = False,
      ho_reporter = Some \<lparr>rp_state = None, rp_metrics = None\<rparr>, ho_hooks = [], ho_stats_tasks = 0\<rparr>"

definition sample_endpoint :: "bytes \<Rightarrow> masque_endpoint" where
  "sample_endpoint key = \<lparr>me_addr = SocketAddr (V4 0xC0000214) 443, me_host = [], me_pub_key = key\<rparr>"

lemma sample_tune:
  "tune_socket_buffer (op_return 8388608) setter 4194304 w = Some (Inr \<lparr>sb_initial = 8388608, sb_effective = 8388608,
     sb_target = 4194304, sb_target_accepted = True, sb_limit_error = None\<rparr>, w)"
  by (simp add: tune_socket_buffer_def op_return_def Let_def MIN_UDP_SOCKET_BUFFER_def)

lemma sample_open:
  "\<exists>io. batch_size io = 1 \<and>
     open_connection (sample_platform full) sample_masque (sample_endpoint key) (sample_host pending) =
       Some (Inr (0, io, \<lparr>tls_cert_pem_file = ''/tmp/f'', tls_key_pem_file = ''/tmp/f'', tls_endpoint_pub_key = key\<rparr>),
         sample_host pending)"
proof -
  have settings: "apply_settings (\<lambda>_ q. Inr q) settings q = Inr q" for settings and q :: unit
    by (induction settings) simp_all
  show ?thesis
    by (simp add: open_connection_def run_bind_def on_world_def map_error_def prepare_tls_material_def
        write_temp_file_def run_simps lift_error_def now_utc_def settings create_connected_udp_socket_def
        run_ignore_def sample_tune read_clock_def sample_platform_def sample_tls_def sample_sockets_def
        sample_masque_def sample_endpoint_def sample_host_def failing_net_def sample_net_def op_return_def
        udp_payload_def MAX_DATAGRAM_SIZE_def new_udp_batch_def clamp_nat_def MAX_UDP_BATCH_SIZE_def)
qed

lemma sample_flush:
  "batch_size io = 1 \<Longrightarrow> c \<noteq> 0 \<Longrightarrow>
     flush_quic freebsd net (sample_session_quic full) io w c = Some (Inr (), io, w, c)"
  by (subst flush_quic.simps) (simp add: fill_batch.simps sample_session_quic_def)

lemma sample_await:
  "wait_connect_response freebsd failing_net silent_select (sample_session_quic full) sample_session_h3 4 n io w 1 =
     Some (Inr (), io, w\<lparr>sw_clock := sw_clock w + 60 * 10 ^ 9\<rparr>, 2)"
proof -
  have "status_text [('':status'', ''200'')] = Some ''200''" "validate_connect_status ''200'' = Inr ()"
    by code_simp+
  then have "poll_connect_response sample_session_h3 4 1 = Some (Inr True, 2)"
    by (subst poll_connect_response.simps) (simp add: sample_session_h3_def)
  then show ?thesis
    unfolding wait_connect_response_def
    by (subst await_connect.simps)
      (simp add: wait_for_quic_def silent_select_def failing_net_def sample_net_def sample_session_quic_def
        sample_pump_quic_def)
qed

lemma sample_request: "h_send_request sample_session_h3 headers fin c = (Inr 4, c)"
  by (simp add: sample_session_h3_def sample_pump_h3_def)

text \<open>The sample session before it is pinned, and once its request was accepted.\<close>

definition sample_session where
  "sample_session io pending c clock wire =
     \<lparr>ss_host = (sample_host pending)\<lparr>ho_net := \<lparr>sw_clock = clock, sw_wire = wire, sw_blocked = 0, sw_inbox = []\<rparr>\<rparr>,
      ss_conn = (c :: nat), ss_io = io, ss_stats = new_stats\<rparr>"

definition sample_material :: "bytes \<Rightarrow> tls_material" where
  "sample_material key =
     \<lparr>tls_cert_pem_file = ''/tmp/f'', tls_key_pem_file = ''/tmp/f'', tls_endpoint_pub_key = key\<rparr>"

lemma sample_handshake:
  assumes "batch_size io = 1"
  shows "session_body (sample_platform full) sample_masque endpoint tun_mtu started (sample_material key)
      (sample_session io pending 0 0 []) =
    (if key = [7]
     then serve_tunnel (sample_platform full) sample_masque endpoint tun_mtu 4
            (on_host (announce (sample_platform full) sample_masque endpoint started)
              (sample_session io pending 2 (60 * 10 ^ 9) [(0, [1])]))
     else Some (Inl KeyMismatch, sample_session io pending (Suc 0) 0 [(0, [1])]))"
proof -
  let ?pl = "sample_platform full" and ?s0 = "sample_session io pending 0 0 []"
    and ?s1 = "sample_session io pending (Suc 0) 0 [(0, [1])]"
    and ?s2 = "sample_session io pending 2 (60 * 10 ^ 9) [(0, [1])]"
  have sent: "session_initial_send ?pl sample_masque ?s0 = Some (Inr (), ?s1)"
    by (simp add: session_initial_send_def sample_platform_def sample_session_quic_def sample_session_def
        failing_net_def sample_net_def put_net_def lift_error_def)
  have shaken: "session_handshake ?pl ?s1 = Some (Inr (), ?s1)"
    unfolding session_handshake_def
    by (subst complete_quic_handshake.simps)
      (simp add: sample_platform_def sample_session_quic_def sample_pump_quic_def put_io_def put_net_def
        lift_error_def sample_session_def)
  have pinned: "pin_endpoint_key ?pl sample_masque (sample_material key) ?s1 =
      Some (if key = [7] then Inr () else Inl KeyMismatch, ?s1)"
    by (auto simp: pin_endpoint_key_def sample_platform_def sample_masque_def sample_material_def
        verify_endpoint_key_def)
  have requested: "session_request ?pl sample_masque ?s1 = Some (Inr 4, ?s2)"
    using assms
    by (simp add: session_request_def run_bind_def run_simps on_conn_def session_flush_def session_await_def
        sample_platform_def sample_request
        op_return_def lift_error_def sample_flush sample_await [unfolded One_nat_def] put_io_def put_net_def sample_session_def)
  show ?thesis
    by (simp add: session_body_def run_bind_def sent shaken pinned requested run_modify_def)
qed

section \<open>Properties\<close>

text \<open>
  C4. Key pinning. Unless \<open>--insecure\<close> is given, a peer that never presents a certificate with the
  configured public key gets nothing: the session ends with an error, it is not marked as
  established, no hook runs, nothing is reported, the TUN device is untouched and the packet that
  woke the tunnel up is still pending.
\<close>

theorem impostor_refused:
  assumes "\<not> mc_insecure cfg"
    and "\<And>c cert. pl_peer_cert pl c = Some cert \<Longrightarrow> pl_spki pl cert \<noteq> Some (me_pub_key endpoint)"
    and "run_tunnel_session pl cfg endpoint tun_mtu ho = Some (r, ho')"
  shows "(\<exists>e. r = Inl e) \<and> ho_established ho' = ho_established ho \<and> ho_hooks ho' = ho_hooks ho
    \<and> ho_reporter ho' = ho_reporter ho \<and> ho_tun ho' = ho_tun ho \<and> ho_pending ho' = ho_pending ho
    \<and> ho_stats_tasks ho' = ho_stats_tasks ho"
  using assms(3)
proof (cases rule: run_tunnel_session_cases)
  case (refused e)
  then show ?thesis
    by (simp add: settled_def)
next
  case (up e c stream_id)
  then show ?thesis
    using assms(1,2) unfolding trusted_def by blast
qed

lemma sample_run:
  "\<exists>started io. batch_size io = 1 \<and>
     run_tunnel_session (sample_platform full) sample_masque (sample_endpoint key) 1280 (sample_host pending) =
       map_option (\<lambda>(r, ss). (r, ss_host ss))
         (session_body (sample_platform full) sample_masque (sample_endpoint key) 1280 started (sample_material key)
           (sample_session io pending 0 0 []))"
proof -
  obtain io where io: "batch_size io = 1"
    and opened: "open_connection (sample_platform full) sample_masque (sample_endpoint key) (sample_host pending) =
       Some (Inr (0, io, sample_material key), sample_host pending)"
    using sample_open unfolding sample_material_def by blast
  have "on_world (read_clock (pl_net (sample_platform full))) (sample_host pending) =
      (Some (Inr 0, sample_host pending) :: ((session_failure + instant) \<times> _) option)"
    by (simp add: on_world_def read_clock_def sample_platform_def failing_net_def sample_net_def sample_host_def)
  moreover have "sample_session io pending 0 0 [] =
      \<lparr>ss_host = sample_host pending, ss_conn = 0, ss_io = io, ss_stats = new_stats\<rparr>"
    by (simp add: sample_session_def sample_host_def)
  ultimately have "run_tunnel_session (sample_platform full) sample_masque (sample_endpoint key) 1280 (sample_host pending) =
       map_option (\<lambda>(r, ss). (r, ss_host ss))
         (session_body (sample_platform full) sample_masque (sample_endpoint key) 1280 0 (sample_material key)
           (sample_session io pending 0 0 []))"
    by (simp add: run_tunnel_session_def run_bind_def opened in_session_def)
  then show ?thesis
    using io by blast
qed

corollary impostor_refused_witness:
  "\<exists>e ho'. run_tunnel_session (sample_platform False) sample_masque (sample_endpoint [8]) 1280 (sample_host (Some [1]))
      = Some (Inl e, ho') \<and> ho_pending ho' = Some [1] \<and> ho_hooks ho' = []"
proof -
  obtain ho' where run: "run_tunnel_session (sample_platform False) sample_masque (sample_endpoint [8]) 1280
      (sample_host (Some [1])) = Some (Inl KeyMismatch, ho')"
    using sample_run [of False "[8]" "Some [1]"] sample_handshake by fastforce
  have "\<not> mc_insecure sample_masque"
    "pl_spki (sample_platform False) cert \<noteq> Some (me_pub_key (sample_endpoint [8]))" for cert
    by (simp_all add: sample_masque_def sample_platform_def sample_endpoint_def)
  then show ?thesis
    using impostor_refused [OF _ _ run] run by (simp add: sample_host_def)
qed

text \<open>
  C11. The lifecycle of a session. It returns an error, always; when it was not established nothing
  happened. When it was and the error is the pump's, the on-connect hook ran once and then the farewell
  did: the statistics task was stopped, the reporter says disconnected without metrics, the on-disconnect
  hook ran. With any other error the whole farewell is missing - the reporter still says connected and
  the statistics task runs on - and that error is the flow prefix that could not be built, or the failed
  hand-over or flush of a packet that was waiting for the tunnel. So a session whose waiting packet was
  delivered ends with the farewell.
\<close>

theorem session_lifecycle:
  assumes "run_tunnel_session pl cfg endpoint tun_mtu ho = Some (r, ho')" "\<not> ho_established ho"
  shows "\<exists>e. r = Inl e
    \<and> (if \<not> ho_established ho' then settled ho' = settled ho
       else if \<exists>x. e = PumpFailed x
       then ho_hooks ho' = ho_hooks ho @ on_connect_started cfg endpoint @ on_disconnect_started cfg endpoint
            \<and> ho_stats_tasks ho' = ho_stats_tasks ho
            \<and> (\<forall>rp. ho_reporter ho' = Some rp \<longrightarrow> rp_state rp = Some Disconnected \<and> rp_metrics rp = None)
       else ho_hooks ho' = ho_hooks ho @ on_connect_started cfg endpoint
            \<and> ho_stats_tasks ho' = ho_stats_tasks ho + 1
            \<and> (\<forall>rp. ho_reporter ho' = Some rp \<longrightarrow> (\<exists>ms. rp_state rp = Some (Connected ms)))
            \<and> ((\<exists>x stream_id. e = FlowPrefixFailed x
                    \<and> build_flow_prefix (pl_put_varint pl) (stream_id div 4) = Inl x)
               \<or> ho_pending ho \<noteq> None \<and> ((\<exists>x. e = PendingFailed x) \<or> (\<exists>x. e = SessionFlushFailed x))))"
  using assms(1)
proof (cases rule: run_tunnel_session_cases)
  case (refused e)
  then show ?thesis
    using assms(2) by (simp add: settled_def)
next
  case (up e c stream_id)
  from up(4) show ?thesis
  proof
    assume "ho_hooks ho' = ho_hooks ho @ on_connect_started cfg endpoint @ on_disconnect_started cfg endpoint
      \<and> ho_stats_tasks ho' = ho_stats_tasks ho
      \<and> (\<forall>rp. ho_reporter ho' = Some rp \<longrightarrow> rp_state rp = Some Disconnected \<and> rp_metrics rp = None)
      \<and> (\<exists>x. e = PumpFailed x)"
    then show ?thesis
      using up(1,3) by simp
  next
    assume early: "ho_hooks ho' = ho_hooks ho @ on_connect_started cfg endpoint
      \<and> ho_stats_tasks ho' = ho_stats_tasks ho + 1
      \<and> (\<forall>rp. ho_reporter ho' = Some rp \<longrightarrow> (\<exists>ms. rp_state rp = Some (Connected ms)))
      \<and> stopped_before_pump pl stream_id (ho_pending ho) e"
    then have "\<not> (\<exists>x. e = PumpFailed x)"
      by (auto simp: stopped_before_pump_def)
    then show ?thesis
      using up(1,3) early by (auto simp: stopped_before_pump_def)
  qed
qed

lemma sample_pump_fails:
  "\<exists>e ss'. session_pump (sample_platform full) sample_masque tun_mtu flow_prefix stream_id ss = Some (Inl e, ss')"
proof -
  have broken: "try_recv_batch True failing_net io w = (Inl (IoError ''ECONNREFUSED''), io, w)" for io w
    by (simp add: try_recv_batch_def recvmmsg_nonblocking_def failing_net_def)
  obtain pool where pool: "start_pool (pool_config_of sample_masque flow_prefix tun_mtu) = Some pool"
    using start_pool_inv by blast
  have "\<exists>e pu'. data_loop True failing_net (sample_session_quic full) sample_session_h3 sample_rs sample_pump_env cfg pu
      = Some (Inl e, pu')" for cfg pu
    by (subst data_loop.simps)
      (simp add: data_loop_turn_def turn_receive_def run_bind_def pump_drain_def drain_quic.simps Let_def broken)
  from this [of "pump_config_of sample_masque flow_prefix stream_id"
      "start_pump failing_net (free pool) (ho_reporter (ss_host ss)) (session_link ss)"]
  obtain e pu where "data_loop True failing_net (sample_session_quic full) sample_session_h3 sample_rs sample_pump_env
      (pump_config_of sample_masque flow_prefix stream_id)
      (start_pump failing_net (free pool) (ho_reporter (ss_host ss)) (session_link ss)) = Some (Inl e, pu)"
    by blast
  then show ?thesis
    by (simp add: session_pump_def pool sample_platform_def Let_def lift_error_def)
qed

lemma sample_prefix: "build_flow_prefix (pl_put_varint (sample_platform full)) 1 = Inr [1, 0]"
  by (simp add: build_flow_prefix_def sample_platform_def rfc9000_put_def varint_size_def)

lemma sample_serves:
  assumes "ho_pending (ss_host ss) = None"
  shows "\<exists>e ss'. serve_tunnel (sample_platform full) sample_masque endpoint tun_mtu 4 ss
    = Some (Inl e, on_host (farewell (sample_platform full) sample_masque endpoint) ss')
    \<and> ho_established (ss_host ss') = ho_established (ss_host ss)"
proof -
  have probe: "session_probe (sample_platform full) sample_masque [1, 0] ss = Some (Inr (), ss)"
    by (simp add: session_probe_def sample_masque_def run_return_def)
  obtain e ss' where pump: "session_pump (sample_platform full) sample_masque tun_mtu [1, 0] 4
      (ss\<lparr>ss_host := (ss_host ss)\<lparr>ho_pending := None\<rparr>\<rparr>) = Some (Inl e, ss')"
    using sample_pump_fails by blast
  then show ?thesis
    using session_pump_host [OF pump] session_pending_none [OF assms, of "sample_platform full" "[1, 0]"]
    by (auto simp: serve_tunnel_def run_bind_def run_lift_def sample_prefix lift_error_def probe run_then_def)
qed

corollary session_lifecycle_witness:
  "\<exists>e ho'. run_tunnel_session (sample_platform False) sample_masque (sample_endpoint [7]) 1280 (sample_host None)
      = Some (Inl e, ho') \<and> ho_established ho' \<and> fst (hd (ho_hooks ho')) = ''up''"
proof -
  obtain started io where io: "batch_size io = 1"
    and run: "run_tunnel_session (sample_platform False) sample_masque (sample_endpoint [7]) 1280 (sample_host None) =
       map_option (\<lambda>(r, ss). (r, ss_host ss))
         (session_body (sample_platform False) sample_masque (sample_endpoint [7]) 1280 started (sample_material [7])
           (sample_session io None 0 0 []))"
    using sample_run by blast
  let ?up = "on_host (announce (sample_platform False) sample_masque (sample_endpoint [7]) started)
    (sample_session io None 2 (60 * 10 ^ 9) [(0, [1])])"
  have "ho_pending (ss_host ?up) = None"
    by (simp add: announce_host sample_session_def sample_host_def)
  from sample_serves [OF this, of False "sample_endpoint [7]" 1280] obtain e ss' where
    serves: "serve_tunnel (sample_platform False) sample_masque (sample_endpoint [7]) 1280 4 ?up
      = Some (Inl e, on_host (farewell (sample_platform False) sample_masque (sample_endpoint [7])) ss')"
    and "ho_established (ss_host ss') = ho_established (ss_host ?up)"
    by blast
  then have up: "ho_established (ss_host ss')"
    by (simp add: announce_host)
  have ended: "run_tunnel_session (sample_platform False) sample_masque
      (sample_endpoint [7]) 1280 (sample_host None) =
      Some (Inl e, farewell (sample_platform False) sample_masque (sample_endpoint [7]) (ss_host ss'))"
    unfolding run sample_handshake [OF io] using serves by simp
  have "on_connect_started sample_masque (sample_endpoint [7]) \<noteq> []"
    "fst (hd (on_connect_started sample_masque (sample_endpoint [7]))) = ''up''"
    by (simp_all add: on_connect_started_def hook_started_def sample_masque_def)
  then show ?thesis
    using session_lifecycle [OF ended] ended up
    by (auto simp: sample_host_def farewell_host split: if_splits)
qed

text \<open>
  C38. A packet that woke the tunnel up and whose hand-over fails takes the session down past its
  farewell: the host keeps the reporter that says connected, the statistics task and an on-connect
  hook without its counterpart.
\<close>

theorem pending_failure_skips_farewell:
  assumes "ho_pending (ss_host ss) = Some packet" "mc_activation_probe cfg = None"
    and "build_flow_prefix (pl_put_varint pl) (stream_id div 4) = Inr flow_prefix"
    and "send_packet_datagram (pl_freebsd pl) (pl_net pl) (pl_select pl) (pl_quic pl) (pl_tun pl) 65535
           flow_prefix packet (session_link ss) = Some (Inl e, l)"
  shows "\<exists>ss'. serve_tunnel pl cfg endpoint tun_mtu stream_id ss = Some (Inl (PendingFailed e), ss')
    \<and> lasting (ss_host ss') = lasting (ss_host ss)"
proof -
  let ?ss = "ss\<lparr>ss_host := (ss_host ss)\<lparr>ho_pending := None\<rparr>\<rparr>"
  have link: "session_link ?ss = session_link ss"
    by (simp add: session_link_def)
  have "session_pending pl flow_prefix ss = Some (Inl (PendingFailed e), put_link l ?ss)"
    using assms(1,4)
    by (simp add: session_pending_def take_pending_def run_bind_def session_send_one_def link lift_error_def)
  then show ?thesis
    using assms(2,3)
    by (simp add: serve_tunnel_def run_bind_def run_lift_def lift_error_def session_probe_def run_return_def)
qed

corollary pending_failure_skips_farewell_witness:
  "\<exists>e ss'. serve_tunnel (sample_platform True) sample_masque (sample_endpoint [7]) 1280 4
      (on_host (announce (sample_platform True) sample_masque (sample_endpoint [7]) 0)
        (sample_session (new_udp_batch 1500 1 0) (Some (0x60 # replicate 6 0 @ 64 # replicate 32 0)) 2 0 []))
      = Some (Inl (PendingFailed e), ss') \<and> ho_stats_tasks (ss_host ss') = 1"
proof -
  let ?packet = "0x60 # replicate 6 0 @ 64 # replicate 32 0"
  let ?ss = "on_host (announce (sample_platform True) sample_masque (sample_endpoint [7]) 0)
        (sample_session (new_udp_batch 1500 1 0) (Some ?packet) 2 0 [])"
  have broken: "try_recv_batch True failing_net io w = (Inl (IoError ''ECONNREFUSED''), io, w)" for io w
    by (simp add: try_recv_batch_def recvmmsg_nonblocking_def failing_net_def)
  have one: "batch_size (new_udp_batch 1500 1 0) = 1"
    by (simp add: new_udp_batch_def clamp_nat_def MAX_UDP_BATCH_SIZE_def Let_def)
  have prep: "prepare_outgoing ?packet = Some (Inr 6, 0x60 # replicate 6 0 @ 63 # replicate 32 0)"
    by code_simp
  have full: "q_is_dgram_send_queue_full (sample_session_quic True) c"
    "q_dgram_max_writable_len (sample_session_quic True) c = Some 1350" for c
    by (simp_all add: sample_session_quic_def sample_pump_quic_def)
  have link: "lk_io (session_link ?ss) = new_udp_batch 1500 1 0" "lk_conn (session_link ?ss) = 2"
    by (simp_all add: session_link_def sample_session_def on_host_def)
  have offer: "\<exists>e l. offer_datagram True failing_net silent_select (sample_session_quic True) 65535 (Suc n) dgram k st = Some (Inl e, l)"
    if "batch_size (lk_io st) = 1" "lk_conn st \<noteq> 0"
    for n dgram k and st :: "(sample_world, nat, u16 \<times> 128 word option) link"
    using that by (simp add: full sample_flush drain_quic.simps broken)
  have "\<exists>e l. send_packet_datagram True failing_net silent_select (sample_session_quic True) sample_rs 65535
      [1, 0] ?packet st = Some (Inl e, l)"
    if "batch_size (lk_io st) = 1" "lk_conn st \<noteq> 0"
    for st :: "(sample_world, nat, u16 \<times> 128 word option) link"
    using offer [OF that, of 511 "[1, 0] @ 0x60 # replicate 6 0 @ 63 # replicate 32 0" 40]
    by (simp add: send_packet_datagram_def prep full Let_def del: offer_datagram.simps)
  from this [of "session_link ?ss"] obtain e l where
    "send_packet_datagram True failing_net silent_select (sample_session_quic True) sample_rs 65535
      [1, 0] ?packet (session_link ?ss) = Some (Inl e, l)"
    unfolding link using one by auto
  then have sent: "send_packet_datagram (pl_freebsd (sample_platform True)) (pl_net (sample_platform True))
      (pl_select (sample_platform True)) (pl_quic (sample_platform True)) (pl_tun (sample_platform True)) 65535
      [1, 0] ?packet (session_link ?ss) = Some (Inl e, l)"
    by (simp add: sample_platform_def)
  have "ho_pending (ss_host ?ss) = Some ?packet" "mc_activation_probe sample_masque = None"
    by (simp_all add: announce_host sample_session_def sample_host_def sample_masque_def)
  moreover have "build_flow_prefix (pl_put_varint (sample_platform True)) (4 div 4) = Inr [1, 0]"
    using sample_prefix by simp
  ultimately show ?thesis
    using pending_failure_skips_farewell [OF _ _ _ sent, of sample_masque 4]
    by (fastforce simp: lasting_def announce_host sample_session_def sample_host_def)
qed

end
