(* ===== verification/Registration.thy ===== *)
theory Registration
  imports Access Mesh Session
begin

text \<open>
  The commands of \<open>commands.rs\<close> that make a configuration: \<open>register\<close>, \<open>mesh-register\<close> and
  \<open>enroll\<close>. They run the operations of the theories \<open>Cloudflare\<close>, \<open>Mesh\<close>, \<open>Access\<close>, \<open>Mdm\<close>,
  \<open>Private_File\<close> and \<open>Config\<close> on one world, and stop at the first error; a command that waits for
  an XML reader without end does not return.
\<close>

section \<open>The machine\<close>

record ('h, 'k, 'r, 'w) machine =
  ma_sys :: system
  ma_web :: "'w web"
  ma_disk :: "('h, 'w) disk"
  ma_files :: "'w files"
  ma_json :: config_json
  ma_keys :: "('k, 'w) ec_keys"
  ma_base64_decode :: "string \<Rightarrow> string + bytes"
  ma_from_sec1 :: "bytes \<Rightarrow> string + 'k"
  ma_access :: "'w access_client"
  ma_xml :: "'r xml_reader"
  ma_xml_from_str :: "string \<Rightarrow> 'r"
  ma_codecs :: token_codecs

section \<open>Arguments and errors\<close>

record register_args =
  ra_locale :: string
  ra_model :: string
  ra_name :: string
  ra_jwt :: string
  ra_jwt_file :: "string option"
  ra_mdm_file :: "string option"
  ra_accept_tos :: bool

record mesh_register_args =
  mra_token_file :: string
  mra_locale :: string
  mra_model :: string
  mra_name :: string
  mra_acknowledge_linux_platform_claim :: bool
  mra_accept_tos :: bool

record enroll_args =
  ea_name :: string
  ea_regen_key :: bool

datatype registration_credentials = Jwt string | ServiceToken service_token_enrollment

datatype command_error =
    CredentialFile private_file_error
  | MdmFailed mdm_error
  | InputUnreadable string
  | AccessFailed access_error
  | KeysFailed string
  | ApiFailed api_failure
  | EnrollFailed enroll_failure
  | NoPeerConfig
  | ConfigFile file_error
  | ConfigExists string
  | TosRefused
  | ClaimNotAcknowledged
  | TokenFailed token_error
  | NotAClientConfig
  | EnrollmentAborted string

section \<open>Steps\<close>

type_synonym ('w, 'a) command = "('w, command_error, 'a) run"

text \<open>A line from the terminal, \<open>y\<close> or anything else.\<close>

definition answered_yes :: "('h, 'k, 'r, 'w) machine \<Rightarrow> ('w, bool) command" where
  "answered_yes ma =
     run_bind (run_of InputUnreadable (wb_read_line (ma_web ma))) (\<lambda>response. run_return (trim response = ''y''))"

definition load_registration_credentials ::
    "('h, 'k, 'r, 'w) machine \<Rightarrow> register_args \<Rightarrow> ('w, registration_credentials option) command" where
  "load_registration_credentials ma args =
     (case ra_jwt_file args of
        Some path \<Rightarrow>
          run_bind (run_of CredentialFile (read_private_registration_secret (ma_disk ma) path))
            (\<lambda>jwt. run_return (Some (Jwt jwt)))
      | None \<Rightarrow>
          (if trim (ra_jwt args) \<noteq> [] then run_return (Some (Jwt (trim (ra_jwt args))))
           else (case ra_mdm_file args of
                   Some path \<Rightarrow>
                     run_bind (run_of CredentialFile (read_private_registration_text (ma_disk ma) path)) (\<lambda>xml.
                     (case from_mdm_xml (ma_xml ma) (ma_xml_from_str ma xml) of
                        None \<Rightarrow> (\<lambda>w. None)
                      | Some r \<Rightarrow>
                          run_bind (run_lift (with_context MdmFailed r)) (\<lambda>config. run_return (Some (ServiceToken config)))))
                 | None \<Rightarrow> run_return None)))"

definition overwrite_allowed :: "('h, 'k, 'r, 'w) machine \<Rightarrow> string \<Rightarrow> ('w, bool) command" where
  "overwrite_allowed ma config_path w =
     (if fs_exists (ma_files ma) config_path w then answered_yes ma w else run_return True w)"

definition registration_jwt ::
    "('h, 'k, 'r, 'w) machine \<Rightarrow> registration_credentials option \<Rightarrow> ('w, string option) command" where
  "registration_jwt ma credentials =
     (case credentials of
        Some (Jwt jwt) \<Rightarrow> run_return (Some jwt)
      | Some (ServiceToken config) \<Rightarrow>
          run_bind (run_of AccessFailed (acquire_service_token_jwt (ma_access ma) config)) (\<lambda>jwt. run_return (Some jwt))
      | None \<Rightarrow> run_return None)"

definition enroll_or_fail ::
    "('h, 'k, 'r, 'w) machine \<Rightarrow> account_data \<Rightarrow> bytes \<Rightarrow> device_identity \<Rightarrow> ('w, account_data) command" where
  "enroll_or_fail ma account public_key_der identity =
     run_of EnrollFailed (enroll_key (ma_sys ma) (ma_web ma) account public_key_der identity)"

definition peer_config_of :: "peer \<Rightarrow> masque_peer_config" where
  "peer_config_of p =
     \<lparr>mp_endpoint_v4 = endpoint_v4_from_account_value (ep_v4 (pr_endpoint p)),
      mp_endpoint_v6 = endpoint_v6_from_account_value (ep_v6 (pr_endpoint p)), mp_endpoint_host = ep_host (pr_endpoint p),
      mp_ports = ep_ports (pr_endpoint p), mp_endpoint_pub_key = pr_public_key p\<rparr>"

definition build_app_config ::
    "'w web \<Rightarrow> account_data \<Rightarrow> bytes \<Rightarrow> string \<Rightarrow> device_identity \<Rightarrow> command_error + app_config" where
  "build_app_config web account private_key_der access_token device_identity =
     (case ac_peers (acc_config account) of
        [] \<Rightarrow> Inl NoPeerConfig
      | p # _ \<Rightarrow> Inr
          \<lparr>cf_role = RoleClient, cf_mesh_node = None, cf_private_key = wb_base64 web private_key_der,
           cf_endpoint_v4 = endpoint_v4_from_account_value (ep_v4 (pr_endpoint p)),
           cf_endpoint_v6 = endpoint_v6_from_account_value (ep_v6 (pr_endpoint p)),
           cf_endpoint_pub_key = pr_public_key p, cf_license = at_license (acc_account account), cf_id = acc_id account,
           cf_access_token = access_token, cf_ipv4 = ad_v4 (ac_interface (acc_config account)),
           cf_ipv6 = ad_v6 (ac_interface (acc_config account)), cf_device_identity = device_identity,
           cf_masque_peers = map peer_config_of (ac_peers (acc_config account))\<rparr>)"

definition save_config ::
    "('h, 'k, 'r, 'w) machine \<Rightarrow> string \<Rightarrow> app_config \<Rightarrow> ('w, unit) command" where
  "save_config ma path cfg = run_of ConfigFile (save_sensitive (ma_files ma) (ma_json ma) path cfg)"

section \<open>Commands\<close>

text \<open>\<open>register\<close> once the credentials are loaded and nothing is overwritten against the user's will.\<close>

definition register_device ::
    "('h, 'k, 'r, 'w) machine \<Rightarrow> string \<Rightarrow> device_identity \<Rightarrow> registration_credentials option \<Rightarrow> bool \<Rightarrow> ('w, unit) command" where
  "register_device ma config_path identity credentials accept_tos =
     run_bind (registration_jwt ma credentials) (\<lambda>jwt.
     run_bind (run_of KeysFailed (generate_ec_key_pair (ma_keys ma))) (\<lambda>(private_key_der, public_key_der).
     run_bind (run_of ApiFailed (register (ma_sys ma) (ma_web ma) identity public_key_der jwt accept_tos)) (\<lambda>account.
     run_bind (enroll_or_fail ma account public_key_der identity) (\<lambda>updated.
     run_bind (run_lift (build_app_config (ma_web ma) updated private_key_der (acc_token account) identity)) (\<lambda>app_cfg.
     save_config ma config_path app_cfg)))))"

definition register_client :: "('h, 'k, 'r, 'w) machine \<Rightarrow> string \<Rightarrow> register_args \<Rightarrow> ('w, unit) command" where
  "register_client ma config_path args =
     run_bind (load_registration_credentials ma args) (\<lambda>credentials.
     run_bind (overwrite_allowed ma config_path) (\<lambda>allowed.
     if \<not> allowed then run_return ()
     else register_device ma config_path
       (detect_device_identity (ma_sys ma) (ra_name args) (ra_model args) (ra_locale args)) credentials
       (ra_accept_tos args)))"

definition confirm_mesh :: "('h, 'k, 'r, 'w) machine \<Rightarrow> string \<Rightarrow> mesh_register_args \<Rightarrow> ('w, unit) command" where
  "confirm_mesh ma config_path args w =
     (if fs_exists (ma_files ma) config_path w then run_fail (ConfigExists config_path) w
      else run_bind (if mra_accept_tos args then run_return True else answered_yes ma) (\<lambda>accepted.
        if \<not> accepted then run_fail TosRefused
        else if \<not> mra_acknowledge_linux_platform_claim args then run_fail ClaimNotAcknowledged
        else run_return ()) w)"

definition mesh_config_of :: "mesh_node_token \<Rightarrow> string \<Rightarrow> app_config \<Rightarrow> app_config" where
  "mesh_config_of token native_platform app_cfg =
     app_cfg\<lparr>cf_role := RoleMeshNode,
       cf_mesh_node := Some
         \<lparr>mn_account_tag = mt_account_tag token, mn_tunnel_id = mt_tunnel_id token, mn_activation_probe_target = None,
          mn_native_platform = native_platform,
          mn_registration_platform_claim = CONNECTOR_REGISTRATION_PLATFORM\<rparr>\<rparr>"

definition mesh_register :: "('h, 'k, 'r, 'w) machine \<Rightarrow> string \<Rightarrow> mesh_register_args \<Rightarrow> ('w, unit) command" where
  "mesh_register ma config_path args =
     run_bind (confirm_mesh ma config_path args) (\<lambda>_.
     run_bind (run_of TokenFailed (read_token (ma_disk ma) (ma_codecs ma) (mra_token_file args))) (\<lambda>token.
     (let identity = detect_device_identity (ma_sys ma) (mra_name args) (mra_model args) (mra_locale args);
          native_platform = di_device_type identity;
          registration_identity = identity\<lparr>di_device_type := CONNECTOR_REGISTRATION_PLATFORM\<rparr> in
      run_bind (run_of KeysFailed (generate_ec_key_pair (ma_keys ma))) (\<lambda>(private_key_der, public_key_der).
      run_bind (run_of ApiFailed
                 (register_mesh_node (ma_sys ma) (ma_web ma) token registration_identity public_key_der)) (\<lambda>account.
      run_bind (enroll_or_fail ma account public_key_der registration_identity) (\<lambda>enrolled.
      run_bind (run_lift (build_app_config (ma_web ma) enrolled private_key_der (acc_token account) identity)) (\<lambda>app_cfg.
      save_config ma config_path (mesh_config_of token native_platform app_cfg))))))))"

text \<open>A read of the configuration changes nothing.\<close>

definition load_config :: "('h, 'k, 'r, 'w) machine \<Rightarrow> string \<Rightarrow> ('w, app_config) command" where
  "load_config ma path w = Some (with_context ConfigFile (load (ma_files ma) (ma_json ma) path w), w)"

definition stored_key_pair :: "('h, 'k, 'r, 'w) machine \<Rightarrow> app_config \<Rightarrow> string + bytes \<times> bytes" where
  "stored_key_pair ma cfg =
     and_then (get_ec_private_key (ma_base64_decode ma) (ma_from_sec1 ma) cfg) (\<lambda>secret.
     and_then (ek_sec1_der (ma_keys ma) secret) (\<lambda>private_der.
     and_then (ek_spki_der (ma_keys ma) secret) (\<lambda>public_der. Inr (private_der, public_der))))"

definition account_of_config :: "app_config \<Rightarrow> account_data" where
  "account_of_config cfg = default_account_data\<lparr>acc_id := cf_id cfg, acc_token := cf_access_token cfg\<rparr>"

definition enroll_identity :: "system \<Rightarrow> app_config \<Rightarrow> string \<Rightarrow> device_identity" where
  "enroll_identity sys cfg requested_name =
     (let identity = (if di_serial_number (cf_device_identity cfg) = []
            then detect_device_identity sys requested_name DEFAULT_MODEL DEFAULT_LOCALE else cf_device_identity cfg);
          named = (if trim requested_name \<noteq> [] then identity\<lparr>di_name := trim requested_name\<rparr> else identity)
      in named\<lparr>di_client_version := CLIENT_VERSION\<rparr>)"

text \<open>A key the server calls invalid is replaced once, when the user says so.\<close>

definition enroll_with_retry ::
    "('h, 'k, 'r, 'w) machine \<Rightarrow> account_data \<Rightarrow> device_identity \<Rightarrow> bytes \<times> bytes \<Rightarrow> ('w, account_data \<times> bytes) command" where
  "enroll_with_retry ma account identity = (\<lambda>(private_key_der, public_key_der) w.
     (case enroll_key (ma_sys ma) (ma_web ma) account public_key_der identity w of
        (Inr updated, w') \<Rightarrow> Some (Inr (updated, private_key_der), w')
      | (Inl (EnrollApi status api_error), w') \<Rightarrow>
          (if has_error_message INVALID_PUBLIC_KEY api_error then
             run_bind (answered_yes ma) (\<lambda>yes.
               if \<not> yes then run_fail (EnrollmentAborted (errors_as_string ''; '' api_error))
               else run_bind (run_of KeysFailed (generate_ec_key_pair (ma_keys ma))) (\<lambda>(private', public').
                    run_bind (enroll_or_fail ma account public' identity) (\<lambda>updated.
                    run_return (updated, private')))) w'
           else Some (Inl (EnrollFailed (EnrollApi status api_error)), w'))
      | (Inl e, w') \<Rightarrow> Some (Inl (EnrollFailed e), w')))"

definition enroll :: "('h, 'k, 'r, 'w) machine \<Rightarrow> string \<Rightarrow> enroll_args \<Rightarrow> ('w, unit) command" where
  "enroll ma config_path args =
     run_bind (load_config ma config_path) (\<lambda>cfg.
     if cf_role cfg \<noteq> RoleClient then run_fail NotAClientConfig
     else
       (let account = account_of_config cfg; identity = enroll_identity (ma_sys ma) cfg (ea_name args) in
        run_bind (if ea_regen_key args then run_of KeysFailed (generate_ec_key_pair (ma_keys ma))
                  else run_lift (with_context KeysFailed (stored_key_pair ma cfg))) (\<lambda>pair.
        run_bind (enroll_with_retry ma account identity pair) (\<lambda>(updated, private_key_der).
        run_bind (run_lift (build_app_config (ma_web ma) updated private_key_der (acc_token account) identity)) (\<lambda>app_cfg.
        run_of ConfigFile (save (ma_files ma) (ma_json ma) config_path app_cfg))))))"

section \<open>Lemmas\<close>

lemma run_of_Inr: "run_of err m s = Some (Inr x, s') \<longleftrightarrow> m s = (Inr x, s')"
  by (auto simp: run_of_def split: prod.splits sum.splits)

lemma run_lift_Inr: "run_lift r s = Some (Inr x, s') \<longleftrightarrow> r = Inr x \<and> s' = s"
  by (auto simp: run_lift_def)

lemma run_fail_Inr: "run_fail e s \<noteq> Some (Inr x, s')"
  by (simp add: run_fail_def)

lemma run_return_Inr: "run_return y s = Some (Inr x, s') \<longleftrightarrow> x = y \<and> s' = s"
  by (auto simp: run_return_def)

lemmas command_reads = run_of_Inr run_lift_Inr run_fail_Inr run_return_Inr

lemma answered_yes_ok:
  "answered_yes ma w = Some (Inr b, w') \<longleftrightarrow> (\<exists>r. wb_read_line (ma_web ma) w = (Inr r, w') \<and> b = (trim r = ''y''))"
  by (auto simp: answered_yes_def run_bind_Some command_reads)

text \<open>A pair of keys is of one secret.\<close>

definition key_pair :: "('k, 'w) ec_keys \<Rightarrow> bytes \<Rightarrow> bytes \<Rightarrow> bool" where
  "key_pair ec private_der public_der \<longleftrightarrow>
     (\<exists>secret. ek_sec1_der ec secret = Inr private_der \<and> ek_spki_der ec secret = Inr public_der)"

lemma generate_ec_key_pair_ok: "generate_ec_key_pair ec w = (Inr (private_der, public_der), w') \<Longrightarrow> key_pair ec private_der public_der"
  by (auto simp: generate_ec_key_pair_def key_pair_def and_then_eq_Inr split: prod.splits)

lemma stored_key_pair_ok: "stored_key_pair ma cfg = Inr (private_der, public_der) \<Longrightarrow> key_pair (ma_keys ma) private_der public_der"
  by (auto simp: stored_key_pair_def key_pair_def and_then_eq_Inr)

lemma build_app_config_ok:
  assumes "build_app_config web account private_der token identity = Inr cfg"
  shows "cf_role cfg = RoleClient \<and> cf_mesh_node cfg = None \<and> cf_private_key cfg = wb_base64 web private_der
    \<and> cf_access_token cfg = token \<and> cf_id cfg = acc_id account \<and> cf_device_identity cfg = identity
    \<and> cf_masque_peers cfg = map peer_config_of (ac_peers (acc_config account)) \<and> cf_masque_peers cfg \<noteq> []"
  using assms by (auto simp: build_app_config_def split: list.splits)

text \<open>The server confirmed the key of \<open>private_der\<close> for this registration.\<close>

definition key_enrolled ::
    "('h, 'k, 'r, 'w) machine \<Rightarrow> account_data \<Rightarrow> device_identity \<Rightarrow> bytes \<Rightarrow> account_data \<Rightarrow> bool" where
  "key_enrolled ma account identity private_der updated \<longleftrightarrow>
     (\<exists>public_der resp body w w'. key_pair (ma_keys ma) private_der public_der
        \<and> wb_send (ma_web ma) (enroll_request (ma_sys ma) (ma_web ma) account public_der identity) w = (Inr resp, w')
        \<and> rs_status resp = 200 \<and> rs_body resp = Inr body \<and> wb_account (ma_web ma) body = Inr updated)"

lemma key_enrolledI:
  assumes "key_pair (ma_keys ma) private_der public_der"
    and "enroll_key (ma_sys ma) (ma_web ma) account public_der identity w = (Inr updated, w')"
  shows "key_enrolled ma account identity private_der updated"
proof -
  obtain resp body where "wb_send (ma_web ma) (enroll_request (ma_sys ma) (ma_web ma) account public_der identity) w = (Inr resp, w')"
    "rs_status resp = 200" "rs_body resp = Inr body" "wb_account (ma_web ma) body = Inr updated"
    using enroll_key_ok [OF assms(2)] by blast
  with assms(1) show ?thesis
    unfolding key_enrolled_def by blast
qed

lemma enroll_with_retry_ok:
  assumes "enroll_with_retry ma account identity (private_der, public_der) w = Some (Inr (updated, private'), w')"
    and "key_pair (ma_keys ma) private_der public_der"
  shows "key_enrolled ma account identity private' updated"
proof (cases "enroll_key (ma_sys ma) (ma_web ma) account public_der identity w")
  case (Pair r w1)
  show ?thesis
  proof (cases r)
    case (Inr u)
    then show ?thesis
      using assms Pair key_enrolledI by (fastforce simp: enroll_with_retry_def)
  next
    case (Inl e)
    then obtain public' wa wb where gen: "generate_ec_key_pair (ma_keys ma) wa = (Inr (private', public'), wb)"
      and enr: "enroll_key (ma_sys ma) (ma_web ma) account public' identity wb = (Inr updated, w')"
      using assms(1) Pair
      by (cases e) (auto simp: enroll_with_retry_def enroll_or_fail_def command_reads split: if_splits elim!: run_bind_okE)
    show ?thesis
      by (rule key_enrolledI [OF generate_ec_key_pair_ok [OF gen] enr])
  qed
qed

lemma confirm_mesh_ok:
  assumes "confirm_mesh ma path args w = Some (Inr u, w')"
  shows "\<not> fs_exists (ma_files ma) path w" "mra_acknowledge_linux_platform_claim args"
    "mra_accept_tos args \<or> (\<exists>r. wb_read_line (ma_web ma) w = (Inr r, w') \<and> trim r = ''y'')"
  using assms
  by (auto simp: confirm_mesh_def command_reads answered_yes_ok split: if_splits elim!: run_bind_okE)

text \<open>The steps of a successful registration that a caller sees.\<close>

definition client_registered :: "('h, 'k, 'r, 'w) machine \<Rightarrow> register_args \<Rightarrow> string \<Rightarrow> 'w \<Rightarrow> bool" where
  "client_registered ma args config_path w' \<longleftrightarrow>
     (\<exists>identity account private_der updated cfg w1.
        identity = detect_device_identity (ma_sys ma) (ra_name args) (ra_model args) (ra_locale args)
        \<and> key_enrolled ma account identity private_der updated
        \<and> build_app_config (ma_web ma) updated private_der (acc_token account) identity = Inr cfg
        \<and> save_sensitive (ma_files ma) (ma_json ma) config_path cfg w1 = (Inr (), w'))"

lemma register_device_ok:
  assumes "register_device ma config_path identity credentials accept_tos w = Some (Inr u, w')"
  shows "\<exists>account private_der updated cfg w1. key_enrolled ma account identity private_der updated
    \<and> build_app_config (ma_web ma) updated private_der (acc_token account) identity = Inr cfg
    \<and> save_sensitive (ma_files ma) (ma_json ma) config_path cfg w1 = (Inr (), w')"
proof -
  obtain private_der public_der wa wb account wc updated wd cfg where
    gen: "generate_ec_key_pair (ma_keys ma) wa = (Inr (private_der, public_der), wb)"
    and enr: "enroll_key (ma_sys ma) (ma_web ma) account public_der identity wc = (Inr updated, wd)"
    and "build_app_config (ma_web ma) updated private_der (acc_token account) identity = Inr cfg"
      "save_sensitive (ma_files ma) (ma_json ma) config_path cfg wd = (Inr (), w')"
    using assms unfolding register_device_def
    by (auto simp: command_reads enroll_or_fail_def save_config_def elim!: run_bind_okE)
  with key_enrolledI [OF generate_ec_key_pair_ok [OF gen] enr] show ?thesis
    by blast
qed

lemma register_client_ok:
  assumes "register_client ma config_path args w = Some (Inr u, w')"
  shows "client_registered ma args config_path w'
    \<or> (\<exists>w1 r. wb_read_line (ma_web ma) w1 = (Inr r, w') \<and> trim r \<noteq> ''y'')"
proof -
  obtain credentials w1 allowed w2 where allowed: "overwrite_allowed ma config_path w1 = Some (Inr allowed, w2)"
    and rest: "(if \<not> allowed then run_return ()
     else register_device ma config_path
       (detect_device_identity (ma_sys ma) (ra_name args) (ra_model args) (ra_locale args)) credentials
       (ra_accept_tos args)) w2 = Some (Inr u, w')"
    using assms unfolding register_client_def by (elim run_bind_okE)
  show ?thesis
  proof (cases allowed)
    case False
    then show ?thesis
      using rest allowed by (auto simp: overwrite_allowed_def answered_yes_ok command_reads split: if_splits)
  next
    case True
    then show ?thesis
      using rest register_device_ok [of ma config_path _ credentials "ra_accept_tos args" w2 u w']
      unfolding client_registered_def by auto
  qed
qed

section \<open>Properties\<close>

text \<open>
  C5. A Mesh node is only registered deliberately, and what is saved is what was enrolled. There was no
  configuration before, the platform claim was acknowledged, the terms were accepted on the command
  line or with \<open>y\<close>; the token was read from its private file; the registration answered with an id
  and a token; the server confirmed the public key of the very private key that is written, for this
  registration and with the claimed platform; and the last thing that happens is that the
  configuration, of a Mesh node with the token's identity and the true platform, is saved with
  restricted access.
\<close>

theorem mesh_register_sound:
  assumes "mesh_register ma config_path args w = Some (Inr u, w')"
  shows "\<not> fs_exists (ma_files ma) config_path w \<and> mra_acknowledge_linux_platform_claim args
    \<and> (mra_accept_tos args \<or> (\<exists>r w1. wb_read_line (ma_web ma) w = (Inr r, w1) \<and> trim r = ''y''))
    \<and> (\<exists>token identity account private_der enrolled cfg w1 w2 w3.
         identity = detect_device_identity (ma_sys ma) (mra_name args) (mra_model args) (mra_locale args)
         \<and> read_token (ma_disk ma) (ma_codecs ma) (mra_token_file args) w1 = (Inr token, w2)
         \<and> acc_id account \<noteq> [] \<and> acc_token account \<noteq> []
         \<and> key_enrolled ma account (identity\<lparr>di_device_type := ''linux''\<rparr>) private_der enrolled
         \<and> save_sensitive (ma_files ma) (ma_json ma) config_path cfg w3 = (Inr (), w')
         \<and> cf_role cfg = RoleMeshNode \<and> cf_private_key cfg = wb_base64 (ma_web ma) private_der
         \<and> cf_access_token cfg = acc_token account \<and> cf_device_identity cfg = identity
         \<and> cf_mesh_node cfg = Some
             \<lparr>mn_account_tag = mt_account_tag token, mn_tunnel_id = mt_tunnel_id token, mn_activation_probe_target = None,
              mn_native_platform = di_device_type identity, mn_registration_platform_claim = ''linux''\<rparr>)"
proof -
  define identity where "identity = detect_device_identity (ma_sys ma) (mra_name args) (mra_model args) (mra_locale args)"
  let ?claimed = "identity\<lparr>di_device_type := ''linux''\<rparr>"
  obtain wa u1 token wb private_der public_der wc wd account we enrolled wf app_cfg where
    confirm: "confirm_mesh ma config_path args w = Some (Inr u1, wa)"
    and token: "read_token (ma_disk ma) (ma_codecs ma) (mra_token_file args) wa = (Inr token, wb)"
    and gen: "generate_ec_key_pair (ma_keys ma) wb = (Inr (private_der, public_der), wc)"
    and reg: "register_mesh_node (ma_sys ma) (ma_web ma) token ?claimed public_der wc = (Inr account, wd)"
    and enr: "enroll_key (ma_sys ma) (ma_web ma) account public_der ?claimed wd = (Inr enrolled, we)"
    and cfg: "build_app_config (ma_web ma) enrolled private_der (acc_token account) identity = Inr app_cfg"
    and saved: "save_sensitive (ma_files ma) (ma_json ma) config_path
      (mesh_config_of token (di_device_type identity) app_cfg) we = (Inr (), w')"
    using assms unfolding mesh_register_def identity_def Let_def
    by (auto simp: command_reads enroll_or_fail_def save_config_def CONNECTOR_REGISTRATION_PLATFORM_def elim!: run_bind_okE)
  have "acc_id account \<noteq> [] \<and> acc_token account \<noteq> []"
    by (rule register_mesh_node_ok [OF reg])
  moreover have "key_enrolled ma account ?claimed private_der enrolled"
    by (rule key_enrolledI [OF generate_ec_key_pair_ok [OF gen] enr])
  ultimately show ?thesis
    using confirm_mesh_ok [OF confirm] token saved build_app_config_ok [OF cfg] unfolding identity_def [symmetric]
    by (fastforce simp: mesh_config_of_def CONNECTOR_REGISTRATION_PLATFORM_def)
qed

text \<open>A machine whose world is what it did so far; the server accepts everything.\<close>

definition sample_registration_web :: "string list web" where
  "sample_registration_web =
     \<lparr>wb_send = \<lambda>req w. (Inr \<lparr>rs_status = 200, rs_location = None, rs_body = Inr []\<rparr>, w @ [rq_url req]),
      wb_account = \<lambda>_. Inr (default_account_data\<lparr>acc_id := ''t.1'', acc_token := ''access'', acc_config :=
        \<lparr>ac_peers = [\<lparr>pr_public_key = ''key'', pr_endpoint = \<lparr>ep_v4 = ''162.159.198.1:0'', ep_v6 = [], ep_host = [], ep_ports = []\<rparr>\<rparr>],
         ac_interface = \<lparr>ad_v4 = ''172.16.0.2'', ad_v6 = []\<rparr>\<rparr>\<rparr>),
      wb_api_error = \<lambda>_. Inl [], wb_json = \<lambda>_. Inr JNull,
      wb_account_of_json = \<lambda>_. Inr (default_account_data\<lparr>acc_id := ''t.1'', acc_token := ''access''\<rparr>),
      wb_base64 = map (char_of o unat), wb_cf_time = \<lambda>w. (''now'', w), wb_read_line = op_return ''y''\<rparr>"

definition sample_disk :: "(unit, string list) disk" where
  "sample_disk =
     (let m = \<lparr>fm_is_symlink = False, fm_is_file = True, fm_len = 5, fm_uid = 0, fm_mode = 384\<rparr>
      in \<lparr>dk_exists = \<lambda>_ _. True, dk_symlink_metadata = \<lambda>_. op_return m, dk_metadata = \<lambda>_. op_return m,
          dk_open = \<lambda>_. op_return (), dk_handle_metadata = \<lambda>_. op_return m, dk_take = \<lambda>_ _. op_return ''token'',
          dk_read_to_string = \<lambda>_. op_return ''token'', dk_geteuid = 0\<rparr>)"

definition sample_files :: "string list files" where
  "sample_files =
     \<lparr>fs_exists = \<lambda>_ _. False, fs_read = \<lambda>_ _. Inl [], fs_write = \<lambda>path _ w. (Inr (), w @ [''write '' @ path]),
      fs_set_mode = \<lambda>path _ w. (Inr (), w @ [''chmod '' @ path])\<rparr>"

definition sample_machine :: "(unit, unit, xml_event list, string list) machine" where
  "sample_machine =
     \<lparr>ma_sys = sample_system,
      ma_web = sample_registration_web, ma_disk = sample_disk, ma_files = sample_files,
      ma_json = \<lparr>json_from_str = \<lambda>_. Inl [], json_pretty = \<lambda>_. Inr ''config''\<rparr>,
      ma_keys = \<lparr>ek_random = \<lambda>w. ((), w), ek_sec1_der = \<lambda>_. Inr [1], ek_spki_der = \<lambda>_. Inr [2]\<rparr>,
      ma_base64_decode = \<lambda>_. Inl [], ma_from_sec1 = \<lambda>_. Inr (),
      ma_access = \<lparr>ac_parse_url = \<lambda>_. Inl [], ac_to_str = \<lambda>_. Inl [], ac_build = Inr (), ac_send = \<lambda>_. op_fail []\<rparr>,
      ma_xml = sample_reader, ma_xml_from_str = \<lambda>_. [],
      ma_codecs = \<lparr>tk_standard = \<lambda>_. Inr (replicate 32 0), tk_standard_no_pad = \<lambda>_. Inl [], tk_url_safe = \<lambda>_. Inl [],
        tk_url_safe_no_pad = \<lambda>_. Inl [],
        tk_payload = \<lambda>_. Inr \<lparr>tp_account_tag = replicate 32 CHR ''a'',
          tp_tunnel_id = ''00000000-0000-0000-0000-000000000000'', tp_tunnel_secret = []\<rparr>\<rparr>\<rparr>"

definition sample_mesh_args :: mesh_register_args where
  "sample_mesh_args =
     \<lparr>mra_token_file = ''/root/token'', mra_locale = [], mra_model = [], mra_name = [],
      mra_acknowledge_linux_platform_claim = True, mra_accept_tos = False\<rparr>"

definition sample_token :: mesh_node_token where
  "sample_token =
     \<lparr>mt_encoded = ''token'', mt_account_tag = replicate 32 CHR ''a'',
      mt_tunnel_id = ''00000000-0000-0000-0000-000000000000''\<rparr>"

lemma sample_uuid: "is_uuid_like ''00000000-0000-0000-0000-000000000000''"
  by code_simp

lemma sample_token_read:
  "read_token (ma_disk sample_machine) (ma_codecs sample_machine) path w = (Inr sample_token, w)"
proof -
  have "is_ascii_hexdigit CHR ''a''"
    by code_simp
  moreover have "trim ''token'' = ''token''"
    by (rule trim_graphic) (simp add: graphic_def)
  moreover have "(384 :: u32) AND 63 = 0"
    by simp
  ultimately show ?thesis
    using sample_uuid
    by (simp add: sample_machine_def sample_disk_def Let_def read_token_def op_simps validate_private_file_def
        group_accessible_def parse_token_def decode_token_def result_or_else_def sample_token_def list_all_iff)
qed

lemma sample_mesh_run:
  "mesh_register sample_machine ''mesh.json'' sample_mesh_args [] =
     Some (Inr (), [''https://api.devices.cloudflare.com/v1/accounts/aaaaaaaaaaaaaaaaaaaaaaaaaaaaaaaa/warp_connector'',
       ''https://api.devices.cloudflare.com/v0a4471/reg/t.1'', ''write mesh.json'', ''chmod mesh.json''])"
proof -
  have "trim ''y'' = ''y''"
    by (rule trim_graphic) (simp add: graphic_def)
  then have confirm: "confirm_mesh sample_machine ''mesh.json'' sample_mesh_args [] = Some (Inr (), [])"
    by (simp add: confirm_mesh_def sample_machine_def sample_files_def sample_mesh_args_def run_bind_def answered_yes_def
        run_of_def sample_registration_web_def op_simps run_simps)
  have gen: "generate_ec_key_pair (ma_keys sample_machine) w = (Inr ([1], [2]), w)" for w
    by (simp add: generate_ec_key_pair_def sample_machine_def)
  have tag: "replicate 32 CHR ''a'' = ''aaaaaaaaaaaaaaaaaaaaaaaaaaaaaaaa''"
    by code_simp
  show ?thesis
    unfolding mesh_register_def run_bind_def confirm run_of_def sample_token_read gen Let_def
    by (simp add: register_mesh_node_def enroll_or_fail_def run_of_def enroll_key_def op_simps cf_time_def exchange_def
        mesh_register_request_def enroll_request_def client_headers_def new_request_def header_field_def sample_system_url tag
        sample_registration_web_def STATUS_OK_def decode_account_data_response_def save_config_def save_sensitive_def
        save_def build_app_config_def run_simps sample_token_def sample_files_def sample_machine_def
        default_account_data_def)
qed

corollary mesh_register_sound_witness:
  "\<not> fs_exists (ma_files sample_machine) ''mesh.json'' []
    \<and> (\<exists>r w1. wb_read_line (ma_web sample_machine) [] = (Inr r, w1) \<and> trim r = ''y'')"
  using mesh_register_sound [OF sample_mesh_run] by (simp add: sample_mesh_args_def)

end
