(* ===== verification/Floats.thy ===== *)
theory Floats
  imports Complex_Main Stats
begin

text \<open>
  The floating-point arithmetic of the telemetry, on the non-negative values it computes: a number is
  its exact rational value and every operation rounds to the nearest number with as many bits as the
  format's mantissa, 53 for \<open>f64\<close> and 24 for \<open>f32\<close>, half to even. The values lie between
  \<open>2^-64\<close> and \<open>2^128\<close> or are zero, so that no exponent overflows.
\<close>

text \<open>A quotient with \<open>p\<close> bits: \<open>scale\<close> makes its integral part one of exactly \<open>p\<close> bits.\<close>

definition scaled_at :: "int \<Rightarrow> nat \<Rightarrow> nat \<Rightarrow> nat \<times> nat" where
  "scaled_at s a b = (if 0 \<le> s then (a * 2 ^ nat s, b) else (a, b * 2 ^ nat (- s)))"

definition scale :: "nat \<Rightarrow> nat \<Rightarrow> nat \<Rightarrow> int" where
  "scale p a b =
     (let s = int p + int (bit_len b) - int (bit_len a)
      in (case scaled_at s a b of (n, d) \<Rightarrow> if 2 ^ p * d \<le> n then s - 1 else s))"

definition round_ratio :: "nat \<Rightarrow> nat \<Rightarrow> nat \<Rightarrow> rat" where
  "round_ratio p a b =
     (if a = 0 then 0
      else (let s = scale p a b; m = (case scaled_at s a b of (n, d) \<Rightarrow> round_half_even n d)
            in if 0 \<le> s then of_nat m / 2 ^ nat s else of_nat m * 2 ^ nat (- s)))"

definition round_rat :: "nat \<Rightarrow> rat \<Rightarrow> rat" where
  "round_rat p r = (case quotient_of r of (a, b) \<Rightarrow> round_ratio p (nat a) (nat b))"

definition f64_of_nat :: "nat \<Rightarrow> rat" where "f64_of_nat n = round_rat 53 (of_nat n)"
definition f64_add :: "rat \<Rightarrow> rat \<Rightarrow> rat" where "f64_add x y = round_rat 53 (x + y)"
definition f64_div :: "rat \<Rightarrow> rat \<Rightarrow> rat" where "f64_div x y = round_rat 53 (x / y)"
definition f32_of_f64 :: "rat \<Rightarrow> rat" where "f32_of_f64 x = round_rat 24 x"

text \<open>\<open>1.0 - x\<close> for \<open>x\<close> up to one.\<close>

definition f64_complement :: "rat \<Rightarrow> rat" where "f64_complement x = round_rat 53 (1 - x)"

definition clamp_unit :: "rat \<Rightarrow> rat" where
  "clamp_unit x = (if x < 0 then 0 else if 1 < x then 1 else x)"

text \<open>\<open>round()\<close>, half away from zero, of a non-negative number, and \<open>as u64\<close>, which saturates.\<close>

definition round_to_u64 :: "rat \<Rightarrow> nat" where
  "round_to_u64 x = min (nat \<lfloor>x + 1 / 2\<rfloor>) u64_max"

section \<open>Lemmas\<close>

lemma round_half_even_le:
  assumes "n \<le> k * d" "0 < d"
  shows "round_half_even n d \<le> k"
proof (cases "n div d < k")
  case False
  then have "n div d = k"
    using div_le_mono [OF assms(1), of d] assms(2) by simp
  then have "n mod d = 0"
    using assms(1) div_mult_mod_eq [of n d] by simp
  then show ?thesis
    using \<open>n div d = k\<close> assms(2) by (simp add: round_half_even_def Let_def)
qed (simp add: round_half_even_def Let_def)

lemma bit_len_mono: "a \<le> b \<Longrightarrow> bit_len a \<le> bit_len b"
proof (induction b arbitrary: a rule: less_induct)
  case (less b)
  show ?case
  proof (cases "a = 0")
    case True
    then show ?thesis
      by (simp add: bit_len.simps [of 0])
  next
    case False
    then have "bit_len (a div 2) \<le> bit_len (b div 2)"
      using less by (intro less.IH) (auto intro: div_le_mono)
    then show ?thesis
      using False less.prems bit_len.simps [of a] bit_len.simps [of b] by simp
  qed
qed

lemma scale_nonneg: "a \<le> b \<Longrightarrow> 0 < p \<Longrightarrow> 0 \<le> scale p a b"
  using bit_len_mono [of a b] by (auto simp: scale_def Let_def split: prod.splits)

lemma round_ratio_nonneg: "0 \<le> round_ratio p a b"
  by (simp add: round_ratio_def Let_def split: prod.splits)

lemma round_ratio_le_1:
  assumes "a \<le> b" "0 < b" "0 < p"
  shows "round_ratio p a b \<le> 1"
proof (cases "a = 0")
  case True
  then show ?thesis
    by (simp add: round_ratio_def)
next
  case False
  define s where "s = scale p a b"
  have "0 \<le> s"
    using scale_nonneg assms unfolding s_def by blast
  moreover have "round_half_even (a * 2 ^ nat s) b \<le> 2 ^ nat s"
    using assms by (intro round_half_even_le) (simp_all add: mult.commute)
  then have "(of_nat (round_half_even (a * 2 ^ nat s) b) :: rat) \<le> 2 ^ nat s"
    by (metis of_nat_le_iff of_nat_numeral of_nat_power)
  ultimately show ?thesis
    using False unfolding round_ratio_def s_def [symmetric] by (simp add: Let_def scaled_at_def)
qed

lemma round_rat_nonneg: "0 \<le> round_rat p r"
  by (simp add: round_rat_def round_ratio_nonneg split: prod.splits)

lemma round_rat_le_1:
  assumes "r \<le> 1" "0 < p"
  shows "round_rat p r \<le> 1"
proof -
  obtain a b where q: "quotient_of r = (a, b)"
    by fastforce
  have "0 < b" "r = of_int a / of_int b"
    using quotient_of_denom_pos [OF q] quotient_of_div [OF q] by simp_all
  then have "a \<le> b"
    using assms(1) by (simp add: divide_le_eq)
  then show ?thesis
    using q \<open>0 < b\<close> assms(2) by (auto simp: round_rat_def intro!: round_ratio_le_1)
qed

lemma clamp_unit_range: "clamp_unit x \<in> {0..1}"
  by (simp add: clamp_unit_def)

lemma f32_unit: "f32_of_f64 (clamp_unit x) \<in> {0..1}"
  using clamp_unit_range [of x] round_rat_le_1 [of "clamp_unit x" 24]
  by (simp add: f32_of_f64_def round_rat_nonneg)

lemma round_to_u64_le: "round_to_u64 x \<le> u64_max"
  by (simp add: round_to_u64_def)

text \<open>A third in 24 bits.\<close>

lemma round_ratio_sample: "round_ratio 24 1 3 = 11184811 / 33554432" "round_ratio 24 1 4 = 1 / 4"
  by (simp_all add: round_ratio_def scale_def scaled_at_def Let_def bit_len.simps round_half_even_def)

end
