(* ===== verification/Telemetry.thy ===== *)
theory Telemetry
  imports Floats Net_Show Cloudflare
begin

text \<open>
  \<open>api/freebsd_telemetry.rs\<close>: what a device reports of its host. The calls of FreeBSD's C library are
  parameters on a state \<open>'w\<close>; an \<open>Option\<close>-valued function is an operation whose failure has no value.
\<close>

section \<open>The C library\<close>

text \<open>A socket address by its family, with its address as its bytes are stored.\<close>

datatype sockaddr = AfInet bytes | AfInet6 bytes | AfLink | AfOther

record if_data =
  ifi_ibytes :: u64
  ifi_obytes :: u64
  ifi_type :: u8

text \<open>An entry of \<open>getifaddrs\<close>; a null pointer is \<^term>\<open>None\<close>, and the list ends where \<open>ifa_next\<close> is null.\<close>

record if_entry =
  ifa_name :: "string option"
  ifa_addr :: "sockaddr option"
  ifa_netmask :: "sockaddr option"
  ifa_data :: "if_data option"

record 'w host_os =
  os_sysctl_size :: "string \<Rightarrow> ('w, unit, nat) op"
  os_sysctl :: "string \<Rightarrow> nat \<Rightarrow> ('w, unit, bytes \<times> nat) op"
  os_statvfs_root :: "('w, unit, nat \<times> nat) op"
  os_getifaddrs :: "('w, unit, if_entry list) op"
  os_now :: "'w \<Rightarrow> instant \<times> 'w"
  os_rfc3339_now :: "'w \<Rightarrow> string \<times> 'w"

definition IFT_ETHER :: u8 where "IFT_ETHER = 6"

section \<open>Snapshots\<close>

record ip_snapshot =
  is_address :: string
  is_netmask :: string

record interface_snapshot =
  sn_name :: string
  sn_connection_type :: string
  sn_network_sent_bps :: "nat option"
  sn_network_rcvd_bps :: "nat option"
  sn_device_ipv4 :: "ip_snapshot option"
  sn_device_ipv6 :: "ip_snapshot option"

record host_snapshot =
  hs_interface :: "interface_snapshot option"
  hs_cpu_pct :: "rat option"
  hs_ram_used_pct :: "rat option"
  hs_ram_available_kb :: "nat option"
  hs_disk_usage_pct :: "rat option"

record interface_counters =
  ic_name :: string
  ic_received :: u64
  ic_sent :: u64
  ic_sampled_at :: instant

text \<open>The collector, with the system it reads.\<close>

record 'w collector =
  hc_os :: 'w
  hc_previous_cpu :: "u64 list option"
  hc_previous_interface :: "interface_counters option"

definition on_os :: "('w, 'e, 'a) op \<Rightarrow> ('w collector, 'e, 'a) op" where
  "on_os m hc = (case m (hc_os hc) of (r, w) \<Rightarrow> (r, hc\<lparr>hc_os := w\<rparr>))"

text \<open>The result of an operation as an \<open>Option\<close>.\<close>

definition attempt :: "('s, unit, 'a) op \<Rightarrow> 's \<Rightarrow> 'a option \<times> 's" where
  "attempt m s = (case m s of (Inl _, s') \<Rightarrow> (None, s') | (Inr x, s') \<Rightarrow> (Some x, s'))"

definition tell :: "('s \<Rightarrow> 'a \<times> 's) \<Rightarrow> ('s, 'e, 'a) op" where
  "tell f s = (case f s of (x, s') \<Rightarrow> (Inr x, s'))"

section \<open>\<open>sysctl\<close>\<close>

function chunks_exact :: "nat \<Rightarrow> 'a list \<Rightarrow> 'a list list" where
  "chunks_exact n xs = (if n = 0 \<or> length xs < n then [] else take n xs # chunks_exact n (drop n xs))"
  by pat_completeness auto
termination
  by (relation "measure (\<lambda>(n, xs). length xs)") auto

declare chunks_exact.simps [simp del]

text \<open>\<open>from_ne_bytes\<close> of a little-endian machine.\<close>

definition from_ne_bytes :: "bytes \<Rightarrow> u64" where
  "from_ne_bytes chunk = word_of_nat (be_val (rev chunk))"

definition sysctl_unsigned_array :: "'w host_os \<Rightarrow> string \<Rightarrow> ('w, unit, u64 list) op" where
  "sysctl_unsigned_array os name =
     op_bind (os_sysctl_size os name) (\<lambda>n.
     if n = 0 then op_fail ()
     else op_bind (os_sysctl os name n) (\<lambda>(buffer, n').
       (let raw = take n' buffer
        in if length raw mod 8 = 0 then op_return (map from_ne_bytes (chunks_exact 8 raw))
           else if length raw mod 4 = 0 then op_return (map from_ne_bytes (chunks_exact 4 raw))
           else op_fail ())))"

definition sysctl_unsigned :: "'w host_os \<Rightarrow> string \<Rightarrow> ('w, unit, u64) op" where
  "sysctl_unsigned os name =
     op_bind (sysctl_unsigned_array os name) (\<lambda>vs. op_lift (ok_or () (index_at vs 0)))"

definition word_saturating_sub :: "u64 \<Rightarrow> u64 \<Rightarrow> u64" where
  "word_saturating_sub a b = (if a < b then 0 else a - b)"

section \<open>Memory and disk\<close>

text \<open>\<open>filter_map(sysctl_unsigned).sum()\<close>; the sum wraps in a release build.\<close>

fun sum_sysctl :: "'w host_os \<Rightarrow> string list \<Rightarrow> ('w, unit, u64) op" where
  "sum_sysctl os [] = op_return 0"
| "sum_sysctl os (name # names) =
     op_bind (tell (attempt (sysctl_unsigned os name))) (\<lambda>v.
     op_bind (sum_sysctl os names) (\<lambda>rest. op_return (unwrap_or v 0 + rest)))"

definition page_counts :: "string list" where
  "page_counts =
     [''vm.stats.vm.v_free_count'', ''vm.stats.vm.v_inactive_count'', ''vm.stats.vm.v_cache_count'',
      ''vm.stats.vm.v_laundry_count'']"

definition memory_sample :: "'w host_os \<Rightarrow> ('w, unit, rat \<times> nat) op" where
  "memory_sample os =
     op_bind (sysctl_unsigned os ''hw.physmem'') (\<lambda>physical.
     op_bind (sysctl_unsigned os ''hw.pagesize'') (\<lambda>page_size.
     op_bind (sum_sysctl os page_counts) (\<lambda>available_pages.
     (let available = min (usize_saturating_mul (unat available_pages) (unat page_size)) (unat physical)
      in if physical = 0 then op_fail ()
         else op_return
           (f32_of_f64 (clamp_unit (f64_complement (f64_div (f64_of_nat available) (f64_of_nat (unat physical))))),
            available div 1024)))))"

definition disk_usage_sample :: "'w host_os \<Rightarrow> ('w, unit, rat) op" where
  "disk_usage_sample os =
     op_bind (os_statvfs_root os) (\<lambda>(f_blocks, f_bfree).
       if f_blocks = 0 then op_fail ()
       else op_return (f32_of_f64 (clamp_unit (f64_div (f64_of_nat (f_blocks - f_bfree)) (f64_of_nat f_blocks)))))"

section \<open>Interfaces\<close>

definition sockaddr_ip :: "sockaddr option \<Rightarrow> ip_addr option" where
  "sockaddr_ip a =
     (case a of
        Some (AfInet b) \<Rightarrow> Some (V4 (word_of_nat (be_val b)))
      | Some (AfInet6 b) \<Rightarrow> Some (V6 (word_of_nat (be_val b)))
      | _ \<Rightarrow> None)"

definition count_ones :: "'a::len word \<Rightarrow> nat" where
  "count_ones w = length (filter (bit w) [0..<LENGTH('a)])"

definition prefix_length :: "sockaddr option \<Rightarrow> nat option" where
  "prefix_length netmask =
     (case sockaddr_ip netmask of
        None \<Rightarrow> None
      | Some (V4 m) \<Rightarrow> Some (count_ones m)
      | Some (V6 m) \<Rightarrow> Some (sum_list (map count_ones (v6_octets m))))"

definition is_unicast_link_local :: "128 word \<Rightarrow> bool" where
  "is_unicast_link_local a \<longleftrightarrow> drop_bit 118 a = 0x3FA"

text \<open>\<open>find_map\<close>\<close>

fun find_map :: "('a \<Rightarrow> 'b option) \<Rightarrow> 'a list \<Rightarrow> 'b option" where
  "find_map f [] = None"
| "find_map f (x # xs) = (case f x of Some y \<Rightarrow> Some y | None \<Rightarrow> find_map f xs)"

definition named_by_ip :: "ip_addr \<Rightarrow> if_entry \<Rightarrow> string option" where
  "named_by_ip target e = (if sockaddr_ip (ifa_addr e) = Some target then ifa_name e else None)"

definition interface_for_ip :: "if_entry list \<Rightarrow> ip_addr \<Rightarrow> string option" where
  "interface_for_ip entries target = find_map (named_by_ip target) entries"

definition link_counters :: "string \<Rightarrow> if_entry \<Rightarrow> (u64 \<times> u64 \<times> u8) option" where
  "link_counters target_name e =
     (if ifa_name e \<noteq> Some target_name then None
      else (case (ifa_addr e, ifa_data e) of
              (Some AfLink, Some d) \<Rightarrow> Some (ifi_ibytes d, ifi_obytes d, ifi_type d)
            | _ \<Rightarrow> None))"

definition counters :: "if_entry list \<Rightarrow> string \<Rightarrow> (u64 \<times> u64 \<times> u8) option" where
  "counters entries target_name = find_map (link_counters target_name) entries"

definition snapshot_of :: "ip_addr \<Rightarrow> if_entry \<Rightarrow> ip_snapshot" where
  "snapshot_of a e = \<lparr>is_address = show_ip a, is_netmask = dec (unwrap_or (prefix_length (ifa_netmask e)) 0)\<rparr>"

type_synonym ip_pair = "ip_snapshot option \<times> ip_snapshot option"

definition note_address :: "string \<Rightarrow> if_entry \<Rightarrow> ip_pair \<Rightarrow> ip_pair" where
  "note_address target_name e = (\<lambda>(v4, v6).
     if ifa_name e \<noteq> Some target_name then (v4, v6)
     else (case sockaddr_ip (ifa_addr e) of
             Some (V4 a) \<Rightarrow> if v4 = None then (Some (snapshot_of (V4 a) e), v6) else (v4, v6)
           | Some (V6 a) \<Rightarrow>
               if v6 = None \<and> \<not> is_unicast_link_local a then (v4, Some (snapshot_of (V6 a) e)) else (v4, v6)
           | None \<Rightarrow> (v4, v6)))"

definition ip_addresses :: "if_entry list \<Rightarrow> string \<Rightarrow> ip_pair" where
  "ip_addresses entries target_name = fold (note_address target_name) entries (None, None)"

definition connection_type :: "u8 \<Rightarrow> string" where
  "connection_type t = (if t = IFT_ETHER then ''ethernet'' else ''unknown'')"

text \<open>\<open>as_secs_f64\<close> of a duration\<close>

definition as_secs_f64 :: "duration \<Rightarrow> rat" where
  "as_secs_f64 d = f64_add (f64_of_nat (d div 10 ^ 9)) (f64_div (f64_of_nat (d mod 10 ^ 9)) (10 ^ 9))"

definition rate :: "u64 \<Rightarrow> rat \<Rightarrow> nat" where
  "rate b elapsed_seconds = round_to_u64 (min (f64_div (f64_of_nat (unat b)) elapsed_seconds) (2 ^ 64))"

text \<open>The rates received and sent, when the sample before was of the same interface.\<close>

definition interface_rates :: "interface_counters option \<Rightarrow> interface_counters \<Rightarrow> (nat \<times> nat) option" where
  "interface_rates previous c =
     (case previous of
        None \<Rightarrow> None
      | Some p \<Rightarrow>
          (let elapsed = as_secs_f64 (ic_sampled_at c - ic_sampled_at p)
           in if ic_name p = ic_name c \<and> 0 < elapsed
              then Some (rate (word_saturating_sub (ic_received c) (ic_received p)) elapsed,
                         rate (word_saturating_sub (ic_sent c) (ic_sent p)) elapsed)
              else None))"

definition interface_snapshot_of ::
    "ip_pair \<Rightarrow> interface_counters option \<Rightarrow> interface_counters \<Rightarrow> u8 \<Rightarrow> interface_snapshot" where
  "interface_snapshot_of addresses previous c interface_type =
     \<lparr>sn_name = ic_name c, sn_connection_type = connection_type interface_type,
      sn_network_sent_bps = map_option snd (interface_rates previous c),
      sn_network_rcvd_bps = map_option fst (interface_rates previous c),
      sn_device_ipv4 = fst addresses, sn_device_ipv6 = snd addresses\<rparr>"

definition sample_interface :: "'w host_os \<Rightarrow> ip_addr \<Rightarrow> ('w collector, unit, interface_snapshot) op" where
  "sample_interface os active_ip =
     op_bind (on_os (os_getifaddrs os)) (\<lambda>entries.
     op_bind (op_lift (ok_or () (interface_for_ip entries active_ip))) (\<lambda>name.
     op_bind (op_lift (ok_or () (counters entries name))) (\<lambda>(received, sent, interface_type).
     op_bind (on_os (tell (os_now os))) (\<lambda>now hc.
     (let c = \<lparr>ic_name = name, ic_received = received, ic_sent = sent, ic_sampled_at = now\<rparr>
      in (Inr (interface_snapshot_of (ip_addresses entries name) (hc_previous_interface hc) c interface_type),
          hc\<lparr>hc_previous_interface := Some c\<rparr>))))))"

section \<open>The processor\<close>

text \<open>The share of the ticks since the last sample that were not idle.\<close>

definition busy_share :: "u64 list \<Rightarrow> u64 list \<Rightarrow> rat option" where
  "busy_share previous current =
     (if length current < 5 \<or> length current \<noteq> length previous then None
      else (let deltas = map2 word_saturating_sub current previous; total_ticks = sum_list deltas
            in if total_ticks = 0 then None
               else Some (f32_of_f64 (clamp_unit
                 (f64_div (f64_of_nat (unat (total_ticks - deltas ! 4))) (f64_of_nat (unat total_ticks)))))))"

definition sample_cpu :: "'w host_os \<Rightarrow> ('w collector, unit, rat) op" where
  "sample_cpu os =
     op_bind (on_os (sysctl_unsigned_array os ''kern.cp_time'')) (\<lambda>current.
     op_bind (\<lambda>hc. (ok_or () (hc_previous_cpu hc), hc\<lparr>hc_previous_cpu := Some current\<rparr>)) (\<lambda>previous.
     op_lift (ok_or () (busy_share previous current))))"

definition host_sample :: "'w host_os \<Rightarrow> ip_addr option \<Rightarrow> 'w collector \<Rightarrow> host_snapshot \<times> 'w collector" where
  "host_sample os active_ip hc =
     (case attempt (on_os (memory_sample os)) hc of (memory, hc1) \<Rightarrow>
      case (case active_ip of None \<Rightarrow> (None, hc1) | Some addr \<Rightarrow> attempt (sample_interface os addr) hc1) of
        (interface, hc2) \<Rightarrow>
      case attempt (sample_cpu os) hc2 of (cpu, hc3) \<Rightarrow>
      case attempt (on_os (disk_usage_sample os)) hc3 of (disk, hc4) \<Rightarrow>
        (\<lparr>hs_interface = interface, hs_cpu_pct = cpu, hs_ram_used_pct = map_option fst memory,
          hs_ram_available_kb = map_option snd memory, hs_disk_usage_pct = disk\<rparr>, hc4))"

text \<open>On systems other than FreeBSD nothing is sampled.\<close>

definition no_host_snapshot :: host_snapshot where
  "no_host_snapshot =
     \<lparr>hs_interface = None, hs_cpu_pct = None, hs_ram_used_pct = None, hs_ram_available_kb = None,
      hs_disk_usage_pct = None\<rparr>"

definition portable_sample :: "ip_addr option \<Rightarrow> 'w collector \<Rightarrow> host_snapshot \<times> 'w collector" where
  "portable_sample active_ip hc = (no_host_snapshot, hc)"

section \<open>Lemmas\<close>

lemma attempt_Some: "attempt m s = (Some x, s') \<longleftrightarrow> m s = (Inr x, s')"
  by (auto simp: attempt_def split: prod.splits sum.splits)

lemma attempt_fst: "fst (attempt m s) = Some x \<Longrightarrow> \<exists>s'. m s = (Inr x, s')"
  by (auto simp: attempt_def split: prod.splits sum.splits)

lemma on_os_Inr: "on_os m hc = (Inr x, hc') \<longleftrightarrow> (\<exists>w. m (hc_os hc) = (Inr x, w) \<and> hc' = hc\<lparr>hc_os := w\<rparr>)"
  by (auto simp: on_os_def split: prod.splits)

lemma find_map_Some: "find_map f xs = Some y \<Longrightarrow> \<exists>x\<in>set xs. f x = Some y"
  by (induction xs) (auto split: option.splits)

lemma length_chunks: "c \<in> set (chunks_exact n xs) \<Longrightarrow> length c = n"
proof (induction n xs rule: chunks_exact.induct)
  case (1 n xs)
  then show ?case
    by (subst (asm) (2) chunks_exact.simps) (auto split: if_splits)
qed

lemma u64_le: "unat (p :: u64) \<le> u64_max"
proof -
  have "unat p < 2 ^ LENGTH(64)"
    by (rule unsigned_less)
  then show ?thesis
    by (simp add: u64_max_def)
qed

text \<open>What is measured lies in the ranges the service expects.\<close>

lemma memory_sample_range:
  assumes "memory_sample os w = (Inr (share, kb), w')"
  shows "share \<in> {0..1} \<and> kb \<le> u64_max div 1024"
proof -
  have "min n (unat (p :: u64)) \<le> u64_max" for n p
    using u64_le [of p] by (rule min.coboundedI2)
  then have "min n (unat (p :: u64)) div 1024 \<le> u64_max div 1024" for n p
    by (intro div_le_mono)
  then show ?thesis
    using assms f32_unit unfolding memory_sample_def
    by (auto simp: op_return_def op_fail_def Let_def split: if_splits elim!: op_bind_okE)
qed

lemma disk_usage_range: "disk_usage_sample os w = (Inr share, w') \<Longrightarrow> share \<in> {0..1}"
  using f32_unit unfolding disk_usage_sample_def
  by (auto simp: op_return_def op_fail_def split: if_splits elim!: op_bind_okE)

lemma busy_share_range: "busy_share previous current = Some share \<Longrightarrow> share \<in> {0..1}"
  using f32_unit by (auto simp: busy_share_def Let_def split: if_splits)

lemma sample_cpu_range: "sample_cpu os hc = (Inr share, hc') \<Longrightarrow> share \<in> {0..1}"
  using busy_share_range unfolding sample_cpu_def by (auto simp: op_lift_def elim!: op_bind_okE)

lemma rate_le: "rate b elapsed \<le> u64_max"
  by (simp add: rate_def round_to_u64_le)

text \<open>
  A snapshot is of an interface that has the address of the active path, and it has rates only when
  the last sample was of the same interface.
\<close>

lemma sample_interface_ok:
  assumes "sample_interface os active_ip hc = (Inr sn, hc')"
  shows "\<exists>entries w e. os_getifaddrs os (hc_os hc) = (Inr entries, w) \<and> e \<in> set entries
    \<and> sockaddr_ip (ifa_addr e) = Some active_ip \<and> ifa_name e = Some (sn_name sn)"
    "\<exists>addresses c t. sn = interface_snapshot_of addresses (hc_previous_interface hc) c t \<and> hc_previous_interface hc' = Some c"
  using assms find_map_Some unfolding sample_interface_def interface_for_ip_def named_by_ip_def
  by (fastforce simp: op_lift_def on_os_Inr interface_snapshot_of_def Let_def split: if_splits prod.splits
      elim!: op_bind_okE)+

lemma interface_rates_ok:
  assumes "interface_rates previous c = Some (received, sent)"
  shows "received \<le> u64_max \<and> sent \<le> u64_max \<and> (\<exists>p. previous = Some p \<and> ic_name p = ic_name c)"
  using assms rate_le by (auto simp: interface_rates_def Let_def split: option.splits if_splits)

section \<open>Properties\<close>

text \<open>
  C32. Whatever the system answers, what is reported of the host is in range: each share is between
  zero and one, after both roundings; the memory in kilobytes and the rates fit their integers; and a
  reported interface holds the address of the active path.
\<close>

theorem host_sample_in_range:
  "set_option (hs_cpu_pct (fst (host_sample os active_ip hc))) \<subseteq> {0..1}
   \<and> set_option (hs_ram_used_pct (fst (host_sample os active_ip hc))) \<subseteq> {0..1}
   \<and> set_option (hs_disk_usage_pct (fst (host_sample os active_ip hc))) \<subseteq> {0..1}
   \<and> set_option (hs_ram_available_kb (fst (host_sample os active_ip hc))) \<subseteq> {..u64_max div 1024}
   \<and> set_option (hs_interface (fst (host_sample os active_ip hc)))
      \<subseteq> {sn. set_option (sn_network_sent_bps sn) \<union> set_option (sn_network_rcvd_bps sn) \<subseteq> {..u64_max}
        \<and> (\<exists>entries w w' e. os_getifaddrs os w = (Inr entries, w') \<and> e \<in> set entries
             \<and> sockaddr_ip (ifa_addr e) = active_ip \<and> ifa_name e = Some (sn_name sn))}"
proof -
  obtain memory hc1 where memory: "attempt (on_os (memory_sample os)) hc = (memory, hc1)"
    by fastforce
  obtain interface hc2 where interface:
    "(case active_ip of None \<Rightarrow> (None, hc1) | Some addr \<Rightarrow> attempt (sample_interface os addr) hc1) = (interface, hc2)"
    by fastforce
  obtain cpu hc3 where cpu: "attempt (sample_cpu os) hc2 = (cpu, hc3)"
    by fastforce
  obtain disk hc4 where disk: "attempt (on_os (disk_usage_sample os)) hc3 = (disk, hc4)"
    by fastforce
  have snapshot: "fst (host_sample os active_ip hc) = \<lparr>hs_interface = interface, hs_cpu_pct = cpu,
      hs_ram_used_pct = map_option fst memory, hs_ram_available_kb = map_option snd memory, hs_disk_usage_pct = disk\<rparr>"
    using memory interface cpu disk by (simp add: host_sample_def)
  have "set_option cpu \<subseteq> {0..1}"
    using cpu by (cases cpu) (auto simp: attempt_Some dest!: sample_cpu_range)
  moreover have "set_option disk \<subseteq> {0..1}"
    using disk by (cases disk) (auto simp: attempt_Some on_os_Inr dest!: disk_usage_range)
  moreover have "set_option (map_option fst memory) \<subseteq> {0..1}" "set_option (map_option snd memory) \<subseteq> {..u64_max div 1024}"
    using memory memory_sample_range by (cases memory; fastforce simp: attempt_Some on_os_Inr)+
  moreover have "set_option (sn_network_sent_bps sn) \<union> set_option (sn_network_rcvd_bps sn) \<subseteq> {..u64_max}
      \<and> (\<exists>entries w w' e. os_getifaddrs os w = (Inr entries, w') \<and> e \<in> set entries
           \<and> sockaddr_ip (ifa_addr e) = active_ip \<and> ifa_name e = Some (sn_name sn))" if sn: "interface = Some sn" for sn
  proof -
    obtain addr where run: "active_ip = Some addr" "sample_interface os addr hc1 = (Inr sn, hc2)"
      using interface sn by (auto simp: attempt_Some split: option.splits)
    then show ?thesis
      using sample_interface_ok [OF run(2)] interface_rates_ok by (fastforce simp: interface_snapshot_of_def)
  qed
  ultimately show ?thesis
    by (cases interface) (simp_all add: snapshot)
qed

end
