(* ===== verification/Device_State.thy ===== *)
theory Device_State
  imports Telemetry Reporter Mesh
begin

text \<open>
  \<open>api/device_state.rs\<close>: the reporter of the device's state. The tunnel only holds the handle of the
  theory \<open>Reporter\<close>; here are the registration it starts from, the payload, and the task against the
  channel and the lock that it shares with the tunnel.
\<close>

definition DEVICE_STATE_API_VERSION :: string where "DEVICE_STATE_API_VERSION = ''v0''"
definition REPORT_INTERVAL :: duration where "REPORT_INTERVAL = 60 * 10 ^ 9"

record reporter_config =
  rc_account_id :: string
  rc_registration_id :: string
  rc_access_token :: string
  rc_doh_subdomain :: string
  rc_profile_id :: string
  rc_switch_locked :: bool
  rc_always_on :: bool
  rc_client_version :: string

section \<open>Start\<close>

datatype start_error =
    NoNodeIdentity
  | LookupFailed api_failure
  | NoAccountId
  | NoRegistrationId

text \<open>\<open>normalize_registration_id\<close> of this file, which also trims.\<close>

definition trimmed_registration_id :: "string \<Rightarrow> string" where
  "trimmed_registration_id v = unwrap_or (strip_prefix ''t.'' (trim v)) (trim v)"

definition fetch_registration :: "system \<Rightarrow> 'w web \<Rightarrow> app_config \<Rightarrow> ('w, start_error, account_data) op" where
  "fetch_registration sys web app_cfg =
     (case cf_role app_cfg of
        RoleClient \<Rightarrow>
          op_context LookupFailed (get_registration sys web (cf_id app_cfg) (cf_access_token app_cfg))
      | RoleMeshNode \<Rightarrow>
          op_bind (op_lift (ok_or NoNodeIdentity (cf_mesh_node app_cfg))) (\<lambda>identity.
            op_context LookupFailed (get_registration_config sys web (mn_account_tag identity) (cf_id app_cfg)
              (cf_access_token app_cfg))))"

definition reporter_config_of :: "app_config \<Rightarrow> bool \<Rightarrow> account_data \<Rightarrow> start_error + reporter_config" where
  "reporter_config_of app_cfg always_on registration =
     (let account_id = trim (at_id (acc_account registration));
          registration_id = trimmed_registration_id (acc_id registration);
          policy = acc_policy registration
      in if account_id = [] then Inl NoAccountId
         else if registration_id = [] then Inl NoRegistrationId
         else Inr \<lparr>rc_account_id = account_id, rc_registration_id = registration_id,
           rc_access_token = cf_access_token app_cfg, rc_doh_subdomain = account_id @ ''.cloudflare-gateway.com'',
           rc_profile_id = (if trim (po_policy_id policy) = [] then ''default'' else po_policy_id policy),
           rc_switch_locked = po_switch_locked policy, rc_always_on = always_on,
           rc_client_version = runtime_client_version (cf_device_identity app_cfg)\<rparr>)"

text \<open>The handle starts disconnected and without metrics; the task has the same configuration.\<close>

definition start_reporter ::
    "system \<Rightarrow> 'w web \<Rightarrow> app_config \<Rightarrow> bool \<Rightarrow> ('w, start_error, reporter_config \<times> reporter) op" where
  "start_reporter sys web app_cfg always_on =
     op_bind (fetch_registration sys web app_cfg) (\<lambda>registration.
     op_bind (op_lift (reporter_config_of app_cfg always_on registration)) (\<lambda>cfg.
     op_return (cfg, \<lparr>rp_state = Some Disconnected, rp_metrics = None\<rparr>)))"

section \<open>The payload\<close>

definition ip_info_of :: "ip_snapshot \<Rightarrow> ip_info" where
  "ip_info_of v = \<lparr>ii_address = is_address v, ii_netmask = is_netmask v\<rparr>"

definition interface_info_of :: "interface_snapshot \<Rightarrow> interface_info" where
  "interface_info_of v =
     \<lparr>in_name = sn_name v, in_connection_type = sn_connection_type v, in_network_sent_bps = sn_network_sent_bps v,
      in_network_rcvd_bps = sn_network_rcvd_bps v, in_device_ipv4 = map_option ip_info_of (sn_device_ipv4 v),
      in_device_ipv6 = map_option ip_info_of (sn_device_ipv6 v)\<rparr>"

definition stats_upstream :: "tunnel_metrics \<Rightarrow> tunnel_stats_payload" where
  "stats_upstream sample =
     \<lparr>ts_rtt_us = tm_rtt_us sample, ts_min_rtt_us = tm_min_rtt_us sample, ts_rtt_var_us = tm_rtt_var_us sample,
      ts_packets_sent = tm_packets_sent_upstream sample, ts_packets_lost = Some (tm_packets_lost_upstream sample),
      ts_packets_retrans = Some (tm_packets_retransmitted_upstream sample),
      ts_bytes_sent = tm_bytes_sent_upstream sample, ts_bytes_lost = Some (tm_bytes_lost_upstream sample),
      ts_bytes_retrans = Some (tm_bytes_retransmitted_upstream sample)\<rparr>"

definition stats_downstream :: "tunnel_metrics \<Rightarrow> tunnel_stats_payload" where
  "stats_downstream sample =
     \<lparr>ts_rtt_us = tm_rtt_us sample, ts_min_rtt_us = tm_min_rtt_us sample, ts_rtt_var_us = tm_rtt_var_us sample,
      ts_packets_sent = tm_packets_received_downstream sample, ts_packets_lost = None, ts_packets_retrans = None,
      ts_bytes_sent = tm_bytes_received_downstream sample, ts_bytes_lost = None, ts_bytes_retrans = None\<rparr>"

definition loss_of :: "tunnel_metrics \<Rightarrow> rat option" where
  "loss_of sample =
     (if 0 < tm_packets_sent_upstream sample
      then Some (f64_div (f64_of_nat (tm_packets_lost_upstream sample)) (f64_of_nat (tm_packets_sent_upstream sample)))
      else None)"

definition state_status :: "connection_state \<Rightarrow> string" where
  "state_status state = (case state of Disconnected \<Rightarrow> ''Disconnected'' | Connected _ \<Rightarrow> ''Connected'')"

definition reported_latency :: "connection_state \<Rightarrow> tunnel_metrics option \<Rightarrow> nat option" where
  "reported_latency state metrics =
     (case state of
        Disconnected \<Rightarrow> None
      | Connected ms \<Rightarrow> Some (case metrics of None \<Rightarrow> ms | Some sample \<Rightarrow> tm_rtt_us sample div 1000))"

definition build_payload ::
    "reporter_config \<Rightarrow> connection_state \<Rightarrow> tunnel_metrics option \<Rightarrow> host_snapshot \<Rightarrow> string \<Rightarrow> device_state_payload" where
  "build_payload cfg state metrics host timestamp =
     (let status = state_status state;
          connected_metrics = (if status = ''Connected'' then metrics else None)
      in \<lparr>dp_timestamp = timestamp, dp_account_id = rc_account_id cfg, dp_status = status, dp_mode = ''tunnel_only'',
          dp_always_on = rc_always_on cfg, dp_reg_id = rc_registration_id cfg,
          dp_doh_subdomain = rc_doh_subdomain cfg, dp_switch_locked = rc_switch_locked cfg,
          dp_client_version = rc_client_version cfg, dp_client_platform = ''freebsd'', dp_warp_metal = ''none'',
          dp_warp_colo = ''none'', dp_handshake_latency_ms = reported_latency state metrics,
          dp_estimated_loss = Option.bind connected_metrics loss_of, dp_tunnel_type = ''masque'',
          dp_interfaces = (case hs_interface host of None \<Rightarrow> [] | Some v \<Rightarrow> [interface_info_of v]), dp_firewalls = [],
          dp_tunnel_stats_upstream = map_option stats_upstream connected_metrics,
          dp_tunnel_stats_downstream = map_option stats_downstream connected_metrics, dp_cpu_pct = hs_cpu_pct host,
          dp_cpu_pct_by_app = None, dp_ram_used_pct = hs_ram_used_pct host, dp_ram_used_pct_by_app = None,
          dp_ram_available_kb = hs_ram_available_kb host, dp_disk_usage_pct = hs_disk_usage_pct host,
          dp_disk_read_bps = None, dp_disk_write_bps = None, dp_profile_id = rc_profile_id cfg\<rparr>)"

section \<open>The task\<close>

definition device_state_request :: "system \<Rightarrow> reporter_config \<Rightarrow> device_state_payload \<Rightarrow> http_request" where
  "device_state_request sys cfg payload =
     (bearer_auth (rc_access_token cfg) (client_headers (new_request Post
        (api_url sys @ ''/'' @ DEVICE_STATE_API_VERSION @ ''/accounts/'' @ rc_account_id cfg @ ''/reg/''
           @ rc_registration_id cfg @ ''/devicestate''))))\<lparr>rq_body := StateBody payload\<rparr>"

text \<open>The refusal carries the answer's body; the log shows at most 512 characters of it.\<close>

datatype state_failure = StateExchange api_failure | StateRefused nat bytes

definition send_device_state ::
    "system \<Rightarrow> 'w web \<Rightarrow> 'w host_os \<Rightarrow> reporter_config \<Rightarrow> connection_state \<Rightarrow> tunnel_metrics option
      \<Rightarrow> host_snapshot \<Rightarrow> ('w, state_failure, unit) op" where
  "send_device_state sys web os cfg state metrics host =
     op_bind (tell (os_rfc3339_now os)) (\<lambda>timestamp.
     op_bind (op_context StateExchange
                (exchange web (device_state_request sys cfg (build_payload cfg state metrics host timestamp))))
       (\<lambda>(status, body).
     if status \<noteq> STATUS_OK then op_fail (StateRefused status body) else op_return ()))"

text \<open>A failure is logged and goes no further.\<close>

definition report_current_state ::
    "system \<Rightarrow> 'w web \<Rightarrow> 'w host_os \<Rightarrow> reporter_config \<Rightarrow> connection_state \<Rightarrow> tunnel_metrics option
      \<Rightarrow> host_snapshot \<Rightarrow> 'w collector \<Rightarrow> 'w collector" where
  "report_current_state sys web os cfg state metrics host hc =
     snd (on_os (send_device_state sys web os cfg state metrics host) hc)"

text \<open>A report samples the host and is one exchange, whose failure is only logged.\<close>

definition report_once ::
    "system \<Rightarrow> 'w web \<Rightarrow> 'w host_os \<Rightarrow> reporter_config \<Rightarrow> connection_state \<Rightarrow> tunnel_metrics option
      \<Rightarrow> 'w collector \<Rightarrow> 'w collector" where
  "report_once sys web os cfg state metrics hc =
     (case host_sample os (map_option tm_local_ip metrics) hc of
        (host, hc') \<Rightarrow> report_current_state sys web os cfg state metrics host hc')"

text \<open>
  The task shares a \<open>tokio::sync::watch\<close> channel and the metrics behind their lock with the tunnel, which
  goes on while the task reads and while a request is under way. The channel holds one value: a new one
  replaces it and raises its version, and the receiver keeps the version it has seen. So the task is
  modelled by its steps, between which the steps of the tunnel come in any order: at the \<open>select!\<close>; with
  the state borrowed and the metrics not read yet; and with both, sampling the host and waiting for the
  answer. A step that reads the host and posts is one step, since it touches nothing of the handle.
\<close>

datatype task_phase =
    Waiting
  | Borrowed connection_state
  | Posting connection_state "tunnel_metrics option"
  | Stopped

text \<open>
  \<open>rg_log\<close>, \<open>rg_state_from\<close>, \<open>rg_metrics_from\<close> and \<open>rg_reports\<close> are history: what the handle held after
  each step of the tunnel, with the channel's version, and from which entries the report under way and
  those before it took their state and their metrics.
\<close>

record 'w reporting =
  rg_handle :: reporter
  rg_version :: nat
  rg_seen :: nat
  rg_open :: bool
  rg_phase :: task_phase
  rg_host :: "'w collector"
  rg_log :: "(nat \<times> reporter) list"
  rg_state_from :: nat
  rg_metrics_from :: nat
  rg_reports :: "(nat \<times> nat) list"

definition log_handle :: "'w reporting \<Rightarrow> 'w reporting" where
  "log_handle st = st\<lparr>rg_log := rg_log st @ [(rg_version st, rg_handle st)]\<rparr>"

text \<open>
  The tunnel's steps: \<open>connected\<close>, \<open>update_tunnel_metrics\<close>, the two halves of \<open>disconnected\<close>, and the end
  of the last sender.
\<close>

datatype tunnel_event =
    Connects duration
  | Updates tunnel_metrics
  | Clears_metrics
  | Disconnects
  | Drops_sender

definition send_replace :: "reporter \<Rightarrow> 'w reporting \<Rightarrow> 'w reporting" where
  "send_replace rp st = log_handle (st\<lparr>rg_handle := rp, rg_version := rg_version st + 1\<rparr>)"

definition write_metrics :: "reporter \<Rightarrow> 'w reporting \<Rightarrow> 'w reporting" where
  "write_metrics rp st = log_handle (st\<lparr>rg_handle := rp\<rparr>)"

definition tunnel_step :: "tunnel_event \<Rightarrow> 'w reporting \<Rightarrow> 'w reporting" where
  "tunnel_step event st =
     (let rp = rg_handle st in
      case event of
        Connects handshake_latency \<Rightarrow> send_replace (Reporter.connected handshake_latency rp) st
      | Updates sample \<Rightarrow> write_metrics (update_tunnel_metrics sample rp) st
      | Clears_metrics \<Rightarrow> write_metrics (rp\<lparr>rp_metrics := None\<rparr>) st
      | Disconnects \<Rightarrow> send_replace (rp\<lparr>rp_state := Some Disconnected\<rparr>) st
      | Drops_sender \<Rightarrow> st\<lparr>rg_open := False\<rparr>)"

text \<open>
  The task's steps: the interval ticks, which may be at any time; \<open>changed\<close> finds a version it has not
  seen, and \<open>borrow_and_update\<close> marks the one it reads as seen; \<open>changed\<close> fails when there is none and
  no sender is left. A step that cannot happen is \<^term>\<open>None\<close>.
\<close>

datatype task_event = Ticks | Sees_change | Sees_end | Reads_metrics | Reports

definition borrow_state :: "'w reporting \<Rightarrow> 'w reporting" where
  "borrow_state st =
     (case rp_state (rg_handle st) of
        None \<Rightarrow> st
      | Some state \<Rightarrow> st\<lparr>rg_phase := Borrowed state, rg_state_from := length (rg_log st) - 1\<rparr>)"

definition run_reporter ::
    "system \<Rightarrow> 'w web \<Rightarrow> 'w host_os \<Rightarrow> reporter_config \<Rightarrow> task_event \<Rightarrow> 'w reporting \<Rightarrow> 'w reporting option" where
  "run_reporter sys web os cfg event st =
     (case (event, rg_phase st) of
        (Ticks, Waiting) \<Rightarrow> Some (borrow_state st)
      | (Sees_change, Waiting) \<Rightarrow>
          if rg_version st = rg_seen st then None else Some (borrow_state (st\<lparr>rg_seen := rg_version st\<rparr>))
      | (Sees_end, Waiting) \<Rightarrow>
          if rg_open st \<or> rg_version st \<noteq> rg_seen st then None else Some (st\<lparr>rg_phase := Stopped\<rparr>)
      | (Reads_metrics, Borrowed state) \<Rightarrow>
          Some (st\<lparr>rg_phase := Posting state (rp_metrics (rg_handle st)), rg_metrics_from := length (rg_log st) - 1\<rparr>)
      | (Reports, Posting state metrics) \<Rightarrow>
          Some (st\<lparr>rg_phase := Waiting, rg_host := report_once sys web os cfg state metrics (rg_host st),
            rg_reports := rg_reports st @ [(rg_state_from st, rg_metrics_from st)]\<rparr>)
      | _ \<Rightarrow> None)"

inductive reporter_moves ::
    "system \<Rightarrow> 'w web \<Rightarrow> 'w host_os \<Rightarrow> reporter_config \<Rightarrow> 'w reporting \<Rightarrow> 'w reporting \<Rightarrow> bool" for sys web os cfg where
  tunnel: "rg_open st \<Longrightarrow> reporter_moves sys web os cfg st (tunnel_step event st)"
| task: "run_reporter sys web os cfg event st = Some st' \<Longrightarrow> reporter_moves sys web os cfg st st'"

text \<open>The task on its own, without its interval.\<close>

inductive quiet_move ::
    "system \<Rightarrow> 'w web \<Rightarrow> 'w host_os \<Rightarrow> reporter_config \<Rightarrow> 'w reporting \<Rightarrow> 'w reporting \<Rightarrow> bool" for sys web os cfg where
  quiet: "event \<noteq> Ticks \<Longrightarrow> run_reporter sys web os cfg event st = Some st' \<Longrightarrow> quiet_move sys web os cfg st st'"

definition fresh_collector :: "'w \<Rightarrow> 'w collector" where
  "fresh_collector w = \<lparr>hc_os = w, hc_previous_cpu = None, hc_previous_interface = None\<rparr>"

text \<open>What the spawned task starts with; the receiver has seen the channel's first value.\<close>

definition reporting_start :: "reporter \<Rightarrow> 'w \<Rightarrow> 'w reporting" where
  "reporting_start rp w =
     \<lparr>rg_handle = rp, rg_version = 0, rg_seen = 0, rg_open = True, rg_phase = Waiting, rg_host = fresh_collector w,
      rg_log = [(0, rp)], rg_state_from = 0, rg_metrics_from = 0, rg_reports = []\<rparr>"

section \<open>Lemmas\<close>

text \<open>Nothing about a path is reported while there is none.\<close>

lemma disconnected_payload:
  "dp_status (build_payload cfg Disconnected metrics host t) = ''Disconnected''"
  "dp_handshake_latency_ms (build_payload cfg Disconnected metrics host t) = None"
  "dp_estimated_loss (build_payload cfg Disconnected metrics host t) = None"
  "dp_tunnel_stats_upstream (build_payload cfg Disconnected metrics host t) = None"
  "dp_tunnel_stats_downstream (build_payload cfg Disconnected metrics host t) = None"
  by (simp_all add: build_payload_def state_status_def reported_latency_def)

lemma f64_of_nat_mono_ratio:
  "a \<le> b \<Longrightarrow> 0 < b \<Longrightarrow> 0 \<le> f64_div (f64_of_nat a) (f64_of_nat b)"
  by (simp add: f64_div_def round_rat_nonneg)

section \<open>What the task sends\<close>

text \<open>A log of requests that only a request extends.\<close>

definition logs_requests :: "'w web \<Rightarrow> ('w \<Rightarrow> http_request list) \<Rightarrow> bool" where
  "logs_requests web seen \<longleftrightarrow> (\<forall>req w. seen (snd (wb_send web req w)) = seen w @ [req])"

definition os_keeps :: "'w host_os \<Rightarrow> ('w \<Rightarrow> http_request list) \<Rightarrow> bool" where
  "os_keeps os seen \<longleftrightarrow>
     (\<forall>l. (\<forall>name. preserves (\<lambda>w. seen w = l) (os_sysctl_size os name))
        \<and> (\<forall>name n. preserves (\<lambda>w. seen w = l) (os_sysctl os name n))
        \<and> preserves (\<lambda>w. seen w = l) (os_statvfs_root os) \<and> preserves (\<lambda>w. seen w = l) (os_getifaddrs os)
        \<and> (\<forall>w. seen w = l \<longrightarrow> seen (snd (os_now os w)) = l) \<and> (\<forall>w. seen w = l \<longrightarrow> seen (snd (os_rfc3339_now os w)) = l))"

lemma preserves_lift: "preserves I (op_lift r)"
  by (simp add: preserves_def op_lift_def)

lemma preserves_prod: "(\<And>a b. preserves I (f a b)) \<Longrightarrow> preserves I (case p of (a, b) \<Rightarrow> f a b)"
  by (simp split: prod.splits)

lemma preserves_tell: "(\<And>s. I s \<Longrightarrow> I (snd (f s))) \<Longrightarrow> preserves I (tell f)"
  by (simp add: preserves_def tell_def split_beta)

lemma preserves_attempt: "preserves I m \<Longrightarrow> I s \<Longrightarrow> I (snd (attempt m s))"
  by (simp add: preserves_def attempt_def split_beta split: sum.split)

lemma preserves_on_os: "preserves I m \<Longrightarrow> preserves (\<lambda>hc. I (hc_os hc)) (on_os m)"
  by (simp add: preserves_def on_os_def split_beta)

lemmas preserves_intros = preserves_bind preserves_return preserves_fail preserves_if preserves_lift preserves_prod

lemma os_keepsD:
  assumes "os_keeps os seen"
  shows "preserves (\<lambda>w. seen w = l) (os_sysctl_size os name)" "preserves (\<lambda>w. seen w = l) (os_sysctl os name n)"
    "preserves (\<lambda>w. seen w = l) (os_statvfs_root os)" "preserves (\<lambda>w. seen w = l) (os_getifaddrs os)"
    "preserves (\<lambda>w. seen w = l) (tell (os_now os))" "preserves (\<lambda>w. seen w = l) (tell (os_rfc3339_now os))"
  using assms unfolding os_keeps_def by (blast intro: preserves_tell)+

lemma keeps_sysctl_array:
  assumes "os_keeps os seen"
  shows "preserves (\<lambda>w. seen w = l) (sysctl_unsigned_array os name)"
  unfolding sysctl_unsigned_array_def Let_def by (intro preserves_intros os_keepsD [OF assms])

lemma keeps_sysctl:
  assumes "os_keeps os seen"
  shows "preserves (\<lambda>w. seen w = l) (sysctl_unsigned os name)"
  unfolding sysctl_unsigned_def by (intro preserves_intros keeps_sysctl_array [OF assms])

lemma keeps_sum:
  assumes "os_keeps os seen"
  shows "preserves (\<lambda>w. seen w = l) (sum_sysctl os names)"
proof (induction names)
  case (Cons name names)
  have "preserves (\<lambda>w. seen w = l) (tell (attempt (sysctl_unsigned os name)))"
    using preserves_attempt [OF keeps_sysctl [OF assms]] by (rule preserves_tell)
  with Cons show ?case
    unfolding sum_sysctl.simps by (intro preserves_intros)
qed (simp add: preserves_return)

lemma keeps_memory:
  assumes "os_keeps os seen"
  shows "preserves (\<lambda>hc. seen (hc_os hc) = l) (on_os (memory_sample os))"
  unfolding memory_sample_def Let_def
  by (intro preserves_on_os [where I = "\<lambda>w. seen w = l"] preserves_intros keeps_sysctl [OF assms] keeps_sum [OF assms])

lemma keeps_interface:
  assumes "os_keeps os seen"
  shows "preserves (\<lambda>hc. seen (hc_os hc) = l) (sample_interface os addr)"
  unfolding sample_interface_def
  by (intro preserves_intros preserves_on_os [where I = "\<lambda>w. seen w = l"] os_keepsD [OF assms])
    (simp add: preserves_def Let_def)

lemma keeps_cpu:
  assumes "os_keeps os seen"
  shows "preserves (\<lambda>hc. seen (hc_os hc) = l) (sample_cpu os)"
  unfolding sample_cpu_def
  by (intro preserves_intros preserves_on_os [where I = "\<lambda>w. seen w = l"] keeps_sysctl_array [OF assms])
    (simp add: preserves_def)

lemma keeps_disk:
  assumes "os_keeps os seen"
  shows "preserves (\<lambda>hc. seen (hc_os hc) = l) (on_os (disk_usage_sample os))"
  unfolding disk_usage_sample_def
  by (intro preserves_on_os [where I = "\<lambda>w. seen w = l"] preserves_intros os_keepsD [OF assms])

lemma attempt_keeps:
  "preserves (\<lambda>hc. seen (hc_os hc) = l) m \<Longrightarrow> attempt m s = (r, s') \<Longrightarrow> seen (hc_os s) = l \<Longrightarrow> seen (hc_os s') = l"
  using preserves_attempt [of "\<lambda>hc. seen (hc_os hc) = l" m s] by simp

lemma host_sample_keeps:
  assumes "os_keeps os seen" "host_sample os active_ip hc = (host, hc')"
  shows "seen (hc_os hc') = seen (hc_os hc)"
proof -
  obtain memory hc1 where memory: "attempt (on_os (memory_sample os)) hc = (memory, hc1)"
    by fastforce
  obtain interface hc2 where interface:
    "(case active_ip of None \<Rightarrow> (None, hc1) | Some addr \<Rightarrow> attempt (sample_interface os addr) hc1) = (interface, hc2)"
    by fastforce
  obtain cpu hc3 where cpu: "attempt (sample_cpu os) hc2 = (cpu, hc3)"
    by fastforce
  obtain disk where disk: "attempt (on_os (disk_usage_sample os)) hc3 = (disk, hc')"
    using assms(2) memory interface cpu by (auto simp: host_sample_def split: prod.splits)
  have "seen (hc_os hc1) = seen (hc_os hc)"
    by (rule attempt_keeps [OF keeps_memory [OF assms(1)] memory refl])
  moreover have "seen (hc_os hc2) = seen (hc_os hc1)"
    using interface attempt_keeps [OF keeps_interface [OF assms(1)] _ refl] by (auto split: option.splits)
  moreover have "seen (hc_os hc3) = seen (hc_os hc2)"
    by (rule attempt_keeps [OF keeps_cpu [OF assms(1)] cpu refl])
  moreover have "seen (hc_os hc') = seen (hc_os hc3)"
    by (rule attempt_keeps [OF keeps_disk [OF assms(1)] disk refl])
  ultimately show ?thesis
    by simp
qed

text \<open>One report is one request, whatever the answer.\<close>

lemma report_once_sends:
  assumes "logs_requests web seen" "os_keeps os seen"
  shows "\<exists>host t. seen (hc_os (report_once sys web os cfg state metrics hc)) = seen (hc_os hc)
    @ [device_state_request sys cfg (build_payload cfg state metrics host t)]"
proof -
  obtain host hc1 where sample: "host_sample os (map_option tm_local_ip metrics) hc = (host, hc1)"
    by fastforce
  obtain t w where clock: "os_rfc3339_now os (hc_os hc1) = (t, w)"
    by fastforce
  let ?req = "device_state_request sys cfg (build_payload cfg state metrics host t)"
  have "seen (hc_os hc1) = seen (hc_os hc)"
    by (rule host_sample_keeps [OF assms(2) sample])
  moreover have "seen w = seen (hc_os hc1)"
    using assms(2) clock unfolding os_keeps_def by (metis snd_conv)
  moreover have "snd (send_device_state sys web os cfg state metrics host (hc_os hc1)) = snd (wb_send web ?req w)"
    by (simp add: send_device_state_def op_simps tell_def clock exchange_def split: prod.splits sum.splits)
  ultimately have "seen (hc_os (report_once sys web os cfg state metrics hc)) = seen (hc_os hc) @ [?req]"
    using assms(1) sample
    by (simp add: report_once_def report_current_state_def on_os_def logs_requests_def split_beta)
  then show ?thesis
    by blast
qed

text \<open>A report of what the handle held: its state, and the metrics only of a connection.\<close>

definition reports_handle :: "reporter \<Rightarrow> device_state_payload \<Rightarrow> bool" where
  "reports_handle rp p \<longleftrightarrow>
     (case rp_state rp of
        None \<Rightarrow> False
      | Some Disconnected \<Rightarrow> dp_status p = ''Disconnected'' \<and> dp_handshake_latency_ms p = None
          \<and> dp_estimated_loss p = None \<and> dp_tunnel_stats_upstream p = None \<and> dp_tunnel_stats_downstream p = None
      | Some (Connected ms) \<Rightarrow> dp_status p = ''Connected''
          \<and> dp_handshake_latency_ms p = Some (case rp_metrics rp of None \<Rightarrow> ms | Some sample \<Rightarrow> tm_rtt_us sample div 1000)
          \<and> dp_tunnel_stats_upstream p = map_option stats_upstream (rp_metrics rp)
          \<and> dp_tunnel_stats_downstream p = map_option stats_downstream (rp_metrics rp))"

lemma build_payload_reports:
  "rp_state rp = Some state \<Longrightarrow> reports_handle rp (build_payload cfg state (rp_metrics rp) host t)"
  by (cases state)
    (simp_all add: reports_handle_def build_payload_def state_status_def reported_latency_def split: option.split)

section \<open>What the task knows\<close>

text \<open>What the report with these two entries of the log is about.\<close>

definition read_of :: "(nat \<times> reporter) list \<Rightarrow> nat \<times> nat \<Rightarrow> reporter" where
  "read_of entries r = \<lparr>rp_state = rp_state (snd (entries ! fst r)), rp_metrics = rp_metrics (snd (entries ! snd r))\<rparr>"

definition busy :: "'w reporting \<Rightarrow> bool" where
  "busy st \<longleftrightarrow> rg_phase st \<noteq> Waiting \<and> rg_phase st \<noteq> Stopped"

definition log_inv :: "'w reporting \<Rightarrow> bool" where
  "log_inv st \<longleftrightarrow> rg_log st \<noteq> [] \<and> last (rg_log st) = (rg_version st, rg_handle st)
     \<and> (\<forall>(v, rp)\<in>set (rg_log st). v \<le> rg_version st \<and> rp_state rp \<noteq> None
          \<and> (v = rg_version st \<longrightarrow> rp_state rp = rp_state (rg_handle st)))"

definition phase_inv :: "'w reporting \<Rightarrow> bool" where
  "phase_inv st \<longleftrightarrow>
     (case rg_phase st of
        Borrowed state \<Rightarrow> rg_state_from st < length (rg_log st)
          \<and> rp_state (snd (rg_log st ! rg_state_from st)) = Some state
      | Posting state metrics \<Rightarrow> rg_state_from st \<le> rg_metrics_from st \<and> rg_metrics_from st < length (rg_log st)
          \<and> read_of (rg_log st) (rg_state_from st, rg_metrics_from st) = \<lparr>rp_state = Some state, rp_metrics = metrics\<rparr>
      | _ \<Rightarrow> True)"

definition in_order :: "'w reporting \<Rightarrow> bool" where
  "in_order st \<longleftrightarrow> (\<forall>(i, j)\<in>set (rg_reports st). i \<le> j \<and> j < length (rg_log st))
     \<and> sorted_wrt (\<lambda>(i, j) (i', j'). j \<le> i') (rg_reports st)
     \<and> (busy st \<longrightarrow> (\<forall>(i, j)\<in>set (rg_reports st). j \<le> rg_state_from st))"

text \<open>A version that was seen is the subject of a report, or a later one is.\<close>

definition seen_inv :: "'w reporting \<Rightarrow> bool" where
  "seen_inv st \<longleftrightarrow> rg_seen st \<le> rg_version st \<and> (rg_phase st = Stopped \<longrightarrow> \<not> rg_open st \<and> rg_version st = rg_seen st)
     \<and> (rg_seen st = 0
        \<or> (if busy st then rg_seen st \<le> fst (rg_log st ! rg_state_from st)
            else rg_reports st \<noteq> [] \<and> rg_seen st \<le> fst (rg_log st ! fst (last (rg_reports st)))))"

definition posted ::
    "system \<Rightarrow> reporter_config \<Rightarrow> ('w \<Rightarrow> http_request list) \<Rightarrow> 'w \<Rightarrow> 'w reporting \<Rightarrow> bool" where
  "posted sys cfg seen w st \<longleftrightarrow>
     (\<exists>payloads. seen (hc_os (rg_host st)) = seen w @ map (device_state_request sys cfg) payloads
        \<and> list_all2 (\<lambda>r p. reports_handle (read_of (rg_log st) r) p) (rg_reports st) payloads)"

lemmas reporting_invs = log_inv_def phase_inv_def in_order_def seen_inv_def posted_def busy_def

definition reporting_inv where
  "reporting_inv sys cfg seen w st \<longleftrightarrow> log_inv st \<and> phase_inv st \<and> in_order st \<and> seen_inv st \<and> posted sys cfg seen w st"

lemma log_invD:
  assumes "log_inv st"
  shows "rg_log st \<noteq> []" "last (rg_log st) = (rg_version st, rg_handle st)" "rp_state (rg_handle st) \<noteq> None"
    "i < length (rg_log st) \<Longrightarrow> fst (rg_log st ! i) \<le> rg_version st"
    "i < length (rg_log st) \<Longrightarrow> fst (rg_log st ! i) = rg_version st \<Longrightarrow> rp_state (snd (rg_log st ! i)) = rp_state (rg_handle st)"
proof -
  show ne: "rg_log st \<noteq> []" and last: "last (rg_log st) = (rg_version st, rg_handle st)"
    using assms by (simp_all add: log_inv_def)
  have all: "v \<le> rg_version st \<and> rp_state rp \<noteq> None \<and> (v = rg_version st \<longrightarrow> rp_state rp = rp_state (rg_handle st))"
    if "(v, rp) \<in> set (rg_log st)" for v rp
    using assms that by (auto simp: log_inv_def)
  show "rp_state (rg_handle st) \<noteq> None"
    using all last_in_set [OF ne] unfolding last by blast
  show "i < length (rg_log st) \<Longrightarrow> fst (rg_log st ! i) \<le> rg_version st"
    "i < length (rg_log st) \<Longrightarrow> fst (rg_log st ! i) = rg_version st \<Longrightarrow> rp_state (snd (rg_log st ! i)) = rp_state (rg_handle st)"
    using all by (metis nth_mem prod.collapse)+
qed

text \<open>The newest entry is what the task reads.\<close>

lemma newest_entry:
  assumes "log_inv st"
  shows "rg_log st ! (length (rg_log st) - 1) = (rg_version st, rg_handle st)" "length (rg_log st) - 1 < length (rg_log st)"
  using log_invD(1,2) [OF assms] by (simp_all add: last_conv_nth)

section \<open>The steps keep it\<close>

lemma reporting_inv_start:
  assumes "rp_state rp \<noteq> None"
  shows "reporting_inv sys cfg seen w (reporting_start rp w)"
  using assms by (simp add: reporting_inv_def reporting_invs reporting_start_def fresh_collector_def)

text \<open>A step of the tunnel changes the handle and adds to the log; the rest is as it was.\<close>

lemma read_of_append:
  "fst r < length entries \<Longrightarrow> snd r < length entries \<Longrightarrow> read_of (entries @ es) r = read_of entries r"
  by (simp add: read_of_def nth_append)

lemma reporting_inv_logged:
  assumes "reporting_inv sys cfg seen w st" and "rp_state rp \<noteq> None"
    and "version = Suc (rg_version st) \<or> version = rg_version st \<and> rp_state rp = rp_state (rg_handle st)"
    and "rg_phase st \<noteq> Stopped"
  shows "reporting_inv sys cfg seen w (log_handle (st\<lparr>rg_handle := rp, rg_version := version\<rparr>))"
proof -
  let ?st = "log_handle (st\<lparr>rg_handle := rp, rg_version := version\<rparr>)"
  note inv = assms(1) [unfolded reporting_inv_def]
  have same: "rg_log ?st = rg_log st @ [(version, rp)]" "rg_version ?st = version" "rg_handle ?st = rp"
    "rg_phase ?st = rg_phase st" "rg_seen ?st = rg_seen st" "rg_reports ?st = rg_reports st" "rg_host ?st = rg_host st"
    "rg_state_from ?st = rg_state_from st" "rg_metrics_from ?st = rg_metrics_from st" "busy ?st = busy st"
    by (simp_all add: log_handle_def busy_def)
  have bounds: "fst r \<le> snd r \<and> snd r < length (rg_log st)" if "r \<in> set (rg_reports st)" for r
    using inv that by (auto simp: in_order_def)
  have "log_inv ?st"
    using inv assms(2,3) unfolding log_inv_def same by fastforce
  moreover have "phase_inv ?st"
    using inv unfolding phase_inv_def same
    by (auto simp: nth_append read_of_def split: task_phase.splits)
  moreover have "in_order ?st"
    using inv unfolding in_order_def same by fastforce
  moreover have "seen_inv ?st"
  proof -
    have "rg_state_from st < length (rg_log st)" if "busy st"
      using that inv by (auto simp: phase_inv_def busy_def split: task_phase.splits)
    moreover have "fst (last (rg_reports st)) < length (rg_log st)" if "rg_reports st \<noteq> []"
      using bounds [OF last_in_set [OF that]] by simp
    moreover have "rg_version st \<le> version"
      using assms(3) by auto
    ultimately show ?thesis
      using inv assms(4) unfolding seen_inv_def same by (auto simp: nth_append)
  qed
  moreover have "posted sys cfg seen w ?st"
  proof -
    have "read_of (rg_log st @ [(version, rp)]) r = read_of (rg_log st) r" if "r \<in> set (rg_reports st)" for r
      using bounds [OF that] by (intro read_of_append) simp_all
    then show ?thesis
      using inv unfolding posted_def same by (auto elim!: list.rel_mono_strong)
  qed
  ultimately show ?thesis
    unfolding reporting_inv_def by blast
qed

lemma reporting_inv_tunnel:
  assumes "reporting_inv sys cfg seen w st" "rg_phase st \<noteq> Stopped"
  shows "reporting_inv sys cfg seen w (tunnel_step event st)"
proof -
  note logged = reporting_inv_logged [OF assms(1) _ _ assms(2)]
  have state: "rp_state (rg_handle st) \<noteq> None"
    using assms(1) log_invD(3) unfolding reporting_inv_def by blast
  have written: "reporting_inv sys cfg seen w (write_metrics rp st)" if "rp_state rp = rp_state (rg_handle st)" for rp
    using logged [of rp "rg_version st"] that state by (simp add: write_metrics_def)
  show ?thesis
  proof (cases event)
    case Drops_sender
    have "reporting_inv sys cfg seen w (st\<lparr>rg_open := False\<rparr>)"
      using assms by (cases "rg_phase st") (simp_all add: reporting_inv_def reporting_invs)
    then show ?thesis
      using Drops_sender by (simp add: tunnel_step_def)
  qed (use state in \<open>auto simp: tunnel_step_def send_replace_def update_tunnel_metrics_def Reporter.connected_def
      intro!: logged written\<close>)
qed

lemma reporting_inv_borrowed:
  assumes inv: "reporting_inv sys cfg seen w st" and "rg_phase st = Waiting" "seen' = rg_seen st \<or> seen' = rg_version st"
  shows "reporting_inv sys cfg seen w (borrow_state (st\<lparr>rg_seen := seen'\<rparr>))" "busy (borrow_state (st\<lparr>rg_seen := seen'\<rparr>))"
proof -
  let ?n = "length (rg_log st) - 1"
  have log: "log_inv st"
    using inv by (simp add: reporting_inv_def)
  obtain state where state: "rp_state (rg_handle st) = Some state"
    using log_invD(3) [OF log] by blast
  have st': "borrow_state (st\<lparr>rg_seen := seen'\<rparr>) = st\<lparr>rg_seen := seen', rg_phase := Borrowed state, rg_state_from := ?n\<rparr>"
    by (simp add: borrow_state_def state)
  then show "busy (borrow_state (st\<lparr>rg_seen := seen'\<rparr>))"
    by (simp add: busy_def)
  show "reporting_inv sys cfg seen w (borrow_state (st\<lparr>rg_seen := seen'\<rparr>))"
    unfolding st' using inv assms(2,3) state newest_entry [OF log]
    by (auto simp: reporting_inv_def reporting_invs)
qed

lemma reporting_inv_reported:
  assumes laws: "logs_requests web seen" "os_keeps os seen"
    and inv: "reporting_inv sys cfg seen w st" and phase: "rg_phase st = Posting state metrics"
  shows "reporting_inv sys cfg seen w (st\<lparr>rg_phase := Waiting, rg_host := report_once sys web os cfg state metrics (rg_host st),
      rg_reports := rg_reports st @ [(rg_state_from st, rg_metrics_from st)]\<rparr>)"
proof -
  obtain payloads where before: "seen (hc_os (rg_host st)) = seen w @ map (device_state_request sys cfg) payloads"
    "list_all2 (\<lambda>r p. reports_handle (read_of (rg_log st) r) p) (rg_reports st) payloads"
    using inv by (auto simp: reporting_inv_def posted_def)
  obtain host t where here: "seen (hc_os (report_once sys web os cfg state metrics (rg_host st))) = seen (hc_os (rg_host st))
      @ [device_state_request sys cfg (build_payload cfg state metrics host t)]"
    using report_once_sends [OF laws] by blast
  have "read_of (rg_log st) (rg_state_from st, rg_metrics_from st) = \<lparr>rp_state = Some state, rp_metrics = metrics\<rparr>"
    using inv phase by (simp add: reporting_inv_def phase_inv_def)
  then have "reports_handle (read_of (rg_log st) (rg_state_from st, rg_metrics_from st)) (build_payload cfg state metrics host t)"
    using build_payload_reports [of "\<lparr>rp_state = Some state, rp_metrics = metrics\<rparr>" state cfg host t] by simp
  with before here have "\<exists>payloads. seen (hc_os (report_once sys web os cfg state metrics (rg_host st))) =
        seen w @ map (device_state_request sys cfg) payloads
      \<and> list_all2 (\<lambda>r p. reports_handle (read_of (rg_log st) r) p)
          (rg_reports st @ [(rg_state_from st, rg_metrics_from st)]) payloads"
    by (intro exI [of _ "payloads @ [build_payload cfg state metrics host t]"])
      (auto intro: list_all2_appendI)
  then show ?thesis
    using inv phase unfolding reporting_inv_def
    by (auto simp: reporting_invs sorted_wrt_append split_beta)
qed

lemma reporting_inv_task:
  assumes "logs_requests web seen" "os_keeps os seen"
    and inv: "reporting_inv sys cfg seen w st" and run: "run_reporter sys web os cfg event st = Some st'"
  shows "reporting_inv sys cfg seen w st'"
proof (cases "(event, rg_phase st)" rule: prod.exhaust)
  case (Pair e phase)
  then have phase: "rg_phase st = phase"
    by simp
  show ?thesis
  proof (cases phase)
    case Waiting
    then consider "st' = borrow_state (st\<lparr>rg_seen := rg_seen st\<rparr>)" | "st' = borrow_state (st\<lparr>rg_seen := rg_version st\<rparr>)"
      | "st' = st\<lparr>rg_phase := Stopped\<rparr>" "rg_version st = rg_seen st" "\<not> rg_open st"
      using run phase by (cases event) (auto simp: run_reporter_def split: if_splits)
    then show ?thesis
    proof cases
      case 3
      then show ?thesis
        using inv Waiting phase by (auto simp: reporting_inv_def reporting_invs)
    qed (use reporting_inv_borrowed(1) [OF inv, of "rg_seen st"] reporting_inv_borrowed(1) [OF inv, of "rg_version st"]
        Waiting phase in simp_all)
  next
    case (Borrowed state)
    then have st': "st' = st\<lparr>rg_phase := Posting state (rp_metrics (rg_handle st)), rg_metrics_from := length (rg_log st) - 1\<rparr>"
      using run phase by (cases event) (simp_all add: run_reporter_def)
    have "log_inv st"
      using inv by (simp add: reporting_inv_def)
    from newest_entry [OF this] show ?thesis
      unfolding st' using inv Borrowed phase by (auto simp: reporting_inv_def reporting_invs read_of_def)
  next
    case (Posting state metrics)
    then have "st' = st\<lparr>rg_phase := Waiting, rg_host := report_once sys web os cfg state metrics (rg_host st),
        rg_reports := rg_reports st @ [(rg_state_from st, rg_metrics_from st)]\<rparr>"
      using run phase by (cases event) (simp_all add: run_reporter_def)
    then show ?thesis
      using reporting_inv_reported [OF assms(1-3)] Posting phase by simp
  next
    case Stopped
    then show ?thesis
      using run phase by (cases event) (simp_all add: run_reporter_def)
  qed
qed

section \<open>How the task goes\<close>

lemma reporting_inv_moves:
  assumes "logs_requests web seen" "os_keeps os seen"
    and "(reporter_moves sys web os cfg)\<^sup>*\<^sup>* st st'" "reporting_inv sys cfg seen w st"
  shows "reporting_inv sys cfg seen w st'"
  using assms(3,4)
proof (induction rule: rtranclp_induct)
  case (step st1 st2)
  note inv = step.IH [OF step.prems]
  from step.hyps(2) show ?case
  proof cases
    case (tunnel event)
    then have "rg_phase st1 \<noteq> Stopped"
      using inv by (auto simp: reporting_inv_def seen_inv_def)
    then show ?thesis
      using reporting_inv_tunnel [OF inv] tunnel by simp
  next
    case (task event)
    then show ?thesis
      using reporting_inv_task [OF assms(1,2) inv] by blast
  qed
qed

text \<open>On its own the task comes to rest, and then it has nothing to see.\<close>

definition effort :: "'w reporting \<Rightarrow> nat" where
  "effort st = (if rg_version st = rg_seen st then 0 else 3)
     + (case rg_phase st of Stopped \<Rightarrow> 0 | Waiting \<Rightarrow> 1 | Posting _ _ \<Rightarrow> 2 | Borrowed _ \<Rightarrow> 3)"

definition promised :: "'w reporting \<Rightarrow> nat" where
  "promised st = length (rg_reports st) + (if busy st then 1 else 0)"

lemma quiet_move_effort:
  assumes "quiet_move sys web os cfg st st'"
  shows "effort st' < effort st \<and> promised st \<le> promised st' \<and> rg_handle st' = rg_handle st
    \<and> reporter_moves sys web os cfg st st'"
  using assms
proof cases
  case (quiet event)
  then have "effort st' < effort st \<and> promised st \<le> promised st' \<and> rg_handle st' = rg_handle st"
    by (cases event; cases "rg_phase st")
      (auto simp: run_reporter_def borrow_state_def effort_def promised_def busy_def split: if_splits option.splits)
  then show ?thesis
    using reporter_moves.task [OF quiet(2)] by blast
qed

lemma quiet_moves_effort:
  "(quiet_move sys web os cfg ^^ n) st st' \<Longrightarrow>
     effort st' + n \<le> effort st \<and> promised st \<le> promised st' \<and> rg_handle st' = rg_handle st
     \<and> (reporter_moves sys web os cfg)\<^sup>*\<^sup>* st st'"
proof (induction n arbitrary: st')
  case (Suc n)
  then obtain st1 where "(quiet_move sys web os cfg ^^ n) st st1" "quiet_move sys web os cfg st1 st'"
    by auto
  then show ?case
    using Suc.IH [of st1] quiet_move_effort [of sys web os cfg st1 st'] by (auto intro: rtranclp.rtrancl_into_rtrancl)
qed simp

lemma at_rest:
  assumes "\<not> (\<exists>st''. quiet_move sys web os cfg st st'')"
  shows "\<not> busy st" "rg_phase st = Waiting \<Longrightarrow> rg_version st = rg_seen st"
proof -
  have no: "run_reporter sys web os cfg event st = None" if "event \<noteq> Ticks" for event
    using assms that by (metis option.exhaust quiet_move.quiet)
  show "\<not> busy st"
    using no [of Reads_metrics] no [of Reports] by (cases "rg_phase st") (simp_all add: run_reporter_def busy_def)
  show "rg_phase st = Waiting \<Longrightarrow> rg_version st = rg_seen st"
    using no [of Sees_change] by (simp add: run_reporter_def split: if_splits)
qed

lemma rest_is_current:
  assumes inv: "reporting_inv sys cfg seen w st" and rest: "\<not> (\<exists>st''. quiet_move sys web os cfg st st'')"
    and "0 < rg_version st \<or> rg_reports st \<noteq> []"
  shows "rg_reports st \<noteq> [] \<and> rp_state (read_of (rg_log st) (last (rg_reports st))) = rp_state (rg_handle st)"
proof -
  have log: "log_inv st"
    using inv by (simp add: reporting_inv_def)
  have "rg_version st = rg_seen st"
    using at_rest [OF rest] inv by (auto simp: busy_def reporting_inv_def seen_inv_def)
  then have seen: "rg_version st = 0 \<or> rg_reports st \<noteq> [] \<and> rg_version st \<le> fst (rg_log st ! fst (last (rg_reports st)))"
    using inv at_rest(1) [OF rest] by (auto simp: reporting_inv_def seen_inv_def)
  then have some: "rg_reports st \<noteq> []"
    using assms(3) by auto
  obtain i j where last: "last (rg_reports st) = (i, j)"
    by fastforce
  then have "i \<le> j \<and> j < length (rg_log st)"
    using inv last_in_set [OF some] unfolding reporting_inv_def in_order_def by fastforce
  then have within: "fst (last (rg_reports st)) < length (rg_log st)"
    using last by simp
  have "fst (rg_log st ! fst (last (rg_reports st))) = rg_version st"
    using seen log_invD(4) [OF log within] by auto
  from log_invD(5) [OF log within this] show ?thesis
    using some by (simp add: read_of_def)
qed

section \<open>Properties\<close>

text \<open>
  C18. What the reporter tells the server, in every interleaving of the task with the tunnel: one
  request to the registration's own address per report, whatever became of those before; each says what
  the handle held when its state and then its metrics were read, and these reads are in order, so
  that states may be skipped when they change during a report, and repeated by the interval, but never
  come out of order; while the state is disconnected nothing of a path, no latency, loss or counter, is
  in it. Nothing is lost at the end either: a tick starts a report, a report that was started is sent,
  and left alone the task comes to rest within six steps; then the last report, if there was a change
  or a tick at all, says the state the tunnel is in.
\<close>

theorem device_state_reports:
  assumes "logs_requests web seen" "os_keeps os seen" "rp_state rp \<noteq> None"
    and "(reporter_moves sys web os cfg)\<^sup>*\<^sup>* (reporting_start rp w) st"
  shows "(\<exists>payloads. seen (hc_os (rg_host st)) = seen w @ map (device_state_request sys cfg) payloads
        \<and> list_all2 (\<lambda>r p. reports_handle (read_of (rg_log st) r) p) (rg_reports st) payloads)
    \<and> (\<forall>(i, j)\<in>set (rg_reports st). i \<le> j \<and> j < length (rg_log st))
    \<and> sorted_wrt (\<lambda>(i, j) (i', j'). j \<le> i') (rg_reports st)
    \<and> (rg_phase st = Waiting \<longrightarrow> (\<exists>st'. run_reporter sys web os cfg Ticks st = Some st' \<and> busy st'))
    \<and> (\<forall>n st'. (quiet_move sys web os cfg ^^ n) st st' \<longrightarrow> n \<le> 6
        \<and> ((\<exists>st''. quiet_move sys web os cfg st' st'')
           \<or> (busy st \<longrightarrow> length (rg_reports st) < length (rg_reports st'))
             \<and> (0 < rg_version st' \<or> rg_reports st' \<noteq> [] \<longrightarrow> rg_reports st' \<noteq> []
                  \<and> rp_state (read_of (rg_log st') (last (rg_reports st'))) = rp_state (rg_handle st))))"
proof -
  have inv: "reporting_inv sys cfg seen w st"
    using reporting_inv_moves [OF assms(1,2,4) reporting_inv_start [OF assms(3)]] .
  have "\<exists>st'. run_reporter sys web os cfg Ticks st = Some st' \<and> busy st'" if "rg_phase st = Waiting"
    using reporting_inv_borrowed(2) [OF inv that, of "rg_seen st"] that by (simp add: run_reporter_def)
  moreover have "n \<le> 6 \<and> ((\<exists>st''. quiet_move sys web os cfg st' st'')
      \<or> (busy st \<longrightarrow> length (rg_reports st) < length (rg_reports st'))
        \<and> (0 < rg_version st' \<or> rg_reports st' \<noteq> [] \<longrightarrow> rg_reports st' \<noteq> []
             \<and> rp_state (read_of (rg_log st') (last (rg_reports st'))) = rp_state (rg_handle st)))"
    if run: "(quiet_move sys web os cfg ^^ n) st st'" for n st'
  proof -
    note quiet = quiet_moves_effort [OF run]
    have "n \<le> 6"
      using quiet by (auto simp: effort_def split: task_phase.splits if_splits)
    moreover have "reporting_inv sys cfg seen w st'"
      using reporting_inv_moves [OF assms(1,2) _ inv] quiet by blast
    ultimately show ?thesis
      using quiet rest_is_current [of sys cfg seen w st' web os] at_rest(1) [of sys web os cfg st']
      by (auto simp: promised_def split: if_splits)
  qed
  ultimately show ?thesis
    using inv by (auto simp: reporting_inv_def posted_def in_order_def)
qed

text \<open>A world that is the requests so far, in which everything fails.\<close>

definition sample_web :: "http_request list web" where
  "sample_web =
     \<lparr>wb_send = \<lambda>req w. (Inl ''no route'', w @ [req]), wb_account = \<lambda>_. Inl [], wb_api_error = \<lambda>_. Inl [],
      wb_json = \<lambda>_. Inl [], wb_account_of_json = \<lambda>_. Inl [], wb_base64 = \<lambda>_. [], wb_cf_time = \<lambda>w. ([], w),
      wb_read_line = op_fail []\<rparr>"

definition sample_os :: "http_request list host_os" where
  "sample_os =
     \<lparr>os_sysctl_size = \<lambda>_. op_fail (), os_sysctl = \<lambda>_ _. op_fail (), os_statvfs_root = op_fail (),
      os_getifaddrs = op_fail (), os_now = \<lambda>w. (0, w), os_rfc3339_now = \<lambda>w. (''now'', w)\<rparr>"

definition sample_reporter_config :: reporter_config where
  "sample_reporter_config =
     \<lparr>rc_account_id = ''account'', rc_registration_id = ''registration'', rc_access_token = ''secret'',
      rc_doh_subdomain = ''account.cloudflare-gateway.com'', rc_profile_id = ''default'', rc_switch_locked = False,
      rc_always_on = True, rc_client_version = CLIENT_VERSION\<rparr>"

lemma sample_worlds: "logs_requests sample_web (\<lambda>w. w)" "os_keeps sample_os (\<lambda>w. w)"
  by (simp_all add: logs_requests_def os_keeps_def sample_web_def sample_os_def preserves_fail)

text \<open>
  The interval's first tick, a connection that comes up and its metrics while that report is posted, and
  the report of the change.
\<close>

definition sample_metrics :: tunnel_metrics where
  "sample_metrics =
     \<lparr>tm_local_ip = V4 0, tm_rtt_us = 12000, tm_min_rtt_us = None, tm_rtt_var_us = 0, tm_packets_sent_upstream = 0,
      tm_packets_received_downstream = 0, tm_packets_lost_upstream = 0, tm_packets_retransmitted_upstream = 0,
      tm_bytes_sent_upstream = 0, tm_bytes_received_downstream = 0, tm_bytes_lost_upstream = 0,
      tm_bytes_retransmitted_upstream = 0\<rparr>"

definition sample_handle :: reporter where
  "sample_handle = \<lparr>rp_state = Some Disconnected, rp_metrics = None\<rparr>"

corollary device_state_reports_witness:
  "\<exists>st p q. (reporter_moves sample_system sample_web sample_os sample_reporter_config)\<^sup>*\<^sup>* (reporting_start sample_handle []) st
    \<and> hc_os (rg_host st) = map (device_state_request sample_system sample_reporter_config) [p, q]
    \<and> dp_status p = ''Disconnected'' \<and> dp_status q = ''Connected'' \<and> dp_handshake_latency_ms q = Some 12"
proof -
  let ?moves = "reporter_moves sample_system sample_web sample_os sample_reporter_config"
  let ?run = "run_reporter sample_system sample_web sample_os sample_reporter_config"
  define st0 :: "http_request list reporting" where "st0 = reporting_start sample_handle []"
  define st1 where "st1 = the (?run Ticks st0)"
  define st2 where "st2 = the (?run Reads_metrics st1)"
  define st3 where "st3 = tunnel_step (Updates sample_metrics) (tunnel_step (Connects 5000000) st2)"
  define st4 where "st4 = the (?run Reports st3)"
  define st5 where "st5 = the (?run Sees_change st4)"
  define st6 where "st6 = the (?run Reads_metrics st5)"
  define st7 where "st7 = the (?run Reports st6)"
  note steps = st1_def st2_def st3_def st4_def st5_def st6_def st7_def
  note defs = run_reporter_def borrow_state_def tunnel_step_def send_replace_def write_metrics_def log_handle_def
    Reporter.connected_def update_tunnel_metrics_def st0_def reporting_start_def sample_handle_def Let_def
  have runs: "?run Ticks st0 = Some st1" "?run Reads_metrics st1 = Some st2" "?run Reports st3 = Some st4"
    "?run Sees_change st4 = Some st5" "?run Reads_metrics st5 = Some st6" "?run Reports st6 = Some st7" "rg_open st2"
    by (simp_all add: steps defs)
  have "?moves\<^sup>*\<^sup>* st0 st2"
    using reporter_moves.task runs(1,2) by (metis rtranclp.rtrancl_into_rtrancl rtranclp.rtrancl_refl)
  moreover have "rg_open (tunnel_step (Connects 5000000) st2)"
    by (simp add: steps defs)
  then have "?moves\<^sup>*\<^sup>* st2 st3"
    unfolding st3_def using reporter_moves.tunnel runs(7)
    by (metis rtranclp.rtrancl_into_rtrancl rtranclp.rtrancl_refl)
  moreover have "?moves\<^sup>*\<^sup>* st3 st5" "?moves\<^sup>*\<^sup>* st5 st7"
    using reporter_moves.task runs(3-6) by (metis rtranclp.rtrancl_into_rtrancl rtranclp.rtrancl_refl)+
  ultimately have reached: "?moves\<^sup>*\<^sup>* (reporting_start sample_handle []) st7"
    unfolding st0_def by (meson rtranclp_trans)
  have reports: "rg_reports st7 = [(0, 0), (2, 2)]"
    "rg_log st7 = [(0, sample_handle), (1, \<lparr>rp_state = Some (Connected 5), rp_metrics = None\<rparr>),
      (1, \<lparr>rp_state = Some (Connected 5), rp_metrics = Some sample_metrics\<rparr>)]"
    by (simp_all add: steps defs u64_max_def)
  have "rp_state sample_handle \<noteq> None"
    by (simp add: sample_handle_def)
  from device_state_reports [OF sample_worlds this reached] obtain payloads
    where sent: "hc_os (rg_host st7) = map (device_state_request sample_system sample_reporter_config) payloads"
      and said: "list_all2 (\<lambda>r p. reports_handle (read_of (rg_log st7) r) p) (rg_reports st7) payloads"
    by auto
  from said [unfolded reports] obtain p q where "payloads = [p, q]" "dp_status p = ''Disconnected''"
    "dp_status q = ''Connected''" "dp_handshake_latency_ms q = Some 12"
    by (auto simp: list_all2_Cons1 read_of_def reports_handle_def sample_handle_def sample_metrics_def numeral_2_eq_2)
  with sent reached show ?thesis
    by blast
qed

end
