(* ===== verification/Rotation.thy ===== *)
theory Rotation
  imports Main
begin

text \<open>
  What the supervisor asks of the rotation of its endpoints: an index that stays in the list, and
  that reaches every endpoint while none of them works.
\<close>

section \<open>Walks\<close>

text \<open>The indices that are tried from \<open>i\<close> on, given whether each session came up.\<close>

fun walk :: "(nat \<Rightarrow> nat \<Rightarrow> bool \<Rightarrow> nat) \<Rightarrow> nat \<Rightarrow> nat \<Rightarrow> bool list \<Rightarrow> nat list" where
  "walk next_index n i [] = []"
| "walk next_index n i (up # ups) = i # walk next_index n (next_index i n up) ups"

definition walk_end :: "(nat \<Rightarrow> nat \<Rightarrow> bool \<Rightarrow> nat) \<Rightarrow> nat \<Rightarrow> nat \<Rightarrow> bool list \<Rightarrow> nat" where
  "walk_end next_index n i ups = fold (\<lambda>up i. next_index i n up) ups i"

lemma walk_end_simps [simp]:
  "walk_end next_index n i [] = i"
  "walk_end next_index n i (up # ups) = walk_end next_index n (next_index i n up) ups"
  "walk_end next_index n i (ups @ vs) = walk_end next_index n (walk_end next_index n i ups) vs"
  by (simp_all add: walk_end_def)

lemma walk_append:
  "walk next_index n i (ups @ vs) = walk next_index n i ups @ walk next_index n (walk_end next_index n i ups) vs"
  by (induction ups arbitrary: i) simp_all

lemma length_walk [simp]: "length (walk next_index n i ups) = length ups"
  by (induction ups arbitrary: i) simp_all

lemma walk_failing:
  "walk next_index n i (replicate m False) = map (\<lambda>k. ((\<lambda>i. next_index i n False) ^^ k) i) [0..<m]"
proof (induction m arbitrary: i)
  case (Suc m)
  have "[0..<Suc m] = 0 # map Suc [0..<m]"
    by (simp add: map_Suc_upt upt_conv_Cons del: upt_Suc)
  then show ?case
    by (simp add: Suc.IH funpow_Suc_right del: funpow.simps upt_Suc)
qed simp

section \<open>The interface\<close>

locale fair_rotation =
  fixes next_index :: "nat \<Rightarrow> nat \<Rightarrow> bool \<Rightarrow> nat"
  assumes in_range: "i < n \<Longrightarrow> next_index i n up < n"
    and fair: "i < n \<Longrightarrow> j < n \<Longrightarrow> \<exists>k<n. ((\<lambda>i. next_index i n False) ^^ k) i = j"
begin

lemma end_in_range: "i < n \<Longrightarrow> walk_end next_index n i ups < n"
  by (induction ups arbitrary: i) (simp_all add: in_range)

lemma walk_in_range: "i < n \<Longrightarrow> set (walk next_index n i ups) \<subseteq> {..<n}"
  by (induction ups arbitrary: i) (auto simp: in_range)

lemma failing_covers:
  assumes "i < n" "n \<le> m"
  shows "set (walk next_index n i (replicate m False)) = {..<n}"
proof
  show "{..<n} \<subseteq> set (walk next_index n i (replicate m False))"
  proof
    fix j
    assume "j \<in> {..<n}"
    then obtain k where "k < n" "((\<lambda>i. next_index i n False) ^^ k) i = j"
      using fair [OF assms(1)] by blast
    then show "j \<in> set (walk next_index n i (replicate m False))"
      using assms(2) unfolding walk_failing by force
  qed
qed (rule walk_in_range [OF assms(1)])

text \<open>Any \<open>n\<close> failures in a row try every index, whatever happened before.\<close>

lemma run_of_failures_covers:
  assumes "i < n" "n \<le> m" "xs @ ys @ zs = walk next_index n i (ups @ replicate m False @ vs)"
    and "length xs = length ups" "length ys = m"
  shows "set ys = {..<n}"
proof -
  have "ys = walk next_index n (walk_end next_index n i ups) (replicate m False)"
    using assms(3-5) by (simp add: walk_append)
  then show ?thesis
    using failing_covers [OF end_in_range [OF assms(1)] assms(2)] by simp
qed

end

end
