(* ===== verification/Supervisor.thy ===== *)
theory Supervisor
  imports Session Rotation
begin

text \<open>
  \<open>api/masque/supervisor.rs\<close>: one session after the other, on the endpoint the rotation picks, for
  as long as the TUN device lasts.
\<close>

section \<open>Model\<close>

definition next_endpoint_index :: "nat \<Rightarrow> nat \<Rightarrow> bool \<Rightarrow> nat" where
  "next_endpoint_index current endpoint_count established =
     (if established then 0 else (current + 1) mod endpoint_count)"

record ('w, 'd) supervisor =
  sv_host :: "('w, 'd) host"
  sv_endpoint_index :: nat

datatype supervisor_error =
    LinkFailed tun_error
  | IdleReadFailed tun_error
  | TunDeviceClosed
  | EndpointListEmpty

text \<open>The conservative link: the configured MTU, and IPv6 only when the path is not probed.\<close>

definition reset_link ::
    "('k, 'p, 'q, 'w, 'c, 'd) platform \<Rightarrow> 'k masque_config \<Rightarrow> (('w, 'd) supervisor, supervisor_error, unit) run" where
  "reset_link pl cfg sv =
     (case apply_path_mtu (pl_tun pl) (pm_initial_tun_mtu (mc_path_mtu cfg))
             (pm_tunnel_ipv6 (mc_path_mtu cfg) \<and> \<not> pm_enabled (mc_path_mtu cfg)) (ho_tun (sv_host sv)) of
        (r, tun) \<Rightarrow> Some (lift_error LinkFailed r, sv\<lparr>sv_host := (sv_host sv)\<lparr>ho_tun := tun\<rparr>\<rparr>))"

text \<open>An idle tunnel waits for a packet, which becomes the pending one.\<close>

definition wait_for_activity ::
    "('k, 'p, 'q, 'w, 'c, 'd) platform \<Rightarrow> 'k masque_config \<Rightarrow> (('w, 'd) supervisor, supervisor_error, unit) run" where
  "wait_for_activity pl cfg sv =
     (if \<not> rc_always (mc_reconnect cfg) \<and> ho_pending (sv_host sv) = None then
        (case recv_packet (pl_tun pl) (ho_tun (sv_host sv)) of
           (Inl e, tun) \<Rightarrow> Some (Inl (IdleReadFailed e), sv\<lparr>sv_host := (sv_host sv)\<lparr>ho_tun := tun\<rparr>\<rparr>)
         | (Inr packet, tun) \<Rightarrow>
             if packet = [] then Some (Inl TunDeviceClosed, sv\<lparr>sv_host := (sv_host sv)\<lparr>ho_tun := tun\<rparr>\<rparr>)
             else Some (Inr (), sv\<lparr>sv_host := (sv_host sv)\<lparr>ho_tun := tun, ho_pending := Some packet\<rparr>\<rparr>))
      else Some (Inr (), sv))"

definition selected_endpoint ::
    "'k masque_config \<Rightarrow> (('w, 'd) supervisor, supervisor_error, masque_endpoint) run" where
  "selected_endpoint cfg sv =
     Some (ok_or EndpointListEmpty (index_at (mc_endpoints cfg) (sv_endpoint_index sv)), sv)"

text \<open>A session, whose result is only logged.\<close>

definition supervise_session ::
    "('k, 'p, 'q, 'w, 'c, 'd) platform \<Rightarrow> 'k masque_config \<Rightarrow> nat \<Rightarrow> masque_endpoint
      \<Rightarrow> (('w, 'd) supervisor, supervisor_error, unit) run" where
  "supervise_session pl cfg tun_mtu endpoint sv =
     (case run_tunnel_session pl cfg endpoint tun_mtu ((sv_host sv)\<lparr>ho_established := False\<rparr>) of
        None \<Rightarrow> None
      | Some (_, ho) \<Rightarrow> Some (Inr (), sv\<lparr>sv_host := ho\<rparr>))"

definition rotate_and_sleep ::
    "('k, 'p, 'q, 'w, 'c, 'd) platform \<Rightarrow> 'k masque_config \<Rightarrow> ('w, 'd) supervisor \<Rightarrow> ('w, 'd) supervisor" where
  "rotate_and_sleep pl cfg sv =
     sv\<lparr>sv_endpoint_index :=
          next_endpoint_index (sv_endpoint_index sv) (length (mc_endpoints cfg)) (ho_established (sv_host sv)),
        sv_host := (sv_host sv)\<lparr>ho_net := n_sleep (pl_net pl) (rc_delay (mc_reconnect cfg)) (ho_net (sv_host sv))\<rparr>\<rparr>"

definition supervise_once ::
    "('k, 'p, 'q, 'w, 'c, 'd) platform \<Rightarrow> 'k masque_config \<Rightarrow> nat \<Rightarrow> (('w, 'd) supervisor, supervisor_error, unit) run" where
  "supervise_once pl cfg tun_mtu =
     run_bind (reset_link pl cfg) (\<lambda>_.
     run_bind (wait_for_activity pl cfg) (\<lambda>_.
     run_bind (selected_endpoint cfg) (\<lambda>endpoint.
     run_bind (supervise_session pl cfg tun_mtu endpoint) (\<lambda>_.
     run_bind (reset_link pl cfg) (\<lambda>_.
     run_modify (rotate_and_sleep pl cfg))))))"

partial_function (option) supervise ::
    "('k, 'p, 'q, 'w, 'c, 'd) platform \<Rightarrow> 'k masque_config \<Rightarrow> nat \<Rightarrow> ('w, 'd) supervisor
      \<Rightarrow> (supervisor_error \<times> ('w, 'd) supervisor) option" where
  "supervise pl cfg tun_mtu sv =
     (case supervise_once pl cfg tun_mtu sv of
        None \<Rightarrow> None
      | Some (Inl e, sv') \<Rightarrow> Some (e, sv')
      | Some (Inr _, sv') \<Rightarrow> supervise pl cfg tun_mtu sv')"

definition maintain_native_tun ::
    "('k, 'p, 'q, 'w, 'c, 'd) platform \<Rightarrow> 'k masque_config \<Rightarrow> nat \<Rightarrow> ('w, 'd) host
      \<Rightarrow> (supervisor_error \<times> ('w, 'd) supervisor) option" where
  "maintain_native_tun pl cfg tun_mtu ho =
     supervise pl cfg tun_mtu \<lparr>sv_host = ho\<lparr>ho_pending := None\<rparr>, sv_endpoint_index = 0\<rparr>"

section \<open>Rounds\<close>

text \<open>
  The rounds that went through, each with the supervisor before and after it.
\<close>

inductive rounds ::
    "('k, 'p, 'q, 'w, 'c, 'd) platform \<Rightarrow> 'k masque_config \<Rightarrow> nat \<Rightarrow> ('w, 'd) supervisor
      \<Rightarrow> (('w, 'd) supervisor \<times> ('w, 'd) supervisor) list \<Rightarrow> ('w, 'd) supervisor \<Rightarrow> bool" for pl cfg tun_mtu where
  no_round: "rounds pl cfg tun_mtu sv [] sv"
| round: "rounds pl cfg tun_mtu sv tried sv1 \<Longrightarrow> supervise_once pl cfg tun_mtu sv1 = Some (Inr u, sv2)
    \<Longrightarrow> rounds pl cfg tun_mtu sv (tried @ [(sv1, sv2)]) sv2"

inductive_cases rounds_nilE: "rounds pl cfg tun_mtu sv [] sv'"

abbreviation index_tried :: "('w, 'd) supervisor \<times> ('w, 'd) supervisor \<Rightarrow> nat" where
  "index_tried rnd \<equiv> sv_endpoint_index (fst rnd)"

abbreviation came_up :: "('w, 'd) supervisor \<times> ('w, 'd) supervisor \<Rightarrow> bool" where
  "came_up rnd \<equiv> ho_established (sv_host (snd rnd))"

text \<open>The round ran a session against this endpoint, and nothing but it between the two resets of the link.\<close>

definition session_ran ::
    "('k, 'p, 'q, 'w, 'c, 'd) platform \<Rightarrow> 'k masque_config \<Rightarrow> nat
      \<Rightarrow> ('w, 'd) supervisor \<times> ('w, 'd) supervisor \<Rightarrow> masque_endpoint \<Rightarrow> bool" where
  "session_ran pl cfg tun_mtu rnd endpoint \<longleftrightarrow>
     (\<exists>sva svb r ho svc. reset_link pl cfg (fst rnd) = Some (Inr (), sva)
        \<and> wait_for_activity pl cfg sva = Some (Inr (), svb)
        \<and> run_tunnel_session pl cfg endpoint tun_mtu ((sv_host svb)\<lparr>ho_established := False\<rparr>) = Some (r, ho)
        \<and> reset_link pl cfg (svb\<lparr>sv_host := ho\<rparr>) = Some (Inr (), svc)
        \<and> snd rnd = rotate_and_sleep pl cfg svc)"

lemma reset_link_fields:
  "reset_link pl cfg sv = Some (r, sv') \<Longrightarrow>
     sv_endpoint_index sv' = sv_endpoint_index sv \<and> ho_established (sv_host sv') = ho_established (sv_host sv)"
  by (auto simp: reset_link_def split: prod.splits)

lemma wait_for_activity_fields:
  "wait_for_activity pl cfg sv = Some (r, sv') \<Longrightarrow> sv_endpoint_index sv' = sv_endpoint_index sv"
  by (auto simp: wait_for_activity_def split: if_splits prod.splits sum.splits)

lemma supervise_once_ran:
  assumes "supervise_once pl cfg tun_mtu sv = Some (Inr u, sv')"
  shows "sv_endpoint_index sv < length (mc_endpoints cfg)
    \<and> session_ran pl cfg tun_mtu (sv, sv') (mc_endpoints cfg ! sv_endpoint_index sv)"
proof -
  from assms obtain u1 sva u2 svb endpoint svc u3 svd u4 sve where a: "reset_link pl cfg sv = Some (Inr u1, sva)"
    and b: "wait_for_activity pl cfg sva = Some (Inr u2, svb)"
    and c: "selected_endpoint cfg svb = Some (Inr endpoint, svc)"
    and d: "supervise_session pl cfg tun_mtu endpoint svc = Some (Inr u3, svd)"
    and e: "reset_link pl cfg svd = Some (Inr u4, sve)" "sv' = rotate_and_sleep pl cfg sve"
    unfolding supervise_once_def by (elim run_bind_okE) (simp add: run_modify_def)
  have "sv_endpoint_index svb = sv_endpoint_index sv"
    using reset_link_fields [OF a] wait_for_activity_fields [OF b] by simp
  then have "svc = svb" "sv_endpoint_index sv < length (mc_endpoints cfg)"
    "endpoint = mc_endpoints cfg ! sv_endpoint_index sv"
    using c by (auto simp: selected_endpoint_def index_at_def ok_or_def split: if_splits)
  moreover obtain r ho where "run_tunnel_session pl cfg endpoint tun_mtu ((sv_host svc)\<lparr>ho_established := False\<rparr>) = Some (r, ho)"
    "svd = svc\<lparr>sv_host := ho\<rparr>"
    using d by (auto simp: supervise_session_def split: option.splits)
  ultimately show ?thesis
    using a b e unfolding session_ran_def by auto
qed

lemma session_ran_rotates:
  assumes "session_ran pl cfg tun_mtu (sv, sv') endpoint"
  shows "sv_endpoint_index sv' =
    (if ho_established (sv_host sv') then 0 else (sv_endpoint_index sv + 1) mod length (mc_endpoints cfg))"
  using assms
  by (auto simp: session_ran_def rotate_and_sleep_def next_endpoint_index_def
      dest!: reset_link_fields wait_for_activity_fields)

lemma supervise_once_rotates:
  assumes "supervise_once pl cfg tun_mtu sv = Some (Inr u, sv')"
  shows "sv_endpoint_index sv < length (mc_endpoints cfg)
    \<and> sv_endpoint_index sv' =
        (if ho_established (sv_host sv') then 0 else (sv_endpoint_index sv + 1) mod length (mc_endpoints cfg))"
  using supervise_once_ran [OF assms] session_ran_rotates by blast

text \<open>\<open>next_endpoint_index\<close> is a fair rotation, and the rounds walk along it.\<close>

lemma next_endpoint_index_failing:
  "i < n \<Longrightarrow> ((\<lambda>i. next_endpoint_index i n False) ^^ k) i = (i + k) mod n"
  by (induction k) (simp_all add: next_endpoint_index_def mod_Suc_eq)

lemma next_endpoint_index_fair:
  assumes "i < n" "j < n"
  shows "\<exists>k<n. ((\<lambda>i. next_endpoint_index i n False) ^^ k) i = j"
proof (intro exI conjI)
  show "(j + (n - i)) mod n < n"
    using assms by simp
  show "((\<lambda>i. next_endpoint_index i n False) ^^ ((j + (n - i)) mod n)) i = j"
    unfolding next_endpoint_index_failing [OF assms(1)] using assms by (simp add: mod_add_right_eq)
qed

interpretation endpoints: fair_rotation next_endpoint_index
  by unfold_locales (simp add: next_endpoint_index_def, rule next_endpoint_index_fair)

lemma rounds_walk:
  assumes "rounds pl cfg tun_mtu sv tried sv'"
  shows "map index_tried tried = walk next_endpoint_index (length (mc_endpoints cfg)) (sv_endpoint_index sv) (map came_up tried)
    \<and> sv_endpoint_index sv' = walk_end next_endpoint_index (length (mc_endpoints cfg)) (sv_endpoint_index sv) (map came_up tried)"
  using assms
proof (induction rule: rounds.induct)
  case (round sv tried sv1 u sv2)
  then show ?case
    using supervise_once_rotates [OF round.hyps(2)] by (simp add: walk_append next_endpoint_index_def)
qed simp

lemma rounds_ran:
  assumes "rounds pl cfg tun_mtu sv tried sv'" "rnd \<in> set tried"
  shows "session_ran pl cfg tun_mtu rnd (mc_endpoints cfg ! index_tried rnd)"
  using assms
proof (induction rule: rounds.induct)
  case (round sv tried sv1 u sv2)
  then show ?case
    using supervise_once_ran [OF round.hyps(2)] by auto
qed simp

section \<open>The link between two sessions\<close>

lemma wait_for_activity_tun:
  assumes "packet_io_laws (pl_tun pl) link_mtu link_v6" "wait_for_activity pl cfg sv = Some (r, sv')"
    and "tun_safe link_mtu link_v6 (ho_tun (sv_host sv))"
  shows "tun_safe link_mtu link_v6 (ho_tun (sv_host sv'))"
proof -
  obtain q tun where recv: "recv_packet (pl_tun pl) (ho_tun (sv_host sv)) = (q, tun)"
    by fastforce
  then have "tun_safe link_mtu link_v6 tun"
    using packet_io_safe(1) [OF assms(1,3)] by simp
  then show ?thesis
    using assms(2,3) recv by (cases q) (auto simp: wait_for_activity_def split: if_splits)
qed

lemma reset_link_tun:
  assumes "link_laws (pl_tun pl) link_mtu link_v6" "tun_safe link_mtu link_v6 (ho_tun (sv_host sv))"
    and "reset_link pl cfg sv = Some (r, sv')"
  shows "tun_safe link_mtu link_v6 (ho_tun (sv_host sv'))
    \<and> (is_ok r \<longrightarrow> mtu (ho_tun (sv_host sv')) = pm_initial_tun_mtu (mc_path_mtu cfg)
        \<and> (pm_enabled (mc_path_mtu cfg) \<longrightarrow> \<not> ipv6_enabled (ho_tun (sv_host sv'))))"
proof -
  obtain q tun where call: "apply_path_mtu (pl_tun pl) (pm_initial_tun_mtu (mc_path_mtu cfg))
      (pm_tunnel_ipv6 (mc_path_mtu cfg) \<and> \<not> pm_enabled (mc_path_mtu cfg)) (ho_tun (sv_host sv)) = (q, tun)"
    by fastforce
  then have "r = lift_error LinkFailed q" "ho_tun (sv_host sv') = tun"
    using assms(3) by (auto simp: reset_link_def)
  moreover have "is_ok (lift_error LinkFailed q) = is_ok q"
    by (cases q) (simp_all add: lift_error_def)
  ultimately show ?thesis
    using apply_path_mtu_result [OF assms(1,2) call] by simp
qed

lemma supervise_once_link:
  assumes laws: "link_laws (pl_tun pl) link_mtu link_v6" "packet_io_laws (pl_tun pl) link_mtu link_v6"
    and safe: "tun_safe link_mtu link_v6 (ho_tun (sv_host sv))"
    and run: "supervise_once pl cfg tun_mtu sv = Some (Inr u, sv')"
  shows "tun_safe link_mtu link_v6 (ho_tun (sv_host sv')) \<and> mtu (ho_tun (sv_host sv')) = pm_initial_tun_mtu (mc_path_mtu cfg)
    \<and> (pm_enabled (mc_path_mtu cfg) \<longrightarrow> \<not> ipv6_enabled (ho_tun (sv_host sv')))"
proof -
  from run obtain u1 sa u2 sb endpoint sc u3 sd u4 se where a: "reset_link pl cfg sv = Some (Inr u1, sa)"
    and b: "wait_for_activity pl cfg sa = Some (Inr u2, sb)" and c: "selected_endpoint cfg sb = Some (Inr endpoint, sc)"
    and d: "supervise_session pl cfg tun_mtu endpoint sc = Some (Inr u3, sd)"
    and e: "reset_link pl cfg sd = Some (Inr u4, se)" "sv' = rotate_and_sleep pl cfg se"
    unfolding supervise_once_def by (elim run_bind_okE) (simp add: run_modify_def)
  have "tun_safe link_mtu link_v6 (ho_tun (sv_host sb))"
    using wait_for_activity_tun [OF laws(2) b] reset_link_tun [OF laws(1) safe a] by blast
  moreover have "sc = sb"
    using c by (simp add: selected_endpoint_def)
  moreover obtain r ho where "run_tunnel_session pl cfg endpoint tun_mtu ((sv_host sc)\<lparr>ho_established := False\<rparr>) = Some (r, ho)"
    "sv_host sd = ho"
    using d by (auto simp: supervise_session_def split: option.splits)
  ultimately have "tun_safe link_mtu link_v6 (ho_tun (sv_host sd))"
    using run_tunnel_session_device [OF tun_safe_closed [OF laws]] by simp
  from reset_link_tun [OF laws(1) this e(1)] show ?thesis
    by (simp add: e(2) rotate_and_sleep_def)
qed

text \<open>Every round keeps the device safe, and puts the link back to where it starts.\<close>

definition round_of ::
    "('k, 'p, 'q, 'w, 'c, 'd) platform \<Rightarrow> 'k masque_config \<Rightarrow> nat \<Rightarrow> ('w, 'd) supervisor \<Rightarrow> ('w, 'd) supervisor \<Rightarrow> bool" where
  "round_of pl cfg tun_mtu sv sv' \<longleftrightarrow> supervise_once pl cfg tun_mtu sv = Some (Inr (), sv')"

definition link_reset :: "'k masque_config \<Rightarrow> 'd tun_device \<Rightarrow> bool" where
  "link_reset cfg tun \<longleftrightarrow> mtu tun = pm_initial_tun_mtu (mc_path_mtu cfg)
     \<and> (pm_enabled (mc_path_mtu cfg) \<longrightarrow> \<not> ipv6_enabled tun)"

lemma rounds_steps:
  assumes "rounds pl cfg tun_mtu sv tried sv'"
  shows "(round_of pl cfg tun_mtu)\<^sup>*\<^sup>* sv sv' \<and> (tried \<noteq> [] \<longrightarrow> (round_of pl cfg tun_mtu)\<^sup>+\<^sup>+ sv sv')"
  using assms
proof (induction rule: rounds.induct)
  case (round sv tried sv1 u sv2)
  then have "round_of pl cfg tun_mtu sv1 sv2"
    by (simp add: round_of_def)
  with round.IH show ?case
    by (meson rtranclp_into_tranclp1 tranclp_into_rtranclp)
qed simp

interpretation supervised_link: settling_system
  "link_laws (pl_tun pl) link_mtu link_v6 \<and> packet_io_laws (pl_tun pl) link_mtu link_v6"
  "\<lambda>sv. tun_safe link_mtu link_v6 (ho_tun (sv_host sv))" "round_of pl cfg tun_mtu"
  "\<lambda>sv. tun_safe link_mtu link_v6 (ho_tun (sv_host sv))" "\<lambda>sv. link_reset cfg (ho_tun (sv_host sv))"
  for pl link_mtu link_v6 cfg tun_mtu
  by unfold_locales (use supervise_once_link in \<open>(simp add: round_of_def link_reset_def; blast)+\<close>)

lemma rounds_safe:
  assumes "rounds pl cfg tun_mtu sv tried sv'"
    and "link_laws (pl_tun pl) link_mtu link_v6" "packet_io_laws (pl_tun pl) link_mtu link_v6"
    and "tun_safe link_mtu link_v6 (ho_tun (sv_host sv))"
  shows "tun_safe link_mtu link_v6 (ho_tun (sv_host sv')) \<and> (tried \<noteq> [] \<longrightarrow> link_reset cfg (ho_tun (sv_host sv')))"
  using rounds_steps [OF assms(1)] assms(2-4) supervised_link.inv_reachable supervised_link.settled_after by blast

section \<open>Properties\<close>

text \<open>
  C12. The rotation reaches every endpoint. Whatever sessions there were before, any as many failing
  rounds in a row as there are endpoints run a session against each of them; no round runs a session
  against anything outside the list; and the round after a session that came up starts again at the
  first.
\<close>

theorem endpoint_rotation_covers:
  assumes "rounds pl cfg tun_mtu sv (before @ failed @ later) sv'" "\<forall>rnd\<in>set failed. \<not> came_up rnd"
    and "sv_endpoint_index sv < length (mc_endpoints cfg)" "length (mc_endpoints cfg) \<le> length failed"
  shows "\<exists>endpoints. list_all2 (session_ran pl cfg tun_mtu) (before @ failed @ later) endpoints
    \<and> set endpoints \<subseteq> set (mc_endpoints cfg)
    \<and> set (take (length failed) (drop (length before) endpoints)) = set (mc_endpoints cfg)
    \<and> (before \<noteq> [] \<and> came_up (last before) \<longrightarrow> endpoints ! length before = mc_endpoints cfg ! 0)"
proof -
  let ?n = "length (mc_endpoints cfg)" and ?i = "sv_endpoint_index sv"
  let ?walk = "walk next_endpoint_index ?n" and ?at = "\<lambda>rnd. mc_endpoints cfg ! index_tried rnd"
  let ?endpoints = "map ?at (before @ failed @ later)"
  have "map came_up failed = replicate (length failed) False"
    using assms(2) by (intro replicate_eqI) auto
  then have tried: "map index_tried before @ map index_tried failed @ map index_tried later
      = ?walk ?i (map came_up before @ replicate (length failed) False @ map came_up later)"
    using rounds_walk [OF assms(1)] by simp
  from endpoints.run_of_failures_covers [OF assms(3,4) this] have covered: "index_tried ` set failed = {..<?n}"
    by simp
  have "set (map index_tried (before @ failed @ later)) \<subseteq> {..<?n}"
    using endpoints.walk_in_range [OF assms(3)] unfolding map_append tried .
  then have "set ?endpoints \<subseteq> set (mc_endpoints cfg)"
    by (auto simp: image_subset_iff)
  moreover have "list_all2 (session_ran pl cfg tun_mtu) (before @ failed @ later) ?endpoints"
    unfolding list.rel_map by (rule list.rel_refl_strong) (rule rounds_ran [OF assms(1)])
  moreover have "set (take (length failed) (drop (length before) ?endpoints)) = set (mc_endpoints cfg)"
    using nth_image [of ?n "mc_endpoints cfg"] unfolding atLeast0LessThan covered [symmetric] by (simp add: image_image)
  moreover have "?endpoints ! length before = mc_endpoints cfg ! 0" if up: "before \<noteq> []" "came_up (last before)"
  proof -
    have "map index_tried failed = ?walk (walk_end next_endpoint_index ?n ?i (map came_up before)) (replicate (length failed) False)"
      using tried by (simp add: walk_append)
    moreover have "map came_up before = map came_up (butlast before) @ [True]"
      using up by (cases before rule: rev_cases) simp_all
    moreover obtain m where "length failed = Suc m"
      using assms(3,4) by (cases "length failed") simp_all
    ultimately have "index_tried (hd failed) = 0" "failed \<noteq> []"
      by (cases failed; simp add: next_endpoint_index_def)+
    then show ?thesis
      by (simp add: nth_append hd_conv_nth)
  qed
  ultimately show ?thesis
    by blast
qed

text \<open>
  Between two sessions the link is conservative: after a round, failed or not, the TUN device is
  safe, has the configured initial MTU, and carries no IPv6 address when the new path still has to
  be probed.
\<close>

theorem reconnect_link_conservative:
  assumes "link_laws (pl_tun pl) link_mtu link_v6" "packet_io_laws (pl_tun pl) link_mtu link_v6"
    and "tun_safe link_mtu link_v6 (ho_tun (sv_host sv))"
    and "supervise_once pl cfg tun_mtu sv = Some (Inr u, sv')"
  shows "link_safe link_mtu link_v6 (dev (ho_tun (sv_host sv')))
    \<and> link_mtu (dev (ho_tun (sv_host sv'))) = pm_initial_tun_mtu (mc_path_mtu cfg)
    \<and> (pm_enabled (mc_path_mtu cfg) \<longrightarrow> link_v6 (dev (ho_tun (sv_host sv'))) = None)"
  using supervise_once_link [OF assms] tun_safe_link [of link_mtu link_v6] by (auto simp: tun_safe_def tun_inv_def)

text \<open>Two endpoints of which neither has the expected key, and a device in its initial state.\<close>

definition sample_rotation :: "unit masque_config" where
  "sample_rotation = sample_masque\<lparr>mc_endpoints := [sample_endpoint [8], sample_endpoint [9]]\<rparr>"

text \<open>The TLS material cannot be made: every session fails at once.\<close>

definition sample_broken ::
    "(unit, unit, unit, sample_world, nat, u16 \<times> 128 word option) platform" where
  "sample_broken = (sample_platform False)\<lparr>pl_tls := sample_tls\<lparr>tc_pkcs8_pem := \<lambda>_. Inl ''no key''\<rparr>\<rparr>"

definition sample_supervisor where
  "sample_supervisor clock index =
     \<lparr>sv_host = (sample_host None)\<lparr>ho_net := \<lparr>sw_clock = clock, sw_wire = [], sw_blocked = 0, sw_inbox = []\<rparr>,
        ho_tun := (sample_device (1280, Some 1))\<lparr>mtu := 1280\<rparr>\<rparr>, sv_endpoint_index = index\<rparr>"

lemma sample_round:
  assumes "index < 2"
  shows "supervise_once sample_broken sample_rotation 1280 (sample_supervisor clock index) =
    Some (Inr (), sample_supervisor (clock + 10 ^ 9) ((index + 1) mod 2))"
proof -
  have reset: "reset_link sample_broken sample_rotation (sample_supervisor c i) = Some (Inr (), sample_supervisor c i)" for c i
    by (simp add: reset_link_def sample_broken_def sample_platform_def sample_rotation_def sample_masque_def
        sample_supervisor_def sample_host_def apply_path_mtu_def Let_def set_ipv6_enabled_def set_mtu_def op_simps
        sample_device_def ipv6_path_supported_def IPV6_MIN_MTU_def lift_error_def)
  have wait: "wait_for_activity sample_broken sample_rotation (sample_supervisor c i) = Some (Inr (), sample_supervisor c i)"
    for c i
    by (simp add: wait_for_activity_def sample_rotation_def sample_masque_def)
  obtain endpoint where picked: "selected_endpoint sample_rotation (sample_supervisor clock index) =
      Some (Inr endpoint, sample_supervisor clock index)"
    using assms by (auto simp: selected_endpoint_def sample_rotation_def sample_supervisor_def index_at_def ok_or_def)
  have session: "supervise_session sample_broken sample_rotation 1280 endpoint (sample_supervisor clock index) =
      Some (Inr (), sample_supervisor clock index)"
    by (simp add: supervise_session_def run_tunnel_session_def run_bind_def on_world_def read_clock_def
        open_connection_def map_error_def prepare_tls_material_def run_lift_def lift_error_def sample_broken_def
        sample_platform_def sample_tls_def failing_net_def sample_net_def sample_supervisor_def sample_host_def)
  have rotate: "rotate_and_sleep sample_broken sample_rotation (sample_supervisor clock index) =
      sample_supervisor (clock + 10 ^ 9) ((index + 1) mod 2)"
    by (simp add: rotate_and_sleep_def next_endpoint_index_def sample_supervisor_def sample_rotation_def
        sample_broken_def sample_platform_def sample_masque_def sample_host_def failing_net_def sample_net_def
        numeral_2_eq_2)
  show ?thesis
    by (simp only: supervise_once_def run_bind_def reset wait picked session run_modify_def rotate
        option.case sum.case prod.case)
qed

corollary endpoint_rotation_covers_witness:
  "\<exists>tried sv' endpoints. rounds sample_broken sample_rotation 1280 (sample_supervisor 0 1) tried sv'
     \<and> list_all2 (session_ran sample_broken sample_rotation 1280) tried endpoints
     \<and> set endpoints = {sample_endpoint [8], sample_endpoint [9]}"
proof -
  have down: "\<not> ho_established (sv_host (sample_supervisor c i))"
    and index: "sv_endpoint_index (sample_supervisor c i) = i" for c i
    by (simp_all add: sample_supervisor_def sample_host_def)
  let ?tried = "[(sample_supervisor 0 1, sample_supervisor (10 ^ 9) 0),
    (sample_supervisor (10 ^ 9) 0, sample_supervisor (2 * 10 ^ 9) 1)]"
  have one: "rounds sample_broken sample_rotation 1280 (sample_supervisor 0 1) [hd ?tried] (sample_supervisor (10 ^ 9) 0)"
    using round [OF no_round sample_round [of 1 0]] by simp
  have two: "rounds sample_broken sample_rotation 1280 (sample_supervisor 0 1) ([] @ ?tried @ []) (sample_supervisor (2 * 10 ^ 9) 1)"
    using round [OF one sample_round [of 0 "10 ^ 9"]] by simp
  have "\<forall>rnd\<in>set ?tried. \<not> came_up rnd" "sv_endpoint_index (sample_supervisor 0 1) < length (mc_endpoints sample_rotation)"
    "length (mc_endpoints sample_rotation) \<le> length ?tried"
    by (simp_all add: sample_rotation_def down index)
  from endpoint_rotation_covers [OF two this] obtain endpoints
    where ran: "list_all2 (session_ran sample_broken sample_rotation 1280) ?tried endpoints"
      and "set (take (length ?tried) endpoints) = set (mc_endpoints sample_rotation)"
    by auto
  moreover have "length endpoints = length ?tried"
    using list_all2_lengthD [OF ran] by simp
  ultimately show ?thesis
    using two by (intro exI conjI) (auto simp: sample_rotation_def)
qed

corollary reconnect_link_conservative_witness:
  "link_safe fst snd (dev (ho_tun (sv_host (sample_supervisor (10 ^ 9) 1))))
    \<and> fst (dev (ho_tun (sv_host (sample_supervisor (10 ^ 9) 1)))) = 1280"
proof -
  have "packet_io_laws (pl_tun sample_broken) fst snd" "link_laws (pl_tun sample_broken) fst snd"
    using sample_pump_ready(5) link_laws_sample by (simp_all add: sample_broken_def sample_platform_def)
  moreover have "tun_safe fst snd (ho_tun (sv_host (sample_supervisor 0 0)))"
    by (simp add: sample_supervisor_def sample_host_def tun_safe_def tun_inv_def sample_device_def IPV6_MIN_MTU_def)
  moreover have "pm_initial_tun_mtu (mc_path_mtu sample_rotation) = 1280"
    by (simp add: sample_rotation_def sample_masque_def)
  ultimately show ?thesis
    using reconnect_link_conservative [of sample_broken fst snd] sample_round [of 0 0] by fastforce
qed

end
