(* ===== verification/Commands.thy ===== *)
theory Commands
  imports Registration Device_State Supervisor Icmp
begin

text \<open>
  The commands of \<open>commands.rs\<close> that run a tunnel, \<open>nativetun\<close> and \<open>mesh-node\<close>, the refresh of a
  registration by a new version, and the dispatch of the command line. The parser of the command line
  itself, \<open>clap\<close>, is not modelled but for the durations it parses with \<open>parse_duration\<close>.
\<close>

section \<open>Arguments\<close>

record native_tun_args =
  na_connect_port :: u16
  na_ipv6 :: bool
  na_no_tunnel_ipv4 :: bool
  na_no_tunnel_ipv6 :: bool
  na_sni_address :: string
  na_keepalive_period :: duration
  na_mtu :: u16
  na_max_tun_mtu :: u16
  na_initial_packet_size :: u16
  na_disable_pmtud :: bool
  na_pmtud_max_probes :: nat
  na_pmtud_revalidate_period :: duration
  na_cc :: string
  na_initial_cwnd_packets :: nat
  na_disable_quic_pacing :: bool
  na_relaxed_loss :: bool
  na_send_capacity_factor :: f64
  na_max_pacing_rate_bps :: nat
  na_udp_socket_buffer :: nat
  na_tx_queue_len :: nat
  na_tx_burst_packets :: nat
  na_packet_buffer_pool_size :: nat
  na_udp_batch_size :: nat
  na_no_iproute2 :: bool
  na_reconnect_delay :: duration
  na_always_reconnect :: bool
  na_insecure :: bool
  na_interface_name :: string
  na_persist :: bool
  na_on_connect :: string
  na_on_disconnect :: string

record mesh_node_args =
  mna_tunnel :: native_tun_args
  mna_activation_probe_target :: "ip_addr option"
  mna_max_idle_timeout :: duration

text \<open>A duration in nanoseconds; \<open>m * 60\<close> is a \<open>u64\<close> product, which wraps in a release build.\<close>

definition parse_duration :: "string \<Rightarrow> int_error + duration" where
  "parse_duration input =
     (case strip_suffix ''ms'' input of
        Some ms \<Rightarrow> and_then (parse_uint u64_max ms) (\<lambda>n. Inr (n * 10 ^ 6))
      | None \<Rightarrow>
          (case strip_suffix ''s'' input of
             Some s \<Rightarrow> and_then (parse_uint u64_max s) (\<lambda>n. Inr (n * 10 ^ 9))
           | None \<Rightarrow>
               (case strip_suffix ''m'' input of
                  Some m \<Rightarrow> and_then (parse_uint u64_max m) (\<lambda>n. Inr (n * 60 mod 2 ^ 64 * 10 ^ 9))
                | None \<Rightarrow> and_then (parse_uint u64_max input) (\<lambda>n. Inr (n * 10 ^ 9)))))"

definition non_empty :: "string \<Rightarrow> string option" where
  "non_empty s = (if s = [] then None else Some s)"

section \<open>Roles\<close>

definition role_max_idle_timeout :: "tunnel_role \<Rightarrow> duration option \<Rightarrow> duration" where
  "role_max_idle_timeout role mesh_timeout =
     (case role of RoleClient \<Rightarrow> 0 | RoleMeshNode \<Rightarrow> unwrap_or mesh_timeout (90 * 10 ^ 9))"

definition maintain_edge_session :: "tunnel_role \<Rightarrow> bool \<Rightarrow> bool" where
  "maintain_edge_session role always_reconnect \<longleftrightarrow> always_reconnect \<or> role = RoleMeshNode"

definition DEFAULT_MESH_ACTIVATION_PROBE_TARGET :: ip_addr where
  "DEFAULT_MESH_ACTIVATION_PROBE_TARGET = V4 0x01010101"

datatype tunnel_error =
    TunnelConfig command_error
  | WrongRole tunnel_role tunnel_role
  | MissingNodeIdentity
  | BadInterfaceName ifname_error
  | SocketBufferTooLarge nat
  | MaxMtuBelowMtu
  | Ipv6MaxMtuTooSmall
  | Ipv6MtuTooSmall
  | IdleTimeoutTooShort
  | BadSourceAddress string
  | ProbeFamilyMismatch
  | NoEndpoints config_error
  | UntrackedMeshNode start_error
  | TunNotCreated tun_error
  | BadPrivateKey string
  | TunnelEnded supervisor_error

definition build_mesh_activation_probe ::
    "app_config \<Rightarrow> tunnel_role \<Rightarrow> ip_addr option \<Rightarrow> ('w, tunnel_error, bytes option) run" where
  "build_mesh_activation_probe cfg role override_target =
     (if role \<noteq> RoleMeshNode then run_return None
      else
        (let target = unwrap_or (or_else override_target
               (Option.bind (cf_mesh_node cfg) mn_activation_probe_target)) DEFAULT_MESH_ACTIVATION_PROBE_TARGET;
             source_config = (if is_ipv4 target then cf_ipv4 cfg else cf_ipv6 cfg);
             source_text = hd (split_on CHR ''/'' source_config) in
         run_bind (run_lift (ok_or (BadSourceAddress source_text) (parse_ip source_text))) (\<lambda>source.
         (case compose_echo_request source target 0 of
            None \<Rightarrow> (\<lambda>w. None)
          | Some r \<Rightarrow> run_bind (run_lift (ok_or ProbeFamilyMismatch r)) (\<lambda>packet. run_return (Some packet))))))"

section \<open>Validation\<close>

text \<open>The checks before anything is done, up to the idle timeout they settle.\<close>

definition check_interface :: "native_tun_args \<Rightarrow> tunnel_error + unit" where
  "check_interface args =
     (if na_interface_name args \<noteq> [] then with_context BadInterfaceName (check_ifname (na_interface_name args)) else Inr ())"

definition check_link_args :: "native_tun_args \<Rightarrow> tunnel_error + unit" where
  "check_link_args args =
     (if 2147483647 < na_udp_socket_buffer args then Inl (SocketBufferTooLarge (na_udp_socket_buffer args))
      else if na_max_tun_mtu args < na_mtu args then Inl MaxMtuBelowMtu
      else if \<not> na_no_tunnel_ipv6 args \<and> na_max_tun_mtu args < IPV6_MIN_MTU then Inl Ipv6MaxMtuTooSmall
      else if \<not> na_no_tunnel_ipv6 args \<and> na_disable_pmtud args \<and> na_mtu args < IPV6_MIN_MTU then Inl Ipv6MtuTooSmall
      else Inr ())"

definition check_idle_timeout :: "tunnel_role \<Rightarrow> duration \<Rightarrow> duration \<Rightarrow> tunnel_error + unit" where
  "check_idle_timeout role max_idle_timeout keepalive_period =
     (if role = RoleMeshNode \<and> max_idle_timeout \<noteq> 0 \<and> keepalive_period \<noteq> 0 \<and> max_idle_timeout \<le> keepalive_period
      then Inl IdleTimeoutTooShort else Inr ())"

definition validate_tunnel ::
    "app_config \<Rightarrow> native_tun_args \<Rightarrow> tunnel_role \<Rightarrow> duration option \<Rightarrow> tunnel_error + duration" where
  "validate_tunnel cfg args role mesh_max_idle_timeout =
     (if cf_role cfg \<noteq> role then Inl (WrongRole (cf_role cfg) role)
      else if role = RoleMeshNode \<and> cf_mesh_node cfg = None then Inl MissingNodeIdentity
      else and_then (check_interface args) (\<lambda>_.
           and_then (check_link_args args) (\<lambda>_.
           (let max_idle_timeout = role_max_idle_timeout role mesh_max_idle_timeout
            in and_then (check_idle_timeout role max_idle_timeout (na_keepalive_period args)) (\<lambda>_.
               Inr max_idle_timeout)))))"

section \<open>A registration made by another version\<close>

definition release_version :: "string \<Rightarrow> (nat \<times> nat \<times> nat) option" where
  "release_version v =
     (case split_on CHR ''.'' (trim v) of
        [a, b, c] \<Rightarrow>
          (case (parse_uint u64_max a, parse_uint u64_max b, parse_uint u64_max c) of
             (Inr x, Inr y, Inr z) \<Rightarrow> Some (x, y, z)
           | _ \<Rightarrow> None)
      | _ \<Rightarrow> None)"

definition registration_refresh_required :: "app_config \<Rightarrow> bool" where
  "registration_refresh_required cfg =
     (case (release_version (di_client_version (cf_device_identity cfg)), release_version CLIENT_VERSION) of
        (Some registered, Some running) \<Rightarrow> running \<noteq> registered
      | _ \<Rightarrow> False)"

datatype refresh_error =
    NoMeshIdentity
  | NoPlatformClaim
  | RefreshKey string
  | RefreshEnroll enroll_failure

definition registration_refresh_identity :: "app_config \<Rightarrow> refresh_error + device_identity" where
  "registration_refresh_identity cfg =
     (let identity = (cf_device_identity cfg)\<lparr>di_client_version := CLIENT_VERSION\<rparr> in
      if cf_role cfg = RoleMeshNode then
        (case cf_mesh_node cfg of
           None \<Rightarrow> Inl NoMeshIdentity
         | Some mesh_identity \<Rightarrow>
             (let platform_claim = trim (mn_registration_platform_claim mesh_identity) in
              if platform_claim = [] then Inl NoPlatformClaim
              else Inr (identity\<lparr>di_device_type := platform_claim\<rparr>)))
      else Inr identity)"

text \<open>The configuration in memory takes the new version before it is written, and keeps it if that fails.\<close>

definition stored_public_key :: "('h, 'k, 'r, 'w) machine \<Rightarrow> app_config \<Rightarrow> string + bytes" where
  "stored_public_key ma cfg =
     and_then (get_ec_private_key (ma_base64_decode ma) (ma_from_sec1 ma) cfg) (ek_spki_der (ma_keys ma))"

definition refresh_enrollment :: "('h, 'k, 'r, 'w) machine \<Rightarrow> app_config \<Rightarrow> ('w, refresh_error, account_data) op" where
  "refresh_enrollment ma cfg =
     op_bind (op_lift (with_context RefreshKey (stored_public_key ma cfg))) (\<lambda>public_key_der.
     op_bind (op_lift (registration_refresh_identity cfg)) (\<lambda>identity.
     op_context RefreshEnroll (enroll_key (ma_sys ma) (ma_web ma) (account_of_config cfg) public_key_der identity)))"

definition with_running_version :: "app_config \<Rightarrow> app_config" where
  "with_running_version cfg = cfg\<lparr>cf_device_identity := (cf_device_identity cfg)\<lparr>di_client_version := CLIENT_VERSION\<rparr>\<rparr>"

definition refresh_registration_after_version_change ::
    "('h, 'k, 'r, 'w) machine \<Rightarrow> string \<Rightarrow> app_config \<Rightarrow> 'w \<Rightarrow> app_config \<times> 'w" where
  "refresh_registration_after_version_change ma config_path cfg w =
     (if \<not> registration_refresh_required cfg then (cfg, w)
      else (case refresh_enrollment ma cfg w of
              (Inl _, w') \<Rightarrow> (cfg, w')
            | (Inr _, w') \<Rightarrow>
                (with_running_version cfg,
                 snd (save_sensitive (ma_files ma) (ma_json ma) config_path (with_running_version cfg) w'))))"

section \<open>The tunnel\<close>

definition tun_options_of :: "native_tun_args \<Rightarrow> tun_options" where
  "tun_options_of args =
     \<lparr>opt_name = non_empty (na_interface_name args), opt_mtu = na_mtu args,
      opt_configure_addresses = (\<not> na_no_iproute2 args), opt_ipv4 = (\<not> na_no_tunnel_ipv4 args),
      opt_ipv6 = (\<not> na_no_tunnel_ipv6 args),
      opt_defer_ipv6 = (\<not> na_no_tunnel_ipv6 args \<and> \<not> na_disable_pmtud args), opt_persist = na_persist args\<rparr>"

definition hook_mode :: "tunnel_role \<Rightarrow> string" where
  "hook_mode role = (case role of RoleClient \<Rightarrow> ''nativetun'' | RoleMeshNode \<Rightarrow> ''mesh-node'')"

definition user_agent_role :: "tunnel_role \<Rightarrow> string" where
  "user_agent_role role = (case role of RoleClient \<Rightarrow> ''TunnelOnly'' | RoleMeshNode \<Rightarrow> ''MeshNode'')"

definition hook_env_of :: "tunnel_role \<Rightarrow> string \<Rightarrow> app_config \<Rightarrow> environment" where
  "hook_env_of role tun_name cfg =
     [''USQUE_MODE'' \<mapsto> hook_mode role, ''USQUE_IFACE'' \<mapsto> tun_name, ''USQUE_IPV4'' \<mapsto> cf_ipv4 cfg,
      ''USQUE_IPV6'' \<mapsto> cf_ipv6 cfg]"

definition connect_profile_of :: "tunnel_role \<Rightarrow> string \<Rightarrow> cloudflare_connect_profile" where
  "connect_profile_of role version =
     (case role of RoleClient \<Rightarrow> Client | RoleMeshNode \<Rightarrow> MeshNode version)"

definition quic_config_of :: "native_tun_args \<Rightarrow> duration \<Rightarrow> quic_transport_config" where
  "quic_config_of args max_idle_timeout =
     \<lparr>qt_keepalive_period = na_keepalive_period args, qt_max_idle_timeout = max_idle_timeout,
      qt_initial_packet_size = na_initial_packet_size args, qt_cc_algorithm = na_cc args,
      qt_initial_cwnd_packets = na_initial_cwnd_packets args, qt_disable_pacing = na_disable_quic_pacing args,
      qt_relaxed_loss = na_relaxed_loss args, qt_send_capacity_factor = na_send_capacity_factor args,
      qt_max_pacing_rate_bps = na_max_pacing_rate_bps args\<rparr>"

definition path_mtu_of :: "native_tun_args \<Rightarrow> path_mtu_config" where
  "path_mtu_of args =
     \<lparr>pm_enabled = (\<not> na_disable_pmtud args), pm_max_probes = na_pmtud_max_probes args,
      pm_revalidate_period = na_pmtud_revalidate_period args, pm_initial_tun_mtu = na_mtu args,
      pm_max_tun_mtu = na_max_tun_mtu args, pm_tunnel_ipv6 = (\<not> na_no_tunnel_ipv6 args)\<rparr>"

definition io_config_of :: "native_tun_args \<Rightarrow> datagram_io_config" where
  "io_config_of args =
     \<lparr>di_udp_socket_buffer = na_udp_socket_buffer args, di_tx_queue_len = na_tx_queue_len args,
      di_tx_burst_packets = na_tx_burst_packets args, di_packet_buffer_pool_size = na_packet_buffer_pool_size args,
      di_udp_batch_size = na_udp_batch_size args\<rparr>"

definition masque_config_of ::
    "app_config \<Rightarrow> native_tun_args \<Rightarrow> tunnel_role \<Rightarrow> duration \<Rightarrow> 'k \<Rightarrow> masque_endpoint list \<Rightarrow> bytes option \<Rightarrow> string
      \<Rightarrow> 'k masque_config" where
  "masque_config_of cfg args role max_idle_timeout key endpoints activation_probe tun_name =
     (let version = runtime_client_version (cf_device_identity cfg) in
      \<lparr>mc_private_key = key, mc_sni = na_sni_address args, mc_insecure = na_insecure args, mc_endpoints = endpoints,
       mc_user_agent = ''usque-nativetun/'' @ version @ '' (FreeBSD; '' @ user_agent_role role @ ''; MASQUE)'',
       mc_connect_profile = connect_profile_of role version, mc_quic = quic_config_of args max_idle_timeout,
       mc_path_mtu = path_mtu_of args, mc_io = io_config_of args,
       mc_reconnect = \<lparr>rc_delay = na_reconnect_delay args, rc_always = maintain_edge_session role (na_always_reconnect args)\<rparr>,
       mc_hooks = \<lparr>lh_on_connect = non_empty (na_on_connect args), lh_on_disconnect = non_empty (na_on_disconnect args),
         lh_env = hook_env_of role tun_name cfg\<rparr>,
       mc_activation_probe = activation_probe\<rparr>)"

text \<open>A client runs without a reporter when it cannot be started, a Mesh node does not run.\<close>

definition start_device_state ::
    "('h, 'k, 'r, 'w) machine \<Rightarrow> app_config \<Rightarrow> tunnel_role \<Rightarrow> bool \<Rightarrow> ('w, tunnel_error, (reporter_config \<times> reporter) option) run" where
  "start_device_state ma cfg role always_reconnect w =
     (case start_reporter (ma_sys ma) (ma_web ma) cfg always_reconnect w of
        (Inr started, w') \<Rightarrow> Some (Inr (Some started), w')
      | (Inl e, w') \<Rightarrow> if role = RoleMeshNode then Some (Inl (UntrackedMeshNode e), w') else Some (Inr None, w'))"

text \<open>What \<open>run_tunnel\<close> hands to \<open>maintain_native_tun\<close>.\<close>

record ('k, 'd) prepared =
  pp_config :: "'k masque_config"
  pp_tun :: "'d tun_device"
  pp_reporter :: "(reporter_config \<times> reporter) option"
  pp_tun_mtu :: nat

text \<open>\<open>pem\<close> decodes a peer's public key; \<open>linux\<close> is the target system.\<close>

definition prepare_tunnel ::
    "('h, 'k, 'r, 'w) machine \<Rightarrow> 'd tun_rs \<Rightarrow> (string \<Rightarrow> string + bytes) \<Rightarrow> bool \<Rightarrow> string \<Rightarrow> native_tun_args \<Rightarrow> tunnel_role
      \<Rightarrow> ip_addr option \<Rightarrow> duration option \<Rightarrow> ('w, tunnel_error, ('k, 'd) prepared) run" where
  "prepare_tunnel ma rs pem linux config_path args role activation_probe_override mesh_max_idle_timeout =
     run_bind (map_error TunnelConfig (load_config ma config_path)) (\<lambda>loaded.
     run_bind (run_lift (validate_tunnel loaded args role mesh_max_idle_timeout)) (\<lambda>max_idle_timeout.
     run_bind (\<lambda>w. case refresh_registration_after_version_change ma config_path loaded w of
                      (cfg, w') \<Rightarrow> Some (Inr cfg, w')) (\<lambda>cfg.
     run_bind (build_mesh_activation_probe cfg role activation_probe_override) (\<lambda>activation_probe.
     run_bind (run_lift (with_context NoEndpoints
                (select_endpoints_from_config pem cfg (na_ipv6 args) (na_connect_port args)))) (\<lambda>endpoints.
     run_bind (start_device_state ma cfg role (na_always_reconnect args)) (\<lambda>device_state.
     run_bind (run_lift (with_context TunNotCreated
                (create linux rs (cf_ipv4 cfg) (cf_ipv6 cfg) (tun_options_of args)))) (\<lambda>tun.
     run_bind (run_lift (with_context BadPrivateKey
                (get_ec_private_key (ma_base64_decode ma) (ma_from_sec1 ma) cfg))) (\<lambda>key.
     run_return
       \<lparr>pp_config = masque_config_of cfg args role max_idle_timeout key endpoints activation_probe (name tun),
        pp_tun = tun, pp_reporter = device_state, pp_tun_mtu = unat (na_max_tun_mtu args)\<rparr>))))))))"

text \<open>The supervisor's first state.\<close>

definition first_host :: "('k, 'd) prepared \<Rightarrow> 'w \<Rightarrow> ('w, 'd) host" where
  "first_host pp w =
     \<lparr>ho_net = w, ho_tun = pp_tun pp, ho_pending = None, ho_established = False,
      ho_reporter = map_option snd (pp_reporter pp), ho_hooks = [], ho_stats_tasks = 0\<rparr>"

definition run_tunnel ::
    "('h, 'k, 'r, 'w) machine \<Rightarrow> ('k, 'p, 'q, 'w, 'c, 'd) platform \<Rightarrow> (string \<Rightarrow> string + bytes) \<Rightarrow> bool \<Rightarrow> string
      \<Rightarrow> native_tun_args \<Rightarrow> tunnel_role \<Rightarrow> ip_addr option \<Rightarrow> duration option \<Rightarrow> ('w, tunnel_error, unit) run" where
  "run_tunnel ma pl pem linux config_path args role activation_probe_override mesh_max_idle_timeout =
     run_bind (prepare_tunnel ma (pl_tun pl) pem linux config_path args role activation_probe_override mesh_max_idle_timeout)
       (\<lambda>pp w.
         (case maintain_native_tun pl (pp_config pp) (pp_tun_mtu pp) (first_host pp w) of
            None \<Rightarrow> None
          | Some (e, sv) \<Rightarrow> Some (Inl (TunnelEnded e), ho_net (sv_host sv))))"

definition native_tun ::
    "('h, 'k, 'r, 'w) machine \<Rightarrow> ('k, 'p, 'q, 'w, 'c, 'd) platform \<Rightarrow> (string \<Rightarrow> string + bytes) \<Rightarrow> bool \<Rightarrow> string
      \<Rightarrow> native_tun_args \<Rightarrow> ('w, tunnel_error, unit) run" where
  "native_tun ma pl pem linux config_path args = run_tunnel ma pl pem linux config_path args RoleClient None None"

definition mesh_node ::
    "('h, 'k, 'r, 'w) machine \<Rightarrow> ('k, 'p, 'q, 'w, 'c, 'd) platform \<Rightarrow> (string \<Rightarrow> string + bytes) \<Rightarrow> bool \<Rightarrow> string
      \<Rightarrow> mesh_node_args \<Rightarrow> ('w, tunnel_error, unit) run" where
  "mesh_node ma pl pem linux config_path args =
     run_tunnel ma pl pem linux config_path (mna_tunnel args) RoleMeshNode (mna_activation_probe_target args)
       (Some (mna_max_idle_timeout args))"

section \<open>The command line\<close>

datatype cli_command =
    Register register_args
  | MeshRegister mesh_register_args
  | Enroll enroll_args
  | NativeTun native_tun_args
  | MeshNodeCommand mesh_node_args
  | Version

datatype run_error = CommandFailed command_error | TunnelFailed tunnel_error

definition run_command ::
    "('h, 'k, 'r, 'w) machine \<Rightarrow> ('k, 'p, 'q, 'w, 'c, 'd) platform \<Rightarrow> (string \<Rightarrow> string + bytes) \<Rightarrow> bool \<Rightarrow> string
      \<Rightarrow> cli_command \<Rightarrow> ('w, run_error, unit) run" where
  "run_command ma pl pem linux config_path command =
     (case command of
        Register args \<Rightarrow> map_error CommandFailed (register_client ma config_path args)
      | MeshRegister args \<Rightarrow> map_error CommandFailed (mesh_register ma config_path args)
      | Enroll args \<Rightarrow> map_error CommandFailed (enroll ma config_path args)
      | NativeTun args \<Rightarrow> map_error TunnelFailed (native_tun ma pl pem linux config_path args)
      | MeshNodeCommand args \<Rightarrow> map_error TunnelFailed (mesh_node ma pl pem linux config_path args)
      | Version \<Rightarrow> run_return ())"

end
