(* ===== verification/Launch.thy ===== *)
theory Launch
  imports Commands
begin

text \<open>
  What the tunnel commands of the theory \<open>Commands\<close> guarantee to the supervisor they start, and
  what they do before they start it.
\<close>

section \<open>A well-formed tunnel\<close>

text \<open>
  The numbers a session computes with are in range: the MTUs are ordered and large enough for the
  families in use, the socket buffer fits a \<open>c_int\<close>, a session that is kept up by PINGs does not
  time out between two of them, there is an endpoint to connect to, and a role's session has the
  role's profile, reconnects as the role has to and probes if the role does.
\<close>

definition well_formed_tunnel :: "tunnel_role \<Rightarrow> 'k masque_config \<Rightarrow> bool" where
  "well_formed_tunnel role mc \<longleftrightarrow>
     pm_initial_tun_mtu (mc_path_mtu mc) \<le> pm_max_tun_mtu (mc_path_mtu mc)
     \<and> (pm_tunnel_ipv6 (mc_path_mtu mc) \<longrightarrow> 1280 \<le> pm_max_tun_mtu (mc_path_mtu mc))
     \<and> (pm_tunnel_ipv6 (mc_path_mtu mc) \<and> \<not> pm_enabled (mc_path_mtu mc) \<longrightarrow> 1280 \<le> pm_initial_tun_mtu (mc_path_mtu mc))
     \<and> di_udp_socket_buffer (mc_io mc) < 2 ^ 31
     \<and> mc_endpoints mc \<noteq> []
     \<and> (case role of
          RoleClient \<Rightarrow> qt_max_idle_timeout (mc_quic mc) = 0 \<and> mc_connect_profile mc = Client \<and> mc_activation_probe mc = None
        | RoleMeshNode \<Rightarrow> rc_always (mc_reconnect mc) \<and> mc_connect_profile mc = MeshNode CLIENT_VERSION
            \<and> mc_activation_probe mc \<noteq> None
            \<and> (qt_max_idle_timeout (mc_quic mc) \<noteq> 0 \<longrightarrow> qt_keepalive_period (mc_quic mc) < qt_max_idle_timeout (mc_quic mc)))"

lemma check_link_args_ok:
  assumes "check_link_args args = Inr u"
  shows "na_udp_socket_buffer args < 2 ^ 31" "na_mtu args \<le> na_max_tun_mtu args"
    "\<not> na_no_tunnel_ipv6 args \<Longrightarrow> 1280 \<le> na_max_tun_mtu args"
    "\<not> na_no_tunnel_ipv6 args \<Longrightarrow> na_disable_pmtud args \<Longrightarrow> 1280 \<le> na_mtu args"
  using assms by (auto simp: check_link_args_def IPV6_MIN_MTU_def not_less split: if_splits)

lemma check_idle_timeout_ok:
  assumes "check_idle_timeout RoleMeshNode max_idle_timeout keepalive_period = Inr u" "max_idle_timeout \<noteq> 0"
  shows "keepalive_period < max_idle_timeout"
  using assms by (cases "keepalive_period = 0") (auto simp: check_idle_timeout_def split: if_splits)

lemma validate_tunnel_ok:
  assumes "validate_tunnel cfg args role mesh_timeout = Inr idle"
  shows "cf_role cfg = role" "check_link_args args = Inr ()" "idle = role_max_idle_timeout role mesh_timeout"
    "check_idle_timeout role idle (na_keepalive_period args) = Inr ()" "check_interface args = Inr ()"
  using assms by (auto simp: validate_tunnel_def Let_def and_then_eq_Inr split: if_splits)

lemma build_probe_ok:
  assumes "build_mesh_activation_probe cfg role target w = Some (Inr probe, w')"
  shows "(probe = None \<longleftrightarrow> role \<noteq> RoleMeshNode) \<and> w' = w"
  using assms
  by (auto simp: build_mesh_activation_probe_def Let_def command_reads split: if_splits option.splits elim!: run_bind_okE)

lemma select_endpoints_nonempty: "select_endpoints_from_config pem cfg v6 p = Inr es \<Longrightarrow> es \<noteq> []"
  by (auto simp: select_endpoints_from_config_def and_then_eq_Inr split: if_splits) (metis length_sort list.size(3) length_0_conv)

lemma prepare_tunnel_ok:
  assumes "prepare_tunnel ma rs pem linux config_path args role target mesh_timeout w = Some (Inr pp, w')"
  obtains loaded idle cfg probe endpoints key tun where
    "load (ma_files ma) (ma_json ma) config_path w = Inr loaded"
    "validate_tunnel loaded args role mesh_timeout = Inr idle"
    "cfg = fst (refresh_registration_after_version_change ma config_path loaded w)"
    "probe = None \<longleftrightarrow> role \<noteq> RoleMeshNode"
    "select_endpoints_from_config pem cfg (na_ipv6 args) (na_connect_port args) = Inr endpoints"
    "create linux rs (cf_ipv4 cfg) (cf_ipv6 cfg) (tun_options_of args) = Inr tun"
    "pp_config pp = masque_config_of cfg args role idle key endpoints probe (name tun)" "pp_tun pp = tun"
    "pp_tun_mtu pp = unat (na_max_tun_mtu args)"
proof -
  from assms obtain loaded w1 idle w2 cfg w3 probe w4 endpoints w5 device_state w6 tun w7 key w8 where
    steps: "map_error TunnelConfig (load_config ma config_path) w = Some (Inr loaded, w1)"
    "run_lift (validate_tunnel loaded args role mesh_timeout) w1 = Some (Inr idle, w2)"
    "(case refresh_registration_after_version_change ma config_path loaded w2 of (cfg, w') \<Rightarrow> Some (Inr cfg, w')) =
      Some (Inr cfg :: tunnel_error + app_config, w3)"
    and probe: "build_mesh_activation_probe cfg role target w3 = Some (Inr probe, w4)"
    and rest: "run_lift (with_context NoEndpoints (select_endpoints_from_config pem cfg (na_ipv6 args) (na_connect_port args))) w4 =
      Some (Inr endpoints, w5)"
    "start_device_state ma cfg role (na_always_reconnect args) w5 = Some (Inr device_state, w6)"
    "run_lift (with_context TunNotCreated (create linux rs (cf_ipv4 cfg) (cf_ipv6 cfg) (tun_options_of args))) w6 = Some (Inr tun, w7)"
    "run_return \<lparr>pp_config = masque_config_of cfg args role idle key endpoints probe (name tun),
        pp_tun = tun, pp_reporter = device_state, pp_tun_mtu = unat (na_max_tun_mtu args)\<rparr> w8 =
      Some (Inr pp :: tunnel_error + _, w')"
    "run_lift (with_context BadPrivateKey (get_ec_private_key (ma_base64_decode ma) (ma_from_sec1 ma) cfg)) w7 = Some (Inr key, w8)"
    unfolding prepare_tunnel_def by (elim run_bind_okE) (rule that, assumption+)
  have "load (ma_files ma) (ma_json ma) config_path w = Inr loaded" "w1 = w"
    using steps(1) by (auto simp: map_error_def load_config_def lift_error_def split: sum.splits)
  moreover have "w2 = w1" "validate_tunnel loaded args role mesh_timeout = Inr idle"
    using steps(2) by (simp_all add: command_reads)
  moreover have "cfg = fst (refresh_registration_after_version_change ma config_path loaded w2)"
    using steps(3) by (auto split: prod.splits)
  moreover have "probe = None \<longleftrightarrow> role \<noteq> RoleMeshNode"
    using build_probe_ok [OF probe] by blast
  moreover have "pp = \<lparr>pp_config = masque_config_of cfg args role idle key endpoints probe (name tun),
        pp_tun = tun, pp_reporter = device_state, pp_tun_mtu = unat (na_max_tun_mtu args)\<rparr>"
    using rest(4) by (simp add: command_reads)
  ultimately show thesis
    using that [of loaded idle cfg probe endpoints tun key] rest(1,3) by (simp add: command_reads)
qed

lemma prepare_tunnel_well_formed:
  fixes rs :: "'d tun_rs"
  assumes "prepare_tunnel ma rs pem linux config_path args role target mesh_timeout w = Some (Inr pp, w')"
  shows "well_formed_tunnel role (pp_config pp) \<and> pp_tun_mtu pp = unat (pm_max_tun_mtu (mc_path_mtu (pp_config pp)))"
proof -
  obtain loaded idle cfg probe endpoints key and tun :: "'d tun_device" where ok: "validate_tunnel loaded args role mesh_timeout = Inr idle"
    "probe = None \<longleftrightarrow> role \<noteq> RoleMeshNode"
    "select_endpoints_from_config pem cfg (na_ipv6 args) (na_connect_port args) = Inr endpoints"
    "pp_config pp = masque_config_of cfg args role idle key endpoints probe (name tun)"
    "pp_tun_mtu pp = unat (na_max_tun_mtu args)"
    using assms by (rule prepare_tunnel_ok) (rule that, assumption+)
  note v = validate_tunnel_ok [OF ok(1)] and link = check_link_args_ok [OF validate_tunnel_ok(2) [OF ok(1)]]
  have idle: "na_keepalive_period args < idle" if "role = RoleMeshNode" "idle \<noteq> 0"
    using check_idle_timeout_ok v(4) that by blast
  show ?thesis
    unfolding ok(4,5) well_formed_tunnel_def masque_config_of_def Let_def
    using link select_endpoints_nonempty [OF ok(3)] ok(2) idle v(3)
    by (cases role) (simp_all add: path_mtu_of_def io_config_of_def quic_config_of_def connect_profile_of_def
        runtime_client_version_def maintain_edge_session_def role_max_idle_timeout_def)
qed

lemma prepare_tunnel_safe:
  fixes rs :: "'d tun_rs"
  assumes "prepare_tunnel ma rs pem linux config_path args role target mesh_timeout w = Some (Inr pp, w')"
    and "link_laws rs link_mtu link_v6" "\<not> na_no_iproute2 args"
  shows "tun_safe link_mtu link_v6 (pp_tun pp)"
proof -
  obtain loaded idle and cfg :: app_config and tun :: "'d tun_device" where ok: "validate_tunnel loaded args role mesh_timeout = Inr idle"
    "create linux rs (cf_ipv4 cfg) (cf_ipv6 cfg) (tun_options_of args) = Inr tun" "pp_tun pp = tun"
    using assms(1) by (rule prepare_tunnel_ok) (rule that, assumption+)
  have "opt_ipv6 (tun_options_of args) \<and> \<not> opt_defer_ipv6 (tun_options_of args) \<longrightarrow> 1280 \<le> opt_mtu (tun_options_of args)"
    using check_link_args_ok(4) [OF validate_tunnel_ok(2) [OF ok(1)]] by (auto simp: tun_options_of_def)
  then show ?thesis
    using create_safe [OF assms(2) ok(2)] ok(3) assms(3) by (simp add: tun_options_of_def)
qed

text \<open>The supervisor as a launched tunnel starts it.\<close>

definition launched :: "('k, 'd) prepared \<Rightarrow> 'w \<Rightarrow> ('w, 'd) supervisor" where
  "launched pp w = \<lparr>sv_host = first_host pp w, sv_endpoint_index = 0\<rparr>"

lemma maintain_launched:
  "maintain_native_tun pl mc tun_mtu (first_host pp w) = supervise pl mc tun_mtu (launched pp w)"
  by (simp add: maintain_native_tun_def launched_def first_host_def)

section \<open>Invalid arguments\<close>

text \<open>The reasons to refuse a tunnel before anything is done.\<close>

definition refused :: "app_config \<Rightarrow> native_tun_args \<Rightarrow> tunnel_role \<Rightarrow> duration option \<Rightarrow> bool" where
  "refused cfg args role mesh_timeout \<longleftrightarrow>
     cf_role cfg \<noteq> role
     \<or> role = RoleMeshNode \<and> cf_mesh_node cfg = None
     \<or> na_interface_name args \<noteq> [] \<and> (CHR ''/'' \<in> set (na_interface_name args) \<or> has_white_space (na_interface_name args))
     \<or> 2 ^ 31 \<le> na_udp_socket_buffer args
     \<or> na_max_tun_mtu args < na_mtu args
     \<or> \<not> na_no_tunnel_ipv6 args \<and> (if na_disable_pmtud args then na_mtu args else na_max_tun_mtu args) < 1280
     \<or> role = RoleMeshNode \<and> na_keepalive_period args \<noteq> 0
       \<and> role_max_idle_timeout role mesh_timeout \<in> {0<..na_keepalive_period args}"

lemma with_context_Inl: "(\<exists>e. with_context f r = Inl e) \<longleftrightarrow> (\<exists>e. r = Inl e)"
  by (cases r) auto

lemma check_interface_refused:
  "(\<exists>e. check_interface args = Inl e) \<longleftrightarrow> na_interface_name args \<noteq> []
     \<and> (CHR ''/'' \<in> set (na_interface_name args) \<or> has_white_space (na_interface_name args))"
  by (auto simp: check_interface_def with_context_Inl check_ifname_def)

lemma check_link_args_refused:
  "(\<exists>e. check_link_args args = Inl e) \<longleftrightarrow>
     2 ^ 31 \<le> na_udp_socket_buffer args \<or> na_max_tun_mtu args < na_mtu args
     \<or> \<not> na_no_tunnel_ipv6 args \<and> (if na_disable_pmtud args then na_mtu args else na_max_tun_mtu args) < 1280"
  by (auto simp: check_link_args_def IPV6_MIN_MTU_def)

lemma check_idle_timeout_refused:
  "(\<exists>e. check_idle_timeout role idle keepalive = Inl e) \<longleftrightarrow>
     role = RoleMeshNode \<and> keepalive \<noteq> 0 \<and> idle \<in> {0<..keepalive}"
  by (auto simp: check_idle_timeout_def)

lemma and_then_fails: "(\<exists>e. and_then r (\<lambda>_. k) = Inl e) \<longleftrightarrow> (\<exists>e. r = Inl e) \<or> (\<exists>e. k = Inl e)"
  by (cases r) auto

lemma validate_tunnel_refused: "(\<exists>e. validate_tunnel cfg args role mesh_timeout = Inl e) \<longleftrightarrow> refused cfg args role mesh_timeout"
proof (cases "cf_role cfg \<noteq> role \<or> role = RoleMeshNode \<and> cf_mesh_node cfg = None")
  case True
  then show ?thesis
    by (auto simp: refused_def validate_tunnel_def)
next
  case False
  then have "(\<exists>e. validate_tunnel cfg args role mesh_timeout = Inl e) \<longleftrightarrow> (\<exists>e. check_interface args = Inl e)
      \<or> (\<exists>e. check_link_args args = Inl e)
      \<or> (\<exists>e. check_idle_timeout role (role_max_idle_timeout role mesh_timeout) (na_keepalive_period args) = Inl e)"
    by (auto simp: validate_tunnel_def Let_def and_then_fails)
  with False show ?thesis
    unfolding refused_def check_interface_refused check_link_args_refused check_idle_timeout_refused by argo
qed

section \<open>Properties\<close>

text \<open>
  C14. Whatever the command line, a tunnel that is started is well formed: the supervisor only ever runs
  on a configuration in which the MTUs are ordered and suffice for IPv6, the socket buffer fits the
  system call, there is an endpoint, and the role has its profile, timeout, reconnect policy and probe;
  and a command that started it ends when and how the supervisor ends.
\<close>

theorem started_tunnel_well_formed:
  assumes "prepare_tunnel ma (pl_tun pl) pem linux config_path args role target mesh_timeout w = Some (Inr pp, w1)"
  shows "well_formed_tunnel role (pp_config pp)
    \<and> run_tunnel ma pl pem linux config_path args role target mesh_timeout w =
        map_option (\<lambda>(e, sv). (Inl (TunnelEnded e), ho_net (sv_host sv)))
          (supervise pl (pp_config pp) (unat (na_max_tun_mtu args)) (launched pp w1))"
proof -
  have "pp_tun_mtu pp = unat (na_max_tun_mtu args)"
    using assms by (rule prepare_tunnel_ok)
  then show ?thesis
    using prepare_tunnel_well_formed [OF assms]
    by (auto simp: run_tunnel_def run_bind_def assms maintain_launched split: option.split)
qed

text \<open>
  C2. From the command line to every round of the supervisor, the TUN device that \<open>nativetun\<close> and
  \<open>mesh-node\<close> create and manage never has an IPv6 address on a link below 1280; and after each round,
  failed or not, it is back at the configured MTU, without IPv6 when the path has to be probed again.
\<close>

theorem launched_link_safe:
  assumes "prepare_tunnel ma (pl_tun pl) pem linux config_path args role target mesh_timeout w = Some (Inr pp, w')"
    and "\<not> na_no_iproute2 args"
    and "link_laws (pl_tun pl) link_mtu link_v6" "packet_io_laws (pl_tun pl) link_mtu link_v6"
    and "rounds pl (pp_config pp) (pp_tun_mtu pp) (launched pp w') tried sv"
  shows "link_safe link_mtu link_v6 (dev (ho_tun (sv_host sv)))
    \<and> (tried \<noteq> [] \<longrightarrow> link_mtu (dev (ho_tun (sv_host sv))) = na_mtu args
        \<and> (\<not> na_disable_pmtud args \<longrightarrow> link_v6 (dev (ho_tun (sv_host sv))) = None))"
proof -
  have "mc_path_mtu (pp_config pp) = path_mtu_of args"
    using assms(1) by (rule prepare_tunnel_ok) (simp add: masque_config_of_def Let_def)
  moreover have "tun_safe link_mtu link_v6 (ho_tun (sv_host (launched pp w')))"
    using prepare_tunnel_safe [OF assms(1,3,2)] by (simp add: launched_def first_host_def)
  ultimately show ?thesis
    using rounds_safe [OF assms(5,3,4)] tun_safe_link [of link_mtu link_v6 "ho_tun (sv_host sv)"]
    by (auto simp: path_mtu_of_def tun_safe_def tun_inv_def link_reset_def)
qed

text \<open>
  C22. Arguments are refused before anything happens, and exactly for the reasons of \<open>refused\<close>: the
  check fails if and only if the arguments do not fit the configuration or each other, and then the
  command ends at once with the error, without a request, a file or a device.
\<close>

theorem invalid_arguments_touch_nothing:
  assumes "load (ma_files ma) (ma_json ma) config_path w = Inr cfg"
  shows "((\<exists>e. validate_tunnel cfg args role mesh_timeout = Inl e) \<longleftrightarrow> refused cfg args role mesh_timeout)
    \<and> (refused cfg args role mesh_timeout \<longrightarrow>
        (\<exists>e. run_tunnel ma pl pem linux config_path args role target mesh_timeout w = Some (Inl e, w)))"
proof -
  have "run_tunnel ma pl pem linux config_path args role target mesh_timeout w = Some (Inl e, w)"
    if "validate_tunnel cfg args role mesh_timeout = Inl e" for e
    using assms that
    by (simp add: run_tunnel_def prepare_tunnel_def run_bind_def map_error_def load_config_def lift_error_def run_lift_def)
  then show ?thesis
    using validate_tunnel_refused by blast
qed

lemma dec_no_letter: "strip_suffix (p @ [c]) (dec n) = None" if "to_digit 10 c = None"
  using that dec_digits [of "last (dec n)" n] by (intro strip_suffix_last) auto

lemma parse_seconds_suffix: "strip_suffix ''ms'' (dec n @ ''s'') = None" "strip_suffix ''ms'' (dec n @ ''m'') = None"
    "strip_suffix ''s'' (dec n @ ''m'') = None" "strip_suffix ''s'' (dec n @ ''ms'') = Some (dec n @ ''m'')"
proof -
  have "dec n \<noteq> r @ ''m''" for r
    using dec_digits [of "CHR ''m''" n] by (auto simp: to_digit_def)
  then have "strip_suffix ''ms'' (dec n @ ''s'') \<noteq> Some r" for r
    by (auto simp: strip_suffix_Some append_eq_append_conv2 Cons_eq_append_conv append_eq_Cons_conv)
  then show "strip_suffix ''ms'' (dec n @ ''s'') = None"
    by (cases "strip_suffix ''ms'' (dec n @ ''s'')") auto
  show "strip_suffix ''ms'' (dec n @ ''m'') = None" "strip_suffix ''s'' (dec n @ ''m'') = None"
    using strip_suffix_last [of "dec n @ ''m''" "CHR ''s''" "''m''"] strip_suffix_last [of "dec n @ ''m''" "CHR ''s''" "[]"]
    by simp_all
  show "strip_suffix ''s'' (dec n @ ''ms'') = Some (dec n @ ''m'')"
    by (simp add: strip_suffix_Some)
qed

text \<open>
  C40. The durations of the command line, in nanoseconds: a decimal number of milliseconds, seconds or
  minutes, and of seconds without a unit, is read as written up to \<open>u64::MAX\<close> and refused above it. But
  the minutes are multiplied by 60 in 64 bits, which wraps in a release build, so a minute that is too
  long is short: 307445734561825861 minutes are 44 seconds.
\<close>

theorem parse_duration_units:
  "parse_duration (dec n @ ''ms'') = (if n < 2 ^ 64 then Inr (n * 10 ^ 6) else Inl PosOverflow)
   \<and> parse_duration (dec n @ ''s'') = (if n < 2 ^ 64 then Inr (n * 10 ^ 9) else Inl PosOverflow)
   \<and> parse_duration (dec n) = (if n < 2 ^ 64 then Inr (n * 10 ^ 9) else Inl PosOverflow)
   \<and> parse_duration (dec n @ ''m'') = (if n < 2 ^ 64 then Inr (n * 60 mod 2 ^ 64 * 10 ^ 9) else Inl PosOverflow)
   \<and> parse_duration ''307445734561825861m'' = Inr (44 * 10 ^ 9)"
proof -
  have number: "parse_uint u64_max (dec n) = (if n < 2 ^ 64 then Inr n else Inl PosOverflow)"
    using parse_uint_dec [of n u64_max] parse_uint_dec_overflow [of u64_max n] by (auto simp: u64_max_def)
  have plain: "strip_suffix ''ms'' (dec n) = None" "strip_suffix ''s'' (dec n) = None" "strip_suffix ''m'' (dec n) = None"
    using dec_no_letter [of "CHR ''s''" "''m''"] dec_no_letter [of "CHR ''s''" "[]"] dec_no_letter [of "CHR ''m''" "[]"]
    by (simp_all add: to_digit_def)
  have "parse_duration ''307445734561825861m'' = Inr (44 * 10 ^ 9)"
    by (simp add: parse_duration_def strip_suffix_def strip_prefix_def parse_uint_def to_digit_def u64_max_def Let_def)
  then show ?thesis
    by (simp add: parse_duration_def number plain parse_seconds_suffix)
qed

text \<open>
  The server confirms the stored key for this configuration under the identity it is refreshed with:
  it answers the one enrolment request with an account.
\<close>

definition confirms :: "('h, 'k, 'r, 'w) machine \<Rightarrow> app_config \<Rightarrow> 'w \<Rightarrow> 'w \<Rightarrow> bool" where
  "confirms ma cfg w w1 \<longleftrightarrow>
     (\<exists>public_der identity resp body account. stored_public_key ma cfg = Inr public_der
        \<and> registration_refresh_identity cfg = Inr identity
        \<and> wb_send (ma_web ma) (enroll_request (ma_sys ma) (ma_web ma) (account_of_config cfg) public_der identity) w = (Inr resp, w1)
        \<and> rs_status resp = 200 \<and> rs_body resp = Inr body \<and> wb_account (ma_web ma) body = Inr account)"

lemma refresh_enrollment_confirms:
  "(\<exists>account. refresh_enrollment ma cfg w = (Inr account, w1)) \<longleftrightarrow> confirms ma cfg w w1"
proof
  assume "\<exists>account. refresh_enrollment ma cfg w = (Inr account, w1)"
  then obtain account where run: "refresh_enrollment ma cfg w = (Inr account, w1)"
    by blast
  obtain public_der identity where keys: "stored_public_key ma cfg = Inr public_der" "registration_refresh_identity cfg = Inr identity"
    and enr: "enroll_key (ma_sys ma) (ma_web ma) (account_of_config cfg) public_der identity w = (Inr account, w1)"
    using run unfolding refresh_enrollment_def by (auto simp: op_lift_def op_context_Inr elim!: op_bind_okE)
  from enr show "confirms ma cfg w w1"
    by (rule enroll_key_ok) (use keys in \<open>auto simp: confirms_def\<close>)
next
  assume "confirms ma cfg w w1"
  then show "\<exists>account. refresh_enrollment ma cfg w = (Inr account, w1)"
    by (auto simp: confirms_def refresh_enrollment_def enroll_key_def op_simps STATUS_OK_def)
qed

text \<open>Without a confirmation at most the request was sent.\<close>

lemma refresh_enrollment_world:
  "snd (refresh_enrollment ma cfg w) = w
   \<or> (\<exists>public_der identity. snd (refresh_enrollment ma cfg w) =
        snd (wb_send (ma_web ma) (enroll_request (ma_sys ma) (ma_web ma) (account_of_config cfg) public_der identity) w))"
proof (cases "stored_public_key ma cfg"; cases "registration_refresh_identity cfg")
  fix public_der identity
  assume keys: "stored_public_key ma cfg = Inr public_der" "registration_refresh_identity cfg = Inr identity"
  obtain r w1 where "wb_send (ma_web ma) (enroll_request (ma_sys ma) (ma_web ma) (account_of_config cfg) public_der identity) w = (r, w1)"
    by fastforce
  with keys have "snd (refresh_enrollment ma cfg w) =
      snd (wb_send (ma_web ma) (enroll_request (ma_sys ma) (ma_web ma) (account_of_config cfg) public_der identity) w)"
    by (simp add: refresh_enrollment_def enroll_key_def op_simps split: sum.splits)
  then show ?thesis
    by blast
qed (simp_all add: refresh_enrollment_def op_simps)

lemma running_version_current: "\<not> registration_refresh_required (with_running_version cfg)"
  by (simp add: registration_refresh_required_def with_running_version_def split: option.splits)

lemma load_saved:
  assumes "file_laws fs mode" "save_sensitive fs json path cfg f = (Inr (), f')"
    and "\<And>raw. json_pretty json cfg = Inr raw \<Longrightarrow> json_from_str json raw = Inr cfg"
  shows "load fs json path f' = Inr cfg \<and> mode path f' = 384"
  using save_sensitive_done [OF assms(1,2)] assms(3) by (auto simp: load_def)

text \<open>
  C23. The registration is refreshed once per version. Nothing happens when both versions are the same
  or one of them is not three numbers. Otherwise, if the server confirms the stored key (for a Mesh node
  under the platform that was claimed at its registration), the configuration takes the running version
  and is saved, as it then is; and when that save succeeds, the next start loads exactly this
  configuration and refreshes nothing. If the server does not confirm it the configuration stays as it
  was, and at most the one request was sent.
\<close>

theorem version_refresh_once:
  assumes "file_laws (ma_files ma) mode"
    and "\<And>raw. json_pretty (ma_json ma) (with_running_version cfg) = Inr raw \<Longrightarrow>
      json_from_str (ma_json ma) raw = Inr (with_running_version cfg)"
    and "refresh_registration_after_version_change ma config_path cfg w = (cfg', w')"
  shows "if \<not> registration_refresh_required cfg then cfg' = cfg \<and> w' = w
    else if \<exists>w1. confirms ma cfg w w1
    then cfg' = with_running_version cfg
      \<and> (\<exists>w1 saved. confirms ma cfg w w1
          \<and> save_sensitive (ma_files ma) (ma_json ma) config_path cfg' w1 = (saved, w')
          \<and> (saved = Inr () \<longrightarrow> load (ma_files ma) (ma_json ma) config_path w' = Inr cfg' \<and> mode config_path w' = 6 * 8 * 8
               \<and> refresh_registration_after_version_change ma config_path cfg' w' = (cfg', w')))
    else cfg' = cfg
      \<and> (w' = w \<or> (\<exists>public_der identity. w' =
           snd (wb_send (ma_web ma) (enroll_request (ma_sys ma) (ma_web ma) (account_of_config cfg) public_der identity) w)))"
proof (cases "registration_refresh_required cfg")
  case False
  then show ?thesis
    using assms(3) by (simp add: refresh_registration_after_version_change_def)
next
  case True
  obtain r w1 where run: "refresh_enrollment ma cfg w = (r, w1)"
    by fastforce
  show ?thesis
  proof (cases r)
    case (Inl e)
    then have "\<not> confirms ma cfg w w2" for w2
      using run refresh_enrollment_confirms [of ma cfg w w2] by simp
    moreover have "cfg' = cfg" "w' = w1"
      using assms(3) True run Inl by (simp_all add: refresh_registration_after_version_change_def)
    ultimately show ?thesis
      using True run refresh_enrollment_world [of ma cfg w] by simp
  next
    case (Inr account)
    then have confirmed: "confirms ma cfg w w1"
      using run refresh_enrollment_confirms [of ma cfg w w1] by blast
    let ?new = "with_running_version cfg"
    obtain saved w2 where saved: "save_sensitive (ma_files ma) (ma_json ma) config_path ?new w1 = (saved, w2)"
      by fastforce
    then have new: "cfg' = ?new" "w' = w2"
      using assms(3) True run Inr by (simp_all add: refresh_registration_after_version_change_def)
    have "refresh_registration_after_version_change ma config_path ?new w2 = (?new, w2)"
      using running_version_current [of cfg] by (simp add: refresh_registration_after_version_change_def)
    moreover have "load (ma_files ma) (ma_json ma) config_path w2 = Inr ?new \<and> mode config_path w2 = 384" if "saved = Inr ()"
      using load_saved [OF assms(1) saved [unfolded that] assms(2)] by simp
    ultimately show ?thesis
      using True confirmed saved unfolding new by auto
  qed
qed

section \<open>A launch\<close>

definition launch_config :: app_config where
  "launch_config = sample_config\<lparr>cf_ipv6 := ''::1''\<rparr>"

definition launch_machine :: "(unit, unit, unit, sample_world) machine" where
  "launch_machine =
     \<lparr>ma_sys = sample_system,
      ma_web = \<lparr>wb_send = \<lambda>_. op_fail ''no route'', wb_account = \<lambda>_. Inl [], wb_api_error = \<lambda>_. Inl [], wb_json = \<lambda>_. Inl [],
        wb_account_of_json = \<lambda>_. Inl [], wb_base64 = \<lambda>_. [], wb_cf_time = \<lambda>w. ([], w), wb_read_line = op_fail []\<rparr>,
      ma_disk = \<lparr>dk_exists = \<lambda>_ _. False, dk_symlink_metadata = \<lambda>_. op_fail [], dk_metadata = \<lambda>_. op_fail [],
        dk_open = \<lambda>_. op_fail [], dk_handle_metadata = \<lambda>_. op_fail [], dk_take = \<lambda>_ _. op_fail [],
        dk_read_to_string = \<lambda>_. op_fail [], dk_geteuid = 0\<rparr>,
      ma_files = \<lparr>fs_exists = \<lambda>_ _. True, fs_read = \<lambda>_ _. Inr ''{}'', fs_write = \<lambda>_ _ w. (Inl [], w),
        fs_set_mode = \<lambda>_ _ w. (Inl [], w)\<rparr>,
      ma_json = \<lparr>json_from_str = \<lambda>_. Inr launch_config, json_pretty = \<lambda>_. Inl []\<rparr>,
      ma_keys = \<lparr>ek_random = \<lambda>w. ((), w), ek_sec1_der = \<lambda>_. Inr [], ek_spki_der = \<lambda>_. Inr []\<rparr>,
      ma_base64_decode = \<lambda>_. Inr [], ma_from_sec1 = \<lambda>_. Inr (),
      ma_access = \<lparr>ac_parse_url = \<lambda>_. Inl [], ac_to_str = \<lambda>_. Inl [], ac_build = Inr (), ac_send = \<lambda>_. op_fail []\<rparr>,
      ma_xml = \<lparr>xr_read_event = op_fail [], xr_read_text = \<lambda>_. op_fail [], xr_read_to_end = \<lambda>_. op_fail []\<rparr>,
      ma_xml_from_str = \<lambda>_. (),
      ma_codecs = \<lparr>tk_standard = \<lambda>_. Inl [], tk_standard_no_pad = \<lambda>_. Inl [], tk_url_safe = \<lambda>_. Inl [],
        tk_url_safe_no_pad = \<lambda>_. Inl [], tk_payload = \<lambda>_. Inl []\<rparr>\<rparr>"

definition launch_args :: native_tun_args where
  "launch_args =
     \<lparr>na_connect_port = 4443, na_ipv6 = False, na_no_tunnel_ipv4 = False, na_no_tunnel_ipv6 = False,
      na_sni_address = CONNECT_SNI, na_keepalive_period = 25 * 10 ^ 9, na_mtu = 1280, na_max_tun_mtu = 1500,
      na_initial_packet_size = 1472, na_disable_pmtud = False, na_pmtud_max_probes = 3,
      na_pmtud_revalidate_period = 600 * 10 ^ 9, na_cc = ''cubic'', na_initial_cwnd_packets = 32,
      na_disable_quic_pacing = False, na_relaxed_loss = False, na_send_capacity_factor = F64 1,
      na_max_pacing_rate_bps = 0, na_udp_socket_buffer = 8388608, na_tx_queue_len = 8192, na_tx_burst_packets = 16,
      na_packet_buffer_pool_size = 1024, na_udp_batch_size = 32, na_no_iproute2 = False, na_reconnect_delay = 10 ^ 9,
      na_always_reconnect = True, na_insecure = False, na_interface_name = [], na_persist = False,
      na_on_connect = [], na_on_disconnect = []\<rparr>"

definition launch_endpoints :: "masque_endpoint list" where
  "launch_endpoints =
     [\<lparr>me_addr = SocketAddr (V4 0xC0000214) 4443, me_host = [], me_pub_key = [1]\<rparr>,
      \<lparr>me_addr = SocketAddr (V6 1) 4443, me_host = [], me_pub_key = [1]\<rparr>]"

definition launch_device :: "(u16 \<times> 128 word option) tun_device" where
  "launch_device =
     \<lparr>name = ''tun0'', dev = (1280, None), mtu = 1280, ipv6_address = Some 1, manage_ipv6 = True, ipv6_enabled = False\<rparr>"

definition launch_prepared :: "(unit, u16 \<times> 128 word option) prepared" where
  "launch_prepared =
     \<lparr>pp_config = masque_config_of launch_config launch_args RoleClient 0 () launch_endpoints None ''tun0'',
      pp_tun = launch_device, pp_reporter = None, pp_tun_mtu = 1500\<rparr>"

lemma parse_ipv6_of_ip: "parse_ip v = Some (V6 a) \<Longrightarrow> parse_ipv6 v = Some a"
  by (auto simp: parse_ip_def split: option.splits prod.splits if_splits)

lemma launch_selection: "select_endpoints_from_config (\<lambda>_. Inr [1]) launch_config False 4443 = Inr launch_endpoints"
  using sample_selection
  by (simp add: select_endpoints_from_config_def config_peers_def launch_config_def launch_endpoints_def sample_config_def)

lemma launch_prepare:
  "prepare_tunnel launch_machine sample_rs (\<lambda>_. Inr [1]) False ''config.json'' launch_args RoleClient None None w =
     Some (Inr launch_prepared, w)"
proof -
  have load: "map_error TunnelConfig (load_config launch_machine ''config.json'') w = Some (Inr launch_config, w)"
    by (simp add: map_error_def load_config_def load_def launch_machine_def lift_error_def)
  have valid: "validate_tunnel launch_config launch_args RoleClient None = Inr 0"
    by (simp add: validate_tunnel_def launch_config_def sample_config_def check_interface_def check_link_args_def
        check_idle_timeout_def launch_args_def IPV6_MIN_MTU_def Let_def role_max_idle_timeout_def)
  have "\<not> registration_refresh_required launch_config"
    by (simp add: registration_refresh_required_def launch_config_def sample_config_def default_identity_def
        release_version_def trim_Nil)
  then have refresh: "refresh_registration_after_version_change launch_machine ''config.json'' launch_config w = (launch_config, w)"
    by (simp add: refresh_registration_after_version_change_def)
  have probe: "build_mesh_activation_probe launch_config RoleClient None w = Some (Inr None, w)"
    by (simp add: build_mesh_activation_probe_def run_return_def)
  have reporter: "start_device_state launch_machine launch_config RoleClient b w = Some (Inr None, w)" for b
    by (simp add: start_device_state_def start_reporter_def fetch_registration_def launch_config_def sample_config_def
        launch_machine_def get_registration_def exchange_def op_simps)
  have tun: "create False sample_rs (cf_ipv4 launch_config) (cf_ipv6 launch_config) (tun_options_of launch_args) = Inr launch_device"
    using parse_ipv6_of_ip [OF sample_v6]
    by (simp add: create_def launch_config_def tun_options_of_def launch_args_def tun_builder_def sample_rs_def
        launch_device_def)
  have key: "get_ec_private_key (ma_base64_decode launch_machine) (ma_from_sec1 launch_machine) launch_config = Inr ()"
    by (simp add: get_ec_private_key_def launch_machine_def)
  have fields: "na_ipv6 launch_args = False" "na_connect_port launch_args = 4443" "unat (na_max_tun_mtu launch_args) = 1500"
    by (simp_all add: launch_args_def)
  show ?thesis
    unfolding prepare_tunnel_def run_bind_def load run_lift_def
    by (simp add: valid refresh probe fields launch_selection reporter tun key run_return_def launch_prepared_def
        launch_device_def)
qed

text \<open>A configuration of an older version, on a disk, and a server that knows the key.\<close>

definition old_config :: app_config where
  "old_config = launch_config\<lparr>cf_device_identity := (cf_device_identity launch_config)\<lparr>di_client_version := ''0.0.1''\<rparr>\<rparr>"

definition confirming_machine :: "(unit, unit, unit, string \<Rightarrow> (string \<times> nat) option) machine" where
  "confirming_machine =
     \<lparr>ma_sys = sample_system,
      ma_web = \<lparr>wb_send = \<lambda>_. op_return \<lparr>rs_status = 200, rs_location = None, rs_body = Inr []\<rparr>, wb_account = \<lambda>_. Inr (account_of_config old_config),
        wb_api_error = \<lambda>_. Inl [], wb_json = \<lambda>_. Inl [], wb_account_of_json = \<lambda>_. Inl [], wb_base64 = \<lambda>_. [],
        wb_cf_time = \<lambda>w. ([], w), wb_read_line = op_fail []\<rparr>,
      ma_disk = \<lparr>dk_exists = \<lambda>_ _. False, dk_symlink_metadata = \<lambda>_. op_fail [], dk_metadata = \<lambda>_. op_fail [],
        dk_open = \<lambda>_. op_fail [], dk_handle_metadata = \<lambda>_. op_fail [], dk_take = \<lambda>_ _. op_fail [],
        dk_read_to_string = \<lambda>_. op_fail [], dk_geteuid = 0\<rparr>,
      ma_files = memory_files,
      ma_json = \<lparr>json_from_str = \<lambda>_. Inr (with_running_version old_config), json_pretty = \<lambda>_. Inr ''{}''\<rparr>,
      ma_keys = \<lparr>ek_random = \<lambda>w. ((), w), ek_sec1_der = \<lambda>_. Inr [], ek_spki_der = \<lambda>_. Inr []\<rparr>,
      ma_base64_decode = \<lambda>_. Inr [], ma_from_sec1 = \<lambda>_. Inr (),
      ma_access = \<lparr>ac_parse_url = \<lambda>_. Inl [], ac_to_str = \<lambda>_. Inl [], ac_build = Inr (), ac_send = \<lambda>_. op_fail []\<rparr>,
      ma_xml = \<lparr>xr_read_event = op_fail [], xr_read_text = \<lambda>_. op_fail [], xr_read_to_end = \<lambda>_. op_fail []\<rparr>,
      ma_xml_from_str = \<lambda>_. (),
      ma_codecs = \<lparr>tk_standard = \<lambda>_. Inl [], tk_standard_no_pad = \<lambda>_. Inl [], tk_url_safe = \<lambda>_. Inl [],
        tk_url_safe_no_pad = \<lambda>_. Inl [], tk_payload = \<lambda>_. Inl []\<rparr>\<rparr>"

lemma old_config_refreshed: "registration_refresh_required old_config"
proof -
  have parts: "split_on CHR ''.'' (trim ''0.0.1'') = [''0'', ''0'', ''1'']"
    "split_on CHR ''.'' (trim ''0.8.5'') = [''0'', ''8'', ''5'']"
    by code_simp+
  then have "release_version ''0.0.1'' = Some (0, 0, 1)" "release_version CLIENT_VERSION = Some (0, 8, 5)"
    by (simp_all add: release_version_def CLIENT_VERSION_def parse_uint_def to_digit_def u64_max_def)
  then show ?thesis
    by (simp add: registration_refresh_required_def old_config_def)
qed

corollary version_refresh_once_witness:
  "\<exists>w'. refresh_registration_after_version_change confirming_machine ''config.json'' old_config (\<lambda>_. None)
      = (with_running_version old_config, w')
    \<and> load memory_files (ma_json confirming_machine) ''config.json'' w' = Inr (with_running_version old_config)"
proof -
  let ?start = "\<lambda>_. None :: (string \<times> nat) option"
  obtain cfg' w' where run: "refresh_registration_after_version_change confirming_machine ''config.json'' old_config ?start = (cfg', w')"
    by fastforce
  have fields: "ma_files confirming_machine = memory_files"
    "json_pretty (ma_json confirming_machine) cfg = Inr ''{}''"
    "json_from_str (ma_json confirming_machine) raw = Inr (with_running_version old_config)" for cfg raw
    by (simp_all add: confirming_machine_def)
  have confirmed: "confirms confirming_machine old_config w w" for w
  proof -
    have "stored_public_key confirming_machine old_config = Inr []"
      by (simp add: confirming_machine_def stored_public_key_def get_ec_private_key_def)
    moreover have "cf_role old_config = RoleClient"
      by (simp add: old_config_def launch_config_def sample_config_def)
    then have "\<exists>identity. registration_refresh_identity old_config = Inr identity"
      by (simp add: registration_refresh_identity_def Let_def)
    moreover have "wb_send (ma_web confirming_machine) req w = (Inr \<lparr>rs_status = 200, rs_location = None, rs_body = Inr []\<rparr>, w)"
      "wb_account (ma_web confirming_machine) body = Inr (account_of_config old_config)" for req body
      by (simp_all add: confirming_machine_def op_return_def)
    ultimately show ?thesis
      unfolding confirms_def by fastforce
  qed
  have saves: "fst (save_sensitive memory_files (ma_json confirming_machine) path cfg w) = Inr ()" for path cfg w
    by (simp add: save_sensitive_def save_def op_bind_def memory_files_def confirming_machine_def)
  from version_refresh_once [OF _ _ run, unfolded fields, OF memory_file_laws refl] confirmed
  obtain w1 saved where "cfg' = with_running_version old_config"
    and saved: "save_sensitive memory_files (ma_json confirming_machine) ''config.json'' cfg' w1 = (saved, w')"
    and stored: "saved = Inr () \<Longrightarrow> load memory_files (ma_json confirming_machine) ''config.json'' w' = Inr cfg'"
    unfolding if_not_P [OF not_not [THEN iffD2, OF old_config_refreshed]] by (auto split: if_splits)
  moreover have "saved = Inr ()"
    using saves [of "''config.json''" cfg' w1] saved by simp
  ultimately show ?thesis
    using run by auto
qed

corollary started_tunnel_well_formed_witness:
  "well_formed_tunnel RoleClient (pp_config launch_prepared)"
  using started_tunnel_well_formed [of launch_machine sample_broken "\<lambda>_. Inr [1]" False "''config.json''" launch_args RoleClient
      None None w launch_prepared w] launch_prepare
  by (simp add: sample_broken_def sample_platform_def)

definition launch_world :: sample_world where
  "launch_world = \<lparr>sw_clock = 0, sw_wire = [], sw_blocked = 0, sw_inbox = []\<rparr>"

corollary invalid_arguments_touch_nothing_witness:
  "\<exists>e. run_tunnel launch_machine sample_broken (\<lambda>_. Inr [1]) False ''config.json'' (launch_args\<lparr>na_max_tun_mtu := 1279\<rparr>)
     RoleClient None None launch_world = Some (Inl e, launch_world)"
proof -
  have "load (ma_files launch_machine) (ma_json launch_machine) ''config.json'' launch_world = Inr launch_config"
    by (simp add: load_def launch_machine_def)
  moreover have "refused launch_config (launch_args\<lparr>na_max_tun_mtu := 1279\<rparr>) RoleClient None"
    by (simp add: refused_def launch_args_def)
  ultimately show ?thesis
    using invalid_arguments_touch_nothing by fast
qed

text \<open>The first round: no session without TLS material.\<close>

lemma launch_round:
  "\<exists>sv. supervise_once sample_broken (pp_config launch_prepared) 1500 (launched launch_prepared launch_world) = Some (Inr (), sv)"
proof -
  let ?mc = "pp_config launch_prepared" and ?sv = "launched launch_prepared launch_world"
  have reset: "reset_link sample_broken ?mc ?sv = Some (Inr (), ?sv)"
    by (simp add: reset_link_def sample_broken_def sample_platform_def launch_prepared_def masque_config_of_def Let_def
        path_mtu_of_def launch_args_def apply_path_mtu_def set_ipv6_enabled_def op_simps launched_def first_host_def
        launch_device_def lift_error_def)
  have wait: "wait_for_activity sample_broken ?mc ?sv = Some (Inr (), ?sv)"
    by (simp add: wait_for_activity_def launch_prepared_def masque_config_of_def Let_def maintain_edge_session_def
        launch_args_def)
  obtain endpoint where picked: "selected_endpoint ?mc ?sv = Some (Inr endpoint, ?sv)"
    by (simp add: selected_endpoint_def launch_prepared_def masque_config_of_def Let_def launch_endpoints_def
        launched_def index_at_def)
  have session: "supervise_session sample_broken ?mc 1500 endpoint ?sv = Some (Inr (), ?sv)"
    by (simp add: supervise_session_def run_tunnel_session_def run_bind_def on_world_def read_clock_def
        open_connection_def map_error_def prepare_tls_material_def run_lift_def lift_error_def sample_broken_def
        sample_platform_def sample_tls_def failing_net_def sample_net_def launched_def first_host_def)
  show ?thesis
    by (simp only: supervise_once_def run_bind_def reset wait picked session run_modify_def
        option.case sum.case prod.case) simp
qed

corollary launched_link_safe_witness:
  "\<exists>sv. rounds sample_broken (pp_config launch_prepared) 1500 (launched launch_prepared launch_world)
      [(launched launch_prepared launch_world, sv)] sv
    \<and> fst (dev (ho_tun (sv_host sv))) = 1280 \<and> snd (dev (ho_tun (sv_host sv))) = None"
proof -
  obtain sv where "supervise_once sample_broken (pp_config launch_prepared) 1500 (launched launch_prepared launch_world) = Some (Inr (), sv)"
    using launch_round by blast
  then have one: "rounds sample_broken (pp_config launch_prepared) 1500 (launched launch_prepared launch_world)
      [(launched launch_prepared launch_world, sv)] sv"
    using round [OF no_round] by fastforce
  have "packet_io_laws (pl_tun sample_broken) fst snd" "link_laws (pl_tun sample_broken) fst snd" "pl_tun sample_broken = sample_rs"
    using sample_pump_ready(5) link_laws_sample by (simp_all add: sample_broken_def sample_platform_def)
  moreover have "pp_tun_mtu launch_prepared = 1500" "\<not> na_no_iproute2 launch_args" "na_mtu launch_args = 1280"
    "\<not> na_disable_pmtud launch_args"
    by (simp_all add: launch_prepared_def launch_args_def)
  ultimately show ?thesis
    using one launched_link_safe [of launch_machine sample_broken "\<lambda>_. Inr [1]" False "''config.json''" launch_args RoleClient
        None None launch_world launch_prepared launch_world fst snd] launch_prepare
    by fastforce
qed

end
