(* ===== verification/Mdm_Spec.thy ===== *)
theory Mdm_Spec
  imports Mdm
begin

text \<open>
  What \<open>mdm.rs\<close> promises, without a parser: an MDM file is a list of keys with values, and its settings
  are the three required keys, each there once and with a string. The reader loop of the theory \<open>Mdm\<close>
  refines this.
\<close>

section \<open>The abstract file\<close>

datatype mdm_entry = StringValue (entry_key: string) string | OtherValue (entry_key: string)

definition occurrences :: "string \<Rightarrow> mdm_entry list \<Rightarrow> mdm_entry list" where
  "occurrences k es = filter (\<lambda>e. entry_key e = k) es"

definition accepted :: "mdm_entry list \<Rightarrow> service_token_enrollment \<Rightarrow> bool" where
  "accepted es e \<longleftrightarrow>
     occurrences ''organization'' es = [StringValue ''organization'' (ste_organization e)]
     \<and> occurrences ''auth_client_id'' es = [StringValue ''auth_client_id'' (ste_client_id e)]
     \<and> occurrences ''auth_client_secret'' es = [StringValue ''auth_client_secret'' (ste_client_secret e)]
     \<and> sound_settings e"

section \<open>The concrete file\<close>

text \<open>The reader is inside the \<open><dict>\<close> and shows these entries, with comments and white space between them.\<close>

definition blank :: "string \<Rightarrow> bool" where
  "blank text \<longleftrightarrow> list_all (\<lambda>c. c \<in> {CHR 0x09, CHR 0x0A, CHR 0x0C, CHR 0x0D, CHR 0x20}) text"

definition skipped :: "xml_event \<Rightarrow> bool" where
  "skipped event \<longleftrightarrow> event = Decl \<or> event = Comment \<or> (\<exists>text. event = Text text \<and> blank text)"

inductive at_end :: "'r xml_reader \<Rightarrow> 'r \<Rightarrow> bool" for xr where
  eof: "xr_read_event xr r = (Inr Eof, r1) \<Longrightarrow> at_end xr r"
| tail: "xr_read_event xr r = (Inr event, r1) \<Longrightarrow> skipped event \<Longrightarrow> at_end xr r1 \<Longrightarrow> at_end xr r"

inductive presents_key :: "'r xml_reader \<Rightarrow> 'r \<Rightarrow> string \<Rightarrow> 'r \<Rightarrow> bool" for xr where
  key: "xr_read_event xr r = (Inr (Start ''key''), r1) \<Longrightarrow> xr_read_text xr ''key'' r1 = (Inr k, r2)
    \<Longrightarrow> presents_key xr r (trim k) r2"

inductive presents :: "'r xml_reader \<Rightarrow> 'r \<Rightarrow> mdm_entry list \<Rightarrow> bool" for xr where
  dict_end: "xr_read_event xr r = (Inr (End ''dict''), r1) \<Longrightarrow> at_end xr r1 \<Longrightarrow> presents xr r []"
| skip: "xr_read_event xr r = (Inr event, r1) \<Longrightarrow> skipped event \<Longrightarrow> presents xr r1 es \<Longrightarrow> presents xr r es"
| string_value: "presents_key xr r k r2 \<Longrightarrow> xr_read_event xr r2 = (Inr (Start ''string''), r3)
    \<Longrightarrow> xr_read_text xr ''string'' r3 = (Inr v, r4) \<Longrightarrow> presents xr r4 es \<Longrightarrow> presents xr r (StringValue k v # es)"
| other_value: "presents_key xr r k r2 \<Longrightarrow> xr_read_event xr r2 = (Inr (Start tag), r3) \<Longrightarrow> tag \<noteq> ''string'' \<Longrightarrow> tag \<noteq> ''key''
    \<Longrightarrow> xr_read_to_end xr tag r3 = (Inr (), r4) \<Longrightarrow> presents xr r4 es \<Longrightarrow> presents xr r (OtherValue k # es)"
| empty_value: "presents_key xr r k r2 \<Longrightarrow> xr_read_event xr r2 = (Inr Empty, r3)
    \<Longrightarrow> presents xr r3 es \<Longrightarrow> presents xr r (OtherValue k # es)"

inductive document :: "'r xml_reader \<Rightarrow> 'r \<Rightarrow> mdm_entry list \<Rightarrow> bool" for xr where
  dict: "xr_read_event xr r = (Inr (Start ''dict''), r1) \<Longrightarrow> presents xr r1 es \<Longrightarrow> document xr r es"
| prolog: "xr_read_event xr r = (Inr event, r1) \<Longrightarrow> skipped event \<Longrightarrow> document xr r1 es \<Longrightarrow> document xr r es"

section \<open>The loop stores the entries\<close>

fun store_entries :: "mdm_entry list \<Rightarrow> mdm_state \<Rightarrow> mdm_error + mdm_state" where
  "store_entries [] st = Inr st"
| "store_entries (StringValue k v # es) st = and_then (store_value k v st) (store_entries es)"
| "store_entries (OtherValue k # es) st = (if is_required_key k then Inl (NotAString k) else store_entries es st)"

definition closed :: "mdm_state \<Rightarrow> mdm_state" where
  "closed st = st\<lparr>md_root_open := False, md_root_closed := True\<rparr>"

definition read_as :: "mdm_error + mdm_state \<Rightarrow> mdm_error + mdm_state" where
  "read_as res = and_then res (\<lambda>st. Inr (closed st))"

lemma read_as_simps [simp]: "read_as (Inl e) = Inl e" "read_as (Inr st) = Inr (closed st)"
  by (simp_all add: read_as_def)

definition inside :: "mdm_state \<Rightarrow> bool" where
  "inside st \<longleftrightarrow> md_root_open st \<and> \<not> md_root_closed st \<and> md_pending_key st = None"

lemma skipped_handled: "skipped event \<Longrightarrow> handle_event xr event st r = (Inr (Some st), r)"
  by (auto simp: skipped_def handle_event_def op_return_def blank_def)

lemma read_events_skip:
  "xr_read_event xr r = (Inr event, r1) \<Longrightarrow> skipped event \<Longrightarrow> read_events xr st r = read_events xr st r1"
  by (subst read_events.simps) (simp add: skipped_handled)

lemma read_events_step:
  "xr_read_event xr r = (Inr event, r1) \<Longrightarrow> handle_event xr event st r1 = (Inr (Some st'), r2)
    \<Longrightarrow> read_events xr st r = read_events xr st' r2"
  by (subst read_events.simps) simp

lemma read_events_fail:
  "xr_read_event xr r = (Inr event, r1) \<Longrightarrow> handle_event xr event st r1 = (Inl e, r2)
    \<Longrightarrow> read_events xr st r = Some (Inl e, r2)"
  by (subst read_events.simps) simp

lemma at_end_reads: "at_end xr r \<Longrightarrow> \<exists>r'. read_events xr st r = Some (Inr st, r')"
proof (induction rule: at_end.induct)
  case (eof r r1)
  then show ?case
    by (subst read_events.simps) (simp add: handle_event_eof)
next
  case (tail r event r1)
  then show ?case
    by (simp add: read_events_skip)
qed

lemma presents_key_reads:
  assumes "presents_key xr r k r2" "inside st"
  shows "read_events xr st r = read_events xr (st\<lparr>md_pending_key := Some k\<rparr>) r2"
  using assms(1)
proof cases
  case (key r1 k')
  have "handle_event xr (Start ''key'') st r1 = (Inr (Some (st\<lparr>md_pending_key := Some k\<rparr>)), r2)"
    using key assms(2) by (simp add: inside_def handle_event_def read_element_def op_simps)
  then show ?thesis
    by (rule read_events_step [OF key(2)])
qed

lemma inside_no_key: "inside st \<Longrightarrow> st\<lparr>md_pending_key := None\<rparr> = st"
  by (simp add: inside_def)

lemma store_value_pending: "inside st \<Longrightarrow> store_value k v (st\<lparr>md_pending_key := None\<rparr>) = store_value k v st"
  by (simp only: inside_no_key)

lemma store_value_inside: "store_value k v st = Inr st' \<Longrightarrow> inside st \<Longrightarrow> inside st'"
  by (auto simp: store_value_def inside_def and_then_eq_Inr split: if_splits)

text \<open>One entry of the dictionary: its key is pending, then its value arrives.\<close>

lemma string_value_reads:
  assumes key: "presents_key xr r k r2" and got: "xr_read_event xr r2 = (Inr (Start ''string''), r3)"
      "xr_read_text xr ''string'' r3 = (Inr v, r4)"
    and st: "inside st"
  shows "case store_value k v st of
      Inl e \<Rightarrow> read_events xr st r = Some (Inl e, r4) | Inr st' \<Rightarrow> read_events xr st r = read_events xr st' r4"
proof -
  have "handle_event xr (Start ''string'') (st\<lparr>md_pending_key := Some k\<rparr>) r3 =
      (case store_value k v st of Inl e \<Rightarrow> (Inl e, r4) | Inr st' \<Rightarrow> (Inr (Some st'), r4))"
    using st got(2) store_value_pending [OF st]
    by (simp add: inside_def handle_event_def read_element_def op_simps split: sum.split)
  then show ?thesis
    unfolding presents_key_reads [OF key st] using read_events_fail [OF got(1)] read_events_step [OF got(1)]
    by (simp split: sum.splits)
qed

lemma other_value_reads:
  assumes key: "presents_key xr r k r2" and got: "xr_read_event xr r2 = (Inr event, r3)"
      "handle_event xr event (st\<lparr>md_pending_key := Some k\<rparr>) r3 =
         (if is_required_key k then (Inl (NotAString k), r4) else (Inr (Some st), r4))"
    and st: "inside st"
  shows "if is_required_key k then read_events xr st r = Some (Inl (NotAString k), r4)
    else read_events xr st r = read_events xr st r4"
  unfolding presents_key_reads [OF key st] using got(2) read_events_fail [OF got(1)] read_events_step [OF got(1)]
  by (simp split: if_splits)

lemma presents_reads:
  assumes "presents xr r es" "inside st"
  shows "\<exists>r'. read_events xr st r = Some (read_as (store_entries es st), r')"
  using assms
proof (induction arbitrary: st rule: presents.induct)
  case (dict_end r r1)
  have "handle_event xr (End ''dict'') st r1 = (Inr (Some (closed st)), r1)"
    using dict_end.prems by (simp add: inside_def handle_event_def op_simps closed_def)
  then show ?case
    using read_events_step [OF dict_end.hyps(1)] at_end_reads [OF dict_end.hyps(2)] by simp
next
  case (skip r event r1 es)
  then show ?case
    by (simp add: read_events_skip)
next
  case (string_value r k r2 r3 v r4 es)
  then show ?case
    using string_value_reads [OF string_value.hyps(1-3) string_value.prems] store_value_inside
    by (cases "store_value k v st") simp_all
next
  case (other_value r k r2 tag r3 r4 es)
  have "handle_event xr (Start tag) (st\<lparr>md_pending_key := Some k\<rparr>) r3 =
      (if is_required_key k then (Inl (NotAString k), r4) else (Inr (Some st), r4))"
    using other_value.prems other_value.hyps(3-5) inside_no_key [OF other_value.prems]
    by (simp add: inside_def handle_event_def read_element_def op_simps)
  from other_value_reads [OF other_value.hyps(1,2) this other_value.prems] show ?case
    using other_value.IH [OF other_value.prems] by (simp split: if_splits)
next
  case (empty_value r k r2 r3 es)
  have "handle_event xr Empty (st\<lparr>md_pending_key := Some k\<rparr>) r3 =
      (if is_required_key k then (Inl (NotAString k), r3) else (Inr (Some st), r3))"
    using empty_value.prems inside_no_key [OF empty_value.prems] by (simp add: inside_def handle_event_def op_simps)
  from other_value_reads [OF empty_value.hyps(1,2) this empty_value.prems] show ?case
    using empty_value.IH [OF empty_value.prems] by (simp split: if_splits)
qed

lemma document_reads:
  assumes "document xr r es"
  shows "\<exists>r'. read_events xr start_mdm r =
    Some (read_as (store_entries es (start_mdm\<lparr>md_root_open := True\<rparr>)), r')"
  using assms
proof (induction rule: document.induct)
  case (dict r r1 es)
  let ?st = "start_mdm\<lparr>md_root_open := True\<rparr>"
  have "handle_event xr (Start ''dict'') start_mdm r1 = (Inr (Some ?st), r1)"
    by (simp add: handle_event_def start_mdm_def op_simps)
  moreover have "inside ?st"
    by (simp add: inside_def start_mdm_def)
  ultimately show ?case
    using read_events_step [OF dict.hyps(1), of start_mdm ?st r1] presents_reads [OF dict.hyps(2), of ?st] by simp
next
  case (prolog r event r1 es)
  then show ?case
    by (simp add: read_events_skip)
qed

section \<open>What is stored\<close>

text \<open>Over the entries, the slot of one required key goes from \<open>s\<close> to \<open>s'\<close>.\<close>

definition fills :: "string \<Rightarrow> mdm_entry list \<Rightarrow> string option \<Rightarrow> string option \<Rightarrow> bool" where
  "fills k es s s' \<longleftrightarrow>
     occurrences k es = [] \<and> s' = s
     \<or> s = None \<and> s' \<noteq> None \<and> occurrences k es = [StringValue k (the s')]"

lemma fills_simps [simp]:
  "fills k [] s s' \<longleftrightarrow> s' = s"
  "fills k (StringValue k' v # es) s s' \<longleftrightarrow>
     (if k' = k then s = None \<and> fills k es (Some v) s' else fills k es s s')"
  "fills k (OtherValue k' # es) s s' \<longleftrightarrow> k' \<noteq> k \<and> fills k es s s'"
  by (auto simp: fills_def occurrences_def)

definition stored :: "mdm_entry list \<Rightarrow> mdm_state \<Rightarrow> mdm_state \<Rightarrow> bool" where
  "stored es st st' \<longleftrightarrow>
     fills ''organization'' es (md_organization st) (md_organization st')
     \<and> fills ''auth_client_id'' es (md_client_id st) (md_client_id st')
     \<and> fills ''auth_client_secret'' es (md_client_secret st) (md_client_secret st')
     \<and> md_root_open st' = md_root_open st \<and> md_root_closed st' = md_root_closed st
     \<and> md_pending_key st' = md_pending_key st"

lemma store_entries_stored: "store_entries es st = Inr st' \<longleftrightarrow> stored es st st'"
proof (induction es arbitrary: st)
  case Nil
  then show ?case
    by (auto simp: stored_def)
next
  case (Cons e es)
  show ?case
  proof (cases e)
    case (StringValue k v)
    then show ?thesis
      by (auto simp: Cons store_value_def set_once_def and_then_eq_Inr stored_def)
  next
    case (OtherValue k)
    then show ?thesis
      by (auto simp: Cons is_required_key_def stored_def)
  qed
qed

section \<open>What is accepted\<close>

lemma trim_with_keeps_last:
  assumes "s \<noteq> []" "graphic (last s)" "\<forall>w \<in> set ws. w \<noteq> [] \<and> \<not> graphic (last w)"
  shows "trim_with ws s \<noteq> [] \<and> last (trim_with ws s) = last s"
  using assms
proof (induction ws s rule: trim_with.induct)
  case (1 ws s)
  show ?case
  proof (cases "strip_any ws s")
    case None
    with 1(2) show ?thesis
      by (simp add: trim_with.simps)
  next
    case (Some r)
    then obtain w where "w \<in> set ws" "s = w @ r"
      using strip_any_Some by blast
    with 1(3,4) have "r \<noteq> []"
      by auto
    with 1 Some \<open>s = w @ r\<close> show ?thesis
      by (subst (1 2) trim_with.simps) auto
  qed
qed

lemma trim_not_blank:
  assumes "s \<noteq> []" "graphic (last s)"
  shows "trim s \<noteq> []"
proof -
  have "\<forall>w \<in> set white_space. w \<noteq> [] \<and> \<not> graphic (last w)"
    using white_space_not_graphic white_space_nonempty by (metis hd_rev)
  from trim_with_keeps_last [OF assms this]
  have start: "trim_start s \<noteq> []" "graphic (last (trim_start s))"
    using assms(2) by (simp_all add: trim_start_def)
  have "trim_with (map rev white_space) (rev (trim_start s)) = rev (trim_start s)"
    using start white_space_not_graphic white_space_nonempty
    by (intro trim_with_graphic) (auto simp: hd_rev)
  with start show ?thesis
    by (simp add: trim_def trim_end_def)
qed

lemma alphanumeric_graphic: "is_ascii_alphanumeric c \<Longrightarrow> graphic c"
  by (auto simp: is_ascii_alphanumeric_def graphic_def Let_def)

lemma finish_mdm_accepts:
  assumes "sound_settings e" "\<not> md_root_open st" "md_root_closed st" "md_organization st = Some (ste_organization e)"
    "md_client_id st = Some (ste_client_id e)" "md_client_secret st = Some (ste_client_secret e)"
  shows "finish_mdm st = Inr e"
proof -
  obtain p where id: "ste_client_id e = p @ ''.access''"
    using assms(1) by (auto simp: sound_settings_def ends_with_def strip_suffix_Some)
  have "dns_label (ste_organization e)"
    using assms(1) by (simp add: sound_settings_def)
  then have label: "ste_organization e \<noteq> []" "graphic (last (ste_organization e))"
    by (auto simp: dns_label_def list_all_iff intro!: alphanumeric_graphic)
  have "trim (ste_organization e) \<noteq> []" "trim (ste_client_id e) \<noteq> []"
    using trim_not_blank [OF label] trim_not_blank [of "ste_client_id e"] id by (auto simp: graphic_def)
  moreover have "validate_organization (ste_organization e) = Inr ()"
    using assms(1) label(1)
    by (auto simp: sound_settings_def dns_label_def validate_organization_def starts_with_char ends_with_char)
  ultimately show ?thesis
    using assms
    by (simp add: finish_mdm_def required_def validate_line_def sound_settings_def)
qed

section \<open>Property\<close>

text \<open>
  C10. Reading an MDM file refines its abstract reading. Of a document that is a \<open>dict\<close> of keys and
  values, with comments and white space between them, the settings are accepted exactly when each of
  the three required keys is there once, with a string, whatever other keys and values there are and
  in whatever order, and the strings are sound; every other document of this form is refused. Input of
  another form is not what this is about.
\<close>

theorem mdm_refines_dictionary:
  assumes "document xr r es"
  shows "\<exists>res. from_mdm_xml xr r = Some res \<and> (\<forall>e. res = Inr e \<longleftrightarrow> accepted es e)"
proof -
  let ?st = "start_mdm\<lparr>md_root_open := True\<rparr>"
  let ?res = "and_then (read_as (store_entries es ?st)) finish_mdm"
  have "?res = Inr e \<longleftrightarrow> accepted es e" for e
  proof -
    have "?res = Inr e \<longleftrightarrow> (\<exists>st. stored es ?st st \<and> finish_mdm (closed st) = Inr e)"
      by (auto simp: read_as_def and_then_eq_Inr store_entries_stored)
    also have "\<dots> \<longleftrightarrow> accepted es e"
    proof
      assume "\<exists>st. stored es ?st st \<and> finish_mdm (closed st) = Inr e"
      then obtain st where "stored es ?st st" and fin: "finish_mdm (closed st) = Inr e"
        by blast
      with finish_mdm_ok [OF fin] show "accepted es e"
        by (auto simp: accepted_def stored_def fills_def closed_def start_mdm_def)
    next
      assume acc: "accepted es e"
      let ?to = "?st\<lparr>md_organization := Some (ste_organization e), md_client_id := Some (ste_client_id e),
        md_client_secret := Some (ste_client_secret e)\<rparr>"
      have "stored es ?st ?to"
        using acc by (simp add: accepted_def stored_def fills_def start_mdm_def)
      moreover have "finish_mdm (closed ?to) = Inr e"
        using acc by (intro finish_mdm_accepts) (simp_all add: accepted_def closed_def)
      ultimately show "\<exists>st. stored es ?st st \<and> finish_mdm (closed st) = Inr e"
        by blast
    qed
    finally show ?thesis .
  qed
  moreover have "from_mdm_xml xr r = Some ?res"
    using document_reads [OF assms] by (auto simp: from_mdm_xml_def)
  ultimately show ?thesis
    by blast
qed

lemma sample_document:
  "document sample_reader sample_mdm
     [StringValue ''organization'' ''example'', StringValue ''auth_client_id'' ''id.access'',
      StringValue ''auth_client_secret'' ''secret'']"
proof -
  have trims: "trim ''organization'' = ''organization''" "trim ''auth_client_id'' = ''auth_client_id''"
    "trim ''auth_client_secret'' = ''auth_client_secret''"
    by (rule trim_graphic; simp add: graphic_def)+
  have key: "presents_key sample_reader (Start ''key'' # Text k # r) (trim k) r" for k r
    by (rule key, simp add: sample_reader_def, simp add: sample_reader_def)
  have entry: "presents sample_reader (Start ''key'' # Text k # Start ''string'' # Text v # r) (StringValue (trim k) v # es)"
    if "presents sample_reader r es" for k v r es
    by (rule string_value [OF key _ _ that], simp add: sample_reader_def, simp add: sample_reader_def)
  have "presents sample_reader [End ''dict''] []"
    by (rule dict_end, simp_all add: sample_reader_def, rule eof) simp
  from entry [OF entry [OF entry [OF this]], of "''organization''" _ "''auth_client_id''" _ "''auth_client_secret''"]
  show ?thesis
    unfolding sample_mdm_def by (intro dict, simp add: sample_reader_def, simp add: trims)
qed

corollary mdm_refines_dictionary_witness:
  "\<exists>e. from_mdm_xml sample_reader sample_mdm = Some (Inr e) \<and> ste_organization e = ''example''"
proof -
  let ?e = "\<lparr>ste_organization = ''example'', ste_client_id = ''id.access'', ste_client_secret = ''secret''\<rparr>"
  let ?es = "[StringValue ''organization'' ''example'', StringValue ''auth_client_id'' ''id.access'',
    StringValue ''auth_client_secret'' ''secret'']"
  have "sound_settings ?e"
    using from_mdm_xml_ok [OF sample_mdm_read] .
  then have "accepted ?es ?e"
    by (simp add: accepted_def occurrences_def)
  then show ?thesis
    using mdm_refines_dictionary [OF sample_document] by auto
qed

end
