(* ===== verification/Ifaddrs.thy ===== *)
theory Ifaddrs
  imports Telemetry Runs
begin

text \<open>
  The pointers of \<open>api/freebsd_telemetry.rs\<close>: \<open>InterfaceAddresses\<close> owns the linked list that
  \<open>getifaddrs\<close> allocates, \<open>InterfaceIterator\<close> walks it through raw pointers, and dropping the owner
  frees it. \<^term>\<open>None\<close> is a read through a dangling pointer or a walk without an end. The theorem
  relates the walks to the lists of \<open>Telemetry\<close>.
\<close>

section \<open>Memory\<close>

text \<open>A null pointer is \<^term>\<open>None\<close>.\<close>

type_synonym pointer = "nat option"

record if_node =
  nd_entry :: if_entry
  ifa_next :: pointer

type_synonym memory = "nat \<Rightarrow> if_node option"

text \<open>
  \<open>getifaddrs\<close> fails, or hands over the head of a list; \<open>freeifaddrs\<close> takes it back. \<open>ia_memory\<close> is what
  can be read at an address in a state.
\<close>

record 'w ifaddrs_os =
  ia_getifaddrs :: "('w, unit, pointer) op"
  ia_freeifaddrs :: "pointer \<Rightarrow> 'w \<Rightarrow> 'w"
  ia_memory :: "'w \<Rightarrow> memory"

section \<open>The iterator\<close>

text \<open>\<open>InterfaceIterator::next\<close>: the entry, and the moved cursor.\<close>

definition iterator_next :: "memory \<Rightarrow> pointer \<Rightarrow> (if_entry option \<times> pointer) option" where
  "iterator_next mem current =
     (case current of
        None \<Rightarrow> Some (None, None)
      | Some p \<Rightarrow> map_option (\<lambda>node. (Some (nd_entry node), ifa_next node)) (mem p))"

partial_function (option) find_map_entries ::
    "memory \<Rightarrow> (if_entry \<Rightarrow> 'a option) \<Rightarrow> pointer \<Rightarrow> 'a option option" where
  "find_map_entries mem f current =
     (case iterator_next mem current of
        None \<Rightarrow> None
      | Some (None, _) \<Rightarrow> Some None
      | Some (Some e, current') \<Rightarrow> (case f e of Some y \<Rightarrow> Some (Some y) | None \<Rightarrow> find_map_entries mem f current'))"

partial_function (option) fold_entries :: "memory \<Rightarrow> (if_entry \<Rightarrow> 'a \<Rightarrow> 'a) \<Rightarrow> pointer \<Rightarrow> 'a \<Rightarrow> 'a option" where
  "fold_entries mem g current acc =
     (case iterator_next mem current of
        None \<Rightarrow> None
      | Some (None, _) \<Rightarrow> Some acc
      | Some (Some e, current') \<Rightarrow> fold_entries mem g current' (g e acc))"

definition interface_for_ip_at :: "memory \<Rightarrow> pointer \<Rightarrow> ip_addr \<Rightarrow> string option option" where
  "interface_for_ip_at mem head target = find_map_entries mem (named_by_ip target) head"

definition counters_at :: "memory \<Rightarrow> pointer \<Rightarrow> string \<Rightarrow> (u64 \<times> u64 \<times> u8) option option" where
  "counters_at mem head target_name = find_map_entries mem (link_counters target_name) head"

definition ip_addresses_at :: "memory \<Rightarrow> pointer \<Rightarrow> string \<Rightarrow> ip_pair option" where
  "ip_addresses_at mem head target_name = fold_entries mem (note_address target_name) head (None, None)"

section \<open>Sampling an interface\<close>

definition walking :: "'w ifaddrs_os \<Rightarrow> (memory \<Rightarrow> 'a option) \<Rightarrow> ('w collector, unit, 'a) run" where
  "walking ia walk hc = map_option (\<lambda>x. (Inr x, hc)) (walk (ia_memory ia (hc_os hc)))"

text \<open>\<open>?\<close> on an \<open>Option\<close>\<close>

definition present :: "'a option \<Rightarrow> ('s, unit, 'a) run" where
  "present x = run_lift (ok_or () x)"

definition read_interface ::
    "'w ifaddrs_os \<Rightarrow> 'w host_os \<Rightarrow> pointer \<Rightarrow> ip_addr \<Rightarrow> ('w collector, unit, interface_snapshot) run" where
  "read_interface ia os head active_ip =
     run_bind (walking ia (\<lambda>mem. interface_for_ip_at mem head active_ip)) (\<lambda>found.
     run_bind (present found) (\<lambda>name.
     run_bind (walking ia (\<lambda>mem. counters_at mem head name)) (\<lambda>counted.
     run_bind (present counted) (\<lambda>(received, sent, interface_type).
     run_bind (\<lambda>hc. Some (on_os (tell (os_now os)) hc)) (\<lambda>now.
     run_bind (run_get hc_previous_interface) (\<lambda>previous.
     (let c = \<lparr>ic_name = name, ic_received = received, ic_sent = sent, ic_sampled_at = now\<rparr> in
      run_bind (run_modify (hc_previous_interface_update (\<lambda>_. Some c))) (\<lambda>_.
      run_bind (walking ia (\<lambda>mem. ip_addresses_at mem head name)) (\<lambda>addresses.
        run_return (interface_snapshot_of addresses previous c interface_type))))))))))"

text \<open>The list is dropped on every way out.\<close>

definition drop_interfaces :: "'w ifaddrs_os \<Rightarrow> pointer \<Rightarrow> 'w collector \<Rightarrow> 'w collector" where
  "drop_interfaces ia head hc = hc\<lparr>hc_os := ia_freeifaddrs ia head (hc_os hc)\<rparr>"

definition sample_interface_at ::
    "'w ifaddrs_os \<Rightarrow> 'w host_os \<Rightarrow> ip_addr \<Rightarrow> ('w collector, unit, interface_snapshot) run" where
  "sample_interface_at ia os active_ip =
     run_bind (\<lambda>hc. Some (on_os (ia_getifaddrs ia) hc)) (\<lambda>head hc.
       map_option (\<lambda>(r, hc'). (r, drop_interfaces ia head hc')) (read_interface ia os head active_ip hc))"

definition host_sample_at ::
    "'w ifaddrs_os \<Rightarrow> 'w host_os \<Rightarrow> ip_addr option \<Rightarrow> 'w collector \<Rightarrow> (host_snapshot \<times> 'w collector) option" where
  "host_sample_at ia os active_ip hc =
     (case attempt (on_os (memory_sample os)) hc of (memory, hc1) \<Rightarrow>
      case (case active_ip of None \<Rightarrow> Some (None, hc1)
            | Some addr \<Rightarrow> map_option (\<lambda>(r, hc'). (case r of Inl _ \<Rightarrow> None | Inr x \<Rightarrow> Some x, hc'))
                (sample_interface_at ia os addr hc1)) of
        None \<Rightarrow> None
      | Some (interface, hc2) \<Rightarrow>
          (case attempt (sample_cpu os) hc2 of (cpu, hc3) \<Rightarrow>
           case attempt (on_os (disk_usage_sample os)) hc3 of (disk, hc4) \<Rightarrow>
             Some (\<lparr>hs_interface = interface, hs_cpu_pct = cpu, hs_ram_used_pct = map_option fst memory,
               hs_ram_available_kb = map_option snd memory, hs_disk_usage_pct = disk\<rparr>, hc4)))"

section \<open>The list in memory\<close>

primrec list_at :: "memory \<Rightarrow> pointer \<Rightarrow> if_entry list \<Rightarrow> bool" where
  "list_at mem head [] \<longleftrightarrow> head = None"
| "list_at mem head (e # es) \<longleftrightarrow>
     (\<exists>p node. head = Some p \<and> mem p = Some node \<and> nd_entry node = e \<and> list_at mem (ifa_next node) es)"

lemma iterator_next_list:
  "list_at mem head [] \<Longrightarrow> iterator_next mem head = Some (None, None)"
  "list_at mem head (e # es) \<Longrightarrow> \<exists>head'. iterator_next mem head = Some (Some e, head') \<and> list_at mem head' es"
  by (auto simp: iterator_next_def)

lemma find_map_entries_list: "list_at mem head es \<Longrightarrow> find_map_entries mem f head = Some (find_map f es)"
proof (induction es arbitrary: head)
  case Nil
  then show ?case
    using iterator_next_list(1) [of mem head] by (subst find_map_entries.simps) simp
next
  case (Cons e es)
  obtain head' where "iterator_next mem head = Some (Some e, head')" "list_at mem head' es"
    using iterator_next_list(2) [OF Cons.prems] by blast
  then show ?case
    using Cons.IH by (subst find_map_entries.simps) (simp split: option.split)
qed

lemma fold_entries_list: "list_at mem head es \<Longrightarrow> fold_entries mem g head acc = Some (fold g es acc)"
proof (induction es arbitrary: head acc)
  case Nil
  then show ?case
    using iterator_next_list(1) [of mem head] by (subst fold_entries.simps) simp
next
  case (Cons e es)
  obtain head' where "iterator_next mem head = Some (Some e, head')" "list_at mem head' es"
    using iterator_next_list(2) [OF Cons.prems] by blast
  then show ?case
    using Cons.IH by (subst fold_entries.simps) simp
qed

text \<open>A list in memory has one reading, so a cyclic one has none.\<close>

lemma list_at_unique: "list_at mem head es \<Longrightarrow> list_at mem head es' \<Longrightarrow> es = es'"
proof (induction es arbitrary: head es')
  case Nil
  then show ?case
    by (cases es') auto
next
  case (Cons e es)
  then show ?case
    by (cases es') auto
qed

lemma walks_of_list:
  assumes "list_at mem head es"
  shows "interface_for_ip_at mem head target = Some (interface_for_ip es target)"
    "counters_at mem head name = Some (counters es name)"
    "ip_addresses_at mem head name = Some (ip_addresses es name)"
  using find_map_entries_list [OF assms] fold_entries_list [OF assms]
  by (simp_all add: interface_for_ip_at_def counters_at_def ip_addresses_at_def interface_for_ip_def counters_def
      ip_addresses_def)

section \<open>The system with lists\<close>

text \<open>
  The calls of \<open>Telemetry\<close>: the entries are copied out of the list, and it is freed at once.
\<close>

definition listed :: "'w ifaddrs_os \<Rightarrow> 'w host_os \<Rightarrow> 'w host_os" where
  "listed ia os = os\<lparr>os_getifaddrs := \<lambda>w.
     (case ia_getifaddrs ia w of
        (Inl e, w') \<Rightarrow> (Inl e, w')
      | (Inr head, w') \<Rightarrow>
          (Inr (unwrap_or (fold_entries (ia_memory ia w') (\<lambda>e es. es @ [e]) head []) []), ia_freeifaddrs ia head w'))\<rparr>"

text \<open>
  What the code relies on: \<open>getifaddrs\<close> hands over a list, \<open>outstanding\<close> counts the lists not yet
  freed, and the clock and the allocator do not touch each other.
\<close>

definition ifaddrs_laws :: "'w ifaddrs_os \<Rightarrow> 'w host_os \<Rightarrow> ('w \<Rightarrow> nat) \<Rightarrow> bool" where
  "ifaddrs_laws ia os outstanding \<longleftrightarrow>
     (\<forall>w head w'. ia_getifaddrs ia w = (Inr head, w') \<longrightarrow>
        (\<exists>es. list_at (ia_memory ia w') head es) \<and> outstanding w' = Suc (outstanding w))
     \<and> (\<forall>w u w'. ia_getifaddrs ia w = (Inl u, w') \<longrightarrow> outstanding w' = outstanding w)
     \<and> (\<forall>head w. outstanding (ia_freeifaddrs ia head w) = outstanding w - 1)
     \<and> (\<forall>w t w'. os_now os w = (t, w') \<longrightarrow> ia_memory ia w' = ia_memory ia w \<and> outstanding w' = outstanding w
          \<and> (\<forall>head. os_now os (ia_freeifaddrs ia head w) = (t, ia_freeifaddrs ia head w')))"

lemma ifaddrs_lawsD:
  assumes "ifaddrs_laws ia os outstanding"
  shows "ia_getifaddrs ia w = (Inr head, w') \<Longrightarrow> \<exists>es. list_at (ia_memory ia w') head es"
    "ia_getifaddrs ia w = (Inr head, w') \<Longrightarrow> outstanding w' = Suc (outstanding w)"
    "ia_getifaddrs ia w = (Inl u, w') \<Longrightarrow> outstanding w' = outstanding w"
    "outstanding (ia_freeifaddrs ia head w) = outstanding w - 1"
    "os_now os w = (t, w') \<Longrightarrow> ia_memory ia w' = ia_memory ia w \<and> outstanding w' = outstanding w"
    "os_now os w = (t, w') \<Longrightarrow> os_now os (ia_freeifaddrs ia head w) = (t, ia_freeifaddrs ia head w')"
  using assms unfolding ifaddrs_laws_def by blast+


lemma fold_entries_copy: "list_at mem head es \<Longrightarrow> fold_entries mem (\<lambda>e es. es @ [e]) head acc = Some (acc @ es)"
proof -
  have "fold (\<lambda>e es. es @ [e]) es acc = acc @ es"
    by (induction es arbitrary: acc) simp_all
  then show "list_at mem head es \<Longrightarrow> ?thesis"
    by (simp add: fold_entries_list)
qed

lemma listed_simps:
  "os_now (listed ia os) = os_now os" "os_sysctl_size (listed ia os) = os_sysctl_size os"
  "os_sysctl (listed ia os) = os_sysctl os" "os_statvfs_root (listed ia os) = os_statvfs_root os"
  by (simp_all add: listed_def)

lemma sysctl_listed: "sysctl_unsigned_array (listed ia os) = sysctl_unsigned_array os"
  by (simp add: sysctl_unsigned_array_def listed_simps fun_eq_iff cong: if_cong)

lemma sum_sysctl_listed: "sum_sysctl (listed ia os) names = sum_sysctl os names"
  by (induction names) (simp_all add: sysctl_unsigned_def sysctl_listed)

lemma samples_listed:
  "memory_sample (listed ia os) = memory_sample os" "disk_usage_sample (listed ia os) = disk_usage_sample os"
  "sample_cpu (listed ia os) = sample_cpu os"
  by (simp_all add: memory_sample_def disk_usage_sample_def sample_cpu_def sysctl_unsigned_def sysctl_listed
      sum_sysctl_listed listed_simps)

section \<open>The walks sample what the lists do\<close>

text \<open>The interface that is read off a list, given the time.\<close>

definition picked :: "if_entry list \<Rightarrow> ip_addr \<Rightarrow> instant \<Rightarrow> (interface_counters \<times> u8) option" where
  "picked es active_ip now =
     (case interface_for_ip es active_ip of
        None \<Rightarrow> None
      | Some name \<Rightarrow> map_option (\<lambda>(received, sent, interface_type).
          (\<lparr>ic_name = name, ic_received = received, ic_sent = sent, ic_sampled_at = now\<rparr>, interface_type)) (counters es name))"

lemma read_interface_list:
  assumes laws: "ifaddrs_laws ia os outstanding" and es: "list_at (ia_memory ia (hc_os hc)) head es"
    and now: "os_now os (hc_os hc) = (t, w')"
  shows "read_interface ia os head active_ip hc =
    Some (case picked es active_ip t of
        None \<Rightarrow> (Inl (), hc)
      | Some (c, interface_type) \<Rightarrow>
          (Inr (interface_snapshot_of (ip_addresses es (ic_name c)) (hc_previous_interface hc) c interface_type),
           hc\<lparr>hc_os := w', hc_previous_interface := Some c\<rparr>))"
  using walks_of_list [OF es] now ifaddrs_lawsD(5) [OF laws now]
  by (simp add: read_interface_def picked_def walking_def present_def run_bind_def run_simps ok_or_def on_os_def tell_def
      Let_def split: option.split prod.split)

lemma sample_interface_list:
  assumes laws: "ifaddrs_laws ia os outstanding" and got: "ia_getifaddrs ia (hc_os hc) = (Inr head, w)"
    and es: "list_at (ia_memory ia w) head es" and now: "os_now os w = (t, w')"
  shows "sample_interface (listed ia os) active_ip hc =
    (case picked es active_ip t of
        None \<Rightarrow> (Inl (), hc\<lparr>hc_os := ia_freeifaddrs ia head w\<rparr>)
      | Some (c, interface_type) \<Rightarrow>
          (Inr (interface_snapshot_of (ip_addresses es (ic_name c)) (hc_previous_interface hc) c interface_type),
           hc\<lparr>hc_os := ia_freeifaddrs ia head w', hc_previous_interface := Some c\<rparr>))"
proof -
  have "os_getifaddrs (listed ia os) (hc_os hc) = (Inr es, ia_freeifaddrs ia head w)"
    using got fold_entries_copy [OF es] by (simp add: listed_def)
  moreover have "os_now (listed ia os) (ia_freeifaddrs ia head w) = (t, ia_freeifaddrs ia head w')"
    using ifaddrs_lawsD(6) [OF laws now] by (simp add: listed_simps)
  ultimately show ?thesis
    by (simp add: sample_interface_def picked_def op_simps op_lift_def ok_or_def on_os_def tell_def Let_def
        split: option.split prod.split)
qed

lemma sample_interface_at_listed:
  assumes laws: "ifaddrs_laws ia os outstanding"
  shows "sample_interface_at ia os active_ip hc = Some (sample_interface (listed ia os) active_ip hc)"
    "outstanding (hc_os (snd (sample_interface (listed ia os) active_ip hc))) = outstanding (hc_os hc)"
proof -
  obtain r w where got: "ia_getifaddrs ia (hc_os hc) = (r, w)"
    by fastforce
  have "sample_interface_at ia os active_ip hc = Some (sample_interface (listed ia os) active_ip hc)
    \<and> outstanding (hc_os (snd (sample_interface (listed ia os) active_ip hc))) = outstanding (hc_os hc)"
  proof (cases r)
    case (Inl u)
    then show ?thesis
      using got ifaddrs_lawsD(3) [OF laws, of "hc_os hc" u w]
      by (simp add: sample_interface_at_def sample_interface_def run_bind_def on_os_def op_simps listed_def)
  next
    case (Inr head)
    obtain es where es: "list_at (ia_memory ia w) head es"
      using ifaddrs_lawsD(1) [OF laws] got Inr by blast
    obtain t w' where now: "os_now os w = (t, w')"
      by fastforce
    have "outstanding w = Suc (outstanding (hc_os hc))" "outstanding w' = outstanding w"
      using ifaddrs_lawsD(2,5) [OF laws] got Inr now by blast+
    then show ?thesis
      using got Inr read_interface_list [OF laws, of "hc\<lparr>hc_os := w\<rparr>" head es t w' active_ip] es now
        ifaddrs_lawsD(4) [OF laws]
      unfolding sample_interface_list [OF laws got [unfolded Inr] es now]
      by (simp add: sample_interface_at_def run_bind_def on_os_def drop_interfaces_def split: option.split prod.split)
  qed
  then show "sample_interface_at ia os active_ip hc = Some (sample_interface (listed ia os) active_ip hc)"
    "outstanding (hc_os (snd (sample_interface (listed ia os) active_ip hc))) = outstanding (hc_os hc)"
    by blast+
qed

section \<open>Properties\<close>

text \<open>
  C9. Walking the linked list of \<open>getifaddrs\<close> through raw pointers samples exactly what the lists of the
  abstract model do: every walk ends, no pointer dangles, the counters, the addresses and the state
  agree, and the list is freed once on every way out.
\<close>

theorem pointer_sampling_refines_lists:
  assumes "ifaddrs_laws ia os outstanding"
  shows "host_sample_at ia os active_ip hc = Some (host_sample (listed ia os) active_ip hc)
    \<and> sample_interface_at ia os addr hc = Some (sample_interface (listed ia os) addr hc)
    \<and> outstanding (hc_os (snd (sample_interface (listed ia os) addr hc))) = outstanding (hc_os hc)"
proof -
  have "host_sample_at ia os active_ip hc = Some (host_sample (listed ia os) active_ip hc)"
    using sample_interface_at_listed(1) [OF assms]
    by (cases active_ip) (auto simp: host_sample_at_def host_sample_def samples_listed attempt_def
        split: prod.split sum.split)
  then show ?thesis
    using sample_interface_at_listed [OF assms] by blast
qed

text \<open>
  A system whose state counts the lists: two entries of one interface, at the addresses 8 and 16.
\<close>

definition sample_entries :: "if_entry list" where
  "sample_entries =
     [\<lparr>ifa_name = Some ''vtnet0'', ifa_addr = Some AfLink, ifa_netmask = None,
       ifa_data = Some \<lparr>ifi_ibytes = 100, ifi_obytes = 50, ifi_type = 6\<rparr>\<rparr>,
      \<lparr>ifa_name = Some ''vtnet0'', ifa_addr = Some (AfInet [10, 0, 0, 1]), ifa_netmask = Some (AfInet [255, 0, 0, 0]),
       ifa_data = None\<rparr>]"

definition sample_ifaddrs :: "nat ifaddrs_os" where
  "sample_ifaddrs =
     \<lparr>ia_getifaddrs = \<lambda>n. (Inr (Some 8), Suc n), ia_freeifaddrs = \<lambda>_ n. n - 1,
      ia_memory = \<lambda>n. if n = 0 then (\<lambda>_. None)
        else [8 \<mapsto> \<lparr>nd_entry = sample_entries ! 0, ifa_next = Some 16\<rparr>, 16 \<mapsto> \<lparr>nd_entry = sample_entries ! 1, ifa_next = None\<rparr>]\<rparr>"

definition sample_host :: "nat host_os" where
  "sample_host =
     \<lparr>os_sysctl_size = \<lambda>_ n. (Inl (), n), os_sysctl = \<lambda>_ _ n. (Inl (), n), os_statvfs_root = \<lambda>n. (Inl (), n),
      os_getifaddrs = \<lambda>n. (Inl (), n), os_now = \<lambda>n. (0, n), os_rfc3339_now = \<lambda>n. ([], n)\<rparr>"

corollary pointer_sampling_refines_lists_witness:
  "\<exists>sn hc'. sample_interface_at sample_ifaddrs sample_host (V4 0x0A000001)
      \<lparr>hc_os = 0, hc_previous_cpu = None, hc_previous_interface = None\<rparr> = Some (Inr sn, hc')
    \<and> sn_name sn = ''vtnet0'' \<and> hc_os hc' = 0"
proof -
  let ?hc = "\<lparr>hc_os = 0, hc_previous_cpu = None, hc_previous_interface = None\<rparr>"
  have es: "list_at (ia_memory sample_ifaddrs (Suc n)) (Some 8) sample_entries" for n
    by (simp add: sample_ifaddrs_def sample_entries_def)
  then have laws: "ifaddrs_laws sample_ifaddrs sample_host id"
    unfolding ifaddrs_laws_def by (auto simp: sample_ifaddrs_def sample_host_def)
  have "picked sample_entries (V4 0x0A000001) 0 =
      Some (\<lparr>ic_name = ''vtnet0'', ic_received = 100, ic_sent = 50, ic_sampled_at = 0\<rparr>, 6)"
    by (simp add: picked_def interface_for_ip_def named_by_ip_def counters_def link_counters_def sockaddr_ip_def
        sample_entries_def be_val_def)
  moreover have "ia_getifaddrs sample_ifaddrs (hc_os ?hc) = (Inr (Some 8), Suc 0)" "os_now sample_host (Suc 0) = (0, Suc 0)"
    by (simp_all add: sample_ifaddrs_def sample_host_def)
  ultimately have "\<exists>sn hc'. sample_interface (listed sample_ifaddrs sample_host) (V4 0x0A000001) ?hc = (Inr sn, hc')
      \<and> sn_name sn = ''vtnet0''"
    using sample_interface_list [OF laws _ es] by (simp add: interface_snapshot_of_def)
  then show ?thesis
    using pointer_sampling_refines_lists [OF laws, of None ?hc "V4 0x0A000001"] by force
qed

end
