(* ===== verification/Logs.thy ===== *)
theory Logs
  imports Data_Loop Socket_Buffer Net_Show
begin

text \<open>
  What the tunnel logs: the statistics line of \<open>spawn_stats_task\<close> (\<open>api/masque/stats.rs\<close>), the result of
  the socket buffer negotiation (\<open>api/masque/udp.rs\<close>) and the path diagnostics (\<open>api/masque.rs\<close>). A log
  line is its level with its text or its fields.
\<close>

datatype level = Info | Warn

section \<open>Statistics\<close>

definition stats_line :: "duration \<Rightarrow> stats \<Rightarrow> string" where
  "stats_line elapsed s =
     ''connected='' @ format_duration elapsed
     @ '' tx='' @ dec (unat (st_tx_packets s)) @ '' ('' @ format_bytes (st_tx_bytes s) @ '')''
     @ '' rx='' @ dec (unat (st_rx_packets s)) @ '' ('' @ format_bytes (st_rx_bytes s) @ '')''
     @ '' drop='' @ dec (unat (st_dropped s)) @ '' txq='' @ dec (unat (st_tx_queue_len s))
     @ '' bp='' @ dec (unat (st_tx_backpressure s)) @ '' rxb='' @ dec (unat (st_rx_drain_budget_hits s))
     @ '' lost='' @ dec (unat (st_quic_lost s)) @ '' retrans='' @ dec (unat (st_quic_retrans s))"

text \<open>
  \<open>tokio::time::interval\<close> of ten seconds: tick \<open>k\<close> is due \<open>k\<close> periods after the task started, and a tick
  that is late fires at once. \<open>counters\<close> gives the counters as they are at an instant, and \<open>wakes\<close> is when
  the task is scheduled for each tick until it is aborted.
\<close>

definition stats_tick_due :: "instant \<Rightarrow> nat \<Rightarrow> instant" where
  "stats_tick_due spawned k = spawned + k * (10 * 10 ^ 9)"

fun stats_task :: "instant \<Rightarrow> instant \<Rightarrow> (instant \<Rightarrow> stats) \<Rightarrow> nat \<Rightarrow> instant list \<Rightarrow> (level \<times> string) list" where
  "stats_task start spawned counters k [] = []"
| "stats_task start spawned counters k (wake # wakes) =
     (let now = max wake (stats_tick_due spawned k) in
      (Info, stats_line (now - start) (counters now)) # stats_task start spawned counters (Suc k) wakes)"

section \<open>Socket buffers\<close>

definition log_socket_buffer_tuning ::
    "('e \<Rightarrow> string) \<Rightarrow> string \<Rightarrow> 'e + 'e socket_buffer_tuning \<Rightarrow> level \<times> string" where
  "log_socket_buffer_tuning show_error direction result =
     (case result of
        Inr tuning \<Rightarrow>
          (let sizes = ''system_default='' @ dec (sb_initial tuning) @ '' target='' @ dec (sb_target tuning)
             @ '' effective='' @ dec (sb_effective tuning)
           in if sb_target_accepted tuning then (Info, ''UDP '' @ direction @ '' socket buffer: '' @ sizes)
              else (Warn, ''UDP '' @ direction @ '' socket buffer is OS-limited: '' @ sizes @ '': ''
                @ unwrap_or (map_option show_error (sb_limit_error tuning)) ''socket option rejected''))
      | Inl err \<Rightarrow>
          (Warn, ''failed to query or verify UDP '' @ direction
             @ '' socket buffer; retaining the kernel-managed value: '' @ show_error err))"

section \<open>Path diagnostics\<close>

record log_path = path_stats +
  lp_local_addr :: socket_addr
  lp_peer_addr :: socket_addr
  lp_validation_state :: string
  lp_max_rtt :: "duration option"
  lp_cwnd :: nat
  lp_delivery_rate :: nat
  lp_pmtu :: nat
  lp_total_pto_count :: nat
  lp_dgram_sent :: nat
  lp_dgram_recv :: nat
  lp_dgram_lost :: nat

record connection_stats =
  cn_acked_bytes :: nat
  cn_spurious_lost :: nat
  cn_bytes_in_flight_duration :: duration

datatype field = Num nat | OptNum "nat option" | Txt string

definition millis :: "duration \<Rightarrow> nat" where
  "millis d = min (d div 10 ^ 6) u64_max"

definition diagnostics_fields ::
    "socket_addr \<Rightarrow> socket_addr \<Rightarrow> log_path \<Rightarrow> connection_stats \<Rightarrow> duration \<times> duration \<times> nat \<Rightarrow> (string \<times> field) list" where
  "diagnostics_fields udp_local udp_peer path connection = (\<lambda>(last_pacing_wait, max_pacing_wait, sleeps).
     [(''udp_local'', Txt (show_socket_addr udp_local)), (''udp_peer'', Txt (show_socket_addr udp_peer)),
      (''path_local'', Txt (show_socket_addr (lp_local_addr path))),
      (''path_peer'', Txt (show_socket_addr (lp_peer_addr path))),
      (''validation_state'', Txt (lp_validation_state path)),
      (''rtt_us'', Num (micros (ps_rtt path))), (''min_rtt_us'', OptNum (map_option micros (ps_min_rtt path))),
      (''max_rtt_us'', OptNum (map_option micros (lp_max_rtt path))), (''rtt_var_us'', Num (micros (ps_rttvar path))),
      (''cwnd_bytes'', Num (lp_cwnd path)), (''delivery_rate_Bps'', Num (lp_delivery_rate path)),
      (''pmtu_bytes'', Num (lp_pmtu path)), (''pto_count'', Num (lp_total_pto_count path)),
      (''sent_packets'', Num (ps_sent path)), (''received_packets'', Num (ps_recv path)),
      (''lost_packets'', Num (ps_lost path)), (''dgram_sent'', Num (lp_dgram_sent path)),
      (''dgram_received'', Num (lp_dgram_recv path)), (''dgram_lost'', Num (lp_dgram_lost path)),
      (''retrans_packets'', Num (ps_retrans path)), (''sent_bytes'', Num (unat (ps_sent_bytes path))),
      (''received_bytes'', Num (unat (ps_recv_bytes path))), (''lost_bytes'', Num (unat (ps_lost_bytes path))),
      (''acked_bytes'', Num (cn_acked_bytes connection)),
      (''spurious_lost_packets'', Num (cn_spurious_lost connection)),
      (''bytes_in_flight_duration_ms'', Num (millis (cn_bytes_in_flight_duration connection))),
      (''pacing_wait_last_us'', Num (micros last_pacing_wait)), (''pacing_wait_max_us'', Num (micros max_pacing_wait)),
      (''paced_sleeps'', Num sleeps)])"

definition path_diagnostics ::
    "socket_addr \<Rightarrow> socket_addr \<Rightarrow> log_path list \<Rightarrow> connection_stats \<Rightarrow> udp_batch
      \<Rightarrow> (string \<times> field) list option \<times> udp_batch" where
  "path_diagnostics udp_local udp_peer paths connection io =
     (case List.find ps_active paths of
        None \<Rightarrow> (None, io)
      | Some path \<Rightarrow>
          (case take_pacing_diagnostics io of (pacing, io') \<Rightarrow>
             (Some (diagnostics_fields udp_local udp_peer path connection pacing), io')))"

section \<open>Lemmas\<close>

text \<open>The task logs one line per wake-up, never ahead of the schedule and with the counters of that time.\<close>

lemma stats_task_length [simp]: "length (stats_task start spawned counters k wakes) = length wakes"
  by (induction wakes arbitrary: k) (simp_all add: Let_def)

lemma stats_task_nth:
  "i < length wakes \<Longrightarrow>
     stats_task start spawned counters k wakes ! i =
       (let now = max (wakes ! i) (stats_tick_due spawned (k + i)) in (Info, stats_line (now - start) (counters now)))"
proof (induction wakes arbitrary: i k)
  case (Cons wake wakes)
  then show ?case
    by (cases i) (simp_all add: Let_def)
qed simp

text \<open>A limited buffer is warned of, and only an accepted target is not.\<close>

lemma log_socket_level:
  "fst (log_socket_buffer_tuning show_error direction result) = Info \<longleftrightarrow>
     (\<exists>tuning. result = Inr tuning \<and> sb_target_accepted tuning)"
  by (auto simp: log_socket_buffer_tuning_def Let_def split: sum.splits)

text \<open>The diagnostics touch the batch as the packet pump says they do.\<close>

lemma find_comp_None: "List.find (P \<circ> f) xs = None \<longleftrightarrow> List.find P (map f xs) = None"
  by (auto simp: find_None_iff)

lemma path_diagnostics_io:
  assumes "map path_stats.truncate paths = pe_paths env (lk_conn (pu_link pu))"
  shows "lk_io (pu_link (log_quic_path_diagnostics env pu)) =
    snd (path_diagnostics udp_local udp_peer paths connection (lk_io (pu_link pu)))"
proof -
  have "ps_active \<circ> path_stats.truncate = (ps_active :: log_path \<Rightarrow> bool)"
    by (simp add: fun_eq_iff path_stats.defs)
  then have "List.find ps_active (pe_paths env (lk_conn (pu_link pu))) = None \<longleftrightarrow> List.find ps_active paths = None"
    using find_comp_None [of ps_active path_stats.truncate paths] assms by simp
  then show ?thesis
    by (auto simp: log_quic_path_diagnostics_def path_diagnostics_def Let_def split: option.split prod.split)
qed

end
