(* ===== verification/Api_Wire.thy ===== *)
theory Api_Wire
  imports Json Device_State
begin

text \<open>
  The bodies of Cloudflare's API as \<open>serde\<close> derives them: the requests of \<open>models.rs\<close>, \<open>api/mesh.rs\<close> and
  \<open>api/device_state.rs\<close> under the names their attributes give them, and the answers of \<open>models.rs\<close>, of
  which every field may be missing.
\<close>

section \<open>Requests\<close>

definition registration_json :: "registration \<Rightarrow> json" where
  "registration_json r = JObj
     [(''key'', JStr (rg_key r)), (''install_id'', JStr (rg_install_id r)),
      (''fcm_token'', JStr (rg_fcm_token r)), (''tos'', JStr (rg_tos r)),
      (''model'', JStr (rg_model r)), (''serial_number'', JStr (rg_serial_number r)),
      (''os_version'', JStr (rg_os_version r)), (''key_type'', JStr (rg_key_type r)),
      (''tunnel_type'', JStr (rg_tunnel_type r)), (''locale'', JStr (rg_locale r)),
      (''type'', JStr (rg_device_type r)), (''name'', JStr (rg_name r)),
      (''manufacturer'', JStr (rg_manufacturer r))]"

definition device_update_json :: "device_update \<Rightarrow> json" where
  "device_update_json u = JObj
     ([(''key'', JStr (up_key u)), (''key_type'', JStr (up_key_type u)),
      (''tunnel_type'', JStr (up_tunnel_type u))]
      @ unless_none ''name'' JStr (up_name u)
      @ [(''model'', JStr (up_model u)), (''serial_number'', JStr (up_serial_number u)),
      (''os_version'', JStr (up_os_version u)), (''locale'', JStr (up_locale u)),
      (''type'', JStr (up_device_type u)), (''manufacturer'', JStr (up_manufacturer u))])"

definition mesh_registration_json :: "mesh_registration \<Rightarrow> json" where
  "mesh_registration_json m = JObj
     [(''type'', JStr (mr_device_type m)), (''model'', JStr (mr_model m)), (''name'', JStr (mr_name m)),
      (''key'', JStr (mr_key m)), (''key_type'', JStr (mr_key_type m)),
      (''tunnel_type'', JStr (mr_tunnel_type m)), (''os_version'', JStr (mr_os_version m)),
      (''serial_number'', JStr (mr_serial_number m)),
      (''warp_connector_token'', JStr (mr_warp_connector_token m)), (''tos'', JStr (mr_tos m))]"

section \<open>The report\<close>

definition json_u64 :: "u64 \<Rightarrow> json" where
  "json_u64 n = json_nat (unat n)"

definition ip_info_json :: "ip_info \<Rightarrow> json" where
  "ip_info_json v = JObj
     [(''address'', JStr (ii_address v)), (''netmask'', JStr (ii_netmask v))]"

definition interface_info_json :: "interface_info \<Rightarrow> json" where
  "interface_info_json v = JObj
     ([(''name'', JStr (in_name v)), (''connection_type'', JStr (in_connection_type v))]
      @ unless_none ''network_sent_bps'' json_nat (in_network_sent_bps v)
      @ unless_none ''network_rcvd_bps'' json_nat (in_network_rcvd_bps v)
      @ unless_none ''device_ipv4'' ip_info_json (in_device_ipv4 v)
      @ unless_none ''device_ipv6'' ip_info_json (in_device_ipv6 v))"

definition tunnel_stats_json :: "tunnel_stats_payload \<Rightarrow> json" where
  "tunnel_stats_json t = JObj
     ([(''rtt_us'', json_nat (ts_rtt_us t))]
      @ unless_none ''min_rtt_us'' json_nat (ts_min_rtt_us t)
      @ [(''rtt_var_us'', json_nat (ts_rtt_var_us t)), (''packets_sent'', json_nat (ts_packets_sent t))]
      @ unless_none ''packets_lost'' json_nat (ts_packets_lost t)
      @ unless_none ''packets_retrans'' json_nat (ts_packets_retrans t)
      @ [(''bytes_sent'', json_u64 (ts_bytes_sent t))]
      @ unless_none ''bytes_lost'' json_u64 (ts_bytes_lost t)
      @ unless_none ''bytes_retrans'' json_u64 (ts_bytes_retrans t))"

text \<open>\<open>AppCpuUsage\<close> and \<open>AppRamUsage\<close> have no field.\<close>

definition app_usage_json :: "unit \<Rightarrow> json" where
  "app_usage_json _ = JObj []"

definition payload_json :: "device_state_payload \<Rightarrow> json" where
  "payload_json p = JObj
     ([(''timestamp'', JStr (dp_timestamp p)), (''account_id'', JStr (dp_account_id p)),
       (''status'', JStr (dp_status p)), (''mode'', JStr (dp_mode p)), (''always_on'', JBool (dp_always_on p)),
       (''reg_id'', JStr (dp_reg_id p)), (''doh_subdomain'', JStr (dp_doh_subdomain p)),
       (''switch_locked'', JBool (dp_switch_locked p)), (''client_version'', JStr (dp_client_version p)),
       (''client_platform'', JStr (dp_client_platform p)), (''warp_metal'', JStr (dp_warp_metal p)),
       (''warp_colo'', JStr (dp_warp_colo p)),
       (''handshake_latency_ms'', json_option json_nat (dp_handshake_latency_ms p)),
       (''estimated_loss'', json_option JRat (dp_estimated_loss p)), (''tunnel_type'', JStr (dp_tunnel_type p)),
       (''interfaces'', json_list interface_info_json (dp_interfaces p)),
       (''firewalls'', JObj (map (\<lambda>(n, v). (n, JBool v)) (dp_firewalls p)))]
      @ unless_none ''tunnelStatsUpstream'' tunnel_stats_json (dp_tunnel_stats_upstream p)
      @ unless_none ''tunnelStatsDownstream'' tunnel_stats_json (dp_tunnel_stats_downstream p)
      @ unless_none ''cpu_pct'' JRat (dp_cpu_pct p)
      @ unless_none ''cpu_pct_by_app'' (json_list app_usage_json) (dp_cpu_pct_by_app p)
      @ unless_none ''ram_used_pct'' JRat (dp_ram_used_pct p)
      @ unless_none ''ram_used_pct_by_app'' (json_list app_usage_json) (dp_ram_used_pct_by_app p)
      @ unless_none ''ram_available_kb'' json_nat (dp_ram_available_kb p)
      @ unless_none ''disk_usage_pct'' JRat (dp_disk_usage_pct p)
      @ unless_none ''disk_read_bps'' json_nat (dp_disk_read_bps p)
      @ unless_none ''disk_write_bps'' json_nat (dp_disk_write_bps p)
      @ [(''profile_id'', JStr (dp_profile_id p))])"

fun body_json :: "request_body \<Rightarrow> json option" where
  "body_json NoBody = None"
| "body_json (RegistrationBody r) = Some (registration_json r)"
| "body_json (UpdateBody u) = Some (device_update_json u)"
| "body_json (MeshBody m) = Some (mesh_registration_json m)"
| "body_json (StateBody p) = Some (payload_json p)"

section \<open>Answers\<close>

definition error_info_of_json :: "json \<Rightarrow> error_info option" where
  "error_info_of_json j = do {
     es \<leftarrow> struct_fields [''message''] j;
     message \<leftarrow> default_field es ''message'' json_string [];
     Some \<lparr>ei_message = message\<rparr>
   }"

definition api_error_of_json :: "json \<Rightarrow> api_error option" where
  "api_error_of_json j = do {
     es \<leftarrow> struct_fields [''errors''] j;
     errors \<leftarrow> default_field es ''errors'' (list_of_json error_info_of_json) [];
     Some \<lparr>ae_errors = errors\<rparr>
   }"

definition endpoint_of_json :: "json \<Rightarrow> endpoint option" where
  "endpoint_of_json j = do {
     es \<leftarrow> struct_fields [''v4'', ''v6'', ''host'', ''ports''] j;
     v4 \<leftarrow> default_field es ''v4'' json_string [];
     v6 \<leftarrow> default_field es ''v6'' json_string [];
     host \<leftarrow> default_field es ''host'' json_string [];
     ports \<leftarrow> default_field es ''ports'' (list_of_json u16_of_json) [];
     Some \<lparr>ep_v4 = v4, ep_v6 = v6, ep_host = host, ep_ports = ports\<rparr>
   }"

definition default_endpoint :: endpoint where
  "default_endpoint = \<lparr>ep_v4 = [], ep_v6 = [], ep_host = [], ep_ports = []\<rparr>"

definition api_peer_of_json :: "json \<Rightarrow> peer option" where
  "api_peer_of_json j = do {
     es \<leftarrow> struct_fields [''public_key'', ''endpoint''] j;
     public_key \<leftarrow> default_field es ''public_key'' json_string [];
     endpoint \<leftarrow> default_field es ''endpoint'' endpoint_of_json default_endpoint;
     Some \<lparr>pr_public_key = public_key, pr_endpoint = endpoint\<rparr>
   }"

definition addresses_of_json :: "json \<Rightarrow> addresses option" where
  "addresses_of_json j = do {
     es \<leftarrow> struct_fields [''v4'', ''v6''] j;
     v4 \<leftarrow> default_field es ''v4'' json_string [];
     v6 \<leftarrow> default_field es ''v6'' json_string [];
     Some \<lparr>ad_v4 = v4, ad_v6 = v6\<rparr>
   }"

text \<open>\<open>Interface\<close> has the one field \<open>addresses\<close>.\<close>

definition interface_of_json :: "json \<Rightarrow> addresses option" where
  "interface_of_json j = do {
     es \<leftarrow> struct_fields [''addresses''] j;
     addresses \<leftarrow> default_field es ''addresses'' addresses_of_json (ac_interface (acc_config default_account_data));
     Some addresses
   }"

definition account_config_of_json :: "json \<Rightarrow> account_config option" where
  "account_config_of_json j = do {
     es \<leftarrow> struct_fields [''peers'', ''interface''] j;
     peers \<leftarrow> default_field es ''peers'' (list_of_json api_peer_of_json) [];
     interface \<leftarrow> default_field es ''interface'' interface_of_json (ac_interface (acc_config default_account_data));
     Some \<lparr>ac_peers = peers, ac_interface = interface\<rparr>
   }"

definition account_of_json :: "json \<Rightarrow> account option" where
  "account_of_json j = do {
     es \<leftarrow> struct_fields [''id'', ''license''] j;
     id_text \<leftarrow> default_field es ''id'' json_string [];
     license \<leftarrow> default_field es ''license'' json_string [];
     Some \<lparr>at_id = id_text, at_license = license\<rparr>
   }"

definition policy_of_json :: "json \<Rightarrow> policy option" where
  "policy_of_json j = do {
     es \<leftarrow> struct_fields [''policy_id'', ''switch_locked''] j;
     policy_id \<leftarrow> default_field es ''policy_id'' json_string [];
     switch_locked \<leftarrow> default_field es ''switch_locked'' json_bool False;
     Some \<lparr>po_policy_id = policy_id, po_switch_locked = switch_locked\<rparr>
   }"

definition account_data_of_json :: "json \<Rightarrow> account_data option" where
  "account_data_of_json j = do {
     es \<leftarrow> struct_fields [''id'', ''account'', ''config'', ''token'', ''policy''] j;
     id_text \<leftarrow> default_field es ''id'' json_string [];
     account \<leftarrow> default_field es ''account'' account_of_json (acc_account default_account_data);
     config \<leftarrow> default_field es ''config'' account_config_of_json (acc_config default_account_data);
     token \<leftarrow> default_field es ''token'' json_string [];
     policy \<leftarrow> default_field es ''policy'' policy_of_json (acc_policy default_account_data);
     Some \<lparr>acc_id = id_text, acc_account = account, acc_config = config, acc_token = token, acc_policy = policy\<rparr>
   }"

text \<open>The fields of a Mesh token have two names each.\<close>

definition token_field :: "string \<Rightarrow> string" where
  "token_field n =
     (if n = ''account_tag'' then ''a'' else if n = ''tunnel_id'' then ''t'' else if n = ''tunnel_secret'' then ''s''
      else n)"

fun rename_fields :: "(string \<Rightarrow> string) \<Rightarrow> json \<Rightarrow> json" where
  "rename_fields f (JObj es) = JObj (map (\<lambda>(n, v). (f n, v)) es)"
| "rename_fields f j = j"

definition token_payload_of_json :: "json \<Rightarrow> token_payload option" where
  "token_payload_of_json j = do {
     es \<leftarrow> struct_fields [''a'', ''t'', ''s''] (rename_fields token_field j);
     account_tag \<leftarrow> required_field es ''a'' json_string;
     tunnel_id \<leftarrow> required_field es ''t'' json_string;
     tunnel_secret \<leftarrow> required_field es ''s'' json_string;
     Some \<lparr>tp_account_tag = account_tag, tp_tunnel_id = tunnel_id, tp_tunnel_secret = tunnel_secret\<rparr>
   }"

section \<open>The parameters of the requests\<close>

text \<open>
  The client with \<open>serde_json\<close>, which reads a body as a value or complains: the decoders of the answers
  are those derived above.
\<close>

definition read_as :: "(bytes \<Rightarrow> string + json) \<Rightarrow> (json \<Rightarrow> string) \<Rightarrow> (json \<Rightarrow> 'a option) \<Rightarrow> bytes \<Rightarrow> string + 'a" where
  "read_as from_slice complaint decode body =
     and_then (from_slice body) (\<lambda>j. ok_or (complaint j) (decode j))"

definition serde_web :: "(bytes \<Rightarrow> string + json) \<Rightarrow> (json \<Rightarrow> string) \<Rightarrow> 'w web \<Rightarrow> 'w web" where
  "serde_web from_slice complaint web =
     web\<lparr>wb_account := read_as from_slice complaint account_data_of_json,
         wb_api_error := read_as from_slice complaint api_error_of_json, wb_json := from_slice,
         wb_account_of_json := (\<lambda>j. ok_or (complaint j) (account_data_of_json j))\<rparr>"

end
