(* ===== verification/Wire_Tests.thy ===== *)
theory Wire_Tests
  imports Icmp Connect_Ip Timing Native_Tun Stats Telemetry
begin

text \<open>
  The unit tests of \<open>api/packet.rs\<close>, \<open>api/icmp.rs\<close>, \<open>api/masque/connect_ip.rs\<close>, \<open>api/masque/timing.rs\<close>,
  \<open>api/masque/stats.rs\<close>, \<open>api/freebsd_telemetry.rs\<close> and \<open>native_tun.rs\<close>, run on the model: each test is a
  Boolean with the test's assertions, and each lemma says that the model passes it.
\<close>

text \<open>\<open>unwrap\<close> of a call that may panic, followed by the assertions on its value.\<close>

definition unwrapped :: "'a option \<Rightarrow> ('a \<Rightarrow> bool) \<Rightarrow> bool" where
  "unwrapped x assertions \<longleftrightarrow> (case x of None \<Rightarrow> False | Some y \<Rightarrow> assertions y)"

lemma unwrapped_simps [simp]: "\<not> unwrapped None p" "unwrapped (Some y) p \<longleftrightarrow> p y"
  by (simp_all add: unwrapped_def)

lemma be_bytes_numeral: "be_bytes (numeral k) v = be_bytes (pred_numeral k) (v div 256) @ [word_of_nat v]"
  unfolding numeral_eq_Suc [of k] by (rule be_bytes.simps)

lemma replicate_numeral: "replicate (numeral k) x = x # replicate (pred_numeral k) x"
  unfolding numeral_eq_Suc [of k] by (rule replicate_Suc)

definition range_of :: "nat \<Rightarrow> nat \<Rightarrow> 'a list \<Rightarrow> 'a list" where
  "range_of s e xs = take (e - s) (drop s xs)"

section \<open>Packets\<close>

definition test_ipv4_packet :: "u8 \<Rightarrow> bytes" where
  "test_ipv4_packet ttl =
     (let packet = patch 2 (to_be16 (word_of_nat IPV4_HEADER_LEN)) ((replicate IPV4_HEADER_LEN 0)[0 := 0x45])
      in patch 16 [198, 51, 100, 2] (patch 12 [192, 0, 2, 1] (packet[8 := ttl, 9 := 17])))"

definition test_outgoing_ipv4 :: bool where
  "test_outgoing_ipv4 \<longleftrightarrow>
     unwrapped (prepare_outgoing (test_ipv4_packet 64)) (\<lambda>(r, packet).
       r = Inr 4 \<and> packet ! 8 = 63 \<and> calculate_ipv4_checksum packet = Some (from_be16 (packet ! 10) (packet ! 11)))"

definition test_outgoing_ipv6 :: bool where
  "test_outgoing_ipv6 \<longleftrightarrow>
     unwrapped (prepare_outgoing ((replicate IPV6_HEADER_LEN 0)[0 := 0x60, 7 := 64])) (\<lambda>(r, packet).
       r = Inr 6 \<and> packet ! 7 = 63)"

definition test_expired_hop_count :: bool where
  "test_expired_hop_count \<longleftrightarrow>
     unwrapped (prepare_outgoing (test_ipv4_packet 1)) (\<lambda>(r, _). r = Inl (TtlExpired 1))
     \<and> unwrapped (prepare_outgoing ((replicate IPV6_HEADER_LEN 0)[0 := 0x60, 7 := 1])) (\<lambda>(r, _). r = Inl (TtlExpired 1))"

definition test_empty_and_short :: bool where
  "test_empty_and_short \<longleftrightarrow>
     validate_incoming [] = Some (Inl Empty)
     \<and> validate_incoming (replicate (IPV4_HEADER_LEN - 1) 0x45) = Some (Inl (TooShort 4 (IPV4_HEADER_LEN - 1)))"

lemma test_ipv4_packet_bytes:
  "test_ipv4_packet ttl = [0x45, 0, 0, 20, 0, 0, 0, 0, ttl, 17, 0, 0, 192, 0, 2, 1, 198, 51, 100, 2]"
  by (simp add: test_ipv4_packet_def patch_def to_be16_def IPV4_HEADER_LEN_def replicate_numeral Let_def)

lemma packet_tests_pass: test_outgoing_ipv4 test_outgoing_ipv6 test_expired_hop_count test_empty_and_short
proof -
  have "test_ipv4_packet 64 = sample_ipv4"
    by (simp add: test_ipv4_packet_bytes sample_ipv4_def)
  moreover have "calculate_ipv4_checksum sample_forwarded = Some (from_be16 143 162)"
    by (simp add: sample_forwarded_def packet_eval)
  ultimately show test_outgoing_ipv4
    by (simp add: test_outgoing_ipv4_def prepare_outgoing_sample) (simp add: sample_forwarded_def)
  show test_outgoing_ipv6
    by (simp add: test_outgoing_ipv6_def prepare_outgoing_def ip_version_def index_at_def store_at_def header_len_defs
        word_le_nat_alt)
  show test_expired_hop_count
    by (simp add: test_expired_hop_count_def test_ipv4_packet_bytes prepare_outgoing_def ip_version_def index_at_def
        header_len_defs)
  show test_empty_and_short
    by (simp add: test_empty_and_short_def validate_incoming_def ip_version_def index_at_def header_len_defs)
qed

section \<open>ICMP\<close>

definition test_echo_v4 :: bool where
  "test_echo_v4 \<longleftrightarrow>
     unwrapped (parse_ip ''100.96.0.1'') (\<lambda>source. unwrapped (parse_ip ''1.1.1.1'') (\<lambda>destination.
     unwrapped (compose_echo_request source destination 7) (\<lambda>reply. unwrapped reply (\<lambda>packet.
       length packet = 28 \<and> packet ! 0 = 0x45 \<and> packet ! 8 = 64 \<and> packet ! 9 = 1
       \<and> range_of 12 16 packet = [100, 96, 0, 1] \<and> range_of 16 20 packet = [1, 1, 1, 1]
       \<and> packet ! 20 = ICMP_TYPE_ECHO_REQUEST \<and> from_be16 (packet ! 26) (packet ! 27) = 7
       \<and> checksum (take IPV4_HEADER_LEN packet) = 0 \<and> checksum (drop IPV4_HEADER_LEN packet) = 0))))"

definition test_echo_v6 :: bool where
  "test_echo_v6 \<longleftrightarrow>
     unwrapped (parse_ip ''2606:4700:cf1:1000::1'') (\<lambda>source. unwrapped (parse_ip ''2606:4700:4700::1111'') (\<lambda>destination.
     unwrapped (compose_echo_request source destination 9) (\<lambda>reply. unwrapped reply (\<lambda>packet.
       length packet = 48 \<and> packet ! 0 = 0x60 \<and> packet ! 6 = 58 \<and> packet ! 7 = 64
       \<and> packet ! 40 = ICMPV6_TYPE_ECHO_REQUEST \<and> from_be16 (packet ! 46) (packet ! 47) = 9
       \<and> icmpv6_checksum (range_of 8 24 packet) (range_of 24 40 packet) (drop 40 packet) = 0))))"

definition test_echo_mixed :: bool where
  "test_echo_mixed \<longleftrightarrow>
     unwrapped (parse_ip ''100.96.0.1'') (\<lambda>source. unwrapped (parse_ip ''2606:4700:4700::1111'') (\<lambda>destination.
       compose_echo_request source destination 0 = Some None))"

definition test_frag_needed_packet :: bytes where
  "test_frag_needed_packet =
     patch 16 [198, 51, 100, 2] (patch 12 [192, 0, 2, 1] ((replicate 100 0)[0 := 0x45, 8 := 63]))"

definition test_frag_needed :: bool where
  "test_frag_needed \<longleftrightarrow>
     unwrapped (compose_icmp_too_large test_frag_needed_packet 1280) (\<lambda>reply. unwrapped reply (\<lambda>reply.
       range_of 12 16 reply = [198, 51, 100, 2] \<and> range_of 16 20 reply = [192, 0, 2, 1]
       \<and> reply ! 20 = ICMP_TYPE_DEST_UNREACHABLE \<and> reply ! 21 = ICMP_CODE_FRAG_NEEDED
       \<and> from_be16 (reply ! 24) (reply ! 25) = 1280 \<and> drop 28 reply = test_frag_needed_packet
       \<and> length reply \<le> 576))"

definition test_too_big_packet :: bytes where
  "test_too_big_packet =
     patch 24 (replicate 16 0x30) (patch 8 (replicate 16 0x20) ((replicate 1400 0)[0 := 0x60, 7 := 63]))"

definition test_too_big :: bool where
  "test_too_big \<longleftrightarrow>
     unwrapped (compose_icmp_too_large test_too_big_packet 1280) (\<lambda>reply. unwrapped reply (\<lambda>reply.
       range_of 8 24 reply = replicate 16 0x30 \<and> range_of 24 40 reply = replicate 16 0x20
       \<and> reply ! 40 = ICMPV6_TYPE_PACKET_TOO_BIG \<and> reply ! 41 = 0
       \<and> be_val (range_of 44 48 reply) = 1280 \<and> length reply = 1280
       \<and> drop 48 reply = take 1232 test_too_big_packet))"

lemma test_addresses:
  "parse_ip ''100.96.0.1'' = Some (V4 0x64600001)" "parse_ip ''1.1.1.1'' = Some (V4 0x01010101)"
  "parse_ip ''2606:4700:cf1:1000::1'' = Some (V6 0x260647000cf110000000000000000001)"
  "parse_ip ''2606:4700:4700::1111'' = Some (V6 0x26064700470000000000000000001111)"
proof -
  have "show_ipv4 0x64600001 = ''100.96.0.1''" "show_ipv4 0x01010101 = ''1.1.1.1''"
    by (simp_all add: show_ipv4_def dec.simps char_of_def bit_Suc_0_iff)
  then show "parse_ip ''100.96.0.1'' = Some (V4 0x64600001)" "parse_ip ''1.1.1.1'' = Some (V4 0x01010101)"
    using parse_ip_show_ipv4 [of "0x64600001"] parse_ip_show_ipv4 [of "0x01010101"] by simp_all
  have "read_ipv4 ''2606:4700:cf1:1000::1'' = None" "read_ipv4 ''4700:cf1:1000::1'' = None"
    "read_ipv4 ''cf1:1000::1'' = None" "read_ipv4 ''1000::1'' = None" "read_ipv4 '':1'' = None" "read_ipv4 ''1'' = None"
    "read_ipv4 ''2606:4700:4700::1111'' = None" "read_ipv4 ''4700:4700::1111'' = None"
    "read_ipv4 ''4700::1111'' = None" "read_ipv4 '':1111'' = None" "read_ipv4 ''1111'' = None"
    by (simp_all add: read_ipv4_def read_separator_def read_char_def read_number_def to_digit_def)
  then show "parse_ip ''2606:4700:cf1:1000::1'' = Some (V6 0x260647000cf110000000000000000001)"
    "parse_ip ''2606:4700:4700::1111'' = Some (V6 0x26064700470000000000000000001111)"
    by (simp_all add: parse_ip_def parse_ipv6_def read_ipv6_def read_groups.simps read_separator_def read_char_def
        read_number_def to_digit_def ipv6_of_groups_def replicate_numeral)
qed

lemma echo_sealed:
  "ipv4_icmp (v4_octets s) (v4_octets d) ICMP_TYPE_ECHO_REQUEST 0 (to_be16 ECHO_IDENTIFIER @ to_be16 n) []
     (seal_v4 (echo_v4_body s d n))"
  "ipv6_icmp (v6_octets s') (v6_octets d') ICMPV6_TYPE_ECHO_REQUEST 0 (to_be16 ECHO_IDENTIFIER @ to_be16 n) []
     (seal_v6 (echo_v6_body s' d' n))"
  using seal_v4_reads [of "echo_v4_body s d n"] seal_v6_reads [of "echo_v6_body s' d' n"]
  by (simp_all add: echo_v4_body_reads echo_v6_body_reads)

lemma test_echo_passes: test_echo_v4 test_echo_v6 test_echo_mixed
proof -
  let ?m = "seal_v4 (echo_v4_body 0x64600001 0x01010101 7)"
  have m: "length ?m = 28" "v4_octets 0x64600001 = [100, 96, 0, 1]" "v4_octets 0x01010101 = [1, 1, 1, 1]"
    by (simp_all add: echo_v4_body_reads v4_octets_def be_bytes_numeral)
  have "[?m ! 24, ?m ! 25, ?m ! 26, ?m ! 27] = to_be16 ECHO_IDENTIFIER @ to_be16 7"
    using echo_sealed(1) [of "0x64600001" "0x01010101" 7] range4 [of 24 ?m] m(1) by (simp add: ipv4_icmp_def)
  then have "from_be16 (?m ! 26) (?m ! 27) = 7"
    by (simp add: to_be16_def from_be16_def)
  then show test_echo_v4
    using echo_sealed(1) [of "0x64600001" "0x01010101" 7] m nth_seal_v4 [of "echo_v4_body 0x64600001 0x01010101 7"]
    by (simp add: test_echo_v4_def test_addresses compose_echo_request_def compose_echo_v4_eq ipv4_icmp_def range_of_def
        IPV4_HEADER_LEN_def echo_v4_body_reads)
  let ?s = "0x260647000cf110000000000000000001" and ?d = "0x26064700470000000000000000001111"
  let ?n = "seal_v6 (echo_v6_body ?s ?d 9)"
  have n: "length ?n = 48"
    by (simp add: echo_v6_body_reads)
  have "[?n ! 44, ?n ! 45, ?n ! 46, ?n ! 47] = to_be16 ECHO_IDENTIFIER @ to_be16 9"
    using echo_sealed(2) [of ?s ?d 9] range4 [of 44 ?n] n by (simp add: ipv6_icmp_def)
  then have "from_be16 (?n ! 46) (?n ! 47) = 9"
    by (simp add: to_be16_def from_be16_def)
  then show test_echo_v6
    using echo_sealed(2) [of ?s ?d 9] n nth_seal_v6 [of "echo_v6_body ?s ?d 9"]
    by (simp add: test_echo_v6_def test_addresses compose_echo_request_def compose_echo_v6_eq ipv6_icmp_def range_of_def
        echo_v6_body_reads)
  show test_echo_mixed
    by (simp add: test_echo_mixed_def test_addresses compose_echo_request_def)
qed

lemma test_frag_needed_passes: test_frag_needed
proof -
  let ?p = test_frag_needed_packet and ?m = "frag_needed_body test_frag_needed_packet 1280"
  have p: "length ?p = 100" "?p ! 0 = 0x45" "take 4 (drop 12 ?p) = [192, 0, 2, 1]" "take 4 (drop 16 ?p) = [198, 51, 100, 2]"
    by (simp_all add: test_frag_needed_packet_def nth_patch field_reads del: drop_take)
  then have len: "20 \<le> length ?p"
    by simp
  have v: "verdict ?p = Inr 4"
    using p by (auto simp: verdict_def min_header_len_def version_of_def header_len_defs)
  note reads = frag_needed_body_reads [OF len, of 1280]
  have icmp: "ipv4_icmp [198, 51, 100, 2] [192, 0, 2, 1] 3 4 (to_be16 1280 @ [0, 0]) ?p (seal_v4 ?m)"
    using seal_v4_reads [of ?m] p by (simp add: reads)
  have "length (seal_v4 ?m) = 128"
    using p by (simp add: reads)
  then have "[seal_v4 ?m ! 24, seal_v4 ?m ! 25, seal_v4 ?m ! 26, seal_v4 ?m ! 27] = to_be16 1280 @ [0, 0]"
    using icmp range4 [of 24 "seal_v4 ?m"] by (simp add: ipv4_icmp_def)
  then have "from_be16 (seal_v4 ?m ! 24) (seal_v4 ?m ! 25) = 1280"
    by (simp add: to_be16_def from_be16_def)
  then show ?thesis
    using icmp \<open>length (seal_v4 ?m) = 128\<close>
    by (simp add: test_frag_needed_def compose_icmp_too_large_eq v ipv4_icmp_def range_of_def icmp_consts)
qed

lemma test_too_big_passes: test_too_big
proof -
  let ?p = test_too_big_packet and ?m = "too_big_body test_too_big_packet 1280"
  have p: "length ?p = 1400" "?p ! 0 = 0x60" "take 16 (drop 8 ?p) = replicate 16 0x20"
    "take 16 (drop 24 ?p) = replicate 16 0x30"
    by (simp_all add: test_too_big_packet_def nth_patch field_reads del: drop_take)
  then have len: "40 \<le> length ?p"
    by simp
  have v: "verdict ?p = Inr 6"
    using p by (auto simp: verdict_def min_header_len_def version_of_def header_len_defs)
  note reads = too_big_body_reads [OF len, of 1280]
  have icmp: "ipv6_icmp (replicate 16 0x30) (replicate 16 0x20) 2 0 (to_be32 1280) (take 1232 ?p) (seal_v6 ?m)"
    using seal_v6_reads [of ?m] p by (simp add: reads)
  have "length (seal_v6 ?m) = 1280"
    using p by (simp add: reads)
  then show ?thesis
    using icmp by (simp add: test_too_big_def compose_icmp_too_large_eq v ipv6_icmp_def range_of_def icmp_consts
        to_be32_def be_val_def)
qed

section \<open>CONNECT-IP\<close>

definition test_encode_varint :: "u64 \<Rightarrow> bytes" where
  "test_encode_varint val = unwrap_or (rfc9000_put val) []"

definition payload_text :: bytes where
  "payload_text = map of_char ''payload''"

definition test_parses_datagram :: bool where
  "test_parses_datagram \<longleftrightarrow>
     parse_datagram rfc9000_get (test_encode_varint 4 @ test_encode_varint 0 @ payload_text) 4 = Some payload_text"

definition test_flow_prefix :: bool where
  "test_flow_prefix \<longleftrightarrow>
     build_flow_prefix rfc9000_put 64 = Inr (test_encode_varint 64 @ test_encode_varint 0)"

definition test_another_stream :: bool where
  "test_another_stream \<longleftrightarrow>
     parse_datagram rfc9000_get (test_encode_varint 5 @ test_encode_varint 0 @ payload_text) 4 = None"

definition test_unknown_context :: bool where
  "test_unknown_context \<longleftrightarrow>
     parse_datagram rfc9000_get (test_encode_varint 4 @ test_encode_varint 2 @ payload_text) 4 = None"

definition test_missing_payload :: bool where
  "test_missing_payload \<longleftrightarrow>
     parse_datagram rfc9000_get (test_encode_varint 4 @ test_encode_varint 0) 4 = None"

lemma connect_ip_tests_pass:
  test_parses_datagram test_flow_prefix test_another_stream test_unknown_context test_missing_payload
  by (simp_all add: test_parses_datagram_def test_flow_prefix_def test_another_stream_def test_unknown_context_def
      test_missing_payload_def parse_datagram_def build_flow_prefix_def test_encode_varint_def rfc9000_put_def
      rfc9000_get_def varint_size_def be_val_def payload_text_def be_bytes_numeral Let_def)

section \<open>Timing\<close>

definition secs :: "nat \<Rightarrow> duration" where
  "secs n = n * 10 ^ 9"

definition test_keepalive_disabled :: bool where
  "test_keepalive_disabled \<longleftrightarrow> keepalive_remaining 0 (secs 60) = None"

definition test_keepalive_remaining :: bool where
  "test_keepalive_remaining \<longleftrightarrow>
     keepalive_remaining (secs 25) (secs 10) = Some (secs 15) \<and> keepalive_remaining (secs 25) (secs 25) = Some 0"

definition test_pmtud_disabled :: bool where
  "test_pmtud_disabled \<longleftrightarrow>
     pmtud_remaining True 0 (secs 60) = None \<and> pmtud_remaining False (secs 600) (secs 60) = None"

definition test_pmtud_remaining :: bool where
  "test_pmtud_remaining \<longleftrightarrow>
     pmtud_remaining True (secs 600) (secs 125) = Some (secs 475)
     \<and> pmtud_remaining True (secs 600) (secs 600) = Some 0"

definition test_inner_mtu_ceiling :: bool where
  "test_inner_mtu_ceiling \<longleftrightarrow> cap_tun_mtu 1421 1 1500 = Some 1420 \<and> cap_tun_mtu 1601 1 1500 = Some 1500"

definition test_inner_mtu_impossible :: bool where
  "test_inner_mtu_impossible \<longleftrightarrow> cap_tun_mtu 1 2 1500 = None"

lemma timing_tests_pass:
  test_keepalive_disabled test_keepalive_remaining test_pmtud_disabled test_pmtud_remaining test_inner_mtu_ceiling
  test_inner_mtu_impossible
  by (simp_all add: test_keepalive_disabled_def test_keepalive_remaining_def test_pmtud_disabled_def
      test_pmtud_remaining_def test_inner_mtu_ceiling_def test_inner_mtu_impossible_def keepalive_remaining_def
      pmtud_remaining_def cap_tun_mtu_eq secs_def)

section \<open>Statistics\<close>

definition test_counters_zero :: bool where
  "test_counters_zero \<longleftrightarrow>
     (let stats = new_stats in
      st_tx_packets stats = 0 \<and> st_rx_packets stats = 0 \<and> st_tx_bytes stats = 0 \<and> st_rx_bytes stats = 0
      \<and> st_dropped stats = 0 \<and> st_quic_lost stats = 0 \<and> st_quic_retrans stats = 0 \<and> st_tx_queue_len stats = 0
      \<and> st_tx_backpressure stats = 0 \<and> st_rx_drain_budget_hits stats = 0)"

definition test_format_bytes :: bool where
  "test_format_bytes \<longleftrightarrow>
     format_bytes 0 = ''0 B'' \<and> format_bytes 1023 = ''1023 B'' \<and> format_bytes 1024 = ''1.0 KiB''
     \<and> format_bytes (1024 * 1024) = ''1.0 MiB'' \<and> format_bytes (1536 * 1024) = ''1.5 MiB''
     \<and> format_bytes (1024 * 1024 * 1024) = ''1.0 GiB''"

definition test_format_duration :: bool where
  "test_format_duration \<longleftrightarrow>
     format_duration (secs 59) = ''59s'' \<and> format_duration (secs 60) = ''1m 00s''
     \<and> format_duration (secs 3599) = ''59m 59s'' \<and> format_duration (secs 3600) = ''1h 00m 00s''
     \<and> format_duration (secs 7384) = ''2h 03m 04s''"

lemma stats_tests_pass: test_counters_zero test_format_bytes test_format_duration
  by (simp_all add: test_counters_zero_def test_format_bytes_def test_format_duration_def new_stats_def format_bytes_def
      format_duration_def dec02_def secs_def dec.simps one_decimal_def to_f64_def round_half_even_def char_of_digits Let_def)

section \<open>The TUN device and the host\<close>

definition test_ipv6_minimum_mtu :: bool where
  "test_ipv6_minimum_mtu \<longleftrightarrow> \<not> ipv6_path_supported 1279 \<and> ipv6_path_supported 1280 \<and> ipv6_path_supported 1500"

definition test_unsupported_platform :: bool where
  "test_unsupported_platform \<longleftrightarrow>
     fst (portable_sample None \<lparr>hc_os = (), hc_previous_cpu = None, hc_previous_interface = None\<rparr>) = no_host_snapshot"

definition test_byte_rate :: bool where
  "test_byte_rate \<longleftrightarrow> rate 12000 2 = 6000"

lemma device_tests_pass: test_ipv6_minimum_mtu test_unsupported_platform
  by (simp_all add: test_ipv6_minimum_mtu_def test_unsupported_platform_def ipv6_path_supported_def IPV6_MIN_MTU_def
      portable_sample_def)

lemma test_byte_rate_passes: test_byte_rate
proof -
  have half: "\<lfloor>12001 / 2 :: rat\<rfloor> = 6000"
    by (rule floor_unique) simp_all
  show ?thesis
    by (simp add: test_byte_rate_def rate_def f64_div_def f64_of_nat_def round_rat_def round_ratio_def scale_def
      scaled_at_def bit_len.simps round_half_even_def round_to_u64_def u64_max_def quotient_of_int half Let_def)
qed

end
