(* ===== verification/Masque_Tests.thy ===== *)
theory Masque_Tests
  imports Wire_Tests Supervisor
begin

text \<open>
  The unit tests of \<open>api/masque.rs\<close>, \<open>api/masque/udp.rs\<close>, \<open>api/masque/handshake.rs\<close>,
  \<open>api/masque/supervisor.rs\<close> and \<open>api/hooks.rs\<close>, run on the model. Left out are the tests that need a
  real socket or a real certificate.
\<close>

text \<open>\<open>str::contains\<close>\<close>

fun contains :: "string \<Rightarrow> string \<Rightarrow> bool" where
  "contains p [] \<longleftrightarrow> p = []"
| "contains p (c # cs) \<longleftrightarrow> starts_with p (c # cs) \<or> contains p cs"

section \<open>Sessions\<close>

definition header_value :: "header list \<Rightarrow> string \<Rightarrow> string option" where
  "header_value headers n = map_option snd (List.find (\<lambda>h. fst h = n) headers)"

definition test_idle_timeout_millis :: bool where
  "test_idle_timeout_millis \<longleftrightarrow>
     duration_millis 0 = 0 \<and> duration_millis 1 = 1 \<and> duration_millis (secs 90) = 90000"

definition test_stream_termination :: bool where
  "test_stream_termination \<longleftrightarrow>
     unwrapped (connect_ip_termination_reason 0 0 (StreamReset 0x100)) (\<lambda>reset.
       contains ''HTTP/3 error code 256 (0x100)'' reset \<and> contains ''RFC 9484 tunnel is closed'' reset)
     \<and> unwrapped (connect_ip_termination_reason 0 0 StreamFinished) (\<lambda>finished.
       contains ''request stream 0 finished'' finished)
     \<and> connect_ip_termination_reason 0 4 (StreamReset 0x100) = None
     \<and> connect_ip_termination_reason 0 8 StreamFinished = None"

definition test_client_headers :: bool where
  "test_client_headers \<longleftrightarrow>
     (let headers = connect_request_headers Client ''usque-test'' False in
      header_value headers '':scheme'' = Some ''https'' \<and> header_value headers ''capsule-protocol'' = Some ''?1''
      \<and> header_value headers ''user-agent'' = Some ''usque-test'' \<and> header_value headers ''pq-enabled'' = None
      \<and> header_value headers ''cf-client-version'' = None)"

definition test_mesh_headers :: bool where
  "test_mesh_headers \<longleftrightarrow>
     (let headers = connect_request_headers (MeshNode ''0.7.0'') ''unused-in-mesh'' False in
      length headers = 7 \<and> header_value headers '':method'' = Some ''CONNECT''
      \<and> header_value headers '':protocol'' = Some ''cf-connect-ip'' \<and> header_value headers '':scheme'' = Some ''http''
      \<and> header_value headers ''pq-enabled'' = Some ''false''
      \<and> header_value headers ''cf-client-version'' = Some ''l-0.7.0''
      \<and> header_value headers ''capsule-protocol'' = None \<and> header_value headers ''user-agent'' = None)"

definition test_only_mesh_reports :: bool where
  "test_only_mesh_reports \<longleftrightarrow> \<not> reports_h3_stats Client \<and> reports_h3_stats (MeshNode ''0.7.0'')"

text \<open>The JSON that \<open>serde\<close> derives: the fields in their order, under their names.\<close>

definition quotes :: "string \<Rightarrow> string" where
  "quotes s = map (\<lambda>c. if c = CHR ''|'' then CHR 0x22 else c) s"

definition json_num :: "string \<Rightarrow> nat \<Rightarrow> string" where
  "json_num field v = quotes (''|'' @ field @ ''|:'') @ dec v"

definition json_object :: "string list \<Rightarrow> string" where
  "json_object members =
     ''{'' @ (case members of [] \<Rightarrow> [] | f # fs \<Rightarrow> f @ concat (map (\<lambda>g. CHR '','' # g) fs)) @ ''}''"

definition h3_stats_json :: "h3_stats_request \<Rightarrow> string" where
  "h3_stats_json req =
     (let s = stats_fields req in
      json_object
        [quotes (''|schema_version|:|'' @ schema_version req @ ''|''),
         quotes ''|stats|:'' @ json_object
           [json_num ''rtt_us'' (rtt_us s), json_num ''min_rtt_us'' (min_rtt_us s), json_num ''rtt_var_us'' (rtt_var_us s),
            json_num ''packets_sent'' (packets_sent s), json_num ''packets_recvd'' (packets_recvd s),
            json_num ''packets_lost'' (packets_lost s), json_num ''packets_retrans'' (packets_retrans s),
            json_num ''bytes_sent'' (unat (bytes_sent s)), json_num ''bytes_recvd'' (unat (bytes_recvd s)),
            json_num ''bytes_lost'' (unat (bytes_lost s)), json_num ''bytes_retrans'' (unat (bytes_retrans s))]])"

definition test_h3_request :: h3_stats_request where
  "test_h3_request =
     \<lparr>schema_version = ''0'',
      stats_fields = \<lparr>rtt_us = 16051, min_rtt_us = 15260, rtt_var_us = 2926, packets_sent = 18, packets_recvd = 13,
        packets_lost = 2, packets_retrans = 2, bytes_sent = 6171, bytes_recvd = 3898, bytes_lost = 111,
        bytes_retrans = 25\<rparr>\<rparr>"

definition test_h3_stats_schema :: bool where
  "test_h3_stats_schema \<longleftrightarrow>
     length h3_stats_request_headers = 4 \<and> header_value h3_stats_request_headers '':method'' = Some ''POST''
     \<and> header_value h3_stats_request_headers '':scheme'' = Some ''http''
     \<and> header_value h3_stats_request_headers '':authority'' = Some ''cloudflareaccess.com''
     \<and> header_value h3_stats_request_headers '':path'' = Some ''/h3-stats''
     \<and> h3_stats_json test_h3_request = quotes (''{|schema_version|:|0|,|stats|:{|rtt_us|:16051,|min_rtt_us|:15260,''
         @ ''|rtt_var_us|:2926,|packets_sent|:18,|packets_recvd|:13,|packets_lost|:2,|packets_retrans|:2,''
         @ ''|bytes_sent|:6171,|bytes_recvd|:3898,|bytes_lost|:111,|bytes_retrans|:25}}'')"

definition test_batch_size_bounded :: bool where
  "test_batch_size_bounded \<longleftrightarrow>
     batch_size (new_udp_batch 1250 0 0) = 1 \<and> batch_size (new_udp_batch 1250 32 0) = 32
     \<and> batch_size (new_udp_batch 1250 (MAX_UDP_BATCH_SIZE + 1) 0) = MAX_UDP_BATCH_SIZE"

lemma session_tests_pass: test_idle_timeout_millis test_client_headers test_mesh_headers test_only_mesh_reports
    test_batch_size_bounded
  by (simp_all add: test_idle_timeout_millis_def duration_millis_def clamp_nat_def u64_max_def secs_def
      test_client_headers_def test_mesh_headers_def test_only_mesh_reports_def connect_request_headers_def header_value_def
      reports_h3_stats_def test_batch_size_bounded_def new_udp_batch_def MAX_UDP_BATCH_SIZE_def Let_def)

lemma test_h3_stats_schema_passes: test_h3_stats_schema
  by (simp add: test_h3_stats_schema_def h3_stats_request_headers_def header_value_def h3_stats_json_def
      test_h3_request_def json_object_def json_num_def quotes_def dec.simps char_of_digits Let_def)

lemma test_stream_termination_passes: test_stream_termination
proof -
  have "dec 256 = ''256''" "hex 256 = ''100''" "dec 0 = ''0''"
    by (simp_all add: dec.simps hex.simps hex_digit_def char_of_digits)
  moreover have "contains ''HTTP/3 error code 256 (0x100)'' (''CONNECT-IP request stream 0 was reset by the peer with HTTP/3 error code 256''
      @ '' (0x100); the associated RFC 9484 tunnel is closed'')"
    "contains ''RFC 9484 tunnel is closed'' (''CONNECT-IP request stream 0 was reset by the peer with HTTP/3 error code 256''
      @ '' (0x100); the associated RFC 9484 tunnel is closed'')"
    "contains ''request stream 0 finished'' ''CONNECT-IP request stream 0 finished; the associated RFC 9484 tunnel is closed''"
    by code_simp+
  ultimately show ?thesis
    by (simp add: test_stream_termination_def connect_ip_termination_reason_def)
qed

section \<open>Handshake, supervisor and hooks\<close>

definition test_accepts_success :: bool where
  "test_accepts_success \<longleftrightarrow> is_ok (validate_connect_status ''200'') \<and> is_ok (validate_connect_status ''204'')"

text \<open>The messages of a refused CONNECT.\<close>

definition connect_status_text :: "handshake_error \<Rightarrow> string" where
  "connect_status_text e =
     (case e of
        LoginFailed \<Rightarrow> ''CONNECT rejected with 403; login failed or Access enrollment/certificate is not accepted''
      | ConnectRejected status \<Rightarrow> ''CONNECT rejected with status '' @ status
      | _ \<Rightarrow> [])"

definition unwrap_err :: "'e + 'a \<Rightarrow> ('e \<Rightarrow> bool) \<Rightarrow> bool" where
  "unwrap_err r assertions \<longleftrightarrow> (case r of Inl e \<Rightarrow> assertions e | Inr _ \<Rightarrow> False)"

definition test_rejection_diagnostics :: bool where
  "test_rejection_diagnostics \<longleftrightarrow>
     unwrap_err (validate_connect_status ''403'') (\<lambda>e.
       contains ''login failed or Access enrollment/certificate'' (connect_status_text e))
     \<and> unwrap_err (validate_connect_status ''500'') (\<lambda>e.
       connect_status_text e = ''CONNECT rejected with status 500'')"

definition test_preferred_endpoint :: bool where
  "test_preferred_endpoint \<longleftrightarrow> next_endpoint_index 0 7 True = 0 \<and> next_endpoint_index 4 7 True = 0"

definition test_rotates_fallbacks :: bool where
  "test_rotates_fallbacks \<longleftrightarrow>
     next_endpoint_index 0 7 False = 1 \<and> next_endpoint_index 5 7 False = 6 \<and> next_endpoint_index 6 7 False = 0"

definition test_empty_hook :: "('k, 'p, 'q, 'w, 'c, 'd) platform \<Rightarrow> ('w, 'd) host \<Rightarrow> bool" where
  "test_empty_hook pl ho \<longleftrightarrow> run_hook pl [] (\<lambda>_. None) ho = ho"

lemma handshake_tests_pass: test_accepts_success test_rejection_diagnostics
proof -
  show test_accepts_success
    by code_simp
  have "contains ''login failed or Access enrollment/certificate''
      ''CONNECT rejected with 403; login failed or Access enrollment/certificate is not accepted''"
    by code_simp
  then show test_rejection_diagnostics
    by (simp add: test_rejection_diagnostics_def unwrap_err_def validate_connect_status_def connect_status_text_def
        starts_with_def strip_prefix_def)
qed

lemma supervisor_tests_pass: test_preferred_endpoint test_rotates_fallbacks "test_empty_hook pl ho"
  by (simp_all add: test_preferred_endpoint_def test_rotates_fallbacks_def next_endpoint_index_def test_empty_hook_def
      run_hook_def)

section \<open>Socket buffers\<close>

definition tune_fake :: "nat \<Rightarrow> nat \<Rightarrow> nat \<Rightarrow> ((string + string socket_buffer_tuning) \<times> fake_socket_buffer) option" where
  "tune_fake initial maximum target =
     tune_socket_buffer fake_get fake_set target \<lparr>fake_current = initial, fake_maximum = maximum, fake_requests = []\<rparr>"

definition tuned :: "nat \<Rightarrow> nat \<Rightarrow> nat \<Rightarrow> (string socket_buffer_tuning \<Rightarrow> fake_socket_buffer \<Rightarrow> bool) \<Rightarrow> bool" where
  "tuned initial maximum target assertions \<longleftrightarrow>
     unwrapped (tune_fake initial maximum target) (\<lambda>(r, state).
       case r of Inl _ \<Rightarrow> False | Inr tuning \<Rightarrow> assertions tuning state)"

definition test_tuning_reaches_target :: bool where
  "test_tuning_reaches_target \<longleftrightarrow>
     (let target = 8 * 1024 * 1024 in
      tuned (32 * 1024) target target (\<lambda>tuning state.
        sb_target_accepted tuning \<and> sb_effective tuning = target
        \<and> fake_requests state \<noteq> [] \<and> last (fake_requests state) = target))"

definition test_tuning_refines_limit :: bool where
  "test_tuning_refines_limit \<longleftrightarrow>
     (let maximum = 3600000 in
      tuned (32 * 1024) maximum (8 * 1024 * 1024) (\<lambda>tuning _.
        \<not> sb_target_accepted tuning \<and> sb_limit_error tuning \<noteq> None \<and> sb_effective tuning \<le> maximum
        \<and> maximum - sb_effective tuning < UDP_SOCKET_BUFFER_SEARCH_GRANULARITY))"

definition test_tuning_retains_default :: bool where
  "test_tuning_retains_default \<longleftrightarrow>
     (let initial = 128 * 1024 in
      tuned initial (100 * 1024) (8 * 1024 * 1024) (\<lambda>tuning _.
        \<not> sb_target_accepted tuning \<and> sb_effective tuning = initial))"

definition test_tuning_keeps_large_default :: bool where
  "test_tuning_keeps_large_default \<longleftrightarrow>
     (let initial = 16 * 1024 * 1024 in
      tuned initial initial (8 * 1024 * 1024) (\<lambda>tuning state.
        sb_target_accepted tuning \<and> sb_effective tuning = initial \<and> fake_requests state = []))"

definition test_tuning_exact_target :: bool where
  "test_tuning_exact_target \<longleftrightarrow>
     (let target = 3500000 in
      tuned (32 * 1024) target target (\<lambda>tuning state.
        sb_target_accepted tuning \<and> sb_effective tuning = target
        \<and> fake_requests state \<noteq> [] \<and> last (fake_requests state) = target))"

definition test_pacing_diagnostics :: bool where
  "test_pacing_diagnostics \<longleftrightarrow>
     (let io = (new_udp_batch 1500 1 0)\<lparr>last_pacing_wait := 120000, max_pacing_wait := 450000, paced_sleeps := 3\<rparr> in
      case take_pacing_diagnostics io of (first, io1) \<Rightarrow>
        first = (120000, 450000, 3) \<and> fst (take_pacing_diagnostics io1) = (0, 0, 0))"

lemmas tuning_eval = tuned_def tune_fake_def tune_socket_buffer_def fake_get_def fake_set_def
  MIN_UDP_SOCKET_BUFFER_def UDP_SOCKET_BUFFER_SEARCH_GRANULARITY_def refine_midpoint_def refine_limit.simps
  usize_saturating_mul_def usize_max_def

lemma tuning_tests_pass: test_tuning_reaches_target test_tuning_retains_default test_tuning_keeps_large_default
    test_tuning_exact_target
  by (simp_all add: test_tuning_reaches_target_def test_tuning_retains_default_def test_tuning_keeps_large_default_def
      test_tuning_exact_target_def tuning_eval grow_buffer.simps)

lemma test_tuning_refines_limit_passes: test_tuning_refines_limit
  by (simp add: test_tuning_refines_limit_def tuning_eval grow_buffer.simps)

lemma test_pacing_diagnostics_passes: test_pacing_diagnostics
  by (simp add: test_pacing_diagnostics_def take_pacing_diagnostics_def)

end
