(* ===== verification/Api_Tests.thy ===== *)
theory Api_Tests
  imports Api_Wire Masque_Tests Access
begin

text \<open>
  The unit tests of \<open>models.rs\<close>, \<open>internal.rs\<close>, \<open>api/device_state.rs\<close>, \<open>api/cloudflare.rs\<close>, \<open>api/mesh.rs\<close> and
  \<open>api/access.rs\<close>, run on the model. \<open>serde_json\<close> and Base64 are any that read back what they write.
\<close>

text \<open>\<open>value[k]\<close>, \<open>value.get(k)\<close> and \<open>value[0]\<close>\<close>

definition lookup_key :: "string \<Rightarrow> json \<Rightarrow> json option" where
  "lookup_key k j = (case j of JObj es \<Rightarrow> map_of es k | _ \<Rightarrow> None)"

definition at_key :: "string \<Rightarrow> json \<Rightarrow> json" where
  "at_key k j = unwrap_or (lookup_key k j) JNull"

definition first_item :: "json \<Rightarrow> json" where
  "first_item j = (case j of JArr (x # _) \<Rightarrow> x | _ \<Rightarrow> JNull)"

lemma lookup_key_JObj [simp]: "lookup_key k (JObj es) = map_of es k"
  by (simp add: lookup_key_def)

section \<open>Answers\<close>

definition test_api_errors :: bool where
  "test_api_errors \<longleftrightarrow>
     unwrapped (api_error_of_json (JObj [(''errors'', JArr
       [JObj [(''message'', JStr ''first'')], JObj [(''message'', JStr ''second'')]])])) (\<lambda>errors.
       errors_as_string ''; '' errors = ''first; second''
       \<and> has_error_message ''second'' errors \<and> \<not> has_error_message ''Second'' errors)"

definition test_missing_fields :: bool where
  "test_missing_fields \<longleftrightarrow>
     unwrapped (account_data_of_json (JObj [])) (\<lambda>account.
       acc_id account = [] \<and> acc_token account = [] \<and> ac_peers (acc_config account) = []
       \<and> ad_v4 (ac_interface (acc_config account)) = [] \<and> ad_v6 (ac_interface (acc_config account)) = []
       \<and> \<not> po_switch_locked (acc_policy account))"

lemma account_of_empty: "account_data_of_json (JObj []) = Some default_account_data"
  by (simp add: account_data_of_json_def json_fields default_account_data_def)

lemma models_tests_pass: test_api_errors test_missing_fields
proof -
  show test_api_errors
    by (simp add: test_api_errors_def api_error_of_json_def error_info_of_json_def json_fields errors_as_string_def
        has_error_message_def)
  show test_missing_fields
    by (simp add: test_missing_fields_def account_of_empty) (simp add: default_account_data_def)
qed

section \<open>The client's identity\<close>

definition test_runtime_version :: bool where
  "test_runtime_version \<longleftrightarrow>
     (let identity = default_identity\<lparr>di_client_version := ''0.7.0''\<rparr> in
      runtime_client_version identity = CLIENT_VERSION \<and> runtime_client_version identity \<noteq> di_client_version identity)"

definition test_interface_names :: bool where
  "test_interface_names \<longleftrightarrow>
     is_ok (check_ifname ''tun0'') \<and> \<not> is_ok (check_ifname []) \<and> \<not> is_ok (check_ifname ''tun name'')
     \<and> \<not> is_ok (check_ifname ''tun/name'')"

definition to_ascii_lowercase :: "string \<Rightarrow> string" where
  "to_ascii_lowercase =
     map (\<lambda>c. let n = of_char c :: nat in if 65 \<le> n \<and> n \<le> 90 then char_of (n + 32) else c)"

definition test_user_agent :: bool where
  "test_user_agent \<longleftrightarrow>
     starts_with ''usque-nativetun/'' client_user_agent \<and> contains ''FreeBSD'' client_user_agent
     \<and> contains ''TunnelOnly'' client_user_agent \<and> contains ''MASQUE'' client_user_agent
     \<and> \<not> contains ''official'' (to_ascii_lowercase client_user_agent)"

lemma internal_tests_pass: test_runtime_version test_interface_names test_user_agent
proof -
  show test_runtime_version
    by (simp add: test_runtime_version_def runtime_client_version_def default_identity_def CLIENT_VERSION_def)
  show test_interface_names
    by code_simp
  show test_user_agent
    by code_simp
qed

section \<open>Reports\<close>

definition test_reporter_config :: reporter_config where
  "test_reporter_config =
     \<lparr>rc_account_id = ''account'', rc_registration_id = ''registration'', rc_access_token = ''secret'',
      rc_doh_subdomain = ''account.cloudflare-gateway.com'', rc_profile_id = ''default'', rc_switch_locked = False,
      rc_always_on = True, rc_client_version = ''0.7.0''\<rparr>"

definition test_strip_prefix :: bool where
  "test_strip_prefix \<longleftrightarrow>
     trimmed_registration_id ''t.019f90ca-b0ed-15df-bf78-9812f557cd08'' = ''019f90ca-b0ed-15df-bf78-9812f557cd08''"

definition test_wire_names :: "string \<Rightarrow> bool" where
  "test_wire_names now \<longleftrightarrow>
     (let v = payload_json (build_payload test_reporter_config (Connected 42) None no_host_snapshot now) in
      at_key ''status'' v = JStr ''Connected'' \<and> at_key ''mode'' v = JStr ''tunnel_only''
      \<and> at_key ''tunnel_type'' v = JStr ''masque'' \<and> at_key ''client_platform'' v = JStr ''freebsd''
      \<and> at_key ''handshake_latency_ms'' v = JInt 42 \<and> lookup_key ''system_info'' v = None
      \<and> at_key ''firewalls'' v = JObj [] \<and> lookup_key ''cpu_pct'' v = None \<and> lookup_key ''ram_used_pct'' v = None
      \<and> lookup_key ''disk_read_bps'' v = None \<and> at_key ''estimated_loss'' v = JNull
      \<and> lookup_key ''tunnelStatsUpstream'' v = None)"

definition test_metrics :: tunnel_metrics where
  "test_metrics =
     \<lparr>tm_local_ip = V4 0xC000020A, tm_rtt_us = 16000, tm_min_rtt_us = Some 12000, tm_rtt_var_us = 1500,
      tm_packets_sent_upstream = 100, tm_packets_received_downstream = 200, tm_packets_lost_upstream = 2,
      tm_packets_retransmitted_upstream = 1, tm_bytes_sent_upstream = 10000, tm_bytes_received_downstream = 20000,
      tm_bytes_lost_upstream = 240, tm_bytes_retransmitted_upstream = 120\<rparr>"

definition test_path_metrics :: "string \<Rightarrow> bool" where
  "test_path_metrics now \<longleftrightarrow>
     (let v = payload_json (build_payload test_reporter_config (Connected 42) (Some test_metrics) no_host_snapshot now);
          up = at_key ''tunnelStatsUpstream'' v; down = at_key ''tunnelStatsDownstream'' v in
      at_key ''handshake_latency_ms'' v = JInt 16 \<and> at_key ''estimated_loss'' v = JRat (round_rat 53 (2 / 100))
      \<and> at_key ''rtt_us'' up = JInt 16000 \<and> at_key ''packets_lost'' up = JInt 2 \<and> at_key ''bytes_retrans'' up = JInt 120
      \<and> at_key ''packets_sent'' down = JInt 200 \<and> at_key ''bytes_sent'' down = JInt 20000
      \<and> lookup_key ''packets_lost'' down = None \<and> lookup_key ''bytes_lost'' down = None)"

definition test_host :: host_snapshot where
  "test_host =
     \<lparr>hs_interface = Some \<lparr>sn_name = ''vtnet0'', sn_connection_type = ''ethernet'', sn_network_sent_bps = Some 12345,
        sn_network_rcvd_bps = Some 54321,
        sn_device_ipv4 = Some \<lparr>is_address = ''192.0.2.10'', is_netmask = ''255.255.255.0''\<rparr>,
        sn_device_ipv6 = Some \<lparr>is_address = ''2001:db8::10'', is_netmask = ''ffff:ffff:ffff:ffff::''\<rparr>\<rparr>,
      hs_cpu_pct = Some (1 / 4), hs_ram_used_pct = Some (1 / 2), hs_ram_available_kb = Some 1048576,
      hs_disk_usage_pct = Some (3 / 4)\<rparr>"

definition test_disconnected_payload :: "string \<Rightarrow> bool" where
  "test_disconnected_payload now \<longleftrightarrow>
     (let v = payload_json (build_payload test_reporter_config Disconnected (Some test_metrics) test_host now);
          interface = first_item (at_key ''interfaces'' v) in
      at_key ''status'' v = JStr ''Disconnected'' \<and> at_key ''handshake_latency_ms'' v = JNull
      \<and> at_key ''estimated_loss'' v = JNull \<and> lookup_key ''tunnelStatsUpstream'' v = None
      \<and> lookup_key ''tunnelStatsDownstream'' v = None \<and> at_key ''name'' interface = JStr ''vtnet0''
      \<and> at_key ''network_sent_bps'' interface = JInt 12345
      \<and> at_key ''address'' (at_key ''device_ipv4'' interface) = JStr ''192.0.2.10''
      \<and> at_key ''address'' (at_key ''device_ipv6'' interface) = JStr ''2001:db8::10''
      \<and> at_key ''cpu_pct'' v = JRat (1 / 4) \<and> at_key ''ram_used_pct'' v = JRat (1 / 2)
      \<and> at_key ''ram_available_kb'' v = JInt 1048576 \<and> at_key ''disk_usage_pct'' v = JRat (3 / 4))"

definition test_reporter_lifecycle :: bool where
  "test_reporter_lifecycle \<longleftrightarrow>
     (let updated = update_tunnel_metrics test_metrics \<lparr>rp_state = None, rp_metrics = None\<rparr>;
          up = connected (42 * 10 ^ 6) updated; down = disconnected up in
      rp_metrics updated = Some test_metrics \<and> rp_state up = Some (Connected 42)
      \<and> rp_state down = Some Disconnected \<and> rp_metrics down = None)"

lemmas payload_json_defs = payload_json_def build_payload_def json_fields json_list_def json_nat_def json_u64_def
  at_key_def no_host_snapshot_def state_status_def reported_latency_def test_reporter_config_def

lemma device_state_tests_pass:
  test_strip_prefix "test_wire_names now" "test_path_metrics now" "test_disconnected_payload now"
  test_reporter_lifecycle
proof -
  show test_strip_prefix
    by code_simp
  show "test_wire_names now"
    by (simp add: test_wire_names_def payload_json_defs Let_def)
  have "f64_of_nat 2 = 2" "f64_of_nat 100 = 100"
    by (simp_all add: f64_of_nat_def round_rat_def round_ratio_def scale_def scaled_at_def round_half_even_def bit_len.simps)
  then show "test_path_metrics now"
    by (simp add: test_path_metrics_def payload_json_defs Let_def test_metrics_def tunnel_stats_json_def
        stats_upstream_def stats_downstream_def loss_of_def f64_div_def)
  show "test_disconnected_payload now"
    by (simp add: test_disconnected_payload_def payload_json_defs Let_def test_host_def first_item_def
        interface_info_json_def interface_info_of_def ip_info_of_def ip_info_json_def)
  show test_reporter_lifecycle
    by (simp add: test_reporter_lifecycle_def update_tunnel_metrics_def connected_def disconnected_def Let_def u64_max_def)
qed

section \<open>The client of the API\<close>

text \<open>\<open>serde_json\<close> reads what it writes; the server answers one status and body, and keeps the requests.\<close>

definition reads_back :: "(json \<Rightarrow> bytes) \<Rightarrow> (bytes \<Rightarrow> string + json) \<Rightarrow> bool" where
  "reads_back to_vec from_slice \<longleftrightarrow> (\<forall>j. from_slice (to_vec j) = Inr j \<and> to_vec j \<noteq> [])"

definition serve_once ::
    "(json \<Rightarrow> bytes) \<Rightarrow> (bytes \<Rightarrow> string + json) \<Rightarrow> (bytes \<Rightarrow> string) \<Rightarrow> nat \<Rightarrow> json \<Rightarrow> http_request list web" where
  "serve_once to_vec from_slice base64 status body =
     serde_web from_slice (\<lambda>_. ''invalid type'')
       \<lparr>wb_send = \<lambda>req w. (Inr \<lparr>rs_status = status, rs_location = None, rs_body = Inr (to_vec body)\<rparr>, w @ [req]),
        wb_account = \<lambda>_. Inl [], wb_api_error = \<lambda>_. Inl [], wb_json = \<lambda>_. Inl [], wb_account_of_json = \<lambda>_. Inl [],
        wb_base64 = base64, wb_cf_time = \<lambda>w. (''2026-07-25T00:00:00Z'', w), wb_read_line = op_fail []\<rparr>"

definition local_system :: system where
  "local_system = sample_system\<lparr>sy_env := [''USQUE_API_URL'' \<mapsto> ''http://127.0.0.1:8080'']\<rparr>"

definition test_identity :: device_identity where
  "test_identity =
     \<lparr>di_name = ''freebsd-test'', di_device_type = ''FreeBSD'', di_manufacturer = ''FreeBSD Project'',
      di_model = ''FreeBSD'', di_os_version = ''15.0'', di_client_version = CLIENT_VERSION,
      di_serial_number = ''stable-serial'', di_locale = ''en_US''\<rparr>"

definition sent_body :: "http_request \<Rightarrow> json" where
  "sent_body req = unwrap_or (body_json (rq_body req)) JNull"

definition account_answer :: "string \<Rightarrow> json" where
  "account_answer token = JObj [(''id'', JStr ''t.registration''), (''token'', JStr token)]"

definition error_answer :: "string \<Rightarrow> json" where
  "error_answer message = JObj [(''errors'', JArr [JObj [(''message'', JStr message)]])]"

definition test_account :: account_data where
  "test_account = default_account_data\<lparr>acc_id := ''t.registration'', acc_token := ''access''\<rparr>"

definition test_register_contract ::
    "(json \<Rightarrow> bytes) \<Rightarrow> (bytes \<Rightarrow> string + json) \<Rightarrow> (bytes \<Rightarrow> string) \<Rightarrow> bool" where
  "test_register_contract to_vec from_slice base64 \<longleftrightarrow>
     (let web = serve_once to_vec from_slice base64 200 (account_answer ''access'') in
      (case register local_system web test_identity (replicate 65 7) (Some ''jwt-value'') True [] of
         (Inr registered, [req]) \<Rightarrow>
           acc_id registered = ''t.registration'' \<and> rq_method req = Post
           \<and> rq_url req = ''http://127.0.0.1:8080/v0a4471/reg''
           \<and> (''CF-Access-Jwt-Assertion'', ''jwt-value'') \<in> set (rq_headers req)
           \<and> (''Content-Type'', ''application/json; charset=UTF-8'') \<in> set (rq_headers req)
           \<and> at_key ''type'' (sent_body req) = JStr ''FreeBSD''
           \<and> at_key ''key_type'' (sent_body req) = JStr KEY_TYPE_MASQUE
           \<and> at_key ''tunnel_type'' (sent_body req) = JStr TUN_TYPE_MASQUE
           \<and> at_key ''key'' (sent_body req) = JStr (base64 (replicate 65 7))
       | _ \<Rightarrow> False))"

definition test_enroll_contract ::
    "(json \<Rightarrow> bytes) \<Rightarrow> (bytes \<Rightarrow> string + json) \<Rightarrow> (bytes \<Rightarrow> string) \<Rightarrow> bool" where
  "test_enroll_contract to_vec from_slice base64 \<longleftrightarrow>
     (let web = serve_once to_vec from_slice base64 200 (account_answer ''renewed'') in
      (case enroll_key local_system web test_account (replicate 65 7) test_identity [] of
         (Inr enrolled, [req]) \<Rightarrow>
           acc_token enrolled = ''renewed'' \<and> rq_method req = Patch
           \<and> rq_url req = ''http://127.0.0.1:8080/v0a4471/reg/t.registration''
           \<and> (''Authorization'', ''Bearer access'') \<in> set (rq_headers req)
           \<and> at_key ''name'' (sent_body req) = JStr ''freebsd-test''
           \<and> at_key ''manufacturer'' (sent_body req) = JStr ''FreeBSD Project''
       | _ \<Rightarrow> False))
     \<and> (let web = serve_once to_vec from_slice base64 403 (error_answer ''enrollment denied'') in
        (case enroll_key local_system web test_account (replicate 65 7) test_identity [] of
           (Inl (EnrollApi status api_error), _) \<Rightarrow> status = 403 \<and> has_error_message ''enrollment denied'' api_error
         | _ \<Rightarrow> False))"

definition test_fetch_contract ::
    "(json \<Rightarrow> bytes) \<Rightarrow> (bytes \<Rightarrow> string + json) \<Rightarrow> (bytes \<Rightarrow> string) \<Rightarrow> bool" where
  "test_fetch_contract to_vec from_slice base64 \<longleftrightarrow>
     (let web = serve_once to_vec from_slice base64 200 (account_answer ''current'') in
      (case get_registration local_system web ''t.registration'' ''access'' [] of
         (Inr fetched, [req]) \<Rightarrow>
           acc_token fetched = ''current'' \<and> rq_method req = Get
           \<and> rq_url req = ''http://127.0.0.1:8080/v0a4471/reg/t.registration''
           \<and> (''Authorization'', ''Bearer access'') \<in> set (rq_headers req)
       | _ \<Rightarrow> False))
     \<and> (let web = serve_once to_vec from_slice base64 401 (error_answer ''expired token'') in
        (case get_registration local_system web ''t.registration'' ''expired'' [] of
           (Inl (api_failure.Refused status api_error), _) \<Rightarrow> status = 401 \<and> errors_as_string ''; '' api_error = ''expired token''
         | _ \<Rightarrow> False))"

lemma local_system_url: "api_url local_system = ''http://127.0.0.1:8080''" "api_version local_system = ''v0a4471''"
  by (simp_all add: local_system_def api_url_def api_version_def API_VERSION_def sample_system_def)

lemma account_answer_read:
  "account_data_of_json (account_answer token) =
     Some (default_account_data\<lparr>acc_id := ''t.registration'', acc_token := token\<rparr>)"
  by (simp add: account_data_of_json_def json_fields default_account_data_def account_answer_def)

lemma error_answer_read: "api_error_of_json (error_answer message) = Some \<lparr>ae_errors = [\<lparr>ei_message = message\<rparr>]\<rparr>"
  by (simp add: error_answer_def api_error_of_json_def error_info_of_json_def json_fields)

lemmas serve_defs = serve_once_def serde_web_def read_as_def op_simps header_field_def client_headers_def
  new_request_def local_system_url account_answer_read error_answer_read STATUS_OK_def api_error_of_def ok_or_def
  sent_body_def at_key_def

lemma cloudflare_tests_pass:
  assumes "reads_back to_vec from_slice"
  shows "test_register_contract to_vec from_slice base64" "test_enroll_contract to_vec from_slice base64"
    "test_fetch_contract to_vec from_slice base64"
proof -
  have reads: "from_slice (to_vec j) = Inr j" for j
    using assms by (simp add: reads_back_def)
  show "test_register_contract to_vec from_slice base64"
    by (simp add: test_register_contract_def register_def serve_defs reads register_request_def registration_of_def
        confirm_tos_def cf_time_def test_identity_def registration_json_def)
  show "test_enroll_contract to_vec from_slice base64"
    by (simp add: test_enroll_contract_def enroll_key_def serve_defs reads enroll_request_def device_update_of_def
        test_identity_def test_account_def device_update_json_def json_fields has_error_message_def)
  show "test_fetch_contract to_vec from_slice base64"
    by (simp add: test_fetch_contract_def get_registration_def exchange_def serve_defs reads bearer_auth_def
        errors_as_string_def)
qed

section \<open>Mesh nodes\<close>

text \<open>
  Base64 decodes what it encodes, and no other alphabet decodes an encoded text to something else; the
  payload of a token is read as JSON.
\<close>

definition codecs_read ::
    "token_codecs \<Rightarrow> (bytes \<Rightarrow> string) \<Rightarrow> (bytes \<Rightarrow> string) \<Rightarrow> (bytes \<Rightarrow> string + json) \<Rightarrow> bool" where
  "codecs_read tk standard url_safe from_slice \<longleftrightarrow>
     (\<forall>b. tk_standard tk (standard b) = Inr b \<and> (b \<noteq> [] \<longrightarrow> standard b \<noteq> []))
     \<and> (\<forall>b. decode_token tk (url_safe b) = Inr b \<and> (b \<noteq> [] \<longrightarrow> url_safe b \<noteq> []))
     \<and> tk_payload tk = read_as from_slice (\<lambda>_. ''invalid type'') token_payload_of_json"

definition test_compact_token ::
    "token_codecs \<Rightarrow> (bytes \<Rightarrow> string) \<Rightarrow> (json \<Rightarrow> bytes) \<Rightarrow> bool" where
  "test_compact_token tk standard to_vec \<longleftrightarrow>
     (let token = standard (to_vec (JObj [(''a'', JStr ''0123456789abcdef0123456789abcdef''),
            (''t'', JStr ''12345678-1234-1234-1234-123456789abc''), (''s'', JStr (standard (replicate 32 7)))])) in
      (case parse_token tk token of
         Inr parsed \<Rightarrow>
           mt_account_tag parsed = ''0123456789abcdef0123456789abcdef''
           \<and> mt_tunnel_id parsed = ''12345678-1234-1234-1234-123456789abc''
           \<and> (''encoded'', ''<redacted>'') \<in> set (debug_token parsed)
       | Inl _ \<Rightarrow> False))"

definition test_token_aliases :: "token_codecs \<Rightarrow> (bytes \<Rightarrow> string) \<Rightarrow> (json \<Rightarrow> bytes) \<Rightarrow> bool" where
  "test_token_aliases tk url_safe to_vec \<longleftrightarrow>
     is_ok (parse_token tk (url_safe (to_vec (JObj [(''account_tag'', JStr ''fedcba9876543210fedcba9876543210''),
       (''tunnel_id'', JStr ''aaaaaaaa-bbbb-cccc-dddd-eeeeeeeeeeee''),
       (''tunnel_secret'', JStr (url_safe (replicate 32 9)))]))))"

definition test_malformed_token :: "token_codecs \<Rightarrow> (bytes \<Rightarrow> string) \<Rightarrow> (json \<Rightarrow> bytes) \<Rightarrow> bool" where
  "test_malformed_token tk standard to_vec \<longleftrightarrow>
     \<not> is_ok (parse_token tk (standard (to_vec (JObj [(''a'', JStr ''not-an-account''), (''t'', JStr ''not-a-uuid''),
       (''s'', JStr (standard (replicate 8 1)))]))))"

lemma token_payload_read:
  "token_payload_of_json (JObj [(''a'', JStr a), (''t'', JStr t), (''s'', JStr s)]) =
     Some \<lparr>tp_account_tag = a, tp_tunnel_id = t, tp_tunnel_secret = s\<rparr>"
  "token_payload_of_json (JObj [(''account_tag'', JStr a), (''tunnel_id'', JStr t), (''tunnel_secret'', JStr s)]) =
     Some \<lparr>tp_account_tag = a, tp_tunnel_id = t, tp_tunnel_secret = s\<rparr>"
  by (simp_all add: token_payload_of_json_def token_field_def required_field_def)

lemma test_token_ids:
  "list_all is_ascii_hexdigit ''0123456789abcdef0123456789abcdef''" "is_uuid_like ''12345678-1234-1234-1234-123456789abc''"
  "list_all is_ascii_hexdigit ''fedcba9876543210fedcba9876543210''" "is_uuid_like ''aaaaaaaa-bbbb-cccc-dddd-eeeeeeeeeeee''"
  by code_simp+

lemma token_tests_pass:
  assumes "reads_back to_vec from_slice" "codecs_read tk standard url_safe from_slice"
  shows "test_compact_token tk standard to_vec" "test_token_aliases tk url_safe to_vec"
    "test_malformed_token tk standard to_vec"
proof -
  have json: "from_slice (to_vec j) = Inr j" "to_vec j \<noteq> []" for j
    using assms(1) by (simp_all add: reads_back_def)
  have standard: "decode_token tk (standard b) = Inr b" "b \<noteq> [] \<Longrightarrow> standard b \<noteq> []" for b
    using assms(2) by (simp_all add: codecs_read_def decode_token_def result_or_else_def)
  have url_safe: "decode_token tk (url_safe b) = Inr b" "b \<noteq> [] \<Longrightarrow> url_safe b \<noteq> []" for b
    using assms(2) by (simp_all add: codecs_read_def)
  have payload: "tk_payload tk = read_as from_slice (\<lambda>_. ''invalid type'') token_payload_of_json"
    using assms(2) by (simp add: codecs_read_def)
  note facts = json standard url_safe payload token_payload_read read_as_def ok_or_def parse_token_def
  show "test_compact_token tk standard to_vec"
    using test_token_ids by (simp add: test_compact_token_def facts debug_token_def Let_def)
  show "test_token_aliases tk url_safe to_vec"
    using test_token_ids by (simp add: test_token_aliases_def facts Let_def)
  show "test_malformed_token tk standard to_vec"
    by (simp add: test_malformed_token_def facts)
qed

text \<open>A file of the user with a mode and a text; reading it gives all of the text.\<close>

definition test_file :: "u32 \<Rightarrow> bool \<Rightarrow> string \<Rightarrow> (unit, 'w) disk" where
  "test_file mode symlink content =
     (let m = \<lparr>fm_is_symlink = symlink, fm_is_file = \<not> symlink, fm_len = length content, fm_uid = 0, fm_mode = mode\<rparr>
      in \<lparr>dk_exists = \<lambda>_ _. True, dk_symlink_metadata = \<lambda>_. op_return m, dk_metadata = \<lambda>_. op_return m,
          dk_open = \<lambda>_. op_return (), dk_handle_metadata = \<lambda>_. op_return m, dk_take = \<lambda>_ _. op_return content,
          dk_read_to_string = \<lambda>_. op_return content, dk_geteuid = 0\<rparr>)"

definition test_permissive_token_file :: "token_codecs \<Rightarrow> bool" where
  "test_permissive_token_file tk \<longleftrightarrow>
     fst (read_token (test_file 0x1A4 False (''secret'' @ [CHR 0x0A])) tk ''/tmp/token'' ()) = Inl (TokenFile GroupAccessible)"

definition test_connector_shape :: bool where
  "test_connector_shape \<longleftrightarrow>
     (let v = mesh_registration_json
        \<lparr>mr_device_type = CONNECTOR_REGISTRATION_PLATFORM, mr_model = CONNECTOR_REGISTRATION_PLATFORM,
         mr_name = ''mesh-test'', mr_key = ''public-key'', mr_key_type = KEY_TYPE_MASQUE,
         mr_tunnel_type = TUN_TYPE_MASQUE, mr_os_version = ''15.0'', mr_serial_number = ''stable-test-serial'',
         mr_warp_connector_token = ''<redacted-test-token>'', mr_tos = ''2026-07-25T00:00:00Z''\<rparr> in
      at_key ''type'' v = JStr ''linux'' \<and> at_key ''model'' v = JStr ''linux'' \<and> at_key ''os_version'' v = JStr ''15.0''
      \<and> at_key ''key_type'' v = JStr KEY_TYPE_MASQUE \<and> at_key ''tunnel_type'' v = JStr TUN_TYPE_MASQUE
      \<and> lookup_key ''manufacturer'' v = None \<and> lookup_key ''locale'' v = None \<and> lookup_key ''install_id'' v = None
      \<and> lookup_key ''fcm_token'' v = None \<and> (\<exists>es. v = JObj es \<and> length es = 10))"

definition test_bare_uuid :: bool where
  "test_bare_uuid \<longleftrightarrow>
     (let uuid = ''12345678-1234-1234-1234-123456789abc'' in
      normalize_registration_id uuid = uuid \<and> normalize_registration_id (''t.'' @ uuid) = uuid)"

definition test_enveloped_answer ::
    "(json \<Rightarrow> bytes) \<Rightarrow> (bytes \<Rightarrow> string + json) \<Rightarrow> (bytes \<Rightarrow> string) \<Rightarrow> bool" where
  "test_enveloped_answer to_vec from_slice base64 \<longleftrightarrow>
     (let web = serve_once to_vec from_slice base64 200 JNull; direct = account_answer ''access-token'';
          enveloped = JObj [(''success'', JBool True), (''errors'', JArr []), (''messages'', JArr []), (''result'', direct)] in
      (case (decode_account_data_response web (to_vec direct), decode_account_data_response web (to_vec enveloped)) of
         (Inr a, Inr b) \<Rightarrow> acc_id a = acc_id b \<and> acc_token a = ''access-token'' \<and> acc_token b = ''access-token''
       | _ \<Rightarrow> False))"

lemma mesh_tests_pass: "test_permissive_token_file tk" test_connector_shape test_bare_uuid
proof -
  show "test_permissive_token_file tk"
    by (simp add: test_permissive_token_file_def test_file_def read_token_def validate_private_file_def op_simps
        group_accessible_def Let_def)
  show test_connector_shape
    by (simp add: test_connector_shape_def mesh_registration_json_def at_key_def CONNECTOR_REGISTRATION_PLATFORM_def Let_def)
  show test_bare_uuid
    by code_simp
qed

lemma test_enveloped_answer_passes:
  assumes "reads_back to_vec from_slice"
  shows "test_enveloped_answer to_vec from_slice base64"
proof -
  have "from_slice (to_vec j) = Inr j" for j
    using assms by (simp add: reads_back_def)
  moreover have "account_answer token = JObj [(''id'', JStr ''t.registration''), (''token'', JStr token)]" for token
    by (simp add: account_answer_def)
  moreover note account_answer_read [unfolded account_answer_def]
  ultimately show ?thesis
    by (simp add: test_enveloped_answer_def decode_account_data_response_def serve_once_def serde_web_def json_field_def
        ok_or_def Let_def)
qed

section \<open>Access\<close>

definition test_service_token_headers :: bool where
  "test_service_token_headers \<longleftrightarrow>
     (let headers = rq_headers (service_token_request (sample_url ''https://example.cloudflareaccess.com/warp'') sample_settings) in
      header_value headers ''CF-Access-Client-Id'' = Some ''id.access''
      \<and> header_value headers ''CF-Access-Client-Secret'' = Some ''secret''
      \<and> header_value headers ''CF-Access-Jwt-Assertion'' = None \<and> header_value headers ''CF-Client-Version'' = None
      \<and> header_value headers ''User-Agent'' = None)"

text \<open>What the URL parser makes of the callback at hand.\<close>

definition callback_result :: "url \<Rightarrow> access_error + string" where
  "callback_result u =
     parse_callback
       \<lparr>ac_parse_url = \<lambda>_. Inr u, ac_to_str = \<lambda>_. Inr (url_text u), ac_build = Inr (),
        ac_send = \<lambda>_ w. (Inl [], w :: unit)\<rparr> [] ''example.cloudflareaccess.com''"

definition test_callback :: url where
  "test_callback = sample_url
     ''com.cloudflare.warp://example.cloudflareaccess.com/auth?token=header.payload.signature''"

definition test_callback_origin :: bool where
  "test_callback_origin \<longleftrightarrow>
     callback_result test_callback = Inr ''header.payload.signature''
     \<and> \<not> is_ok (callback_result (test_callback
          \<lparr>url_scheme := ''https'', url_path := ''/cdn-cgi/access/login/example.cloudflareaccess.com'', url_query_pairs := []\<rparr>))
     \<and> \<not> is_ok (callback_result (test_callback\<lparr>url_host_str := Some ''wrong.example''\<rparr>))
     \<and> \<not> is_ok (callback_result (test_callback\<lparr>url_port := Some 443\<rparr>))
     \<and> \<not> is_ok (callback_result (test_callback\<lparr>url_username := ''user''\<rparr>))
     \<and> \<not> is_ok (callback_result (test_callback\<lparr>url_fragment := Some ''fragment''\<rparr>))
     \<and> \<not> is_ok (callback_result (test_callback
          \<lparr>url_query_pairs := [(''token'', ''one.two.three''), (''token'', ''four.five.six'')]\<rparr>))"

lemma access_tests_pass: test_service_token_headers test_callback_origin
proof -
  show test_service_token_headers
    by (simp add: test_service_token_headers_def service_token_request_def header_field_def new_request_def header_value_def
        ACCESS_CLIENT_ID_HEADER_def ACCESS_CLIENT_SECRET_HEADER_def sample_url_def sample_settings_def)
  show test_callback_origin
    by (simp add: test_callback_origin_def callback_result_def test_callback_def sample_url_def parse_callback_def
        valid_origin_def callback_token_def invalid_jwt_def one_line_def length_split_on)
qed

end
