(* ===== verification/Ip_Text.thy ===== *)
theory Ip_Text
  imports Net_Show
begin

text \<open>
  What \<open>Display\<close> prints of an IP address \<open>FromStr\<close> reads back: the groups of an IPv6 address are read
  up to its compression, which stands for a run of zero groups of the length that is missing.
\<close>

section \<open>Hexadecimal groups\<close>

lemma to_digit_hex [simp]: "n < 16 \<Longrightarrow> to_digit 16 (hex_digit n) = Some n"
  by (simp add: to_digit_def hex_digit_def)

lemma hex_digit_not_dot: "n < 16 \<Longrightarrow> hex_digit n \<noteq> CHR ''.''"
proof
  assume "n < 16" "hex_digit n = CHR ''.''"
  moreover have "to_digit 16 (CHR ''.'') = None"
    by (simp add: to_digit_def)
  ultimately show False
    using to_digit_hex [of n] by simp
qed

lemma no_dot_hex: "CHR ''.'' \<notin> set (hex n)"
proof (induction n rule: hex.induct)
  case (1 n)
  then show ?case
    using hex_digit_not_dot [of n] hex_digit_not_dot [of "n mod 16"] by (auto simp: hex.simps [of n])
qed

lemma no_dot_segments: "CHR ''.'' \<notin> set (show_segments gs)"
  using no_dot_hex by (induction gs rule: show_segments.induct) auto

lemma show_segments_Cons:
  "show_segments (g # gs) = hex g @ (if gs = [] then [] else CHR '':'' # show_segments gs)"
  by (cases gs) simp_all

lemma read_digits_hex:
  assumes "length (hex n) + count \<le> max_digits" "rest = [] \<or> to_digit 16 (hd rest) = None"
  shows "read_digits 16 max_digits acc count (hex n @ rest) =
    Some (acc * 16 ^ length (hex n) + n, count + length (hex n), rest)"
proof -
  have stop: "read_digits 16 max_digits acc count rest = Some (acc, count, rest)" for acc count
    using assms(2) by (cases rest) auto
  have "read_digits 16 max_digits acc count (hex n @ cs) =
      read_digits 16 max_digits (acc * 16 ^ length (hex n) + n) (count + length (hex n)) cs"
    if "length (hex n) + count \<le> max_digits" for n cs acc count
    using that
  proof (induction n arbitrary: cs acc count rule: hex.induct)
    case (1 n)
    show ?case
    proof (cases "n < 16")
      case True
      with "1.prems" show ?thesis
        by (simp add: hex.simps [of n])
    next
      case False
      have "n div 16 * 16 + n mod 16 = n"
        by (rule div_mult_mod_eq)
      with False 1 show ?thesis
        by (simp add: hex.simps [of n] algebra_simps)
    qed
  qed
  then show ?thesis
    using assms(1) by (simp add: stop)
qed

lemma length_hex_group: "g < 65536 \<Longrightarrow> length (hex g) \<le> 4"
  by (simp add: hex.simps [of g] hex.simps [of "g div 16"] hex.simps [of "g div 16 div 16"]
      hex.simps [of "g div 16 div 16 div 16"])

lemma hex_nonempty [simp]: "hex n \<noteq> []"
  by (simp add: hex.simps [of n])

lemma read_group_hex:
  assumes "g < 65536" "rest = [] \<or> to_digit 16 (hd rest) = None"
  shows "read_number 16 4 True 65535 (hex g @ rest) = Some (g, rest)"
  using assms read_digits_hex [of g 0 4 rest 0] length_hex_group [of g]
  by (simp add: read_number_def)

section \<open>Without a dot there is no IPv4 address\<close>

lemma read_digits_rest: "read_digits radix m acc count s = Some (v, k, rest) \<Longrightarrow> set rest \<subseteq> set s"
  by (induction s arbitrary: acc count) (fastforce split: option.splits if_splits)+

lemma read_number_rest: "read_number radix m z b s = Some (v, rest) \<Longrightarrow> set rest \<subseteq> set s"
  by (auto simp: read_number_def bind_eq_Some_conv split: if_splits dest!: read_digits_rest)

lemma read_ipv4_no_dot:
  assumes "CHR ''.'' \<notin> set s"
  shows "read_ipv4 s = None"
proof (cases "read_number 10 3 False 255 s")
  case (Some r)
  obtain v rest where r: "r = (v, rest)"
    by fastforce
  then have "CHR ''.'' \<notin> set rest"
    using assms read_number_rest Some by blast
  then have "read_char CHR ''.'' rest = None"
    by (auto simp: read_char_def split: list.splits)
  then show ?thesis
    using Some r by (simp add: read_ipv4_def read_separator_def Let_def)
qed (simp add: read_ipv4_def read_separator_def Let_def)

lemma colon_no_digit: "to_digit 10 (CHR '':'') = None" "to_digit 16 (CHR '':'') = None"
  by (simp_all add: to_digit_def)

lemma read_number_colon:
  "read_number 10 m z b (CHR '':'' # s) = None" "read_number 16 m z b (CHR '':'' # s) = None"
  by (simp_all add: read_number_def colon_no_digit)

lemma read_number_Nil: "read_number radix m z b [] = None"
  by (simp add: read_number_def)

lemma read_ipv4_colon: "read_ipv4 (CHR '':'' # s) = None"
  by (simp add: read_ipv4_def read_separator_def read_number_colon)

section \<open>Groups are read back\<close>

text \<open>After the groups the string ends, or the compression follows.\<close>

definition ends_groups :: "string \<Rightarrow> bool" where
  "ends_groups rest \<longleftrightarrow> rest = [] \<or> (\<exists>r. rest = CHR '':'' # CHR '':'' # r)"

lemma ends_groups_simps [simp]: "ends_groups []" "ends_groups (CHR '':'' # CHR '':'' # r)"
  by (simp_all add: ends_groups_def)

lemma read_groups_end:
  assumes "ends_groups rest" "CHR ''.'' \<notin> set rest"
  shows "read_groups limit index rest = ([], False, rest)"
proof (cases "rest = []")
  case True
  then show ?thesis
    by (simp add: read_groups.simps [of limit] read_separator_def read_char_def read_number_Nil read_ipv4_no_dot)
next
  case False
  then obtain r where r: "rest = CHR '':'' # CHR '':'' # r"
    using assms(1) by (auto simp: ends_groups_def)
  then show ?thesis
    using assms(2)
    by (simp add: read_groups.simps [of limit] read_separator_def read_char_def read_number_colon read_ipv4_colon)
qed

lemma read_groups_show:
  assumes "\<forall>g\<in>set gs. g < 65536" "index + length gs \<le> limit" "ends_groups rest" "CHR ''.'' \<notin> set rest"
  shows "read_groups limit index ((if gs = [] \<or> index = 0 then [] else '':'') @ show_segments gs @ rest) = (gs, False, rest)"
  using assms(1,2)
proof (induction gs arbitrary: index)
  case Nil
  then show ?case
    using read_groups_end [OF assms(3,4)] by simp
next
  case (Cons g gs)
  define more where "more = (if gs = [] then [] else '':'') @ show_segments gs @ rest"
  have line: "show_segments (g # gs) @ rest = hex g @ more"
    by (simp add: show_segments_Cons more_def)
  have "hd more = CHR '':''" if "more \<noteq> []"
    using that assms(3) by (auto simp: ends_groups_def more_def)
  then have "more = [] \<or> to_digit 16 (hd more) = None"
    by (metis colon_no_digit(2))
  then have g: "read_number 16 4 True 65535 (hex g @ more) = Some (g, more)"
    using Cons.prems(1) by (intro read_group_hex) simp_all
  have "CHR ''.'' \<notin> set (hex g @ more)"
    using no_dot_hex no_dot_segments assms(4) by (auto simp: more_def)
  then have v4: "read_ipv4 (hex g @ more) = None"
    by (rule read_ipv4_no_dot)
  have "read_groups limit (index + 1) more = (gs, False, rest)"
    using Cons.IH [of "index + 1"] Cons.prems by (simp add: more_def)
  then show ?case
    unfolding line using Cons.prems(2) g v4
    by (subst read_groups.simps) (auto simp: read_separator_def read_char_def)
qed

section \<open>The compression\<close>

text \<open>\<open>n\<close> zeros from \<open>s\<close> on.\<close>

definition zeros_at :: "nat list \<Rightarrow> nat \<times> nat \<Rightarrow> bool" where
  "zeros_at xs r \<longleftrightarrow> fst r + snd r \<le> length xs \<and> take (snd r) (drop (fst r) xs) = replicate (snd r) 0"

lemma zeros_at_append: "zeros_at xs r \<Longrightarrow> zeros_at (xs @ ys) r"
  by (auto simp: zeros_at_def)

lemma zeros_at_more:
  assumes "zeros_at xs (s, n)" "n = 0 \<or> s + n = length xs"
  shows "zeros_at (xs @ [0]) (if n = 0 then length xs else s, n + 1)"
  using assms by (auto simp: zeros_at_def replicate_append_same)

lemma zero_run_zeros:
  assumes "zeros_at xs cur" "snd cur = 0 \<or> fst cur + snd cur = length xs" "zeros_at xs best"
  shows "zeros_at (xs @ ss) (zero_run ss (length xs) cur best)"
  using assms
proof (induction ss arbitrary: xs cur best)
  case (Cons x ss)
  obtain s n where cur: "cur = (s, n)"
    by fastforce
  show ?case
  proof (cases "x = 0")
    case True
    let ?cur = "(if n = 0 then length xs else s, n + 1)"
    let ?best = "if snd best < snd ?cur then ?cur else best"
    have cur': "zeros_at (xs @ [0]) ?cur"
      using Cons.prems(1,2) cur by (intro zeros_at_more) simp_all
    then have "zeros_at (xs @ [0]) ?best"
      using zeros_at_append [OF Cons.prems(3), of "[0]"] by simp
    then have "zeros_at ((xs @ [0]) @ ss) (zero_run ss (length (xs @ [0])) ?cur ?best)"
      using Cons.prems(2) cur cur' by (intro Cons.IH) auto
    then show ?thesis
      using True cur by (cases "n = 0") (simp_all add: Let_def split: if_splits)
  next
    case False
    then show ?thesis
      using cur Cons.IH [of "xs @ [x]" "(0, 0)" best] zeros_at_append [OF Cons.prems(3), of "[x]"]
      by (simp add: zeros_at_def)
  qed
qed simp

lemma zeros_at_split:
  assumes "zeros_at xs (s, n)"
  shows "take s xs @ replicate n 0 @ drop (s + n) xs = xs"
proof -
  have "take s xs @ take n (drop s xs) @ drop n (drop s xs) = xs"
    by (simp only: append_take_drop_id)
  then show ?thesis
    using assms by (simp add: zeros_at_def add.commute)
qed

section \<open>Addresses\<close>

lemma v6_segments_lt: "\<forall>g\<in>set (v6_segments a). g < 65536"
  by (simp add: v6_segments_def)

lemma ipv6_of_segments: "ipv6_of_groups (v6_segments a) = a"
proof -
  let ?n = "unat a"
  have top: "?n div 2 ^ 112 < 65536"
    using unsigned_less [of a, where ?'a = nat] by simp
  have "foldl (\<lambda>acc g. acc * 65536 + g) 0 (v6_segments a) = ?n"
  proof -
    have step: "?n div 2 ^ k = ?n div 2 ^ (k + 16) * 65536 + ?n div 2 ^ k mod 65536" for k
    proof -
      have "?n div 2 ^ (k + 16) = ?n div 2 ^ k div 65536"
        by (simp add: power_add div_mult2_eq)
      then show ?thesis
        using div_mult_mod_eq [of "?n div 2 ^ k" 65536] by simp
    qed
    show ?thesis
      using top step [of 0] step [of 16] step [of 32] step [of 48] step [of 64] step [of 80] step [of 96]
      by (simp add: v6_segments_def upt_rec)
  qed
  then show ?thesis
    by (simp add: ipv6_of_groups_def)
qed

lemma zero_run_segments:
  assumes "zero_run gs 0 (0, 0) (0, 0) = (s, n)"
  shows "s + n \<le> length gs \<and> take s gs @ replicate n 0 @ drop (s + n) gs = gs"
proof -
  have "zeros_at gs (s, n)"
    using zero_run_zeros [of "[]" "(0, 0)" "(0, 0)" gs] assms by (simp add: zeros_at_def)
  then show ?thesis
    using zeros_at_split by (auto simp: zeros_at_def)
qed

lemma parse_ip_no_v4: "read_ipv4 s = None \<Longrightarrow> parse_ip s = map_option V6 (parse_ipv6 s)"
  by (simp add: parse_ip_def)

lemma read_groups_shown:
  assumes "\<forall>g\<in>set gs. g < 65536" "length gs \<le> limit" "ends_groups rest" "CHR ''.'' \<notin> set rest"
  shows "read_groups limit 0 (show_segments gs @ rest) = (gs, False, rest)"
  using read_groups_show [of gs 0 limit rest] assms by simp

lemma parse_compressed:
  assumes gs: "\<forall>g\<in>set gs. g < 65536" "length gs = 8"
    and run: "s + n \<le> 8" "1 < n" "take s gs @ replicate n 0 @ drop (s + n) gs = gs"
  shows "parse_ipv6 (show_segments (take s gs) @ ''::'' @ show_segments (drop (s + n) gs)) = Some (ipv6_of_groups gs)"
proof -
  let ?head = "take s gs" and ?tail = "drop (s + n) gs"
  have small: "\<forall>g\<in>set ?head. g < 65536" "\<forall>g\<in>set ?tail. g < 65536"
    using gs(1) by (auto dest: in_set_takeD in_set_dropD)
  have len: "length ?head = s" "length ?tail = 8 - (s + n)"
    using gs(2) run(1) by simp_all
  have "read_groups 8 0 (show_segments ?head @ ''::'' @ show_segments ?tail) = (?head, False, ''::'' @ show_segments ?tail)"
    using small len run(1) no_dot_segments by (intro read_groups_shown) simp_all
  moreover have "read_groups (8 - (s + 1)) 0 (show_segments ?tail) = (?tail, False, [])"
    using read_groups_shown [of ?tail "8 - (s + 1)" "[]"] small len run by simp
  moreover have "8 - s - length ?tail = n"
    using len run(1) by simp
  ultimately show ?thesis
    using len run by (simp add: parse_ipv6_def read_ipv6_def read_char_def)
qed

lemma parse_uncompressed:
  assumes "\<forall>g\<in>set gs. g < 65536" "length gs = 8"
  shows "parse_ipv6 (show_segments gs) = Some (ipv6_of_groups gs)"
  using read_groups_shown [of gs 8 "[]"] assms by (simp add: parse_ipv6_def read_ipv6_def)

lemma read_ipv4_show: "read_ipv4 (show_ipv4 a) = Some (a, [])"
proof (cases "read_ipv4 (show_ipv4 a)")
  case None
  then show ?thesis
    using parse_ip_show_ipv4 [of a] by (simp add: parse_ip_def)
next
  case (Some r)
  then show ?thesis
    using parse_ip_show_ipv4 [of a] by (auto simp: parse_ip_def split: if_splits prod.splits)
qed

lemma parse_mapped:
  "parse_ipv6 (''::ffff:'' @ show_ipv4 v)
     = Some (ipv6_of_groups [0, 0, 0, 0, 0, 65535, unat v div 65536, unat v mod 65536])"
proof -
  have hex: "''ffff'' = hex 65535"
    by (simp add: hex.simps hex_digit_def char_of_def bit_Suc_0_iff)
  have "read_number 16 4 True 65535 (hex 65535 @ CHR '':'' # show_ipv4 v) = Some (65535, CHR '':'' # show_ipv4 v)"
    by (intro read_group_hex) (simp_all add: colon_no_digit)
  then have number: "read_number 16 4 True 65535 (''ffff:'' @ show_ipv4 v) = Some (65535, CHR '':'' # show_ipv4 v)"
    unfolding hex [symmetric] by simp
  have "read_number 10 3 False 255 (''ffff:'' @ show_ipv4 v) = None"
    by (simp add: read_number_def to_digit_def)
  then have none: "read_ipv4 (''ffff:'' @ show_ipv4 v) = None"
    by (simp add: read_ipv4_def read_separator_def Let_def)
  have "read_groups 7 1 (CHR '':'' # show_ipv4 v) = ([unat v div 65536, unat v mod 65536], True, [])"
    by (subst read_groups.simps) (simp add: read_separator_def read_char_def read_ipv4_show)
  then have tail: "read_groups 7 0 (''ffff:'' @ show_ipv4 v) = ([65535, unat v div 65536, unat v mod 65536], True, [])"
    using number none by (subst read_groups.simps) (simp add: read_separator_def)
  have "read_groups 8 0 (''::ffff:'' @ show_ipv4 v) = ([], False, ''::ffff:'' @ show_ipv4 v)"
    by (subst read_groups.simps) (simp add: read_separator_def read_number_colon read_ipv4_colon)
  moreover have "replicate 5 0 = [0, 0, 0, 0, 0 :: nat]"
    by (simp add: eval_nat_numeral)
  ultimately show ?thesis
    using tail by (simp add: parse_ipv6_def read_ipv6_def read_char_def)
qed

lemma mapped_segments:
  assumes "take 6 (v6_segments a) = [0, 0, 0, 0, 0, 65535]"
  shows "v6_segments a = [0, 0, 0, 0, 0, 65535, unat a mod 2 ^ 32 div 65536, unat a mod 2 ^ 32 mod 65536]"
proof -
  let ?n = "unat a"
  have "?n mod 2 ^ 32 div 65536 = ?n div 65536 mod 65536"
    using div_exp_mod_exp_eq [of ?n 16 16] by (simp add: mod_mult2_eq [of ?n 65536 65536, simplified])
  moreover have "?n mod 2 ^ 32 mod 65536 = ?n mod 65536"
    by (simp add: mod_mod_cancel)
  moreover have "v6_segments a = take 6 (v6_segments a) @ [?n div 65536 mod 65536, ?n mod 65536]"
    by (simp add: v6_segments_def upt_rec)
  ultimately show ?thesis
    using assms by simp
qed

lemma parse_ipv6_show: "parse_ipv6 (show_ipv6 a) = Some a"
proof (cases "take 6 (v6_segments a) = [0, 0, 0, 0, 0, 65535]")
  case True
  then show ?thesis
    using parse_mapped [of "word_of_nat (unat a mod 2 ^ 32)"] mapped_segments [OF True] ipv6_of_segments [of a]
    by (simp add: show_ipv6_def Let_def unat_of_nat take_bit_eq_mod)
next
  case False
  obtain s n where run: "zero_run (v6_segments a) 0 (0, 0) (0, 0) = (s, n)"
    by fastforce
  then show ?thesis
    using False zero_run_segments [OF run] parse_compressed [OF v6_segments_lt, of a s n]
      parse_uncompressed [OF v6_segments_lt, of a]
    by (simp add: show_ipv6_def ipv6_of_segments Let_def)
qed

lemma show_ipv6_no_v4: "read_ipv4 (show_ipv6 a) = None"
proof (cases "take 6 (v6_segments a) = [0, 0, 0, 0, 0, 65535]")
  case True
  then show ?thesis
    by (simp add: show_ipv6_def read_ipv4_colon)
next
  case False
  then show ?thesis
    using no_dot_segments by (intro read_ipv4_no_dot) (auto simp: show_ipv6_def Let_def split: prod.splits)
qed

lemma parse_ip_show [simp]: "parse_ip (show_ip a) = Some a"
  by (cases a) (simp_all add: parse_ip_show_ipv4 parse_ip_no_v4 show_ipv6_no_v4 parse_ipv6_show)

end
