(* ===== verification/Config_Wire.thy ===== *)
theory Config_Wire
  imports Json Config Ip_Text
begin

text \<open>
  The configuration file as \<open>serde\<close> derives it from the structures of \<open>config.rs\<close> and \<open>models.rs\<close>: the
  names of the fields, those that an old file may lack and those that are left out, and that a saved
  configuration is loaded back.
\<close>

section \<open>The role of the tunnel\<close>

definition role_json :: "tunnel_role \<Rightarrow> json" where
  "role_json role = JStr (role_text role)"

text \<open>A unit variant is its name, or an object with its name alone.\<close>

definition role_named :: "string \<Rightarrow> tunnel_role option" where
  "role_named s = (if s = ''client'' then Some RoleClient else if s = ''mesh-node'' then Some RoleMeshNode else None)"

fun role_of_json :: "json \<Rightarrow> tunnel_role option" where
  "role_of_json (JStr s) = role_named s"
| "role_of_json (JObj [(s, JNull)]) = role_named s"
| "role_of_json _ = None"

interpretation roles: codec role_json role_of_json
proof
  fix role
  show "role_of_json (role_json role) = Some role"
    by (cases role) (simp_all add: role_json_def role_text_def role_named_def)
qed

section \<open>The parts of the configuration\<close>

definition ip_json :: "ip_addr \<Rightarrow> json" where
  "ip_json a = JStr (show_ip a)"

definition ip_of_json :: "json \<Rightarrow> ip_addr option" where
  "ip_of_json j = Option.bind (json_string j) parse_ip"

interpretation ips: codec ip_json ip_of_json
  by unfold_locales (simp add: ip_json_def ip_of_json_def)

definition identity_json :: "device_identity \<Rightarrow> json" where
  "identity_json d = JObj
     [(''name'', JStr (di_name d)), (''device_type'', JStr (di_device_type d)),
      (''manufacturer'', JStr (di_manufacturer d)), (''model'', JStr (di_model d)),
      (''os_version'', JStr (di_os_version d)), (''client_version'', JStr (di_client_version d)),
      (''serial_number'', JStr (di_serial_number d)), (''locale'', JStr (di_locale d))]"

definition identity_of_json :: "json \<Rightarrow> device_identity option" where
  "identity_of_json j = do {
     es \<leftarrow> struct_fields [''name'', ''device_type'', ''manufacturer'', ''model'', ''os_version'',
       ''client_version'', ''serial_number'', ''locale''] j;
     n \<leftarrow> required_field es ''name'' json_string;
     device_type \<leftarrow> required_field es ''device_type'' json_string;
     manufacturer \<leftarrow> required_field es ''manufacturer'' json_string;
     model \<leftarrow> required_field es ''model'' json_string;
     os_version \<leftarrow> required_field es ''os_version'' json_string;
     client_version \<leftarrow> required_field es ''client_version'' json_string;
     serial_number \<leftarrow> required_field es ''serial_number'' json_string;
     locale_name \<leftarrow> required_field es ''locale'' json_string;
     Some \<lparr>di_name = n, di_device_type = device_type, di_manufacturer = manufacturer, di_model = model,
       di_os_version = os_version, di_client_version = client_version, di_serial_number = serial_number,
       di_locale = locale_name\<rparr>
   }"

interpretation identities: codec identity_json identity_of_json
  by unfold_locales (simp add: identity_json_def identity_of_json_def required_field_def)

definition mesh_node_json :: "mesh_node_identity \<Rightarrow> json" where
  "mesh_node_json m = JObj
     ([(''account_tag'', JStr (mn_account_tag m)), (''tunnel_id'', JStr (mn_tunnel_id m))]
      @ unless_none ''activation_probe_target'' ip_json (mn_activation_probe_target m)
      @ [(''native_platform'', JStr (mn_native_platform m)),
         (''registration_platform_claim'', JStr (mn_registration_platform_claim m))])"

definition mesh_node_of_json :: "json \<Rightarrow> mesh_node_identity option" where
  "mesh_node_of_json j = do {
     es \<leftarrow> struct_fields [''account_tag'', ''tunnel_id'', ''activation_probe_target'', ''native_platform'',
       ''registration_platform_claim''] j;
     account_tag \<leftarrow> required_field es ''account_tag'' json_string;
     tunnel_id \<leftarrow> required_field es ''tunnel_id'' json_string;
     activation_probe_target \<leftarrow> default_field es ''activation_probe_target'' (option_of_json ip_of_json) None;
     native_platform \<leftarrow> default_field es ''native_platform'' json_string [];
     registration_platform_claim \<leftarrow> default_field es ''registration_platform_claim'' json_string [];
     Some \<lparr>mn_account_tag = account_tag, mn_tunnel_id = tunnel_id,
       mn_activation_probe_target = activation_probe_target, mn_native_platform = native_platform,
       mn_registration_platform_claim = registration_platform_claim\<rparr>
   }"

interpretation mesh_nodes: codec mesh_node_json mesh_node_of_json
proof
  fix m
  have "ip_json a \<noteq> JNull" for a
    by (simp add: ip_json_def)
  then show "mesh_node_of_json (mesh_node_json m) = Some m"
    by (cases "mn_activation_probe_target m")
      (simp_all add: mesh_node_json_def mesh_node_of_json_def json_fields ips.some_decode_encode)
qed

definition peer_json :: "masque_peer_config \<Rightarrow> json" where
  "peer_json p = JObj
     [(''endpoint_v4'', JStr (mp_endpoint_v4 p)), (''endpoint_v6'', JStr (mp_endpoint_v6 p)),
      (''endpoint_host'', JStr (mp_endpoint_host p)), (''ports'', json_list json_u16 (mp_ports p)),
      (''endpoint_pub_key'', JStr (mp_endpoint_pub_key p))]"

definition peer_of_json :: "json \<Rightarrow> masque_peer_config option" where
  "peer_of_json j = do {
     es \<leftarrow> struct_fields [''endpoint_v4'', ''endpoint_v6'', ''endpoint_host'', ''ports'', ''endpoint_pub_key''] j;
     endpoint_v4 \<leftarrow> default_field es ''endpoint_v4'' json_string [];
     endpoint_v6 \<leftarrow> default_field es ''endpoint_v6'' json_string [];
     endpoint_host \<leftarrow> default_field es ''endpoint_host'' json_string [];
     ports \<leftarrow> default_field es ''ports'' (list_of_json u16_of_json) [];
     endpoint_pub_key \<leftarrow> default_field es ''endpoint_pub_key'' json_string [];
     Some \<lparr>mp_endpoint_v4 = endpoint_v4, mp_endpoint_v6 = endpoint_v6, mp_endpoint_host = endpoint_host,
       mp_ports = ports, mp_endpoint_pub_key = endpoint_pub_key\<rparr>
   }"

interpretation peers: codec peer_json peer_of_json
  by unfold_locales (simp add: peer_json_def peer_of_json_def json_fields u16s.list_decode_encode)

section \<open>The configuration\<close>

definition config_fields :: "string list" where
  "config_fields =
     [''role'', ''mesh_node'', ''private_key'', ''endpoint_v4'', ''endpoint_v6'', ''endpoint_pub_key'', ''license'',
      ''id'', ''access_token'', ''ipv4'', ''ipv6'', ''device_identity'', ''masque_peers'']"

definition config_json_value :: "app_config \<Rightarrow> json" where
  "config_json_value cfg = JObj
     ([(''role'', role_json (cf_role cfg))]
      @ unless_none ''mesh_node'' mesh_node_json (cf_mesh_node cfg)
      @ [(''private_key'', JStr (cf_private_key cfg)), (''endpoint_v4'', JStr (cf_endpoint_v4 cfg)),
         (''endpoint_v6'', JStr (cf_endpoint_v6 cfg)), (''endpoint_pub_key'', JStr (cf_endpoint_pub_key cfg)),
         (''license'', JStr (cf_license cfg)), (''id'', JStr (cf_id cfg)),
         (''access_token'', JStr (cf_access_token cfg)), (''ipv4'', JStr (cf_ipv4 cfg)),
         (''ipv6'', JStr (cf_ipv6 cfg)), (''device_identity'', identity_json (cf_device_identity cfg))]
      @ unless_empty ''masque_peers'' peer_json (cf_masque_peers cfg))"

definition config_of_json :: "json \<Rightarrow> app_config option" where
  "config_of_json j = do {
     es \<leftarrow> struct_fields config_fields j;
     role \<leftarrow> default_field es ''role'' role_of_json RoleClient;
     mesh_node \<leftarrow> default_field es ''mesh_node'' (option_of_json mesh_node_of_json) None;
     private_key \<leftarrow> required_field es ''private_key'' json_string;
     endpoint_v4 \<leftarrow> required_field es ''endpoint_v4'' json_string;
     endpoint_v6 \<leftarrow> required_field es ''endpoint_v6'' json_string;
     endpoint_pub_key \<leftarrow> required_field es ''endpoint_pub_key'' json_string;
     license \<leftarrow> default_field es ''license'' json_string [];
     id_text \<leftarrow> required_field es ''id'' json_string;
     access_token \<leftarrow> required_field es ''access_token'' json_string;
     ipv4 \<leftarrow> required_field es ''ipv4'' json_string;
     ipv6 \<leftarrow> required_field es ''ipv6'' json_string;
     device_identity \<leftarrow> default_field es ''device_identity'' identity_of_json default_identity;
     masque_peers \<leftarrow> default_field es ''masque_peers'' (list_of_json peer_of_json) [];
     Some \<lparr>cf_role = role, cf_mesh_node = mesh_node, cf_private_key = private_key, cf_endpoint_v4 = endpoint_v4,
       cf_endpoint_v6 = endpoint_v6, cf_endpoint_pub_key = endpoint_pub_key, cf_license = license, cf_id = id_text,
       cf_access_token = access_token, cf_ipv4 = ipv4, cf_ipv6 = ipv6, cf_device_identity = device_identity,
       cf_masque_peers = masque_peers\<rparr>
   }"

interpretation configs: codec config_json_value config_of_json
proof
  fix cfg
  have "mesh_node_json m \<noteq> JNull" for m
    by (simp add: mesh_node_json_def)
  then show "config_of_json (config_json_value cfg) = Some cfg"
    by (cases "cf_mesh_node cfg"; cases "cf_masque_peers cfg = []")
      (simp_all add: config_json_value_def config_of_json_def config_fields_def json_fields roles.decode_encode
        mesh_nodes.some_decode_encode identities.decode_encode peers.list_decode_encode)
qed

section \<open>The file\<close>

text \<open>
  \<open>serde_json\<close> reads a text into a value, or complains, and writes a value as a text; what it says of a
  value that is no configuration is \<open>complaint\<close>.
\<close>

definition serde_config :: "(string \<Rightarrow> string + json) \<Rightarrow> (string \<Rightarrow> string) \<Rightarrow> (json \<Rightarrow> string) \<Rightarrow> config_json" where
  "serde_config read_text complaint write_text =
     \<lparr>json_from_str = (\<lambda>raw. and_then (read_text raw) (\<lambda>j. ok_or (complaint raw) (config_of_json j))),
      json_pretty = (\<lambda>cfg. Inr (write_text (config_json_value cfg)))\<rparr>"

lemma load_text:
  assumes "fs_read fs path f = Inr raw" "read_text raw = Inr (config_json_value cfg)"
  shows "load fs (serde_config read_text complaint write_text) path f = Inr cfg"
  using assms by (simp add: load_def serde_config_def configs.decode_encode ok_or_def)

section \<open>Properties\<close>

text \<open>
  C16. A configuration that \<open>save_sensitive\<close> saved is loaded back as it was, every field of it, and the
  file that holds its credentials has mode 0600, whatever was there before. Of \<open>serde_json\<close> it relies on
  the text of this value to be read as this value.
\<close>

theorem saved_config_is_loaded:
  assumes "file_laws fs mode" "read_text (write_text (config_json_value cfg)) = Inr (config_json_value cfg)"
    and "save_sensitive fs (serde_config read_text complaint write_text) path cfg f = (Inr (), f')"
  shows "load fs (serde_config read_text complaint write_text) path f' = Inr cfg \<and> mode path f' = 6 * 8 * 8"
  using save_sensitive_done [OF assms(1,3)] assms(2) load_text [of fs path f' _ read_text cfg]
  by (auto simp: serde_config_def)

definition sample_text :: "json \<Rightarrow> string" where
  "sample_text j = (if j = config_json_value sample_config then ''sample'' else ''other'')"

definition sample_value :: "string \<Rightarrow> string + json" where
  "sample_value s = (if s = ''sample'' then Inr (config_json_value sample_config) else Inl ''expected value'')"

corollary saved_config_is_loaded_witness:
  "load memory_files (serde_config sample_value id sample_text) ''config.json'' [''config.json'' \<mapsto> (''sample'', 384)]
     = Inr sample_config"
proof -
  have "save_sensitive memory_files (serde_config sample_value id sample_text) ''config.json'' sample_config (\<lambda>_. None)
      = (Inr (), [''config.json'' \<mapsto> (''sample'', 384)])"
    by (simp add: save_sensitive_def save_def op_bind_def memory_files_def serde_config_def sample_text_def)
  then show ?thesis
    using saved_config_is_loaded [OF memory_file_laws, of sample_value sample_text sample_config]
    by (simp add: sample_text_def sample_value_def)
qed

end
