(* ===== verification/Cli_Defaults.thy ===== *)
theory Cli_Defaults
  imports Commands
begin

text \<open>
  The values the attributes of \<open>commands.rs\<close> give to options that are not on the command line, for each
  command, and that with them both tunnels are accepted.
\<close>

text \<open>A textual default goes through the option's parser.\<close>

definition duration_default :: "string \<Rightarrow> duration" where
  "duration_default s = (case parse_duration s of Inl _ \<Rightarrow> 0 | Inr d \<Rightarrow> d)"

definition DEFAULT_CONFIG_PATH :: string where "DEFAULT_CONFIG_PATH = ''config.json''"

definition register_defaults :: register_args where
  "register_defaults =
     \<lparr>ra_locale = DEFAULT_LOCALE, ra_model = DEFAULT_MODEL, ra_name = [], ra_jwt = [], ra_jwt_file = None,
      ra_mdm_file = None, ra_accept_tos = False\<rparr>"

definition mesh_register_defaults :: "string \<Rightarrow> mesh_register_args" where
  "mesh_register_defaults token_file =
     \<lparr>mra_token_file = token_file, mra_locale = DEFAULT_LOCALE, mra_model = DEFAULT_MODEL, mra_name = [],
      mra_acknowledge_linux_platform_claim = False, mra_accept_tos = False\<rparr>"

definition enroll_defaults :: enroll_args where
  "enroll_defaults = \<lparr>ea_name = [], ea_regen_key = False\<rparr>"

definition native_tun_defaults :: native_tun_args where
  "native_tun_defaults =
     \<lparr>na_connect_port = 0, na_ipv6 = False, na_no_tunnel_ipv4 = False, na_no_tunnel_ipv6 = False,
      na_sni_address = CONNECT_SNI, na_keepalive_period = duration_default ''25s'', na_mtu = 1200,
      na_max_tun_mtu = 1500, na_initial_packet_size = 1472, na_disable_pmtud = False, na_pmtud_max_probes = 3,
      na_pmtud_revalidate_period = duration_default ''10m'', na_cc = ''cubic'', na_initial_cwnd_packets = 32,
      na_disable_quic_pacing = False, na_relaxed_loss = False, na_send_capacity_factor = F64 1,
      na_max_pacing_rate_bps = 0, na_udp_socket_buffer = 8 * 1024 * 1024, na_tx_queue_len = 8192,
      na_tx_burst_packets = 16, na_packet_buffer_pool_size = 1024, na_udp_batch_size = 32, na_no_iproute2 = False,
      na_reconnect_delay = duration_default ''1s'', na_always_reconnect = False, na_insecure = False,
      na_interface_name = [], na_persist = False, na_on_connect = [], na_on_disconnect = []\<rparr>"

definition mesh_node_defaults :: mesh_node_args where
  "mesh_node_defaults =
     \<lparr>mna_tunnel = native_tun_defaults, mna_activation_probe_target = None,
      mna_max_idle_timeout = duration_default ''90s''\<rparr>"

lemma duration_defaults:
  "parse_duration ''25s'' = Inr (25 * 10 ^ 9)" "parse_duration ''10m'' = Inr (600 * 10 ^ 9)"
  "parse_duration ''1s'' = Inr (10 ^ 9)" "parse_duration ''90s'' = Inr (90 * 10 ^ 9)"
  by (simp_all add: parse_duration_def strip_suffix_def strip_prefix_def parse_uint_def to_digit_def u64_max_def)

text \<open>A client and a Mesh node start with the defaults; the node's session then dies after 90 seconds.\<close>

lemma defaults_accepted:
  "validate_tunnel cfg native_tun_defaults RoleClient None = Inr 0 \<longleftrightarrow> cf_role cfg = RoleClient"
  "validate_tunnel cfg (mna_tunnel mesh_node_defaults) RoleMeshNode (Some (mna_max_idle_timeout mesh_node_defaults))
     = Inr (90 * 10 ^ 9) \<longleftrightarrow> cf_role cfg = RoleMeshNode \<and> cf_mesh_node cfg \<noteq> None"
  by (auto simp: validate_tunnel_def native_tun_defaults_def mesh_node_defaults_def duration_default_def
      duration_defaults check_interface_def check_link_args_def check_idle_timeout_def role_max_idle_timeout_def
      IPV6_MIN_MTU_def)

end
