(* ===== verification/Config_Tests.thy ===== *)
theory Config_Tests
  imports Api_Tests Config_Wire Cli_Defaults
begin

text \<open>
  The unit tests of \<open>config.rs\<close> and \<open>commands.rs\<close>, run on the model. Left out are those of the command
  line's parser.
\<close>

section \<open>Endpoints\<close>

text \<open>\<open>AppConfig::default()\<close> and \<open>MasquePeerConfig::default()\<close>\<close>

definition default_config :: app_config where
  "default_config =
     \<lparr>cf_role = RoleClient, cf_mesh_node = None, cf_private_key = [], cf_endpoint_v4 = [], cf_endpoint_v6 = [],
      cf_endpoint_pub_key = [], cf_license = [], cf_id = [], cf_access_token = [], cf_ipv4 = [], cf_ipv6 = [],
      cf_device_identity = default_identity, cf_masque_peers = []\<rparr>"

definition default_peer :: masque_peer_config where
  "default_peer =
     \<lparr>mp_endpoint_v4 = [], mp_endpoint_v6 = [], mp_endpoint_host = [], mp_ports = [], mp_endpoint_pub_key = []\<rparr>"

text \<open>The addresses in the order selected; \<open>key\<close> is the PEM of one byte, which \<open>pem\<close> reads back.\<close>

definition selected ::
    "(string \<Rightarrow> string + bytes) \<Rightarrow> app_config \<Rightarrow> bool \<Rightarrow> u16 \<Rightarrow> socket_addr list option" where
  "selected pem cfg prefer_ipv6 port_override =
     (case select_endpoints_from_config pem cfg prefer_ipv6 port_override of
        Inl _ \<Rightarrow> None
      | Inr endpoints \<Rightarrow> Some (map me_addr endpoints))"

definition test_family_preference :: "(string \<Rightarrow> string + bytes) \<Rightarrow> (u8 \<Rightarrow> string) \<Rightarrow> bool" where
  "test_family_preference pem key \<longleftrightarrow>
     selected pem (default_config\<lparr>cf_masque_peers :=
       [\<lparr>mp_endpoint_v4 = ''192.0.2.10'', mp_endpoint_v6 = ''2001:db8::10'', mp_endpoint_host = ''masque.example'',
         mp_ports = [443, 8443], mp_endpoint_pub_key = key 1\<rparr>]\<rparr>) True 0
     = Some [SocketAddr (V6 0x20010db8000000000000000000000010) 443, SocketAddr (V4 0xC000020A) 443,
             SocketAddr (V6 0x20010db8000000000000000000000010) 8443, SocketAddr (V4 0xC000020A) 8443]"

definition test_port_priority :: "(string \<Rightarrow> string + bytes) \<Rightarrow> (u8 \<Rightarrow> string) \<Rightarrow> bool" where
  "test_port_priority pem key \<longleftrightarrow>
     (let v4 = SocketAddr (V4 0xC0000232); v6 = SocketAddr (V6 0x20010db8000000000000000000000050) in
      selected pem (default_config\<lparr>cf_masque_peers :=
        [\<lparr>mp_endpoint_v4 = ''192.0.2.50'', mp_endpoint_v6 = ''2001:db8::50'', mp_endpoint_host = ''masque.example'',
          mp_ports = [1701, 8443, 443, 500], mp_endpoint_pub_key = key 5\<rparr>]\<rparr>) False 0
      = Some [v4 443, v6 443, v4 8443, v4 500, v6 8443, v6 500, v4 1701, v6 1701])"

definition test_legacy_endpoint :: "(string \<Rightarrow> string + bytes) \<Rightarrow> (u8 \<Rightarrow> string) \<Rightarrow> bool" where
  "test_legacy_endpoint pem key \<longleftrightarrow>
     selected pem (default_config\<lparr>cf_endpoint_v4 := ''192.0.2.20'', cf_endpoint_v6 := ''2001:db8::20'',
       cf_endpoint_pub_key := key 2\<rparr>) False 4443
     = Some [SocketAddr (V4 0xC0000214) 4443, SocketAddr (V6 0x20010db8000000000000000000000020) 4443]"

definition test_default_port :: "(string \<Rightarrow> string + bytes) \<Rightarrow> (u8 \<Rightarrow> string) \<Rightarrow> bool" where
  "test_default_port pem key \<longleftrightarrow>
     selected pem (default_config\<lparr>cf_masque_peers :=
       [default_peer\<lparr>mp_endpoint_v4 := ''192.0.2.30'', mp_ports := [], mp_endpoint_pub_key := key 3\<rparr>,
        default_peer\<lparr>mp_endpoint_v4 := ''192.0.2.40'', mp_ports := [443, 0, 443], mp_endpoint_pub_key := key 4\<rparr>]\<rparr>)
       False 0
     = Some [SocketAddr (V4 0xC000021E) 443, SocketAddr (V4 0xC0000228) 443]"

lemma test_v4_texts:
  "show_ip (V4 0xC000020A) = ''192.0.2.10''" "show_ip (V4 0xC0000232) = ''192.0.2.50''"
  "show_ip (V4 0xC0000214) = ''192.0.2.20''" "show_ip (V4 0xC000021E) = ''192.0.2.30''"
  "show_ip (V4 0xC0000228) = ''192.0.2.40''" "show_ip (V4 0xC0000201) = ''192.0.2.1''"
  "show_ip (V4 0xCB007107) = ''203.0.113.7''"
  by (simp_all add: show_ipv4_def dec.simps char_of_def bit_Suc_0_iff)

lemma test_v6_texts:
  "show_ip (V6 0x20010db8000000000000000000000010) = ''2001:db8::10''"
  "show_ip (V6 0x20010db8000000000000000000000050) = ''2001:db8::50''"
  "show_ip (V6 0x20010db8000000000000000000000020) = ''2001:db8::20''"
  by (simp_all add: show_ipv6_def v6_segments_def upt_rec hex.simps hex_digit_def char_of_def bit_Suc_0_iff Let_def)

lemma test_texts:
  "parse_ip ''192.0.2.10'' = Some (V4 0xC000020A)" "parse_ip ''192.0.2.50'' = Some (V4 0xC0000232)"
  "parse_ip ''192.0.2.20'' = Some (V4 0xC0000214)" "parse_ip ''192.0.2.30'' = Some (V4 0xC000021E)"
  "parse_ip ''192.0.2.40'' = Some (V4 0xC0000228)" "parse_ip ''203.0.113.7'' = Some (V4 0xCB007107)"
  "parse_ip ''2001:db8::10'' = Some (V6 0x20010db8000000000000000000000010)"
  "parse_ip ''2001:db8::50'' = Some (V6 0x20010db8000000000000000000000050)"
  "parse_ip ''2001:db8::20'' = Some (V6 0x20010db8000000000000000000000020)"
  unfolding test_v4_texts [symmetric] test_v6_texts [symmetric] by (rule parse_ip_show)+

lemma unbracketed: "graphic (hd s) \<and> graphic (last s) \<Longrightarrow> hd s \<noteq> CHR ''['' \<Longrightarrow> s \<noteq> [] \<Longrightarrow> parse_ip s = Some a \<Longrightarrow>
    parse_socket s p = Inr (SocketAddr a p) \<and> trim s \<noteq> []"
  by (cases s) (simp_all add: parse_socket_def trim_graphic strip_prefix_def)

lemma test_sockets:
  "parse_socket ''192.0.2.10'' p = Inr (SocketAddr (V4 0xC000020A) p) \<and> trim ''192.0.2.10'' \<noteq> []"
  "parse_socket ''192.0.2.50'' p = Inr (SocketAddr (V4 0xC0000232) p) \<and> trim ''192.0.2.50'' \<noteq> []"
  "parse_socket ''192.0.2.20'' p = Inr (SocketAddr (V4 0xC0000214) p) \<and> trim ''192.0.2.20'' \<noteq> []"
  "parse_socket ''192.0.2.30'' p = Inr (SocketAddr (V4 0xC000021E) p) \<and> trim ''192.0.2.30'' \<noteq> []"
  "parse_socket ''192.0.2.40'' p = Inr (SocketAddr (V4 0xC0000228) p) \<and> trim ''192.0.2.40'' \<noteq> []"
  "parse_socket ''2001:db8::10'' p = Inr (SocketAddr (V6 0x20010db8000000000000000000000010) p) \<and> trim ''2001:db8::10'' \<noteq> []"
  "parse_socket ''2001:db8::50'' p = Inr (SocketAddr (V6 0x20010db8000000000000000000000050) p) \<and> trim ''2001:db8::50'' \<noteq> []"
  "parse_socket ''2001:db8::20'' p = Inr (SocketAddr (V6 0x20010db8000000000000000000000020) p) \<and> trim ''2001:db8::20'' \<noteq> []"
  by (rule unbracketed; simp add: graphic_def test_texts)+

lemma endpoint_tests_pass:
  assumes "\<And>m. pem (key m) = Inr [m]"
  shows "test_family_preference pem key" "test_port_priority pem key" "test_legacy_endpoint pem key"
    "test_default_port pem key"
proof -
  have empty: "trim [] = []"
    by (simp add: trim_graphic)
  note facts = selected_def select_endpoints_from_config_def config_peers_def default_config_def default_peer_def
    peer_ports_def peer_families_def decode_endpoint_public_key_def push_endpoint_def test_sockets endpoint_rank_def
    port_rank_def assms empty
  show "test_family_preference pem key"
    by (simp add: test_family_preference_def facts)
  show "test_port_priority pem key"
    by (simp add: test_port_priority_def facts Let_def)
  show "test_legacy_endpoint pem key"
    by (simp add: test_legacy_endpoint_def facts)
  show "test_default_port pem key"
    by (simp add: test_default_port_def facts)
qed

section \<open>The configuration file\<close>

definition test_legacy_role :: bool where
  "test_legacy_role \<longleftrightarrow>
     unwrapped (config_of_json (JObj [(''private_key'', JStr []), (''endpoint_v4'', JStr []), (''endpoint_v6'', JStr []),
       (''endpoint_pub_key'', JStr []), (''id'', JStr []), (''access_token'', JStr []), (''ipv4'', JStr []),
       (''ipv6'', JStr [])])) (\<lambda>cfg. cf_role cfg = RoleClient \<and> cf_mesh_node cfg = None)"

text \<open>The names and texts in a value.\<close>

fun json_texts :: "json \<Rightarrow> string list" where
  "json_texts (JStr s) = [s]"
| "json_texts (JArr js) = concat (map json_texts js)"
| "json_texts (JObj es) = concat (map (\<lambda>(n, j). n # json_texts j) es)"
| "json_texts _ = []"

definition test_mesh_identity :: mesh_node_identity where
  "test_mesh_identity =
     \<lparr>mn_account_tag = replicate 32 CHR ''a'', mn_tunnel_id = ''00000000-0000-0000-0000-000000000000'',
      mn_activation_probe_target = Some (V4 0xC0000201), mn_native_platform = ''FreeBSD'',
      mn_registration_platform_claim = ''linux''\<rparr>"

definition test_mesh_round_trip :: bool where
  "test_mesh_round_trip \<longleftrightarrow>
     (let cfg = default_config\<lparr>cf_role := RoleMeshNode, cf_mesh_node := Some test_mesh_identity\<rparr>;
          encoded = config_json_value cfg in
      unwrapped (config_of_json encoded) (\<lambda>decoded.
        cf_role decoded = RoleMeshNode \<and> cf_mesh_node decoded = cf_mesh_node cfg
        \<and> unwrapped (cf_mesh_node decoded) (\<lambda>m. mn_registration_platform_claim m = ''linux''))
      \<and> (\<forall>t\<in>set (json_texts encoded). \<not> contains ''tunnel_secret'' t \<and> \<not> contains ''warp_connector_token'' t)
      \<and> at_key ''activation_probe_target'' (at_key ''mesh_node'' encoded) = JStr ''192.0.2.1'')"

lemma config_file_tests_pass: test_legacy_role test_mesh_round_trip
proof -
  show test_legacy_role
    by (simp add: test_legacy_role_def config_of_json_def config_fields_def json_fields)
  have "ip_json (V4 0xC0000201) = JStr ''192.0.2.1''"
    using test_v4_texts(6) by (simp add: ip_json_def)
  then show test_mesh_round_trip
    by (simp add: test_mesh_round_trip_def configs.decode_encode Let_def)
      (simp add: default_config_def config_json_value_def mesh_node_json_def json_fields identity_json_def test_mesh_identity_def
        default_identity_def role_json_def role_text_def at_key_def replicate_numeral starts_with_def strip_prefix_def)
qed

section \<open>Roles and versions\<close>

definition test_mesh_maintains_session :: bool where
  "test_mesh_maintains_session \<longleftrightarrow>
     maintain_edge_session RoleMeshNode False \<and> maintain_edge_session RoleMeshNode True"

definition test_client_on_demand :: bool where
  "test_client_on_demand \<longleftrightarrow> \<not> maintain_edge_session RoleClient False \<and> maintain_edge_session RoleClient True"

definition test_mesh_idle_timeout :: bool where
  "test_mesh_idle_timeout \<longleftrightarrow>
     role_max_idle_timeout RoleMeshNode (Some (secs 75)) = secs 75 \<and> role_max_idle_timeout RoleMeshNode None = secs 90"

definition test_client_idle_timeout :: bool where
  "test_client_idle_timeout \<longleftrightarrow> role_max_idle_timeout RoleClient (Some (secs 90)) = 0"

definition registration_config :: "tunnel_role \<Rightarrow> string \<Rightarrow> app_config" where
  "registration_config role version =
     default_config\<lparr>cf_role := role,
       cf_device_identity := default_identity\<lparr>di_name := ''freebsd-test'', di_device_type := ''FreeBSD'',
         di_client_version := version, di_serial_number := ''stable-test-serial''\<rparr>,
       cf_mesh_node := (if role = RoleMeshNode then Some (test_mesh_identity\<lparr>mn_activation_probe_target := None\<rparr>)
         else None)\<rparr>"

definition test_refresh_required :: bool where
  "test_refresh_required \<longleftrightarrow>
     registration_refresh_required (registration_config RoleClient ''0.7.0'')
     \<and> \<not> registration_refresh_required (registration_config RoleClient CLIENT_VERSION)
     \<and> \<not> registration_refresh_required (registration_config RoleClient [])
     \<and> registration_refresh_required (registration_config RoleClient ''999.0.0'')
     \<and> \<not> registration_refresh_required (registration_config RoleClient ''not-a-version'')"

definition refreshed_as :: "string \<Rightarrow> tunnel_role \<Rightarrow> bool" where
  "refreshed_as platform role \<longleftrightarrow>
     (case registration_refresh_identity (registration_config role ''0.7.0'') of
        Inl _ \<Rightarrow> False
      | Inr identity \<Rightarrow> di_device_type identity = platform \<and> di_client_version identity = CLIENT_VERSION
          \<and> di_serial_number identity = ''stable-test-serial'')"

definition test_client_refresh :: bool where
  "test_client_refresh \<longleftrightarrow> refreshed_as ''FreeBSD'' RoleClient"

definition test_mesh_refresh :: bool where
  "test_mesh_refresh \<longleftrightarrow> refreshed_as ''linux'' RoleMeshNode"

definition test_mesh_refresh_claim :: bool where
  "test_mesh_refresh_claim \<longleftrightarrow>
     \<not> is_ok (registration_refresh_identity ((registration_config RoleMeshNode ''0.7.0'')
       \<lparr>cf_mesh_node := Some (test_mesh_identity\<lparr>mn_registration_platform_claim := []\<rparr>)\<rparr>))"

lemma test_versions:
  "release_version ''0.7.0'' = Some (0, 7, 0)" "release_version CLIENT_VERSION = Some (0, 8, 5)"
  "release_version [] = None" "release_version ''999.0.0'' = Some (999, 0, 0)" "release_version ''not-a-version'' = None"
proof -
  have "trim ''0.7.0'' = ''0.7.0''" "trim ''0.8.5'' = ''0.8.5''" "trim [] = []" "trim ''999.0.0'' = ''999.0.0''"
    "trim ''not-a-version'' = ''not-a-version''"
    by (rule trim_graphic; simp add: graphic_def)+
  then show "release_version ''0.7.0'' = Some (0, 7, 0)" "release_version CLIENT_VERSION = Some (0, 8, 5)"
    "release_version [] = None" "release_version ''999.0.0'' = Some (999, 0, 0)"
    "release_version ''not-a-version'' = None"
    by (simp_all add: release_version_def CLIENT_VERSION_def parse_uint_def to_digit_def u64_max_def)
qed

lemma role_tests_pass:
  test_mesh_maintains_session test_client_on_demand test_mesh_idle_timeout test_client_idle_timeout
  test_refresh_required test_client_refresh test_mesh_refresh test_mesh_refresh_claim
proof -
  show test_mesh_maintains_session test_client_on_demand
    by (simp_all add: test_mesh_maintains_session_def test_client_on_demand_def maintain_edge_session_def)
  show test_mesh_idle_timeout test_client_idle_timeout
    by (simp_all add: test_mesh_idle_timeout_def test_client_idle_timeout_def role_max_idle_timeout_def secs_def)
  show test_refresh_required
    by (simp add: test_refresh_required_def registration_refresh_required_def registration_config_def test_versions)
  have "trim ''linux'' = ''linux''" "trim [] = []"
    by (rule trim_graphic; simp add: graphic_def)+
  then show test_client_refresh test_mesh_refresh test_mesh_refresh_claim
    by (simp_all add: test_client_refresh_def test_mesh_refresh_def test_mesh_refresh_claim_def refreshed_as_def
        registration_refresh_identity_def registration_config_def test_mesh_identity_def default_config_def Let_def)
qed

section \<open>The activation probe\<close>

definition probe_config :: app_config where
  "probe_config =
     default_config\<lparr>cf_role := RoleMeshNode,
       cf_mesh_node := Some (test_mesh_identity\<lparr>mn_activation_probe_target := Some (V4 0xC000020A)\<rparr>),
       cf_ipv4 := ''100.96.0.1/32'', cf_ipv6 := ''2606:4700:cf1:1000::1/128''\<rparr>"

text \<open>The probe, or that there is none.\<close>

definition probe_of :: "app_config \<Rightarrow> tunnel_role \<Rightarrow> ip_addr option \<Rightarrow> bytes option option" where
  "probe_of cfg role override_target =
     (case build_mesh_activation_probe cfg role override_target () of Some (Inr packet, _) \<Rightarrow> Some packet | _ \<Rightarrow> None)"

definition test_client_probe :: bool where
  "test_client_probe \<longleftrightarrow>
     unwrapped (parse_ip ''1.1.1.1'') (\<lambda>target. unwrapped (probe_of probe_config RoleClient (Some target)) (\<lambda>probe. probe = None))"

definition test_configured_target :: bool where
  "test_configured_target \<longleftrightarrow>
     unwrapped (probe_of probe_config RoleMeshNode None) (\<lambda>probe. unwrapped probe (\<lambda>packet.
       range_of 12 16 packet = [100, 96, 0, 1] \<and> range_of 16 20 packet = [192, 0, 2, 10]))"

definition test_default_target :: bool where
  "test_default_target \<longleftrightarrow>
     unwrapped (probe_of (probe_config
         \<lparr>cf_mesh_node := Some (test_mesh_identity\<lparr>mn_activation_probe_target := None\<rparr>)\<rparr>) RoleMeshNode None)
       (\<lambda>probe. unwrapped probe (\<lambda>packet. range_of 16 20 packet = [1, 1, 1, 1]))"

definition test_overridden_target :: bool where
  "test_overridden_target \<longleftrightarrow>
     unwrapped (parse_ip ''203.0.113.7'') (\<lambda>target. unwrapped (probe_of probe_config RoleMeshNode (Some target)) (\<lambda>probe.
       unwrapped probe (\<lambda>packet. range_of 16 20 packet = [203, 0, 113, 7])))"

lemma probe_v4:
  assumes "cf_ipv4 cfg = ''100.96.0.1/32''"
    and "unwrap_or (or_else target (Option.bind (cf_mesh_node cfg) mn_activation_probe_target))
      DEFAULT_MESH_ACTIVATION_PROBE_TARGET = V4 d"
  shows "probe_of cfg RoleMeshNode target = Some (Some (seal_v4 (echo_v4_body 0x64600001 d 0)))"
proof -
  have "hd (split_on CHR ''/'' ''100.96.0.1/32'') = ''100.96.0.1''"
    by simp
  then show ?thesis
    using assms
    by (simp add: probe_of_def build_mesh_activation_probe_def run_bind_def run_lift_def run_return_def ok_or_def
        test_addresses compose_echo_request_def compose_echo_v4_eq Let_def)
qed

lemma probe_v4_addresses:
  "range_of 12 16 (seal_v4 (echo_v4_body s d n)) = v4_octets s"
  "range_of 16 20 (seal_v4 (echo_v4_body s d n)) = v4_octets d"
  using echo_sealed(1) [of s d n] by (simp_all add: ipv4_icmp_def range_of_def)

lemma probe_tests_pass: test_client_probe test_configured_target test_default_target test_overridden_target
proof -
  show test_client_probe
    by (simp add: test_client_probe_def test_addresses probe_of_def build_mesh_activation_probe_def run_return_def)
  note facts = probe_config_def test_mesh_identity_def or_else_def DEFAULT_MESH_ACTIVATION_PROBE_TARGET_def
    probe_v4_addresses v4_octets_def be_bytes_numeral
  show test_configured_target
    by (subst test_configured_target_def, subst probe_v4 [where d = "0xC000020A"]) (simp_all add: facts)
  show test_default_target
    by (subst test_default_target_def, subst probe_v4 [where d = "0x01010101"]) (simp_all add: facts)
  show test_overridden_target
    unfolding test_overridden_target_def test_texts unwrapped_simps
    by (subst probe_v4 [where d = "0xCB007107"]) (simp_all add: facts)
qed

section \<open>MDM files\<close>

text \<open>A file as the events the XML reader makes of it, without its white space.\<close>

definition mdm_entry :: "string \<Rightarrow> string \<Rightarrow> string \<Rightarrow> xml_event list" where
  "mdm_entry key tag v = [Start ''key'', Text key, Start tag, Text v]"

definition mdm_dict :: "xml_event list list \<Rightarrow> xml_event list" where
  "mdm_dict entries = [Start ''dict''] @ concat entries @ [End ''dict'']"

text \<open>Skipping an element whose value is not read removes its text.\<close>

definition test_reader :: "xml_event list xml_reader" where
  "test_reader = sample_reader\<lparr>xr_read_to_end := (\<lambda>_ r. (Inr (), drop 1 r))\<rparr>"

definition mdm_of :: "xml_event list list \<Rightarrow> (mdm_error + service_token_enrollment) option" where
  "mdm_of entries = from_mdm_xml test_reader (mdm_dict entries)"

definition mdm_refused :: "xml_event list list \<Rightarrow> bool" where
  "mdm_refused entries \<longleftrightarrow> unwrapped (mdm_of entries) (\<lambda>r. \<not> is_ok r)"

definition test_mdm_fragment :: bool where
  "test_mdm_fragment \<longleftrightarrow>
     mdm_of [mdm_entry ''auth_client_id'' ''string'' ''example.access'',
       mdm_entry ''auth_client_secret'' ''string'' ''secret&value'', mdm_entry ''auto_connect'' ''integer'' ''1'',
       [Start ''key'', Text ''onboarding'', Empty], mdm_entry ''organization'' ''string'' ''example-team'',
       mdm_entry ''service_mode'' ''string'' ''warp'']
     = Some (Inr \<lparr>ste_organization = ''example-team'', ste_client_id = ''example.access'', ste_client_secret = ''secret&value''\<rparr>)"

definition test_mdm_required :: bool where
  "test_mdm_required \<longleftrightarrow>
     mdm_refused ([mdm_entry ''organization'' ''string'' ''team''])
     \<and> mdm_refused ([mdm_entry ''organization'' ''integer'' ''1'', mdm_entry ''auth_client_id'' ''string'' ''x.access'',
            mdm_entry ''auth_client_secret'' ''string'' ''s''])"

definition test_mdm_origin :: bool where
  "test_mdm_origin \<longleftrightarrow>
     mdm_refused ([mdm_entry ''organization'' ''string'' ''team.example'', mdm_entry ''auth_client_id'' ''string'' ''x.access'',
       mdm_entry ''auth_client_secret'' ''string'' ''s''])"

definition test_mdm_document_type :: bool where
  "test_mdm_document_type \<longleftrightarrow>
     from_mdm_xml test_reader (DocType # mdm_dict [mdm_entry ''organization'' ''string'' ''team'',
       mdm_entry ''auth_client_id'' ''string'' ''x.access'', mdm_entry ''auth_client_secret'' ''string'' ''s''])
     = Some (Inl DocTypeNotAllowed)"

lemma test_mdm_trims:
  "trim ''organization'' = ''organization''" "trim ''auth_client_id'' = ''auth_client_id''"
  "trim ''auth_client_secret'' = ''auth_client_secret''" "trim ''auto_connect'' = ''auto_connect''"
  "trim ''onboarding'' = ''onboarding''" "trim ''service_mode'' = ''service_mode''"
  "trim ''example-team'' = ''example-team''" "trim ''example.access'' = ''example.access''"
  "trim ''secret&value'' = ''secret&value''" "trim ''team'' = ''team''" "trim ''team.example'' = ''team.example''"
  "trim ''x.access'' = ''x.access''" "trim ''s'' = ''s''" "trim ''example'' = ''example''"
  "trim ''client.access'' = ''client.access''" "trim ''service-secret'' = ''service-secret''"
  by (rule trim_graphic; simp add: graphic_def)+

lemmas mdm_run = from_mdm_xml_def sample_reader_def read_events.simps handle_event_def read_element_def start_mdm_def
  store_value_def set_once_def is_required_key_def op_simps test_mdm_trims finish_mdm_def required_def
  validate_organization_def validate_line_def one_line_def starts_with_def ends_with_def strip_suffix_def
  strip_prefix_def is_ascii_alphanumeric_def

lemma mdm_tests_pass: test_mdm_fragment test_mdm_required test_mdm_origin test_mdm_document_type
  by (simp_all add: test_mdm_fragment_def test_mdm_required_def test_mdm_origin_def test_mdm_document_type_def
      mdm_refused_def mdm_of_def mdm_dict_def mdm_entry_def test_reader_def mdm_run)

section \<open>Credentials\<close>

text \<open>A machine with one file, and the credentials it loads.\<close>

definition machine_with_file ::
    "u32 \<Rightarrow> bool \<Rightarrow> string \<Rightarrow> xml_event list \<Rightarrow> (unit, unit, xml_event list, string list) machine" where
  "machine_with_file mode symlink content events =
     sample_machine\<lparr>ma_disk := test_file mode symlink content, ma_xml_from_str := \<lambda>_. events\<rparr>"

definition loaded ::
    "u32 \<Rightarrow> bool \<Rightarrow> string \<Rightarrow> xml_event list \<Rightarrow> register_args \<Rightarrow> (command_error + registration_credentials option) option" where
  "loaded mode symlink content events args =
     map_option fst (load_registration_credentials (machine_with_file mode symlink content events) args [])"

definition test_legacy_credentials :: bool where
  "test_legacy_credentials \<longleftrightarrow>
     loaded 384 False [] [] register_defaults = Some (Inr None)
     \<and> loaded 384 False [] [] (register_defaults\<lparr>ra_jwt := ''header.payload.signature''\<rparr>)
       = Some (Inr (Some (Jwt ''header.payload.signature'')))"

definition test_mdm_events :: "xml_event list" where
  "test_mdm_events =
     [Start ''dict'', Start ''key'', Text ''organization'', Start ''string'', Text ''example'',
      Start ''key'', Text ''auth_client_id'', Start ''string'', Text ''client.access'',
      Start ''key'', Text ''auth_client_secret'', Start ''string'', Text ''service-secret'', End ''dict'']"

definition test_mdm_file :: bool where
  "test_mdm_file \<longleftrightarrow>
     loaded 384 False (''<dict>...</dict>'' @ [CHR 0x0A]) test_mdm_events (register_defaults\<lparr>ra_mdm_file := Some ''/tmp/mdm.xml''\<rparr>)
     = Some (Inr (Some (ServiceToken
         \<lparr>ste_organization = ''example'', ste_client_id = ''client.access'', ste_client_secret = ''service-secret''\<rparr>)))"

definition test_jwt_file :: bool where
  "test_jwt_file \<longleftrightarrow>
     (let args = register_defaults\<lparr>ra_jwt_file := Some ''/tmp/enrollment.jwt''\<rparr>;
          content = ''header.payload.signature'' @ [CHR 0x0A] in
      loaded 384 False content [] args = Some (Inr (Some (Jwt ''header.payload.signature'')))
      \<and> loaded 416 False content [] args = Some (Inl (CredentialFile GroupAccessible)))"

definition test_jwt_symlink :: bool where
  "test_jwt_symlink \<longleftrightarrow>
     fst (read_private_registration_secret (test_file 384 True ''header.payload.signature'') ''/tmp/link.jwt'' ())
     = Inl NotRegularFile"

lemma test_trims:
  "trim (''header.payload.signature'' @ [CHR 0x0A]) = ''header.payload.signature''"
  "trim (''<dict>...</dict>'' @ [CHR 0x0A]) = ''<dict>...</dict>''" "trim ''header.payload.signature'' = ''header.payload.signature''"
  "trim [] = []"
  by code_simp+

lemma test_mdm_read:
  "from_mdm_xml sample_reader test_mdm_events =
     Some (Inr \<lparr>ste_organization = ''example'', ste_client_id = ''client.access'', ste_client_secret = ''service-secret''\<rparr>)"
  by (simp add: test_mdm_events_def mdm_run)

lemma credential_tests_pass: test_legacy_credentials test_mdm_file test_jwt_file test_jwt_symlink
proof -
  note facts = loaded_def machine_with_file_def test_file_def sample_machine_def register_defaults_def load_registration_credentials_def
    read_private_registration_secret_def read_private_registration_text_def run_of_def run_bind_def run_return_def
    run_lift_def op_simps check_open_file_def group_accessible_def MAX_PRIVATE_FILE_def one_line_def test_trims
    starts_with_def strip_prefix_def test_mdm_read Let_def
  show test_legacy_credentials
    by (simp add: test_legacy_credentials_def facts)
  show test_mdm_file
    by (simp add: test_mdm_file_def facts del: append_Cons)
  show test_jwt_file
    by (simp add: test_jwt_file_def facts del: append_Cons)
  show test_jwt_symlink
    by (simp add: test_jwt_symlink_def facts)
qed

end
