(* ===== verification/Spec2Isabelle.thy ===== *)
theory Spec2Isabelle
  imports Icmp Timing Socket_Buffer Udp_Batch Buffer_Pool Launch Mdm_Spec Ifaddrs Logs Config_Tests
begin

text \<open>
  A verification development for usque-rs-bsd, a MASQUE (CONNECT-IP over HTTP/3) client for
  Cloudflare WARP and WARP Connector (``Mesh'') on FreeBSD. Paths below are relative to
  \<open>src/src/\<close>.

  The program. \<open>commands.rs\<close> parses the command line. \<open>register\<close>, \<open>mesh-register\<close> and \<open>enroll\<close> talk
  to Cloudflare's API (\<open>api/cloudflare.rs\<close>, \<open>api/mesh.rs\<close>, \<open>api/access.rs\<close>, \<open>mdm.rs\<close>) and write a
  configuration file (\<open>config.rs\<close>). \<open>nativetun\<close> and \<open>mesh-node\<close> read it, create the TUN device
  (\<open>native_tun.rs\<close>), start the device-state reporter (\<open>api/device_state.rs\<close>,
  \<open>api/freebsd_telemetry.rs\<close>) and hand over to the supervisor (\<open>api/masque/supervisor.rs\<close>), which runs
  one session after the other (\<open>api/masque.rs\<close>): UDP socket and QUIC handshake
  (\<open>api/masque/udp.rs\<close>, \<open>api/masque/handshake.rs\<close>), the CONNECT request, and then the packet pump
  between the TUN device and the connection (\<open>api/packet.rs\<close>, \<open>api/icmp.rs\<close>,
  \<open>api/masque/connect_ip.rs\<close>, \<open>api/masque/timing.rs\<close>, \<open>api/masque/stats.rs\<close>), with hooks around it
  (\<open>api/hooks.rs\<close>).

  How the code is modelled. Integers keep their width as words where they wrap or are put on the
  wire; a \<open>usize\<close> that only counts is a natural number, saturating where the code saturates. A panic
  and a loop that does not end are \<open>None\<close>; errors are \<open>Inl\<close> of one datatype per module. Code that
  changes state is an \<open>op\<close> (a state, a result and the new state) or a \<open>run\<close> (an \<open>op\<close> that may be
  \<open>None\<close>), and a \<open>?\<close> is its bind. Loops that the code does not bound are \<open>partial_function (option)\<close>;
  that they return is proved where a property says so. Crates and the operating system (quiche,
  tun-rs, reqwest, serde, the sockets, the file system, sysctl) are records of the calls the code
  makes, over an abstract state; what a theorem needs of them is a named predicate (\<open>net_send_laws\<close>,
  \<open>quic_send_laws\<close>, \<open>link_laws\<close>, \<open>h3_laws\<close>, \<open>capped_kernel\<close>, \<open>reader_laws\<close>, \<dots>) that a concrete
  sample satisfies.

  Foundations. \<open>Prelude\<close>: words, slices, big-endian fields, results. \<open>Runs\<close>: the run monad
  with \<open>keeps\<close> (an invariant) and \<open>returns\<close> (an end). \<open>Rust_Str\<close>, \<open>Net_Addr\<close>, \<open>Net_Show\<close>,
  \<open>Floats\<close>: the standard library's strings, addresses and floating point. \<open>Transitions\<close>,
  \<open>Channel\<close>, \<open>Rotation\<close>: interfaces as locales. \<open>invariant_system\<close> is interpreted on the
  buffer pool and the TUN device, its extension \<open>settling_system\<close> on the supervisor's
  rounds, \<open>fifo_channel\<close> on the bounded channel, \<open>fair_rotation\<close> on \<open>next_endpoint_index\<close>,
  \<open>checksummed_wire\<close> on the two checksum layouts, \<open>varint_codec\<close> on the integers of RFC
  9000 and \<open>codec\<close> on every structure that is written and read as JSON. \<open>Ip_Text\<close>: what is printed
  of an address, the compression of IPv6 included, is parsed back.

  The packet path. \<open>Inet_Checksum\<close>, \<open>Packet\<close>, \<open>Icmp\<close>: every verdict of \<open>prepare_outgoing\<close> and
  \<open>validate_incoming\<close> and the packet they leave; the checksum equals the ones' complement sum of
  RFC 1071; the ICMP replies byte for byte. \<open>Connect_Ip\<close>: framing and its round trip. \<open>Quic\<close>,
  \<open>Udp_Batch\<close>: batched and paced sending puts on the wire what the connection produces, in order and
  on time, and receiving shows the connection every datagram once. \<open>Socket_Buffer\<close>: what the buffer
  negotiation reaches on a kernel with a limit. \<open>Stats\<close>, \<open>Timing\<close>: counters, text, periods.
  \<open>Tx_Path\<close>, \<open>Send_One\<close>: each datagram, buffer and counter is accounted for, on every branch.
  \<open>Buffer_Pool\<close>: the buffers are conserved in every interleaving of the reader and the pump.
  \<open>Data_Loop\<close>: a turn of the pump returns, keeps its invariant and the device safe, and sends the
  keepalive that is due.

  Sessions. \<open>Native_Tun\<close>: a link with an IPv6 address never has an MTU below 1280, in every state it
  passes through. \<open>Http3\<close>, \<open>Handshake\<close>: the CONNECT request, its answer, its end, and the pinned key.
  \<open>Reporter\<close>, \<open>Session_Setup\<close>, \<open>Session\<close>: a session is refused and changes nothing, or comes up for a
  peer with the configured key, announces itself and takes that back. \<open>Supervisor\<close>: the rotation
  reaches every endpoint, and the link is conservative between sessions.

  Configuration and commands. \<open>Models\<close>, \<open>Config\<close>: the endpoint selection equals its reference.
  \<open>Json\<close>, \<open>Config_Wire\<close>, \<open>Api_Wire\<close>: the fields, defaults and omissions that the attributes of
  \<open>serde\<close> give the configuration file, the requests, the answers and the reports; a saved
  configuration is loaded back as it was, from a private file. \<open>Identity\<close>, \<open>Cloudflare\<close>, \<open>Private_File\<close>, \<open>Mesh\<close>, \<open>Mdm\<close>, \<open>Access\<close>: requests,
  tokens and files; \<open>Mdm_Spec\<close> refines the MDM reader loop against a list of keys and values.
  \<open>Telemetry\<close>, \<open>State_Payload\<close>, \<open>Device_State\<close>: samples are in range; the reporter task against the watch
  channel and the metrics, in every interleaving with the tunnel: every report is truthful, states may be
  skipped, and at rest the last report is current.
  \<open>Ifaddrs\<close>: the raw pointers of \<open>getifaddrs\<close>, refining the lists of \<open>Telemetry\<close>: every walk ends on
  memory that is there, and the list is freed once. \<open>Logs\<close>: the statistics task and the diagnostics.
  \<open>Registration\<close>: what is saved is what was enrolled. \<open>Commands\<close>, \<open>Launch\<close>: arguments are refused
  exactly for the listed reasons and before anything happens, a tunnel that starts is well formed, a
  registration that the server confirms for a new version is saved and not refreshed again,
  and from the command line on the link stays safe. \<open>Cli_Defaults\<close>: the options' defaults, with which
  both tunnels are accepted.

  Tests. \<open>Wire_Tests\<close>, \<open>Masque_Tests\<close>, \<open>Api_Tests\<close>, \<open>Config_Tests\<close>: the unit tests of the repository as
  Booleans over the same definitions, each proved true; where a test uses \<open>serde_json\<close>, Base64 or
  \<open>pem\<close>, for every one that reads back what it writes.

  Bounds. \<open>RX_DGRAM_DRAIN_BURST\<close>, \<open>TX_CHANNEL_DRAIN_BURST\<close> and the 512 attempts of
  \<open>send_packet_datagram\<close> are the code's own and become the numbers the recursions count down. The
  other recursions need no fuel: they have measures (the batch, the gap of the search, the string).

  What modelling showed. The Next-Hop MTU of the Fragmentation Needed reply is always 0
  (\<open>compose_icmp_too_large_v4\<close>); a failed hand-over of the pending packet skips the end of the
  session (\<open>pending_failure_skips_farewell\<close>); the wait for the CONNECT response can outlast its
  deadline (\<open>connect_wait_overruns\<close>); the minutes of a duration wrap (\<open>parse_duration_units\<close>); and two
  comments promise more than the code does.

  Not modelled. The parser that \<open>clap\<close> derives (its argument structures, their defaults and
  \<open>parse_duration\<close> are), \<open>main.rs\<close>, log lines other than those of \<open>Logs\<close>, the text of JSON and XML, the
  unit tests of the command line parser and those that need a real socket, key pair or certificate,
  the timing of the async scheduler beyond the order of the steps, and the crates themselves. A
  release build is assumed: unchecked arithmetic wraps.
\<close>

end
